(* ===== verification/Prelude.thy ===== *)
theory Prelude
  imports Main "HOL-Library.AList" "HOL-Library.Char_ord" "HOL-Library.List_Lexorder"
begin

text \<open>
  Shared vocabulary of the development: the exceptions the Python code raises and the result
  type that carries them, Python dictionaries as insertion-ordered association lists, the
  character classes and regular expressions of the identifiers, and the generic lemmas the
  component theories build on.

  Conventions. A Python \<open>str\<close> is the list of the bytes of its UTF-8 encoding, so that
  \<open>len(s.encode("utf-8"))\<close> is \<open>length s\<close>, \<open>s.encode("utf-8")\<close> is the identity and the
  lexicographic order on lists of characters is Python's order of strings (UTF-8 keeps the
  code-point order). A timestamp is an \<open>int\<close>, the number of microseconds since the epoch in
  UTC. Python's unbounded integers are \<open>int\<close>; counters that are lengths of Python
  collections are \<open>nat\<close>.
\<close>

section \<open>Automation\<close>

text \<open>
  \<open>guard_defs\<close> collects the definitions that are pure guards and validators, so that
  \<open>simp add: guard_defs\<close> unfolds them; \<open>dict_simps\<close> the equations of dictionary
  operations; \<open>frame\<close> the facts that an operation leaves a field alone.
\<close>

named_theorems guard_defs
named_theorems dict_simps
named_theorems frame

section \<open>Exceptions and results\<close>

datatype exn =
    ValueError string
  | TypeError string
  | LookupError string
  | RuntimeError string
  | ServiceBindingError string
  | EffectScopeClosedError string
  | SchemaError string
  | UnsafeJsonSchemaError string
  | SessionCapacityError string
  | SessionIdempotencyConflictError string
  | SessionNotFoundError string
  | SessionPayloadTooLargeError string
  | SessionRevisionConflictError int int
  | MemoryCapabilityError string string "(string \<times> string list) list"
  | ModelProviderError string string "string option" "int option" bool
  | ContextBudgetError string
  | ContextCapacityError string
  | PluginPlanError string string "(string \<times> string list) list"
  | PluginLifecycleError string string "(string \<times> string list) list"

type_synonym 'a result = "exn + 'a"

abbreviation Raise :: "exn \<Rightarrow> 'a result" where
  "Raise e \<equiv> Inl e"

abbreviation Return :: "'a \<Rightarrow> 'a result" where
  "Return x \<equiv> Inr x"

text \<open>Sequencing of computations that may raise.\<close>

definition result_bind :: "'a result \<Rightarrow> ('a \<Rightarrow> 'b result) \<Rightarrow> 'b result" where
  "result_bind m f = (case m of Inl e \<Rightarrow> Inl e | Inr x \<Rightarrow> f x)"

lemma result_bind_simps [simp]:
  "result_bind (Inl e) f = Inl e"
  "result_bind (Inr x) f = f x"
  by (simp_all add: result_bind_def)

lemma result_bind_eq_Inr [simp]:
  "result_bind m f = Inr y \<longleftrightarrow> (\<exists>x. m = Inr x \<and> f x = Inr y)"
  by (cases m) simp_all

lemma result_bind_eq_Inl:
  "result_bind m f = Inl e \<longleftrightarrow> m = Inl e \<or> (\<exists>x. m = Inr x \<and> f x = Inl e)"
  by (cases m) simp_all

lemma result_bind_assoc:
  "result_bind (result_bind m f) g = result_bind m (\<lambda>x. result_bind (f x) g)"
  by (cases m) simp_all

section \<open>Python dictionaries\<close>

text \<open>
  A \<open>dict\<close> keeps the insertion order of its keys: \<open>d[k] = v\<close> on a present key keeps the
  position, on a new key appends; \<open>d.pop(k, None)\<close> removes the entry. Reading is
  \<open>map_of\<close>.
\<close>

type_synonym ('k, 'v) dict = "('k \<times> 'v) list"

abbreviation dict_get :: "('k, 'v) dict \<Rightarrow> 'k \<Rightarrow> 'v option" where
  "dict_get \<equiv> map_of"

abbreviation dict_set :: "'k \<Rightarrow> 'v \<Rightarrow> ('k, 'v) dict \<Rightarrow> ('k, 'v) dict" where
  "dict_set \<equiv> AList.update"

abbreviation dict_pop :: "'k \<Rightarrow> ('k, 'v) dict \<Rightarrow> ('k, 'v) dict" where
  "dict_pop \<equiv> AList.delete"

abbreviation dict_keys :: "('k, 'v) dict \<Rightarrow> 'k list" where
  "dict_keys d \<equiv> map fst d"

abbreviation dict_values :: "('k, 'v) dict \<Rightarrow> 'v list" where
  "dict_values d \<equiv> map snd d"

text \<open>A Python dictionary never holds a key twice.\<close>

definition dict_ok :: "('k, 'v) dict \<Rightarrow> bool" where
  "dict_ok d \<longleftrightarrow> distinct (map fst d)"

lemma dict_get_set [simp, dict_simps]:
  "dict_get (dict_set k v d) = (dict_get d)(k \<mapsto> v)"
  by (rule AList.update_conv')

lemma dict_get_pop [simp, dict_simps]:
  "dict_get (dict_pop k d) = (dict_get d)(k := None)"
  by (rule AList.delete_conv')

lemma dict_ok_Nil [simp]: "dict_ok []"
  by (simp add: dict_ok_def)

lemma dict_ok_set [simp, intro]: "dict_ok d \<Longrightarrow> dict_ok (dict_set k v d)"
  by (simp add: dict_ok_def AList.distinct_update)

lemma dict_ok_pop [simp, intro]: "dict_ok d \<Longrightarrow> dict_ok (dict_pop k d)"
  by (simp add: dict_ok_def AList.distinct_delete)

lemma dict_ok_filter [intro]: "dict_ok d \<Longrightarrow> dict_ok (filter P d)"
  by (induction d) (auto simp: dict_ok_def)

lemma set_dict_set_subset: "set (dict_set k v d) \<subseteq> insert (k, v) (set d)"
  by (induction d) auto

lemma set_dict_set: "dict_ok d \<Longrightarrow> set (dict_set k v d) = insert (k, v) {e \<in> set d. fst e \<noteq> k}"
  by (induction d) (force simp: dict_ok_def)+

lemma set_dict_pop: "set (dict_pop k d) = {e \<in> set d. fst e \<noteq> k}"
  by (auto simp: AList.delete_eq)

lemma set_dict_pop_subset: "set (dict_pop k d) \<subseteq> set d"
  by (auto simp: set_dict_pop)

lemma dict_keys_set [simp]: "set (dict_keys (dict_set k v d)) = insert k (set (dict_keys d))"
  by (induction d) auto

lemma dict_keys_pop [simp]: "set (dict_keys (dict_pop k d)) = set (dict_keys d) - {k}"
  by (auto simp: AList.delete_eq)

lemma length_dict_set:
  "length (dict_set k v d) = (if k \<in> set (dict_keys d) then length d else Suc (length d))"
  by (induction d) auto

lemma length_dict_pop_le: "length (dict_pop k d) \<le> length d"
  by (rule AList.length_delete_le)

lemma dict_get_in_set: "dict_ok d \<Longrightarrow> dict_get d k = Some v \<longleftrightarrow> (k, v) \<in> set d"
  by (simp add: dict_ok_def)

lemma dict_get_rev: "dict_ok d \<Longrightarrow> dict_get (rev d) = dict_get d"
proof
  fix k
  assume ok: "dict_ok d"
  then have rev_ok: "dict_ok (rev d)" by (simp add: dict_ok_def rev_map [symmetric])
  show "dict_get (rev d) k = dict_get d k"
  proof (cases "dict_get d k")
    case None
    then have "dict_get (rev d) k = None" by (simp add: map_of_eq_None_iff)
    with None show ?thesis by simp
  next
    case (Some v)
    then have "dict_get (rev d) k = Some v"
      using dict_get_in_set [OF ok] dict_get_in_set [OF rev_ok] by simp
    with Some show ?thesis by simp
  qed
qed

lemma dict_get_fold_const:
  "dict_get (fold (\<lambda>k. dict_set k v) ks d) k' = (if k' \<in> set ks then Some v else dict_get d k')"
  by (induction ks arbitrary: d) auto

lemma dict_get_None: "dict_get d k = None \<longleftrightarrow> k \<notin> set (dict_keys d)"
  by (simp add: map_of_eq_None_iff)

section \<open>Character classes and identifier expressions\<close>

definition is_digit :: "char \<Rightarrow> bool" where
  [guard_defs]: "is_digit c \<longleftrightarrow> CHR ''0'' \<le> c \<and> c \<le> CHR ''9''"

definition is_lower :: "char \<Rightarrow> bool" where
  [guard_defs]: "is_lower c \<longleftrightarrow> CHR ''a'' \<le> c \<and> c \<le> CHR ''z''"

definition is_upper :: "char \<Rightarrow> bool" where
  [guard_defs]: "is_upper c \<longleftrightarrow> CHR ''A'' \<le> c \<and> c \<le> CHR ''Z''"

definition is_alnum :: "char \<Rightarrow> bool" where
  [guard_defs]: "is_alnum c \<longleftrightarrow> is_digit c \<or> is_lower c \<or> is_upper c"

text \<open>\<open>[A-Za-z0-9][<class>]{0,n}\<close>, matched against the whole string.\<close>

definition head_then :: "(char \<Rightarrow> bool) \<Rightarrow> nat \<Rightarrow> string \<Rightarrow> bool" where
  [guard_defs]: "head_then cls n s \<longleftrightarrow>
     (case s of [] \<Rightarrow> False | c # cs \<Rightarrow> is_alnum c \<and> length cs \<le> n \<and> list_all cls cs)"

text \<open>
  \<open>[a-z][a-z0-9]*(?:[._:/-][a-z0-9]+)*\<close> as an automaton over the rest of the string: the flag
  says whether the last character read was a letter or a digit.
\<close>

fun name_tail :: "bool \<Rightarrow> string \<Rightarrow> bool" where
  "name_tail acc [] = acc"
| "name_tail acc (c # cs) =
     (if is_lower c \<or> is_digit c then name_tail True cs
      else acc \<and> c \<in> set ''._:/-'' \<and> name_tail False cs)"

definition name_pattern :: "string \<Rightarrow> bool" where
  [guard_defs]: "name_pattern s \<longleftrightarrow>
     (case s of [] \<Rightarrow> False | c # cs \<Rightarrow> is_lower c \<and> name_tail True cs)"

text \<open>ASCII white space.\<close>

definition is_space :: "char \<Rightarrow> bool" where
  [guard_defs]: "is_space c \<longleftrightarrow> c = CHR '' '' \<or> (9 \<le> (of_char c :: nat) \<and> (of_char c :: nat) \<le> 13) \<or>
     (28 \<le> (of_char c :: nat) \<and> (of_char c :: nat) \<le> 31)"

text \<open>\<open>len(s)\<close>: the number of code points, that is of bytes that do not continue one.\<close>

definition py_len :: "string \<Rightarrow> nat" where
  "py_len s = length (filter (\<lambda>c. (of_char c :: nat) div 64 \<noteq> 2) s)"

text \<open>The code points of a string, each as the list of its bytes.\<close>

fun py_chars :: "string \<Rightarrow> string list" where
  "py_chars [] = []"
| "py_chars (c # cs) =
     (case py_chars cs of
        [] \<Rightarrow> [[c]]
      | p # ps \<Rightarrow> if (of_char (hd p) :: nat) div 64 = 2 then (c # p) # ps else [c] # p # ps)"

text \<open>A code point that \<open>str.strip\<close> removes, and \<open>s.strip()\<close>.\<close>

definition space_point :: "string \<Rightarrow> bool" where
  "space_point p \<longleftrightarrow> (case p of
      [c] \<Rightarrow> is_space c
    | _ \<Rightarrow> p \<in> {[CHR 0xC2, CHR 0x85], [CHR 0xC2, CHR 0xA0], [CHR 0xE1, CHR 0x9A, CHR 0x80], [CHR 0xE2, CHR 0x80, CHR 0xA8],
           [CHR 0xE2, CHR 0x80, CHR 0xA9], [CHR 0xE2, CHR 0x80, CHR 0xAF], [CHR 0xE2, CHR 0x81, CHR 0x9F],
           [CHR 0xE3, CHR 0x80, CHR 0x80]} \<or>
         (length p = 3 \<and> take 2 p = [CHR 0xE2, CHR 0x80] \<and> (of_char (p ! 2) :: nat) \<le> 0x8A))"

definition py_strip :: "string \<Rightarrow> string" where
  "py_strip s = concat (rev (dropWhile space_point (rev (dropWhile space_point (py_chars s)))))"

text \<open>\<open>bytes.decode("utf-8", errors="ignore")\<close> of a prefix of a valid encoding drops the cut-off tail.\<close>

definition utf8_width :: "char \<Rightarrow> nat" where
  "utf8_width c = (let n = (of_char c :: nat) in if n < 128 then 1 else if n < 224 then 2 else if n < 240 then 3 else 4)"

fun utf8_ignore :: "nat \<Rightarrow> string \<Rightarrow> string" where
  "utf8_ignore 0 s = []"
| "utf8_ignore (Suc n) [] = []"
| "utf8_ignore (Suc n) (c # cs) =
     (if length (c # cs) < utf8_width c then []
      else take (utf8_width c) (c # cs) @ utf8_ignore n (drop (utf8_width c) (c # cs)))"

text \<open>\<open>s.split(c)\<close> for a separator of one character.\<close>

fun py_split :: "char \<Rightarrow> string \<Rightarrow> string list" where
  "py_split sep [] = [[]]"
| "py_split sep (c # cs) =
     (if c = sep then [] # py_split sep cs
      else (case py_split sep cs of [] \<Rightarrow> [[c]] | p # ps \<Rightarrow> (c # p) # ps))"

lemma py_split_nonempty [simp]: "py_split sep s \<noteq> []"
  by (cases s) (auto split: list.splits)

lemma py_split_no_sep: "p \<in> set (py_split sep s) \<Longrightarrow> sep \<notin> set p"
proof (induction s arbitrary: p)
  case Nil
  then show ?case by simp
next
  case (Cons c cs)
  show ?case
  proof (cases "py_split sep cs")
    case Nil
    then show ?thesis by simp
  next
    case (Cons q qs)
    then have "sep \<notin> set q" and "\<forall>r \<in> set qs. sep \<notin> set r"
      using Cons.IH by auto
    then show ?thesis
      using Cons Cons.prems by (auto split: if_splits)
  qed
qed

section \<open>Lists\<close>

lemma sorted_list_of_set_distinct_set [simp]:
  "finite A \<Longrightarrow> set (sorted_list_of_set A) = A \<and> distinct (sorted_list_of_set A)"
  by simp

end
