(* ===== verification/Json_Model.thy ===== *)
theory Json_Model
  imports Prelude
begin

text \<open>
  JSON values as the Python code sees them (\<open>JsonValue\<close>) and the functions over them that the
  execution boundary relies on: \<open>canonical_json\<close> of \<^verbatim>\<open>execution/models.py\<close> (the same function is
  in \<^verbatim>\<open>sessions/models.py\<close>), with what \<open>json.dumps\<close> writes for
  \<open>ensure_ascii=False, sort_keys=True, separators=(",", ":")\<close>; the detached copy
  \<open>json.loads(canonical_json(v))\<close>; \<open>_contains_run_credentials\<close> of \<^verbatim>\<open>execution/runner.py\<close>; and
  \<open>_reject_remote_references\<close> of \<^verbatim>\<open>execution/in_memory.py\<close>. A finite float is identified by its
  \<open>repr\<close>.
\<close>

datatype pyfloat = Finite string | NonFinite

datatype json =
    JNull
  | JBool bool
  | JInt int
  | JFloat pyfloat
  | JStr string
  | JList "json list"
  | JObj "(string \<times> json) list"

section \<open>Canonical serialisation\<close>

fun has_non_finite :: "json \<Rightarrow> bool" where
  "has_non_finite (JFloat f) = (f = NonFinite)"
| "has_non_finite (JObj kvs) = list_ex (\<lambda>kv. has_non_finite (snd kv)) kvs"
| "has_non_finite (JList xs) = list_ex has_non_finite xs"
| "has_non_finite _ = False"

fun show_nat :: "nat \<Rightarrow> string" where
  "show_nat n = (if n < 10 then [char_of (48 + n)] else show_nat (n div 10) @ [char_of (48 + n mod 10)])"

declare show_nat.simps [simp del]

definition show_int :: "int \<Rightarrow> string" where
  "show_int i = (if i < 0 then CHR ''-'' # show_nat (nat (- i)) else show_nat (nat i))"

definition hex_digit :: "nat \<Rightarrow> char" where
  "hex_digit n = (if n < 10 then char_of (48 + n) else char_of (87 + n))"

definition escape_char :: "char \<Rightarrow> string" where
  "escape_char c =
     (if c = CHR 0x22 then [CHR 0x5C, CHR 0x22]
      else if c = CHR 0x5C then [CHR 0x5C, CHR 0x5C]
      else if c = CHR 0x0A then [CHR 0x5C, CHR ''n'']
      else if c = CHR 0x0D then [CHR 0x5C, CHR ''r'']
      else if c = CHR 0x09 then [CHR 0x5C, CHR ''t'']
      else if c = CHR 0x0C then [CHR 0x5C, CHR ''f'']
      else if c = CHR 0x08 then [CHR 0x5C, CHR ''b'']
      else if (of_char c :: nat) < 32
      then [CHR 0x5C, CHR ''u'', CHR ''0'', CHR ''0'', hex_digit (of_char c div 16), hex_digit (of_char c mod 16)]
      else [c])"

definition quote :: "string \<Rightarrow> string" where
  "quote s = CHR 0x22 # concat (map escape_char s) @ [CHR 0x22]"

fun commas :: "string list \<Rightarrow> string" where
  "commas [] = []"
| "commas [x] = x"
| "commas (x # y # ys) = x @ CHR '','' # commas (y # ys)"

fun dumps :: "json \<Rightarrow> string" where
  "dumps JNull = ''null''"
| "dumps (JBool b) = (if b then ''true'' else ''false'')"
| "dumps (JInt i) = show_int i"
| "dumps (JFloat f) = (case f of Finite r \<Rightarrow> r | NonFinite \<Rightarrow> ''NaN'')"
| "dumps (JStr s) = quote s"
| "dumps (JList xs) = CHR ''['' # commas (map dumps xs) @ [CHR '']'']"
| "dumps (JObj kvs) =
     CHR ''{'' #
     commas (map (\<lambda>(k, v). quote k @ CHR '':'' # v)
               (sort_key fst (map (\<lambda>kv. (fst kv, dumps (snd kv))) kvs))) @ [CHR ''}'']"

definition canonical_json :: "json \<Rightarrow> string result" where
  "canonical_json v =
     (if has_non_finite v then Raise (ValueError ''JSON values must not contain NaN or infinity'')
      else Return (dumps v))"

text \<open>
  \<open>json.loads(canonical_json(v))\<close>: a detached copy with the keys of every object in the order
  the serialisation wrote them. That decoding the canonical form gives this is the theorem \<open>canonical_json_roundtrip\<close> of
  \<open>Json_Decode\<close>.
\<close>

fun detach :: "json \<Rightarrow> json" where
  "detach (JList xs) = JList (map detach xs)"
| "detach (JObj kvs) = JObj (sort_key fst (map (\<lambda>kv. (fst kv, detach (snd kv))) kvs))"
| "detach v = v"

text \<open>Every object of the value has distinct keys, as Python dictionaries have.\<close>

fun json_ok :: "json \<Rightarrow> bool" where
  "json_ok (JList xs) = list_all json_ok xs"
| "json_ok (JObj kvs) = (distinct (map fst kvs) \<and> list_all (\<lambda>kv. json_ok (snd kv)) kvs)"
| "json_ok _ = True"

section \<open>Credentials and remote references\<close>

definition run_credential_keys :: "string set" where
  "run_credential_keys =
     {''result_id'', ''result_reference'', ''approval_token'', ''approval_binding'',
      ''approval_credential''}"

fun contains_run_credentials :: "json \<Rightarrow> bool" where
  "contains_run_credentials (JObj kvs) =
     (list_ex (\<lambda>kv. fst kv \<in> run_credential_keys) kvs \<or>
      list_ex (\<lambda>kv. contains_run_credentials (snd kv)) kvs)"
| "contains_run_credentials (JList xs) = list_ex contains_run_credentials xs"
| "contains_run_credentials _ = False"

text \<open>\<open>_reject_remote_references\<close>: true when the walk completes without raising.\<close>

definition local_reference :: "string \<Rightarrow> json \<Rightarrow> bool" where
  "local_reference key v \<longleftrightarrow>
     (key = ''$ref'' \<or> key = ''$dynamicRef'') \<longrightarrow>
     (case v of JStr s \<Rightarrow> (case s of [] \<Rightarrow> False | c # _ \<Rightarrow> c = CHR ''#'') | _ \<Rightarrow> True)"

fun no_remote_references :: "json \<Rightarrow> bool" where
  "no_remote_references (JObj kvs) =
     list_all (\<lambda>kv. local_reference (fst kv) (snd kv) \<and> no_remote_references (snd kv)) kvs"
| "no_remote_references (JList xs) = list_all no_remote_references xs"
| "no_remote_references _ = True"

definition reject_remote_references :: "json \<Rightarrow> unit result" where
  "reject_remote_references v =
     (if no_remote_references v then Return ()
      else Raise (SchemaError ''remote JSON Schema references are not supported''))"

text \<open>A dictionary access \<open>d.get(key)\<close> on a JSON object.\<close>

definition json_get :: "json \<Rightarrow> string \<Rightarrow> json option" where
  "json_get v key = (case v of JObj kvs \<Rightarrow> dict_get kvs key | _ \<Rightarrow> None)"

section \<open>Key order does not matter\<close>

text \<open>\<open>v\<close> occurs in \<open>u\<close>, at any depth, under the object key \<open>k\<close>.\<close>

inductive occurs_under :: "string \<Rightarrow> json \<Rightarrow> json \<Rightarrow> bool" where
  occurs_here: "(k, v) \<in> set kvs \<Longrightarrow> occurs_under k v (JObj kvs)"
| occurs_value: "(k', u) \<in> set kvs \<Longrightarrow> occurs_under k v u \<Longrightarrow> occurs_under k v (JObj kvs)"
| occurs_item: "u \<in> set us \<Longrightarrow> occurs_under k v u \<Longrightarrow> occurs_under k v (JList us)"

inductive_cases occurs_under_ObjE: "occurs_under k v (JObj kvs)"
inductive_cases occurs_under_ListE: "occurs_under k v (JList us)"
inductive_simps occurs_under_simps [simp]:
  "occurs_under k v (JObj kvs)" "occurs_under k v (JList us)"
  "occurs_under k v JNull" "occurs_under k v (JBool b)" "occurs_under k v (JInt i)"
  "occurs_under k v (JFloat f)" "occurs_under k v (JStr s)"

lemma contains_run_credentials_iff:
  "contains_run_credentials u \<longleftrightarrow> (\<exists>k v. k \<in> run_credential_keys \<and> occurs_under k v u)"
proof (induction u rule: contains_run_credentials.induct)
  case (1 kvs)
  then show ?case by (fastforce simp: list_ex_iff)
next
  case (2 xs)
  then show ?case by (fastforce simp: list_ex_iff)
qed simp_all

lemma no_remote_references_iff:
  "no_remote_references u \<longleftrightarrow> (\<forall>k v. occurs_under k v u \<longrightarrow> local_reference k v)"
proof (induction u rule: no_remote_references.induct)
  case (1 kvs)
  then show ?case by (fastforce simp: list_all_iff)
next
  case (2 xs)
  then show ?case by (fastforce simp: list_all_iff)
qed simp_all

lemma sort_key_map_snd:
  "sort_key fst (map (\<lambda>kv. (fst kv, f (snd kv))) kvs) =
   map (\<lambda>kv. (fst kv, f (snd kv))) (sort_key fst kvs)" for kvs :: "(string \<times> 'a) list"
proof (induction kvs)
  case (Cons kv kvs)
  have "insort_key fst (fst kv, f (snd kv)) (map (\<lambda>kv. (fst kv, f (snd kv))) ys) =
        map (\<lambda>kv. (fst kv, f (snd kv))) (insort_key fst kv ys)" for ys
    by (induction ys) simp_all
  with Cons show ?case by simp
qed simp

lemma sort_key_sort_key:
  "sort_key fst (sort_key fst kvs) = sort_key fst kvs" for kvs :: "(string \<times> 'a) list"
  by (simp add: sorted_sort_id sort_key_id_if_sorted)

lemma sort_map_compose:
  "sort_key fst (map (\<lambda>kv. (fst kv, g (snd kv))) (sort_key fst (map (\<lambda>kv. (fst kv, f (snd kv))) kvs))) =
   sort_key fst (map (\<lambda>kv. (fst kv, g (f (snd kv)))) kvs)" for kvs :: "(string \<times> 'a) list"
proof -
  have "sort_key fst (map (\<lambda>kv. (fst kv, g (snd kv))) (map (\<lambda>kv. (fst kv, f (snd kv))) (sort_key fst kvs))) =
        sort_key fst (map (\<lambda>kv. (fst kv, g (f (snd kv)))) (sort_key fst kvs))"
    by (simp add: o_def)
  also have "\<dots> = map (\<lambda>kv. (fst kv, g (f (snd kv)))) (sort_key fst (sort_key fst kvs))"
    by (rule sort_key_map_snd [of "\<lambda>v. g (f v)"])
  also have "\<dots> = sort_key fst (map (\<lambda>kv. (fst kv, g (f (snd kv)))) kvs)"
    by (simp only: sort_key_sort_key sort_key_map_snd [of "\<lambda>v. g (f v)", symmetric])
  finally show ?thesis by (simp only: sort_key_map_snd [of f])
qed

lemma dumps_detach: "dumps (detach v) = dumps v"
proof (induction v rule: detach.induct)
  case (1 xs)
  then show ?case by (simp cong: map_cong)
next
  case (2 kvs)
  have "map (\<lambda>kv. (fst kv, dumps (detach (snd kv)))) kvs = map (\<lambda>kv. (fst kv, dumps (snd kv))) kvs"
    using 2 by auto
  then show ?case
    by (simp only: detach.simps dumps.simps sort_map_compose)
qed simp_all

lemma has_non_finite_detach: "has_non_finite (detach v) = has_non_finite v"
proof (induction v rule: detach.induct)
  case (1 xs)
  then show ?case by (auto simp: list_ex_iff)
next
  case (2 kvs)
  then show ?case by (auto simp: list_ex_iff)
qed simp_all

lemma canonical_json_detach: "canonical_json (detach v) = canonical_json v"
  by (simp add: canonical_json_def dumps_detach has_non_finite_detach)

lemma detach_detach [simp]: "detach (detach v) = detach v"
proof (induction v rule: detach.induct)
  case (2 kvs)
  have "map (\<lambda>kv. (fst kv, detach (detach (snd kv)))) kvs = map (\<lambda>kv. (fst kv, detach (snd kv))) kvs"
    using 2 by auto
  then show ?case
    by (simp only: detach.simps sort_map_compose)
qed simp_all

lemma contains_run_credentials_detach:
  "contains_run_credentials (detach v) = contains_run_credentials v"
proof (induction v rule: detach.induct)
  case (1 xs)
  then show ?case by (auto simp: list_ex_iff)
next
  case (2 kvs)
  then show ?case by (auto simp: list_ex_iff)
qed simp_all

section \<open>Properties\<close>

text \<open>
  The credential scan is exact: it reports a value if and only if some object in it, at any
  depth, has one of the credential keys.
\<close>

theorem credential_scan_exact:
  "contains_run_credentials u \<longleftrightarrow> (\<exists>k v. k \<in> run_credential_keys \<and> occurs_under k v u)"
  by (rule contains_run_credentials_iff)

text \<open>
  A tool schema passes the check for remote references if and only if every textual \<open>$ref\<close> and
  \<open>$dynamicRef\<close> in it, at any depth, starts with \<open>#\<close>.
\<close>

theorem remote_reference_check_exact:
  "reject_remote_references u = Inr () \<longleftrightarrow> (\<forall>k v. occurs_under k v u \<longrightarrow> local_reference k v)"
  by (auto simp: reject_remote_references_def no_remote_references_iff)

theorem remote_reference_check_exact_witness:
  "reject_remote_references (JObj [(''$ref'', JStr ''#/x'')]) = Inr ()"
  using remote_reference_check_exact [of "JObj [(''$ref'', JStr ''#/x'')]"]
  by (auto simp: local_reference_def)

end
