(* ===== verification/Json_Decode.thy ===== *)
theory Json_Decode
  imports Json_Model
begin

text \<open>
  The decoder \<open>json.loads\<close> of the standard library, as the code calls it on what \<open>canonical_json\<close> wrote, and that the two are
  inverse: decoding the canonical form of a value gives \<open>detach\<close>, the value with the keys of its objects sorted.
  Text is UTF-8, so bytes above 127 are copied. Reading the text of a float is a parameter. The nesting depth and the number of digits of an
  integer, which CPython bounds, are not bounded.
\<close>

section \<open>Numbers\<close>

text \<open>The parts of \<open>(-?(?:0|[1-9]\d*))(\.\d+)?([eE][-+]?\d+)?\<close>: what they match, and the rest.\<close>

definition lex_digits :: "string \<Rightarrow> string \<times> string" where
  "lex_digits s = (takeWhile is_digit s, dropWhile is_digit s)"

definition lex_sign :: "char set \<Rightarrow> string \<Rightarrow> string \<times> string" where
  "lex_sign signs s = (case s of [] \<Rightarrow> ([], []) | c # cs \<Rightarrow> if c \<in> signs then ([c], cs) else ([], s))"

definition lex_int :: "string \<Rightarrow> (string \<times> string) option" where
  "lex_int s =
     (case lex_sign {CHR ''-''} s of (sg, t) \<Rightarrow>
        (case t of
           [] \<Rightarrow> None
         | c # cs \<Rightarrow>
             if c = CHR ''0'' then Some (sg @ [c], cs)
             else if is_digit c then (case lex_digits t of (ds, u) \<Rightarrow> Some (sg @ ds, u))
             else None))"

definition lex_frac :: "string \<Rightarrow> string \<times> string" where
  "lex_frac s =
     (case lex_sign {CHR ''.''} s of (point, t) \<Rightarrow>
        (case lex_digits t of (ds, u) \<Rightarrow> if point = [] \<or> ds = [] then ([], s) else (point @ ds, u)))"

definition lex_exp :: "string \<Rightarrow> string \<times> string" where
  "lex_exp s =
     (case lex_sign {CHR ''e'', CHR ''E''} s of (ex, t) \<Rightarrow>
        (case lex_sign {CHR ''+'', CHR ''-''} t of (sg, u) \<Rightarrow>
           (case lex_digits u of (ds, w) \<Rightarrow> if ex = [] \<or> ds = [] then ([], s) else (ex @ sg @ ds, w))))"

definition read_nat :: "string \<Rightarrow> nat" where
  "read_nat ds = foldl (\<lambda>n c. 10 * n + (of_char c - 48)) 0 ds"

definition read_int :: "string \<Rightarrow> int" where
  "read_int s = (case lex_sign {CHR ''-''} s of (sg, ds) \<Rightarrow> if sg = [] then int (read_nat ds) else - int (read_nat ds))"

definition parse_number :: "(string \<Rightarrow> pyfloat) \<Rightarrow> string \<Rightarrow> (json \<times> string) option" where
  "parse_number float s =
     (case lex_int s of
        None \<Rightarrow> None
      | Some (i, t) \<Rightarrow>
          (case lex_frac t of (f, u) \<Rightarrow> (case lex_exp u of (e, w) \<Rightarrow>
             if f = [] \<and> e = [] then Some (JInt (read_int i), w) else Some (JFloat (float (i @ f @ e)), w))))"

section \<open>Strings\<close>

definition hex_value :: "char \<Rightarrow> nat option" where
  "hex_value c =
     (let n = of_char c in
      if is_digit c then Some (n - 48)
      else if CHR ''a'' \<le> c \<and> c \<le> CHR ''f'' then Some (n - 87)
      else if CHR ''A'' \<le> c \<and> c \<le> CHR ''F'' then Some (n - 55)
      else None)"

fun hex4 :: "string \<Rightarrow> (nat \<times> string) option" where
  "hex4 (a # b # c # d # s) =
     (case (hex_value a, hex_value b, hex_value c, hex_value d) of
        (Some a, Some b, Some c, Some d) \<Rightarrow> Some (((a * 16 + b) * 16 + c) * 16 + d, s)
      | _ \<Rightarrow> None)"
| "hex4 _ = None"

text \<open>A second \<open>\u\<close> escape that completes a surrogate pair is read with the first.\<close>

definition code_point :: "string \<Rightarrow> (nat \<times> string) option" where
  "code_point s =
     (case hex4 s of
        None \<Rightarrow> None
      | Some (n, t) \<Rightarrow>
          if 0xD800 \<le> n \<and> n \<le> 0xDBFF \<and> take 2 t = [CHR 0x5C, CHR ''u'']
          then (case hex4 (drop 2 t) of
                  None \<Rightarrow> None
                | Some (m, u) \<Rightarrow>
                    if 0xDC00 \<le> m \<and> m \<le> 0xDFFF then Some (0x10000 + (n - 0xD800) * 1024 + (m - 0xDC00), u)
                    else Some (n, t))
          else Some (n, t))"

definition utf8_encode :: "nat \<Rightarrow> string" where
  "utf8_encode n =
     map char_of
       (if n < 0x80 then [n]
        else if n < 0x800 then [0xC0 + n div 64, 0x80 + n mod 64]
        else if n < 0x10000 then [0xE0 + n div 4096, 0x80 + n div 64 mod 64, 0x80 + n mod 64]
        else [0xF0 + n div 262144, 0x80 + n div 4096 mod 64, 0x80 + n div 64 mod 64, 0x80 + n mod 64])"

definition backslash_of :: "char \<Rightarrow> char option" where
  "backslash_of c =
     (if c \<in> {CHR 0x22, CHR 0x5C, CHR ''/''} then Some c
      else if c = CHR ''b'' then Some (CHR 0x08) else if c = CHR ''f'' then Some (CHR 0x0C)
      else if c = CHR ''n'' then Some (CHR 0x0A) else if c = CHR ''r'' then Some (CHR 0x0D)
      else if c = CHR ''t'' then Some (CHR 0x09) else None)"

lemma hex4_shorter: "hex4 s = Some (n, t) \<Longrightarrow> length t < length s"
  by (induction s rule: hex4.induct) (auto split: option.splits)

lemma code_point_shorter: "code_point s = Some (n, t) \<Longrightarrow> length t < length s"
  by (auto simp: code_point_def split: option.splits if_splits dest!: hex4_shorter)

text \<open>\<open>scanstring\<close> after the opening quote: the decoded string and what follows the closing quote.\<close>

function scan_string :: "string \<Rightarrow> (string \<times> string) option" where
  "scan_string [] = None"
| "scan_string (c # s) =
     (if c = CHR 0x22 then Some ([], s)
      else if c = CHR 0x5C then
        (case s of
           [] \<Rightarrow> None
         | e # t \<Rightarrow>
             if e = CHR ''u'' then
               (case code_point t of
                  None \<Rightarrow> None
                | Some (n, u) \<Rightarrow> map_option (\<lambda>(x, r). (utf8_encode n @ x, r)) (scan_string u))
             else (case backslash_of e of
                     None \<Rightarrow> None
                   | Some d \<Rightarrow> map_option (\<lambda>(x, r). (d # x, r)) (scan_string t)))
      else if (of_char c :: nat) < 32 then None
      else map_option (\<lambda>(x, r). (c # x, r)) (scan_string s))"
  by pat_completeness auto
termination
  by (relation "measure length") (auto dest!: code_point_shorter)

section \<open>Values\<close>

definition skip_ws :: "string \<Rightarrow> string" where
  "skip_ws s = dropWhile (\<lambda>c. c \<in> {CHR '' '', CHR 0x09, CHR 0x0A, CHR 0x0D}) s"

definition dict_of :: "(string \<times> json) list \<Rightarrow> (string, json) dict" where
  "dict_of kvs = fold (\<lambda>(k, v) d. dict_set k v d) kvs []"

definition literals :: "(string \<times> json) list" where
  "literals = [(''null'', JNull), (''true'', JBool True), (''false'', JBool False), (''NaN'', JFloat NonFinite),
     (''Infinity'', JFloat NonFinite), (''-Infinity'', JFloat NonFinite)]"

fun parse_literal :: "(string \<times> json) list \<Rightarrow> string \<Rightarrow> (json \<times> string) option" where
  "parse_literal [] s = None"
| "parse_literal ((word, v) # ws) s =
     (if take (length word) s = word then Some (v, drop (length word) s) else parse_literal ws s)"

text \<open>Every call has one unit of fuel less; a text needs at most twice its length.\<close>

fun parse_value :: "(string \<Rightarrow> pyfloat) \<Rightarrow> nat \<Rightarrow> string \<Rightarrow> (json \<times> string) option"
  and parse_items :: "(string \<Rightarrow> pyfloat) \<Rightarrow> nat \<Rightarrow> string \<Rightarrow> (json list \<times> string) option"
  and parse_members :: "(string \<Rightarrow> pyfloat) \<Rightarrow> nat \<Rightarrow> string \<Rightarrow> ((string \<times> json) list \<times> string) option" where
  "parse_value float 0 s = None"
| "parse_value float (Suc n) s =
     (if take 1 s = [CHR 0x22] then map_option (\<lambda>(x, r). (JStr x, r)) (scan_string (drop 1 s))
      else if take 1 s = ''{'' then
        (let t = skip_ws (drop 1 s) in
         if take 1 t = ''}'' then Some (JObj [], drop 1 t)
         else map_option (\<lambda>(kvs, r). (JObj (dict_of kvs), r)) (parse_members float n t))
      else if take 1 s = ''['' then
        (let t = skip_ws (drop 1 s) in
         if take 1 t = '']'' then Some (JList [], drop 1 t)
         else map_option (\<lambda>(xs, r). (JList xs, r)) (parse_items float n t))
      else case parse_literal literals s of Some found \<Rightarrow> Some found | None \<Rightarrow> parse_number float s)"
| "parse_items float 0 s = None"
| "parse_items float (Suc n) s =
     (case parse_value float n s of
        None \<Rightarrow> None
      | Some (v, r) \<Rightarrow>
          (let t = skip_ws r in
           if take 1 t = '']'' then Some ([v], drop 1 t)
           else if take 1 t = '','' then map_option (\<lambda>(xs, r). (v # xs, r)) (parse_items float n (skip_ws (drop 1 t)))
           else None))"
| "parse_members float 0 s = None"
| "parse_members float (Suc n) s =
     (if take 1 s \<noteq> [CHR 0x22] then None
      else case scan_string (drop 1 s) of
        None \<Rightarrow> None
      | Some (k, r) \<Rightarrow>
          (let t = skip_ws r in
           if take 1 t \<noteq> '':'' then None
           else case parse_value float n (skip_ws (drop 1 t)) of
             None \<Rightarrow> None
           | Some (v, r') \<Rightarrow>
               (let u = skip_ws r' in
                if take 1 u = ''}'' then Some ([(k, v)], drop 1 u)
                else if take 1 u = '','' then
                  map_option (\<lambda>(kvs, r). ((k, v) # kvs, r)) (parse_members float n (skip_ws (drop 1 u)))
                else None)))"

definition json_loads :: "(string \<Rightarrow> pyfloat) \<Rightarrow> string \<Rightarrow> json result" where
  "json_loads float s =
     (case parse_value float (2 * length s) (skip_ws s) of
        Some (v, r) \<Rightarrow> if skip_ws r = [] then Return v else Raise (ValueError ''Extra data'')
      | None \<Rightarrow> Raise (ValueError ''Expecting value''))"

section \<open>Reading what was written\<close>

text \<open>What may follow a value in a text that \<open>dumps\<close> wrote.\<close>

definition stops :: "string \<Rightarrow> bool" where
  "stops r \<longleftrightarrow> r = [] \<or> List.hd r \<in> {CHR '','', CHR '']'', CHR ''}''}"

lemma stops_simps [simp]: "stops []" "stops (c # r) \<longleftrightarrow> c \<in> {CHR '','', CHR '']'', CHR ''}''}"
  by (simp_all add: stops_def)

lemma stops_not_digit: "stops (c # r) \<Longrightarrow> \<not> is_digit c"
  by (auto simp: is_digit_def)

lemma lex_digits_append:
  assumes "stops r"
  shows "lex_digits (s @ r) = (case lex_digits s of (ds, t) \<Rightarrow> (ds, t @ r))"
proof -
  have "takeWhile is_digit r = []" "dropWhile is_digit r = r" using assms stops_not_digit by (cases r; auto)+
  then show ?thesis
    by (induction s) (auto simp: lex_digits_def)
qed

lemma lex_sign_append:
  assumes "stops r" and "signs \<inter> {CHR '','', CHR '']'', CHR ''}''} = {}"
  shows "lex_sign signs (s @ r) = (case lex_sign signs s of (sg, t) \<Rightarrow> (sg, t @ r))"
  using assms by (cases s; cases r) (auto simp: lex_sign_def)

lemma lex_int_append:
  assumes "stops r" and "lex_int s = Some (i, t)"
  shows "lex_int (s @ r) = Some (i, t @ r)"
  using assms lex_digits_append [OF assms(1)] lex_sign_append [OF assms(1), of "{CHR ''-''}" s]
  by (auto simp: lex_int_def split: prod.splits list.splits if_splits)

lemma lex_frac_append: "stops r \<Longrightarrow> lex_frac (s @ r) = (case lex_frac s of (f, t) \<Rightarrow> (f, t @ r))"
  using lex_digits_append [of r] lex_sign_append [of r "{CHR ''.''}" s]
  by (auto simp: lex_frac_def split: prod.splits)

lemma lex_exp_append: "stops r \<Longrightarrow> lex_exp (s @ r) = (case lex_exp s of (e, t) \<Rightarrow> (e, t @ r))"
  using lex_digits_append [of r] lex_sign_append [of r "{CHR ''e'', CHR ''E''}" s]
    lex_sign_append [of r "{CHR ''+'', CHR ''-''}"]
  by (auto simp: lex_exp_def split: prod.splits)

lemma parse_number_append:
  assumes "stops r" and "parse_number float s = Some (v, t)"
  shows "parse_number float (s @ r) = Some (v, t @ r)"
  using assms lex_int_append [OF assms(1)] lex_frac_append [OF assms(1)] lex_exp_append [OF assms(1)]
  by (auto simp: parse_number_def split: option.splits prod.splits if_splits)

text \<open>Integers.\<close>

lemma digit_char: "n < 10 \<Longrightarrow> is_digit (char_of (48 + n)) \<and> of_char (char_of (48 + n) :: char) = 48 + n" for n :: nat
  by (simp add: is_digit_def less_eq_char_def)

lemma show_nat_digits: "list_all is_digit (show_nat n) \<and> show_nat n \<noteq> []"
proof (induction n rule: show_nat.induct)
  case (1 n)
  then show ?case by (cases "n < 10") (auto simp: show_nat.simps [of n] digit_char)
qed

lemma show_nat_read: "read_nat (show_nat n) = n"
proof (induction n rule: show_nat.induct)
  case (1 n)
  show ?case
  proof (cases "n < 10")
    case True
    then show ?thesis using digit_char [of n] by (simp add: show_nat.simps [of n] read_nat_def)
  next
    case False
    with 1 digit_char [of "n mod 10"] show ?thesis by (simp add: show_nat.simps [of n] read_nat_def)
  qed
qed

lemma show_nat_head: "n \<noteq> 0 \<Longrightarrow> List.hd (show_nat n) \<noteq> CHR ''0''"
proof (induction n rule: show_nat.induct)
  case (1 n)
  show ?case
  proof (cases "n < 10")
    case True
    have "char_of (48 + n) \<noteq> CHR ''0''"
    proof
      assume "char_of (48 + n) = CHR ''0''"
      then have "of_char (char_of (48 + n) :: char) = (of_char (CHR ''0'') :: nat)" by (rule arg_cong)
      with digit_char [OF True] 1(2) show False by simp
    qed
    then show ?thesis using True by (simp add: show_nat.simps [of n])
  next
    case False
    then have "n div 10 \<noteq> 0" by simp
    with 1 False show_nat_digits [of "n div 10"] show ?thesis by (simp add: show_nat.simps [of n])
  qed
qed

lemma not_digit_minus: "\<not> is_digit (CHR ''-'')" "\<not> is_digit (CHR ''.'')" "\<not> is_digit (CHR ''e'')" "\<not> is_digit (CHR ''E'')"
  by (simp_all add: is_digit_def less_eq_char_def)

lemma lex_int_digits:
  assumes "list_all is_digit ds" and "ds \<noteq> []" and "List.hd ds = CHR ''0'' \<Longrightarrow> ds = ''0''"
  shows "lex_int ds = Some (ds, [])" and "lex_int (CHR ''-'' # ds) = Some (CHR ''-'' # ds, [])"
    and "lex_sign {CHR ''-''} ds = ([], ds)"
proof -
  obtain c cs where ds: "ds = c # cs" using assms(2) by (cases ds) auto
  with assms(1) have "c \<noteq> CHR ''-''" using not_digit_minus by auto
  then show sg: "lex_sign {CHR ''-''} ds = ([], ds)" by (simp add: lex_sign_def ds)
  have "lex_digits ds = (ds, [])" using assms(1) by (simp add: lex_digits_def list_all_iff)
  with assms ds sg show "lex_int ds = Some (ds, [])" "lex_int (CHR ''-'' # ds) = Some (CHR ''-'' # ds, [])"
    by (auto simp: lex_int_def lex_sign_def [of _ "CHR ''-'' # _"])
qed

lemma show_nat_zero: "List.hd (show_nat n) = CHR ''0'' \<Longrightarrow> show_nat n = ''0''"
  using show_nat_head [of n] by (cases "n = 0") (auto simp: show_nat.simps [of 0])

lemma parse_show_int: "parse_number float (show_int i) = Some (JInt i, [])"
proof -
  have digits: "list_all is_digit (show_nat n)" "show_nat n \<noteq> []" for n using show_nat_digits [of n] by auto
  note lexed = lex_int_digits [OF digits show_nat_zero]
  have "lex_frac [] = ([], [])" "lex_exp [] = ([], [])" by (simp_all add: lex_frac_def lex_exp_def lex_sign_def lex_digits_def)
  then show ?thesis
    by (auto simp: parse_number_def show_int_def lexed read_int_def show_nat_read lex_sign_def [of _ "CHR ''-'' # _"])
qed

text \<open>Floats: the text is a JSON number with a fraction or an exponent, and reading it gives the float back.\<close>

definition float_text :: "string \<Rightarrow> bool" where
  "float_text s = (case parse_number (\<lambda>_. NonFinite) s of Some (v, t) \<Rightarrow> v = JFloat NonFinite \<and> t = [] | None \<Rightarrow> False)"

lemma lex_int_matched: "lex_int s = Some (i, t) \<Longrightarrow> s = i @ t"
  by (auto simp: lex_int_def lex_sign_def lex_digits_def split: list.splits if_splits)

lemma lex_frac_matched: "lex_frac s = (f, t) \<Longrightarrow> s = f @ t"
  by (auto simp: lex_frac_def lex_sign_def lex_digits_def split: list.splits if_splits)

lemma lex_exp_matched: "lex_exp s = (e, t) \<Longrightarrow> s = e @ t"
  by (auto simp: lex_exp_def lex_sign_def lex_digits_def split: list.splits if_splits)

lemma parse_float_text:
  assumes "float_text s"
  shows "parse_number float s = Some (JFloat (float s), [])"
proof -
  obtain i t f u e where lexed: "lex_int s = Some (i, t)" "lex_frac t = (f, u)" "lex_exp u = (e, [])" "\<not> (f = [] \<and> e = [])"
    using assms by (auto simp: float_text_def parse_number_def split: option.splits prod.splits if_splits)
  have "s = i @ f @ e" using lex_int_matched [OF lexed(1)] lex_frac_matched [OF lexed(2)] lex_exp_matched [OF lexed(3)] by simp
  with lexed show ?thesis by (simp add: parse_number_def)
qed

text \<open>A number begins with a digit, or a minus and a digit; no literal and no other value does.\<close>

definition number_head :: "string \<Rightarrow> bool" where
  "number_head s = (case s of [] \<Rightarrow> False | c # cs \<Rightarrow> is_digit c \<or> c = CHR ''-'' \<and> cs \<noteq> [] \<and> is_digit (List.hd cs))"

lemma parse_number_head: "parse_number float s = Some (v, t) \<Longrightarrow> number_head s"
  by (cases s; cases "tl s")
     (auto simp: number_head_def parse_number_def lex_int_def lex_sign_def is_digit_def
        split: option.splits if_splits list.splits prod.splits)

lemma number_head_append: "number_head s \<Longrightarrow> number_head (s @ r)"
  by (auto simp: number_head_def split: list.splits)

lemma digit_not:
  "is_digit c \<Longrightarrow> c \<notin> {CHR 0x22, CHR ''{'', CHR ''['', CHR '' '', CHR 0x09, CHR 0x0A, CHR 0x0D, CHR '']'', CHR ''}'',
     CHR ''n'', CHR ''t'', CHR ''f'', CHR ''N'', CHR ''I'', CHR ''-''}"
  by (auto simp: is_digit_def)

lemma number_head_plain:
  assumes "number_head s"
  shows "parse_literal literals s = None" and "\<exists>c cs. s = c # cs \<and>
    c \<notin> {CHR 0x22, CHR ''{'', CHR ''['', CHR '' '', CHR 0x09, CHR 0x0A, CHR 0x0D, CHR '']'', CHR ''}''}"
proof -
  obtain c cs where s: "s = c # cs" "is_digit c \<or> c = CHR ''-'' \<and> cs \<noteq> [] \<and> is_digit (List.hd cs)"
    using assms by (auto simp: number_head_def split: list.splits)
  then show "\<exists>c cs. s = c # cs \<and>
    c \<notin> {CHR 0x22, CHR ''{'', CHR ''['', CHR '' '', CHR 0x09, CHR 0x0A, CHR 0x0D, CHR '']'', CHR ''}''}"
    using digit_not [of c] by auto
  from s(2) show "parse_literal literals s = None"
  proof
    assume "is_digit c"
    then show ?thesis using digit_not [of c] by (simp add: literals_def s(1))
  next
    assume minus: "c = CHR ''-'' \<and> cs \<noteq> [] \<and> is_digit (List.hd cs)"
    then obtain d ds where "cs = d # ds" "is_digit d" by (cases cs) auto
    then show ?thesis using digit_not [of d] minus by (simp add: literals_def s(1))
  qed
qed

lemma parse_value_number:
  assumes "parse_number float s = Some (v, t)" and "stops r"
  shows "parse_value float (Suc n) (s @ r) = Some (v, t @ r)"
proof -
  note plain = number_head_plain [OF number_head_append [OF parse_number_head [OF assms(1)], of r]]
  then obtain c cs where "s @ r = c # cs" "c \<notin> {CHR 0x22, CHR ''{'', CHR ''[''}" by auto
  with plain(1) parse_number_append [OF assms(2,1)] show ?thesis by simp
qed

text \<open>Strings.\<close>

lemma hex_digit_value: "n < 16 \<Longrightarrow> hex_value (hex_digit n) = Some n"
  by (cases "n < 10") (auto simp: hex_digit_def hex_value_def is_digit_def less_eq_char_def)

lemma scan_escape:
  "scan_string (escape_char c @ s) = map_option (\<lambda>(x, r). (c # x, r)) (scan_string s)"
proof (cases "c \<in> {CHR 0x22, CHR 0x5C, CHR 0x0A, CHR 0x0D, CHR 0x09, CHR 0x0C, CHR 0x08}")
  case True
  then show ?thesis by (auto simp: escape_char_def backslash_of_def)
next
  case False
  show ?thesis
  proof (cases "(of_char c :: nat) < 32")
    case True
    have "hex_value (CHR ''0'') = Some 0" by code_simp
    moreover have "of_char c div 16 * 16 + of_char c mod 16 = (of_char c :: nat)" by simp
    ultimately have "code_point (CHR ''0'' # CHR ''0'' # hex_digit (of_char c div 16) # hex_digit (of_char c mod 16) # s) =
        Some (of_char c, s)"
      using True by (simp add: code_point_def hex_digit_value)
    with True False show ?thesis by (simp add: escape_char_def utf8_encode_def)
  next
    case False': False
    with False show ?thesis by (simp add: escape_char_def)
  qed
qed

lemma scan_quote: "scan_string (concat (map escape_char s) @ CHR 0x22 # r) = Some (s, r)"
proof (induction s)
  case (Cons c s)
  have "scan_string (concat (map escape_char (c # s)) @ CHR 0x22 # r) =
      scan_string (escape_char c @ concat (map escape_char s) @ CHR 0x22 # r)" by simp
  also have "\<dots> = Some (c # s, r)" unfolding scan_escape Cons by simp
  finally show ?case .
qed simp

declare scan_string.simps [simp del]

lemma scan_quoted: "take 1 (quote s @ r) = [CHR 0x22]" "scan_string (drop 1 (quote s @ r)) = Some (s, r)"
  by (simp_all add: quote_def scan_quote)

text \<open>Values: every float has a text that reads back.\<close>

fun floats_ok :: "(string \<Rightarrow> pyfloat) \<Rightarrow> json \<Rightarrow> bool" where
  "floats_ok float (JFloat f) = (case f of Finite s \<Rightarrow> float_text s \<and> float s = Finite s | NonFinite \<Rightarrow> False)"
| "floats_ok float (JList xs) = list_all (floats_ok float) xs"
| "floats_ok float (JObj kvs) = list_all (\<lambda>kv. floats_ok float (snd kv)) kvs"
| "floats_ok float _ = True"

lemma skip_ws_head: "c \<notin> {CHR '' '', CHR 0x09, CHR 0x0A, CHR 0x0D} \<Longrightarrow> skip_ws (c # s) = c # s"
  by (simp add: skip_ws_def)

lemma skip_ws_stops: "stops r \<Longrightarrow> skip_ws r = r"
  by (cases r) (auto simp: skip_ws_def)

lemma dumps_head:
  assumes "floats_ok float v"
  shows "\<exists>c s. dumps v = c # s \<and> c \<notin> {CHR '' '', CHR 0x09, CHR 0x0A, CHR 0x0D, CHR '']'', CHR ''}''}"
proof (cases v)
  case (JInt i)
  then show ?thesis using number_head_plain(2) [OF parse_number_head [OF parse_show_int [of undefined i]]] by auto
next
  case (JFloat f)
  with assms obtain s where "f = Finite s" "float_text s" by (cases f) auto
  then show ?thesis using number_head_plain(2) [OF parse_number_head [OF parse_float_text [of s undefined]]] JFloat by auto
qed (simp_all add: quote_def)

lemma dumps_skip_ws: "floats_ok float v \<Longrightarrow> skip_ws (dumps v @ r) = dumps v @ r"
  using dumps_head [of float v] by (auto simp: skip_ws_head)

definition parses :: "(string \<Rightarrow> pyfloat) \<Rightarrow> json \<Rightarrow> bool" where
  "parses float v \<longleftrightarrow> floats_ok float v \<and>
     (\<forall>n r. stops r \<longrightarrow> 2 * length (dumps v) \<le> n \<longrightarrow> parse_value float n (dumps v @ r) = Some (detach v, r))"

lemma parses_scalar:
  assumes "floats_ok float v" and "dumps v \<noteq> []" and "\<And>n r. stops r \<Longrightarrow> parse_value float (Suc n) (dumps v @ r) = Some (detach v, r)"
  shows "parses float v"
proof -
  have "parse_value float n (dumps v @ r) = Some (detach v, r)" if "stops r" "2 * length (dumps v) \<le> n" for n r
    using that assms(2) assms(3) [of r "n - 1"] by (cases n) auto
  with assms(1) show ?thesis by (simp add: parses_def)
qed

lemma parse_dumped_items:
  assumes "\<forall>x \<in> set xs. parses float x" and "xs \<noteq> []" and "2 * length (commas (map dumps xs)) + 1 \<le> n"
  shows "parse_items float n (commas (map dumps xs) @ CHR '']'' # r) = Some (map detach xs, r)"
  using assms
proof (induction xs arbitrary: n rule: induct_list012)
  case (2 x)
  then obtain k where "n = Suc k" "2 * length (dumps x) \<le> k" by (cases n) auto
  then show ?case using 2(1) by (simp add: parses_def skip_ws_head)
next
  case (3 x y zs)
  then obtain k where k: "n = Suc k" "2 * length (dumps x) \<le> k" "2 * length (commas (map dumps (y # zs))) + 1 \<le> k"
    by (cases n) auto
  let ?t = "commas (map dumps (y # zs)) @ CHR '']'' # r"
  have "skip_ws ?t = ?t"
    using 3(3) dumps_skip_ws [of float y] by (cases zs) (auto simp: parses_def)
  moreover have "parse_value float k (dumps x @ CHR '','' # ?t) = Some (detach x, CHR '','' # ?t)"
    using 3(3) k(2) by (simp add: parses_def)
  ultimately show ?case using 3(2) [of k] 3(3) k by (simp add: skip_ws_head)
qed simp

definition dump_member :: "string \<times> json \<Rightarrow> string" where
  "dump_member kv = quote (fst kv) @ CHR '':'' # dumps (snd kv)"

lemma length_dump_member: "length (dumps (snd kv)) \<le> length (dump_member kv)"
  by (simp add: dump_member_def)

lemma parse_dumped_member:
  assumes "parses float v" and "stops r" and "2 * length (dumps v) \<le> n"
  shows "parse_members float (Suc n) (dump_member (k, v) @ r) =
    (if take 1 r = ''}'' then Some ([(k, detach v)], drop 1 r)
     else if take 1 r = '','' then map_option (\<lambda>(kvs, u). ((k, detach v) # kvs, u)) (parse_members float n (skip_ws (drop 1 r)))
     else None)"
proof -
  have "skip_ws (dumps v @ r) = dumps v @ r" "parse_value float n (dumps v @ r) = Some (detach v, r)"
    using assms dumps_skip_ws [of float v r] by (auto simp: parses_def)
  then show ?thesis
    using skip_ws_stops [OF assms(2)] scan_quoted [of k "CHR '':'' # dumps v @ r"]
    by (simp add: dump_member_def skip_ws_head)
qed

lemma parse_dumped_members:
  assumes "\<forall>kv \<in> set kvs. parses float (snd kv)" and "kvs \<noteq> []" and "2 * length (commas (map dump_member kvs)) + 1 \<le> n"
  shows "parse_members float n (commas (map dump_member kvs) @ CHR ''}'' # r) = Some (map (\<lambda>kv. (fst kv, detach (snd kv))) kvs, r)"
  using assms
proof (induction kvs arbitrary: n rule: induct_list012)
  case (2 x)
  then obtain k where "n = Suc k" "2 * length (dumps (snd x)) \<le> k" by (cases n) (auto simp: dump_member_def)
  then show ?case using 2(1) parse_dumped_member [of float "snd x" "CHR ''}'' # r" k "fst x"] by simp
next
  case (3 x y zs)
  then obtain k where k: "n = Suc k" "2 * length (dumps (snd x)) \<le> k" "2 * length (commas (map dump_member (y # zs))) + 1 \<le> k"
    using length_dump_member [of x] by (cases n) auto
  let ?t = "commas (map dump_member (y # zs)) @ CHR ''}'' # r"
  have "skip_ws ?t = ?t" by (cases zs) (simp_all add: dump_member_def quote_def skip_ws_head)
  then show ?case
    using 3(2) [of k] 3(3) k parse_dumped_member [of float "snd x" "CHR '','' # ?t" k "fst x"] by simp
qed simp

lemma dict_of_distinct: "distinct (map fst kvs) \<Longrightarrow> dict_of kvs = kvs"
proof -
  have "distinct (map fst (d @ kvs)) \<Longrightarrow> fold (\<lambda>(k, v) d. dict_set k v d) kvs d = d @ kvs" for d
  proof (induction kvs arbitrary: d)
    case (Cons kv kvs)
    have "fst kv \<notin> set (map fst d)" using Cons.prems by auto
    then have "dict_set (fst kv) (snd kv) d = d @ [kv]" by (induction d) auto
    with Cons.IH [of "d @ [kv]"] Cons.prems show ?case by (simp add: case_prod_beta)
  qed simp
  then show "distinct (map fst kvs) \<Longrightarrow> dict_of kvs = kvs" unfolding dict_of_def by (metis append_Nil)
qed

lemma dumps_object: "dumps (JObj kvs) = CHR ''{'' # commas (map dump_member (sort_key fst kvs)) @ ''}''"
  unfolding dumps.simps sort_key_map_snd [of dumps] by (simp add: dump_member_def [abs_def] comp_def)

lemma dumps_parses:
  assumes "json_ok v" and "floats_ok float v"
  shows "parses float v"
  using assms
proof (induction v)
  case (JList xs)
  then have items: "\<forall>x \<in> set xs. parses float x" by (auto simp: list_all_iff)
  have "parse_value float n (dumps (JList xs) @ r) = Some (detach (JList xs), r)"
    if enough: "2 * length (dumps (JList xs)) \<le> n" for n r
  proof (cases xs)
    case Nil
    then show ?thesis using enough by (cases n) (auto simp: skip_ws_head)
  next
    case (Cons x ys)
    let ?t = "commas (map dumps xs) @ CHR '']'' # r"
    obtain c s where x: "dumps x = c # s" "c \<notin> {CHR '' '', CHR 0x09, CHR 0x0A, CHR 0x0D, CHR '']'', CHR ''}''}"
      using items dumps_head [of float x] by (auto simp: parses_def Cons)
    then have "skip_ws ?t = ?t" "take 1 ?t \<noteq> '']''" by (cases ys; simp add: Cons skip_ws_head)+
    moreover obtain k where "n = Suc k" "2 * length (commas (map dumps xs)) + 1 \<le> k" using enough by (cases n) simp_all
    ultimately show ?thesis using parse_dumped_items [OF items, of k r] Cons by simp
  qed
  with JList.prems(2) show ?case by (simp add: parses_def)
next
  case (JObj kvs)
  let ?kvs = "sort_key fst kvs"
  have members: "\<forall>kv \<in> set ?kvs. parses float (snd kv)"
  proof
    fix kv
    assume "kv \<in> set ?kvs"
    then have kv: "kv \<in> set kvs" by simp
    show "parses float (snd kv)" using JObj.prems kv by (intro JObj.IH [OF kv]) (auto simp: list_all_iff snds.simps)
  qed
  have keys: "distinct (map fst ?kvs)" using JObj.prems(1) by (simp add: distinct_map)
  have sorted: "detach (JObj kvs) = JObj (map (\<lambda>kv. (fst kv, detach (snd kv))) ?kvs)" by (simp add: sort_key_map_snd)
  have dict: "dict_of (map (\<lambda>kv. (fst kv, detach (snd kv))) ?kvs) = map (\<lambda>kv. (fst kv, detach (snd kv))) ?kvs"
    using keys by (intro dict_of_distinct) (simp add: comp_def)
  have "parse_value float n (dumps (JObj kvs) @ r) = Some (detach (JObj kvs), r)"
    if enough: "2 * length (dumps (JObj kvs)) \<le> n" for n r
  proof (cases "?kvs = []")
    case True
    then show ?thesis unfolding sorted dumps_object using enough by (cases n) (auto simp: skip_ws_head dumps_object)
  next
    case False
    then obtain kv rest where kv: "?kvs = kv # rest" by (cases ?kvs) auto
    let ?t = "commas (map dump_member ?kvs) @ CHR ''}'' # r"
    have "skip_ws ?t = ?t" "take 1 ?t \<noteq> ''}''" unfolding kv by (cases rest; simp add: dump_member_def quote_def skip_ws_head)+
    moreover obtain k where "n = Suc k" "2 * length (commas (map dump_member ?kvs)) + 1 \<le> k"
      using enough unfolding dumps_object by (cases n) auto
    ultimately show ?thesis
      using parse_dumped_members [OF members False, of k r] unfolding sorted dumps_object by (simp add: dict)
  qed
  with JObj.prems(2) show ?case by (simp add: parses_def)
next
  case (JInt i)
  show ?case
  proof (rule parses_scalar)
    show "parse_value float (Suc n) (dumps (JInt i) @ r) = Some (detach (JInt i), r)" if "stops r" for n r
      using parse_value_number [OF parse_show_int that] by simp
  qed (use show_nat_digits in \<open>auto simp: show_int_def\<close>)
next
  case (JFloat f)
  then obtain s where s: "f = Finite s" "float_text s" "float s = Finite s" by (cases f) auto
  note number = parse_float_text [OF s(2), of float]
  show ?case
  proof (rule parses_scalar)
    show "parse_value float (Suc n) (dumps (JFloat f) @ r) = Some (detach (JFloat f), r)" if "stops r" for n r
      using parse_value_number [OF number that] s by simp
  qed (use s parse_number_head [OF number] in \<open>auto simp: number_head_def\<close>)
next
  case (JStr s)
  show ?case by (rule parses_scalar) (simp_all add: scan_quoted [of s, simplified], simp add: quote_def)
qed (rule parses_scalar; simp add: literals_def)+

lemma floats_ok_finite: "floats_ok float v \<Longrightarrow> \<not> has_non_finite v"
proof (induction v rule: has_non_finite.induct)
  case (1 f)
  then show ?case by (cases f) auto
next
  case (2 kvs)
  then show ?case by (auto simp: list_all_iff list_ex_iff)
next
  case (3 xs)
  then show ?case by (auto simp: list_all_iff list_ex_iff)
qed simp_all

lemma json_loads_dumps:
  assumes "json_ok v" and "floats_ok float v"
  shows "json_loads float (dumps v) = Return (detach v)"
proof -
  have "parse_value float (2 * length (dumps v)) (dumps v @ []) = Some (detach v, [])"
    using dumps_parses [OF assms] unfolding parses_def by (metis order_refl stops_simps(1))
  then show ?thesis using dumps_skip_ws [OF assms(2), of "[]"] by (simp add: json_loads_def skip_ws_def)
qed

text \<open>The canonical form has the value at every key, whatever the order of the keys.\<close>

lemma json_get_detach:
  assumes "json_ok v"
  shows "json_get (detach v) key = map_option detach (json_get v key)"
proof (cases v)
  case (JObj kvs)
  have "distinct (map fst kvs)" using assms by (simp add: JObj)
  then have "map_of (sort_key fst kvs) = map_of kvs"
    by (intro map_of_inject_set [THEN iffD2]) (simp_all add: distinct_map)
  moreover have "map_of (map (\<lambda>kv. (fst kv, detach (snd kv))) xs) key = map_option detach (map_of xs key)"
    for xs :: "(string \<times> json) list" by (induction xs) auto
  ultimately show ?thesis by (simp add: JObj json_get_def sort_key_map_snd)
qed (simp_all add: json_get_def)

section \<open>Properties\<close>

text \<open>A decoder of floats that knows the text \<open>1.5\<close>, and a value with every kind of content to evaluate the property on.\<close>

definition sample_float :: "string \<Rightarrow> pyfloat" where
  "sample_float s = (if s = ''1.5'' then Finite s else NonFinite)"

definition sample_json :: json where
  "sample_json = JObj [(''b'', JList [JInt (- 12), JFloat (Finite ''1.5''), JBool True, JNull]), (''a'', JStr [CHR 0x22, CHR 0x01, CHR ''x''])]"

text \<open>
  C22. Encoding and decoding are inverse up to the order of keys: the canonical form of a JSON value, read by \<open>json.loads\<close>, is the value with
  the keys of every object sorted (the detached copy the runner works on), which has the same content at every key and the same
  canonical form, so that the digest an approval is bound to is the digest of the arguments the tool gets.
\<close>

theorem canonical_json_roundtrip:
  assumes "json_ok v" and "floats_ok float v"
  shows "\<exists>text. canonical_json v = Return text \<and> json_loads float text = Return (detach v) \<and>
    canonical_json (detach v) = Return text \<and> (\<forall>key. json_get (detach v) key = map_option detach (json_get v key))"
  using json_loads_dumps [OF assms] floats_ok_finite [OF assms(2)] json_get_detach [OF assms(1)]
  by (simp add: canonical_json_detach) (simp add: canonical_json_def)

theorem canonical_json_roundtrip_witness:
  "\<exists>text. canonical_json sample_json = Return text \<and> json_loads sample_float text = Return (detach sample_json) \<and>
    json_get (detach sample_json) ''a'' = Some (JStr [CHR 0x22, CHR 0x01, CHR ''x''])"
proof -
  have "json_ok sample_json" "floats_ok sample_float sample_json" "json_get sample_json ''a'' = Some (JStr [CHR 0x22, CHR 0x01, CHR ''x''])"
    by code_simp+
  with canonical_json_roundtrip [of sample_json sample_float] show ?thesis by auto
qed

end
