(* ===== verification/Model_Types.thy ===== *)
theory Model_Types
  imports Complex_Main Json_Model
begin

text \<open>
  \<^verbatim>\<open>src/suiteharness/models/types.py\<close> and \<^verbatim>\<open>models/errors.py\<close>: the provider-neutral vocabulary of model calls. A pydantic model is a
  record and its validators a function into \<open>result\<close>. Of \<open>urlparse\<close> the scheme and the network location are modelled; what it checks
  of a location beyond the balance of its brackets is the parameter \<open>netloc_ok\<close>. Sampling values are rational numbers: the bounds of
  the fields exclude NaN and the infinities. \<open>repr\<close> of a string is the string in single quotes, which is what it prints for
  every identifier.
\<close>

section \<open>Errors\<close>

datatype ModelErrorCode =
    PROFILE_NOT_FOUND | PROVIDER_NOT_FOUND | CREDENTIAL_MISSING | AUTHENTICATION | MODEL_PERMISSION_DENIED | RATE_LIMIT
  | INVALID_REQUEST | MODEL_TIMEOUT | UNAVAILABLE | RESPONSE_INVALID | UNSUPPORTED_FEATURE | CONFIGURATION

fun model_code_value :: "ModelErrorCode \<Rightarrow> string" where
  "model_code_value PROFILE_NOT_FOUND = ''profile_not_found''"
| "model_code_value PROVIDER_NOT_FOUND = ''provider_not_found''"
| "model_code_value CREDENTIAL_MISSING = ''credential_missing''"
| "model_code_value AUTHENTICATION = ''authentication''"
| "model_code_value MODEL_PERMISSION_DENIED = ''permission_denied''"
| "model_code_value RATE_LIMIT = ''rate_limit''"
| "model_code_value INVALID_REQUEST = ''invalid_request''"
| "model_code_value MODEL_TIMEOUT = ''timeout''"
| "model_code_value UNAVAILABLE = ''unavailable''"
| "model_code_value RESPONSE_INVALID = ''response_invalid''"
| "model_code_value UNSUPPORTED_FEATURE = ''unsupported_feature''"
| "model_code_value CONFIGURATION = ''configuration''"

text \<open>An error the gateway itself raises: no status code, not retryable.\<close>

definition model_error :: "ModelErrorCode \<Rightarrow> string \<Rightarrow> string option \<Rightarrow> exn" where
  "model_error code message provider = ModelProviderError (model_code_value code) message provider None False"

fun is_provider_error :: "exn \<Rightarrow> bool" where
  "is_provider_error (ModelProviderError _ _ _ _ _) = True"
| "is_provider_error _ = False"

fun retryable :: "exn \<Rightarrow> bool" where
  "retryable (ModelProviderError _ _ _ _ r) = r"
| "retryable _ = False"

fun is_capacity_error :: "exn \<Rightarrow> bool" where
  "is_capacity_error (ContextCapacityError _) = True"
| "is_capacity_error _ = False"

definition py_repr :: "string \<Rightarrow> string" where
  "py_repr s = CHR 0x27 # s @ [CHR 0x27]"

section \<open>Patterns\<close>

definition MODEL_ID :: "string \<Rightarrow> bool" where
  [guard_defs]: "MODEL_ID s \<longleftrightarrow> head_then (\<lambda>c. is_alnum c \<or> c \<in> set ''._:/-'') 191 s"

definition MODEL_TOOL_NAME :: "string \<Rightarrow> bool" where
  [guard_defs]: "MODEL_TOOL_NAME s \<longleftrightarrow>
     (case s of [] \<Rightarrow> False
      | c # cs \<Rightarrow> (is_lower c \<or> is_upper c) \<and> length cs \<le> 127 \<and> list_all (\<lambda>c. is_alnum c \<or> c \<in> set ''_.:-'') cs)"

section \<open>URLs\<close>

record url_parts =
  up_scheme :: string
  up_netloc :: string
  up_username :: "string option"
  up_password :: "string option"

definition lower_char :: "char \<Rightarrow> char" where
  "lower_char c = (if is_upper c then char_of (of_char c + 32 :: nat) else c)"

definition url_scheme :: "string \<Rightarrow> string \<times> string" where
  "url_scheme url =
     (let s = takeWhile (\<lambda>c. c \<noteq> CHR '':'') url in
      if s \<noteq> url \<and> s \<noteq> [] \<and> (is_lower (hd s) \<or> is_upper (hd s)) \<and> list_all (\<lambda>c. is_alnum c \<or> c \<in> set ''+-.'') s
      then (map lower_char s, drop (Suc (length s)) url) else ([], url))"

definition url_userinfo :: "string \<Rightarrow> string option \<times> string option" where
  "url_userinfo netloc =
     (if CHR ''@'' \<notin> set netloc then (None, None)
      else let info = rev (tl (dropWhile (\<lambda>c. c \<noteq> CHR ''@'') (rev netloc))) in
        (Some (takeWhile (\<lambda>c. c \<noteq> CHR '':'') info),
         if CHR '':'' \<in> set info then Some (tl (dropWhile (\<lambda>c. c \<noteq> CHR '':'') info)) else None))"

definition urlparse :: "(string \<Rightarrow> bool) \<Rightarrow> string \<Rightarrow> url_parts result" where
  "urlparse netloc_ok url =
     (let clean = filter (\<lambda>c. c \<notin> {CHR 0x09, CHR 0x0A, CHR 0x0D}) (dropWhile (\<lambda>c. (of_char c :: nat) \<le> 32) url);
          (scheme, rest) = url_scheme clean;
          netloc = (if take 2 rest = ''//'' then takeWhile (\<lambda>c. c \<notin> set ''/?#'') (drop 2 rest) else []) in
      if (CHR ''['' \<in> set netloc) \<noteq> (CHR '']'' \<in> set netloc) then Raise (ValueError ''Invalid IPv6 URL'')
      else if \<not> netloc_ok netloc then Raise (ValueError ''invalid network location'')
      else Return \<lparr>up_scheme = scheme, up_netloc = netloc, up_username = fst (url_userinfo netloc),
                   up_password = snd (url_userinfo netloc)\<rparr>)"

definition absolute_http :: "url_parts \<Rightarrow> bool" where
  "absolute_http u \<longleftrightarrow>
     up_scheme u \<in> {''http'', ''https''} \<and> up_netloc u \<noteq> [] \<and> up_username u = None \<and> up_password u = None"

section \<open>Content and messages\<close>

datatype ModelRole = SYSTEM_ROLE | USER_ROLE | ASSISTANT_ROLE | TOOL_ROLE

datatype FinishReason =
  FINISH_STOP | FINISH_TOOL_CALLS | FINISH_LENGTH | FINISH_CONTENT_FILTER | FINISH_CANCELLED | FINISH_ERROR | FINISH_UNKNOWN

datatype ModelStreamEventType =
  MESSAGE_START | TEXT_DELTA | REASONING_DELTA | TOOL_CALL_DELTA | USAGE_EVENT | MESSAGE_END | CONTEXT_COMPACTED

fun stream_type_value :: "ModelStreamEventType \<Rightarrow> string" where
  "stream_type_value MESSAGE_START = ''message_start''"
| "stream_type_value TEXT_DELTA = ''text_delta''"
| "stream_type_value REASONING_DELTA = ''reasoning_delta''"
| "stream_type_value TOOL_CALL_DELTA = ''tool_call_delta''"
| "stream_type_value USAGE_EVENT = ''usage''"
| "stream_type_value MESSAGE_END = ''message_end''"
| "stream_type_value CONTEXT_COMPACTED = ''context_compacted''"

text \<open>Text; an image with its type, URL and data; a document with its type, name and data.\<close>

datatype ContentPart =
    TextContent string
  | ImageContent string "string option" "string option"
  | DocumentContent string string string

fun ContentPart_validate :: "(string \<Rightarrow> bool) \<Rightarrow> ContentPart \<Rightarrow> ContentPart result" where
  "ContentPart_validate netloc_ok (ImageContent mime url data) =
     (if (url = None) = (data = None)
      then Raise (ValueError ''image content requires exactly one of url or data_base64'')
      else case url of
          None \<Rightarrow> Return (ImageContent mime url data)
        | Some u \<Rightarrow>
            result_bind (urlparse netloc_ok u) (\<lambda>p.
            if up_scheme p \<notin> {''https'', ''data''} then Raise (ValueError ''image url must use https or data'')
            else if up_scheme p = ''https'' \<and> \<not> absolute_http p
            then Raise (ValueError ''https image urls must not contain user information'')
            else Return (ImageContent mime url data)))"
| "ContentPart_validate netloc_ok part = Return part"

fun is_image :: "ContentPart \<Rightarrow> bool" where
  "is_image (ImageContent _ _ _) = True" | "is_image _ = False"

fun is_document :: "ContentPart \<Rightarrow> bool" where
  "is_document (DocumentContent _ _ _) = True" | "is_document _ = False"

fun part_text :: "ContentPart \<Rightarrow> string option" where
  "part_text (TextContent t) = Some t" | "part_text _ = None"

record ModelToolCall =
  mtc_call_id :: string
  mtc_name :: string
  mtc_arguments :: "(string \<times> json) list"

definition ModelToolCall_validate :: "ModelToolCall \<Rightarrow> ModelToolCall result" where
  "ModelToolCall_validate c =
     (if \<not> MODEL_ID (mtc_call_id c) then Raise (ValueError ''invalid model tool call id'')
      else if \<not> MODEL_TOOL_NAME (mtc_name c) then Raise (ValueError ''invalid model tool name'')
      else Return c)"

definition tool_call_dump :: "ModelToolCall \<Rightarrow> json" where
  "tool_call_dump c =
     JObj [(''call_id'', JStr (mtc_call_id c)), (''name'', JStr (mtc_name c)), (''arguments'', JObj (mtc_arguments c))]"

record ModelMessage =
  mm_role :: ModelRole
  mm_content :: "ContentPart list"
  mm_tool_calls :: "ModelToolCall list"
  mm_tool_call_id :: "string option"
  mm_name :: "string option"

definition ModelMessage_validate :: "ModelMessage \<Rightarrow> ModelMessage result" where
  "ModelMessage_validate m =
     (if mm_role m = TOOL_ROLE \<and> (mm_tool_call_id m = None \<or> mm_tool_call_id m = Some [])
      then Raise (ValueError ''tool messages require tool_call_id'')
      else if mm_role m \<noteq> TOOL_ROLE \<and> mm_tool_call_id m \<noteq> None
      then Raise (ValueError ''tool_call_id is only valid for tool messages'')
      else if mm_tool_calls m \<noteq> [] \<and> mm_role m \<noteq> ASSISTANT_ROLE
      then Raise (ValueError ''only assistant messages may contain tool calls'')
      else if mm_content m = [] \<and> mm_tool_calls m = []
      then Raise (ValueError ''a message requires content or tool calls'')
      else Return m)"

definition message_text :: "ModelRole \<Rightarrow> string \<Rightarrow> string option \<Rightarrow> ModelMessage result" where
  "message_text role v tool_call_id =
     ModelMessage_validate \<lparr>mm_role = role, mm_content = [TextContent v], mm_tool_calls = [],
       mm_tool_call_id = tool_call_id, mm_name = None\<rparr>"

record ModelTool =
  mt_name :: string
  mt_description :: string
  mt_input_schema :: "(string \<times> json) list"

definition ModelTool_validate :: "ModelTool \<Rightarrow> ModelTool result" where
  "ModelTool_validate t = (if \<not> MODEL_TOOL_NAME (mt_name t) then Raise (ValueError ''invalid model tool name'') else Return t)"

definition tool_dump :: "ModelTool \<Rightarrow> json" where
  "tool_dump t =
     JObj [(''name'', JStr (mt_name t)), (''description'', JStr (mt_description t)), (''input_schema'', JObj (mt_input_schema t))]"

section \<open>Requests and responses\<close>

datatype tool_choice = CHOICE_AUTO | CHOICE_NONE | CHOICE_REQUIRED

record ModelRequest =
  mq_messages :: "ModelMessage list"
  mq_model :: "string option"
  mq_tools :: "ModelTool list"
  mq_tool_choice :: tool_choice
  mq_temperature :: "rat option"
  mq_top_p :: "rat option"
  mq_max_output_tokens :: int
  mq_stop :: "string list"
  mq_response_schema :: "(string \<times> json) list option"
  mq_metadata :: "(string \<times> json) list"

definition opt_all :: "('a \<Rightarrow> bool) \<Rightarrow> 'a option \<Rightarrow> bool" where
  "opt_all P x = (case x of None \<Rightarrow> True | Some v \<Rightarrow> P v)"

definition ModelRequest_validate :: "ModelRequest \<Rightarrow> ModelRequest result" where
  "ModelRequest_validate r =
     (if \<not> opt_all (\<lambda>t. 0 \<le> t \<and> t \<le> 2) (mq_temperature r) then Raise (ValueError ''temperature out of range'')
      else if \<not> opt_all (\<lambda>p. 0 < p \<and> p \<le> 1) (mq_top_p r) then Raise (ValueError ''top_p out of range'')
      else if mq_max_output_tokens r < 1 \<or> 1000000 < mq_max_output_tokens r
      then Raise (ValueError ''max_output_tokens out of range'')
      else if \<not> opt_all (\<lambda>m. py_strip m \<noteq> []) (mq_model r) then Raise (ValueError ''model must not be blank'')
      else if mq_messages r = [] then Raise (ValueError ''a model request requires at least one message'')
      else if \<not> distinct (map mt_name (mq_tools r)) then Raise (ValueError ''model tool names must be unique'')
      else if mq_tool_choice r = CHOICE_REQUIRED \<and> mq_tools r = []
      then Raise (ValueError ''required tool choice needs at least one tool'')
      else Return r)"

record ModelUsage =
  us_input_tokens :: int
  us_output_tokens :: int
  us_cached_input_tokens :: int
  us_reasoning_tokens :: int

definition ModelUsage_validate :: "ModelUsage \<Rightarrow> ModelUsage result" where
  "ModelUsage_validate u =
     (if us_input_tokens u < 0 \<or> us_output_tokens u < 0 \<or> us_cached_input_tokens u < 0 \<or> us_reasoning_tokens u < 0
      then Raise (ValueError ''token counts must not be negative'') else Return u)"

definition total_tokens :: "ModelUsage \<Rightarrow> int" where
  "total_tokens u = us_input_tokens u + us_output_tokens u"

text \<open>\<open>mrs_usage\<close> is \<open>None\<close> when the field was not set, which is what the gateway asks.\<close>

record ModelResponse =
  mrs_response_id :: string
  mrs_provider_id :: string
  mrs_model :: string
  mrs_content :: "ContentPart list"
  mrs_tool_calls :: "ModelToolCall list"
  mrs_finish_reason :: FinishReason
  mrs_usage :: "ModelUsage option"
  mrs_provider_metadata :: "(string \<times> json) list"

definition ModelResponse_validate :: "ModelResponse \<Rightarrow> ModelResponse result" where
  "ModelResponse_validate r =
     (if \<not> MODEL_ID (mrs_response_id r) \<or> \<not> MODEL_ID (mrs_provider_id r)
      then Raise (ValueError ''invalid response/provider id'') else Return r)"

record ModelStreamEvent =
  se_type :: ModelStreamEventType
  se_response_id :: "string option"
  se_text_delta :: "string option"
  se_reasoning_delta :: "string option"
  se_tool_call :: "ModelToolCall option"
  se_usage :: "ModelUsage option"
  se_finish_reason :: "FinishReason option"
  se_context_info :: "(string \<times> json) list option"
  se_prepared_messages :: "ModelMessage list option"

definition payload_missing :: "ModelStreamEvent \<Rightarrow> bool" where
  "payload_missing e =
     (case se_type e of
        TEXT_DELTA \<Rightarrow> se_text_delta e = None
      | REASONING_DELTA \<Rightarrow> se_reasoning_delta e = None
      | TOOL_CALL_DELTA \<Rightarrow> se_tool_call e = None
      | USAGE_EVENT \<Rightarrow> se_usage e = None
      | MESSAGE_END \<Rightarrow> se_finish_reason e = None
      | CONTEXT_COMPACTED \<Rightarrow> se_context_info e = None
      | MESSAGE_START \<Rightarrow> False)"

definition ModelStreamEvent_validate :: "ModelStreamEvent \<Rightarrow> ModelStreamEvent result" where
  "ModelStreamEvent_validate e =
     (if payload_missing e then Raise (ValueError (stream_type_value (se_type e) @ '' event is missing its payload''))
      else Return e)"

section \<open>Providers, profiles and routes\<close>

datatype ProviderAuthKind = API_KEY | AWS_IAM | GOOGLE_SERVICE_ACCOUNT | MANAGED_IDENTITY | INTERNAL_NONE

datatype AdapterKind = OPENAI_CHAT | OPENAI_RESPONSES | ANTHROPIC_MESSAGES | GEMINI | BEDROCK_CONVERSE | VERTEX_GEMINI

fun adapter_value :: "AdapterKind \<Rightarrow> string" where
  "adapter_value OPENAI_CHAT = ''openai_chat''"
| "adapter_value OPENAI_RESPONSES = ''openai_responses''"
| "adapter_value ANTHROPIC_MESSAGES = ''anthropic_messages''"
| "adapter_value GEMINI = ''gemini''"
| "adapter_value BEDROCK_CONVERSE = ''bedrock_converse''"
| "adapter_value VERTEX_GEMINI = ''vertex_gemini''"

record ProviderCapabilities =
  cap_streaming :: bool
  cap_tools :: bool
  cap_parallel_tool_calls :: bool
  cap_json_schema :: bool
  cap_reasoning :: bool
  cap_vision :: bool
  cap_documents :: bool
  cap_max_context_tokens :: "int option"

definition default_capabilities :: ProviderCapabilities where
  "default_capabilities = \<lparr>cap_streaming = True, cap_tools = True, cap_parallel_tool_calls = True, cap_json_schema = False,
     cap_reasoning = False, cap_vision = False, cap_documents = False, cap_max_context_tokens = None\<rparr>"

record ModelCapabilities =
  mc_streaming :: "bool option"
  mc_tools :: "bool option"
  mc_parallel_tool_calls :: "bool option"
  mc_json_schema :: "bool option"
  mc_reasoning :: "bool option"
  mc_vision :: "bool option"
  mc_documents :: "bool option"
  mc_max_context_tokens :: "int option"

record ProviderDescriptor =
  pd_provider_id :: string
  pd_display_name :: string
  pd_adapter :: AdapterKind
  pd_auth :: ProviderAuthKind
  pd_default_base_url :: "string option"
  pd_aliases :: "string set"
  pd_capabilities :: ProviderCapabilities

definition rstrip_slash :: "string \<Rightarrow> string" where
  "rstrip_slash s = rev (dropWhile (\<lambda>c. c = CHR ''/'') (rev s))"

definition ProviderDescriptor_validate :: "(string \<Rightarrow> bool) \<Rightarrow> ProviderDescriptor \<Rightarrow> ProviderDescriptor result" where
  "ProviderDescriptor_validate netloc_ok d =
     (if \<not> MODEL_ID (pd_provider_id d) then Raise (ValueError ''invalid provider id'')
      else case pd_default_base_url d of
          None \<Rightarrow> Return d
        | Some url \<Rightarrow>
            result_bind (urlparse netloc_ok url) (\<lambda>u.
            if \<not> absolute_http u then Raise (ValueError ''provider base URL must be an absolute HTTP(S) URL'')
            else Return (d\<lparr>pd_default_base_url := Some (rstrip_slash url)\<rparr>)))"

text \<open>\<open>mp_timeout\<close> is in microseconds.\<close>

record ModelProfile =
  mp_profile_id :: string
  mp_provider_id :: string
  mp_model :: string
  mp_credential_ref :: "string option"
  mp_base_url :: "string option"
  mp_timeout :: int
  mp_max_retries :: int
  mp_allowed_models :: "string set"
  mp_default_headers :: "(string \<times> string) list"
  mp_provider_options :: "(string \<times> json) list"
  mp_allow_plain_http :: bool
  mp_capabilities :: ModelCapabilities
  mp_allow_capability_overrides :: bool

definition override_error :: "ModelProfile \<Rightarrow> string \<Rightarrow> exn" where
  "override_error p name = ValueError (''profile '' @ py_repr (mp_profile_id p) @ '' capability '' @ py_repr name @
     '' exceeds provider defaults; an explicit allow_capability_overrides=true is required'')"

definition override :: "ModelProfile \<Rightarrow> string \<Rightarrow> ('a \<Rightarrow> 'b \<Rightarrow> bool) \<Rightarrow> ('b \<Rightarrow> 'a) \<Rightarrow> 'a \<Rightarrow> 'b option \<Rightarrow> 'a result" where
  "override p name elevates put inherited given =
     (case given of
        None \<Rightarrow> Return inherited
      | Some v \<Rightarrow> if elevates inherited v \<and> \<not> mp_allow_capability_overrides p then Raise (override_error p name) else Return (put v))"

definition flag_override :: "ModelProfile \<Rightarrow> string \<Rightarrow> bool \<Rightarrow> bool option \<Rightarrow> bool result" where
  "flag_override p name = override p name (\<lambda>inherited v. v \<and> \<not> inherited) (\<lambda>v. v)"

definition window_override :: "ModelProfile \<Rightarrow> int option \<Rightarrow> int option \<Rightarrow> int option result" where
  "window_override p = override p ''max_context_tokens'' (\<lambda>inherited v. case inherited of None \<Rightarrow> False | Some i \<Rightarrow> i < v) Some"

definition effective_capabilities :: "ModelProfile \<Rightarrow> ProviderCapabilities \<Rightarrow> ProviderCapabilities result" where
  "effective_capabilities p provider =
     (let c = mp_capabilities p in
      result_bind (flag_override p ''streaming'' (cap_streaming provider) (mc_streaming c)) (\<lambda>streaming.
      result_bind (flag_override p ''tools'' (cap_tools provider) (mc_tools c)) (\<lambda>tools.
      result_bind (flag_override p ''parallel_tool_calls'' (cap_parallel_tool_calls provider) (mc_parallel_tool_calls c)) (\<lambda>parallel.
      result_bind (flag_override p ''json_schema'' (cap_json_schema provider) (mc_json_schema c)) (\<lambda>schema.
      result_bind (flag_override p ''reasoning'' (cap_reasoning provider) (mc_reasoning c)) (\<lambda>reasoning.
      result_bind (flag_override p ''vision'' (cap_vision provider) (mc_vision c)) (\<lambda>vision.
      result_bind (flag_override p ''documents'' (cap_documents provider) (mc_documents c)) (\<lambda>documents.
      result_bind (window_override p (cap_max_context_tokens provider) (mc_max_context_tokens c)) (\<lambda>window.
      Return \<lparr>cap_streaming = streaming, cap_tools = tools, cap_parallel_tool_calls = parallel, cap_json_schema = schema,
        cap_reasoning = reasoning, cap_vision = vision, cap_documents = documents, cap_max_context_tokens = window\<rparr>)))))))))"

definition endpoint_security :: "(string \<Rightarrow> bool) \<Rightarrow> ModelProfile \<Rightarrow> ModelProfile result" where
  "endpoint_security netloc_ok p =
     (if mp_allow_capability_overrides p \<and> mp_allowed_models p - {mp_model p} \<noteq> {}
      then Raise (ValueError ''capability overrides require one exact model per profile'')
      else case mp_base_url p of
          None \<Rightarrow> Return p
        | Some url \<Rightarrow>
            result_bind (urlparse netloc_ok url) (\<lambda>u.
            if \<not> absolute_http u then Raise (ValueError ''profile base URL must be an absolute HTTP(S) URL'')
            else if up_scheme u = ''http'' \<and> \<not> mp_allow_plain_http p
            then Raise (ValueError ''plain HTTP model endpoints require allow_plain_http=true'')
            else Return p))"

definition ModelProfile_validate :: "(string \<Rightarrow> bool) \<Rightarrow> ModelProfile \<Rightarrow> ModelProfile result" where
  "ModelProfile_validate netloc_ok p =
     (if \<not> MODEL_ID (mp_profile_id p) \<or> \<not> MODEL_ID (mp_provider_id p)
      then Raise (ValueError ''invalid model profile/provider id'')
      else if py_strip (mp_model p) = [] then Raise (ValueError ''profile model must not be blank'')
      else if mp_timeout p \<le> 0 \<or> 3600 * 1000000 < mp_timeout p then Raise (ValueError ''timeout_seconds out of range'')
      else if mp_max_retries p < 0 \<or> 10 < mp_max_retries p then Raise (ValueError ''max_retries out of range'')
      else if \<not> (\<forall>m \<in> mp_allowed_models p. py_strip m \<noteq> [])
      then Raise (ValueError ''allowed_models must not contain blank model names'')
      else if \<not> opt_all (\<lambda>w. 1 \<le> w) (mc_max_context_tokens (mp_capabilities p))
      then Raise (ValueError ''max_context_tokens out of range'')
      else endpoint_security netloc_ok p)"

definition permits_model :: "ModelProfile \<Rightarrow> string \<Rightarrow> bool" where
  "permits_model p model \<longleftrightarrow> model = mp_model p \<or> model \<in> mp_allowed_models p"

record ModelRoute =
  mr_route_id :: string
  mr_primary_profile :: string
  mr_fallback_profiles :: "string list"

definition route_profiles :: "ModelRoute \<Rightarrow> string list" where
  "route_profiles r = mr_primary_profile r # mr_fallback_profiles r"

definition ModelRoute_validate :: "ModelRoute \<Rightarrow> ModelRoute result" where
  "ModelRoute_validate r =
     (if \<not> distinct (route_profiles r) then Raise (ValueError ''model route profiles must be unique'') else Return r)"

section \<open>Laws\<close>

text \<open>Without the explicit permission a profile has at most the capabilities of its provider.\<close>

definition within_capabilities :: "ProviderCapabilities \<Rightarrow> ProviderCapabilities \<Rightarrow> bool" where
  "within_capabilities c d \<longleftrightarrow>
     (cap_streaming c \<longrightarrow> cap_streaming d) \<and> (cap_tools c \<longrightarrow> cap_tools d) \<and>
     (cap_parallel_tool_calls c \<longrightarrow> cap_parallel_tool_calls d) \<and> (cap_json_schema c \<longrightarrow> cap_json_schema d) \<and>
     (cap_reasoning c \<longrightarrow> cap_reasoning d) \<and> (cap_vision c \<longrightarrow> cap_vision d) \<and> (cap_documents c \<longrightarrow> cap_documents d) \<and>
     (\<forall>i. cap_max_context_tokens d = Some i \<longrightarrow> (\<exists>j. cap_max_context_tokens c = Some j \<and> j \<le> i))"

lemma flag_override_within:
  "flag_override p name inherited given = Return True \<Longrightarrow> \<not> mp_allow_capability_overrides p \<Longrightarrow> inherited"
  by (auto simp: flag_override_def override_def split: option.splits if_splits)

lemma window_override_within:
  "window_override p inherited given = Return v \<Longrightarrow> \<not> mp_allow_capability_overrides p \<Longrightarrow>
   inherited = Some i \<Longrightarrow> \<exists>j. v = Some j \<and> j \<le> i"
  by (auto simp: window_override_def override_def split: option.splits if_splits)

lemma effective_within:
  assumes eff: "effective_capabilities p d = Return c" and no: "\<not> mp_allow_capability_overrides p"
  shows "within_capabilities c d"
proof -
  have "cap_streaming c \<longrightarrow> cap_streaming d" "cap_tools c \<longrightarrow> cap_tools d" "cap_parallel_tool_calls c \<longrightarrow> cap_parallel_tool_calls d"
    "cap_json_schema c \<longrightarrow> cap_json_schema d" "cap_reasoning c \<longrightarrow> cap_reasoning d" "cap_vision c \<longrightarrow> cap_vision d"
    "cap_documents c \<longrightarrow> cap_documents d"
    using eff by (auto simp: effective_capabilities_def Let_def dest: flag_override_within [OF _ no])
  moreover have "\<exists>j. cap_max_context_tokens c = Some j \<and> j \<le> i" if "cap_max_context_tokens d = Some i" for i
    using eff window_override_within [OF _ no that] by (auto simp: effective_capabilities_def Let_def)
  ultimately show ?thesis unfolding within_capabilities_def by blast
qed

lemma endpoint_ok:
  assumes "ModelProfile_validate netloc_ok p = Return q" "mp_base_url p = Some url"
  obtains u where "urlparse netloc_ok url = Return u" "absolute_http u" "up_scheme u = ''http'' \<Longrightarrow> mp_allow_plain_http p"
  using assms by (auto simp: ModelProfile_validate_def endpoint_security_def split: if_splits)

end
