(* ===== verification/Model_Context.thy ===== *)
theory Model_Context
  imports Model_Types
begin

text \<open>
  \<^verbatim>\<open>src/suiteharness/models/context.py\<close>: fitting a request into the context window of a model. The estimator of text lengths is a
  parameter, as in the code; so is \<open>json.loads\<close> (\<open>None\<close> when it raises).
\<close>

section \<open>Encoding\<close>

fun join_with :: "string \<Rightarrow> string list \<Rightarrow> string" where
  "join_with sep [] = []"
| "join_with sep [x] = x"
| "join_with sep (x # y # ys) = x @ sep @ join_with sep (y # ys)"

text \<open>\<open>json.dumps\<close> in the order of the keys, for a way to quote strings and the two separators.\<close>

fun json_text :: "(string \<Rightarrow> string) \<Rightarrow> string \<Rightarrow> string \<Rightarrow> json \<Rightarrow> string" where
  "json_text q item_sep key_sep JNull = ''null''"
| "json_text q item_sep key_sep (JBool b) = (if b then ''true'' else ''false'')"
| "json_text q item_sep key_sep (JInt i) = show_int i"
| "json_text q item_sep key_sep (JFloat f) = (case f of Finite r \<Rightarrow> r | NonFinite \<Rightarrow> ''NaN'')"
| "json_text q item_sep key_sep (JStr s) = q s"
| "json_text q item_sep key_sep (JList xs) = CHR ''['' # join_with item_sep (map (json_text q item_sep key_sep) xs) @ [CHR '']'']"
| "json_text q item_sep key_sep (JObj kvs) =
     CHR ''{'' # join_with item_sep (map (\<lambda>kv. q (fst kv) @ key_sep @ json_text q item_sep key_sep (snd kv)) kvs) @ [CHR ''}'']"

definition json_compact :: "json \<Rightarrow> string" where
  "json_compact = json_text quote '','' '':''"

definition json_spaced :: "json \<Rightarrow> string" where
  "json_spaced = json_text quote '', '' '': ''"

text \<open>With \<open>ensure_ascii\<close>: every code point that is not printable ASCII is escaped, those above U+FFFF as a pair of surrogates.\<close>

definition hex4 :: "nat \<Rightarrow> string" where
  "hex4 n = [CHR 0x5C, CHR ''u'', hex_digit (n div 4096 mod 16), hex_digit (n div 256 mod 16), hex_digit (n div 16 mod 16), hex_digit (n mod 16)]"

fun code_point :: "nat list \<Rightarrow> nat" where
  "code_point [a] = a"
| "code_point [a, b] = (a mod 32) * 64 + b mod 64"
| "code_point [a, b, c] = (a mod 16) * 4096 + (b mod 64) * 64 + c mod 64"
| "code_point [a, b, c, d] = (a mod 8) * 262144 + (b mod 64) * 4096 + (c mod 64) * 64 + d mod 64"
| "code_point _ = 0"

definition ascii_point :: "string \<Rightarrow> string" where
  "ascii_point p =
     (let n = code_point (map of_char p) in
      if n < 127 then escape_char (hd p)
      else if n < 65536 then hex4 n
      else hex4 (55296 + (n - 65536) div 1024) @ hex4 (56320 + (n - 65536) mod 1024))"

definition quote_ascii :: "string \<Rightarrow> string" where
  "quote_ascii s = CHR 0x22 # concat (map ascii_point (py_chars s)) @ [CHR 0x22]"

definition json_ascii :: "json \<Rightarrow> string" where
  "json_ascii = json_text quote_ascii '', '' '': ''"

section \<open>Estimating\<close>

text \<open>\<open>ContextManager\<close> with the estimator it was given.\<close>

record ContextManager =
  cm_text_tokens :: "string \<Rightarrow> int"
  cm_image_tokens :: int
  cm_loads :: "string \<Rightarrow> json option"

definition utf8_tokens :: "string \<Rightarrow> int" where
  "utf8_tokens s = int (length s)"

definition ContextManager_init :: "(string \<Rightarrow> json option) \<Rightarrow> (string \<Rightarrow> int) option \<Rightarrow> int \<Rightarrow> ContextManager result" where
  "ContextManager_init loads estimator image_tokens =
     (if image_tokens < 1 then Raise (ValueError ''image_tokens must be a positive integer'')
      else Return \<lparr>cm_text_tokens = (case estimator of None \<Rightarrow> utf8_tokens | Some f \<Rightarrow> f), cm_image_tokens = image_tokens,
             cm_loads = loads\<rparr>)"

definition json_cost :: "ContextManager \<Rightarrow> json \<Rightarrow> int" where
  "json_cost cm v = cm_text_tokens cm (json_compact v)"

fun part_cost :: "ContextManager \<Rightarrow> ContentPart \<Rightarrow> int" where
  "part_cost cm (TextContent t) = cm_text_tokens cm t"
| "part_cost cm (ImageContent _ _ _) = cm_image_tokens cm"
| "part_cost cm (DocumentContent _ _ data) = cm_image_tokens cm + int (py_len data)"

definition text_or_empty :: "string option \<Rightarrow> string" where
  "text_or_empty t = (case t of None \<Rightarrow> [] | Some s \<Rightarrow> s)"

definition message_cost :: "ContextManager \<Rightarrow> ModelMessage \<Rightarrow> int" where
  "message_cost cm m =
     16 + cm_text_tokens cm (text_or_empty (mm_name m)) + cm_text_tokens cm (text_or_empty (mm_tool_call_id m)) +
     sum_list (map (part_cost cm) (mm_content m)) +
     (if mm_tool_calls m = [] then 0 else json_cost cm (JList (map tool_call_dump (mm_tool_calls m))))"

definition estimate :: "ContextManager \<Rightarrow> ModelRequest \<Rightarrow> int" where
  "estimate cm r =
     32 + json_cost cm (JList (map tool_dump (mq_tools r))) +
     (case mq_response_schema r of None \<Rightarrow> 0 | Some schema \<Rightarrow> json_cost cm (JObj schema)) +
     sum_list (map (message_cost cm) (mq_messages r))"

section \<open>Calls and results\<close>

fun register_calls :: "ModelToolCall list \<Rightarrow> string set \<times> string set \<Rightarrow> (string set \<times> string set) result" where
  "register_calls [] s = Return s"
| "register_calls (c # cs) s =
     (if mtc_call_id c \<in> snd s then Raise (ContextBudgetError ''duplicate tool call id'')
      else register_calls cs (insert (mtc_call_id c) (fst s), insert (mtc_call_id c) (snd s)))"

definition pair_step :: "ModelMessage \<Rightarrow> string set \<times> string set \<Rightarrow> (string set \<times> string set) result" where
  "pair_step m s =
     (if mm_role m = SYSTEM_ROLE then Return s
      else if mm_role m = TOOL_ROLE
      then (case mm_tool_call_id m of
              Some i \<Rightarrow> if i \<in> fst s then Return (fst s - {i}, snd s) else Raise (ContextBudgetError ''orphan or duplicate tool result'')
            | None \<Rightarrow> Raise (ContextBudgetError ''orphan or duplicate tool result''))
      else if fst s \<noteq> {} then Raise (ContextBudgetError ''tool calls are missing their results'')
      else register_calls (mm_tool_calls m) s)"

fun run_pairs :: "ModelMessage list \<Rightarrow> string set \<times> string set \<Rightarrow> (string set \<times> string set) result" where
  "run_pairs [] s = Return s"
| "run_pairs (m # ms) s = result_bind (pair_step m s) (run_pairs ms)"

definition validate_pairs :: "ModelMessage list \<Rightarrow> unit result" where
  "validate_pairs ms =
     result_bind (run_pairs ms ({}, {})) (\<lambda>s.
     if fst s \<noteq> {} then Raise (ContextBudgetError ''tool calls are missing their results'') else Return ())"

section \<open>Shortening\<close>

definition is_system :: "ModelMessage \<Rightarrow> bool" where
  "is_system m \<longleftrightarrow> mm_role m = SYSTEM_ROLE"

definition tool_limit :: "int \<Rightarrow> ModelMessage list \<Rightarrow> int" where
  "tool_limit budget ms =
     (let tool_count = int (length (filter (\<lambda>m. mm_role m = TOOL_ROLE) ms)) in
      max 64 (min 2048 (budget div max 4 (tool_count * 2))))"

definition reader_hint :: "ContextManager \<Rightarrow> string \<Rightarrow> (string \<times> json) list" where
  "reader_hint cm raw =
     (case cm_loads cm raw of
        Some (JObj payload) \<Rightarrow>
          (case dict_get payload ''result'' of
             Some (JObj r) \<Rightarrow>
               (case dict_get r ''result_reference'' of
                  Some (JObj reference) \<Rightarrow>
                    if length (json_ascii (JObj reference)) \<le> 512 then [(''result_reference'', JObj reference)] else []
                | _ \<Rightarrow> [])
           | _ \<Rightarrow> [])
      | _ \<Rightarrow> [])"

definition compact_text :: "ContextManager \<Rightarrow> int \<Rightarrow> string \<Rightarrow> string" where
  "compact_text cm per_tool raw =
     (let n = nat (max 0 (per_tool - 64)); excerpt = utf8_ignore n (take n raw) in
      json_spaced (JObj ([(''truncated'', JBool True), (''excerpt'', JStr excerpt)] @ reader_hint cm raw)))"

definition raw_text :: "ModelMessage \<Rightarrow> string" where
  "raw_text m = join_with [CHR 0x0A] (map the (filter (\<lambda>t. t \<noteq> None) (map part_text (mm_content m))))"

definition too_long :: "ContextManager \<Rightarrow> int \<Rightarrow> ModelMessage \<Rightarrow> bool" where
  "too_long cm per_tool m \<longleftrightarrow> mm_role m = TOOL_ROLE \<and> per_tool < cm_text_tokens cm (raw_text m)"

definition shorten :: "ContextManager \<Rightarrow> int \<Rightarrow> ModelMessage \<Rightarrow> ModelMessage" where
  "shorten cm per_tool m =
     (if too_long cm per_tool m then m\<lparr>mm_content := [TextContent (compact_text cm per_tool (raw_text m))]\<rparr> else m)"

section \<open>Rounds\<close>

text \<open>
  The loop over the messages with their positions: the rounds so far, each the positions of its messages, and whether the last one has
  its answer.
\<close>

definition add_to_rounds :: "nat list list \<times> bool \<Rightarrow> nat \<times> ModelMessage \<Rightarrow> nat list list \<times> bool" where
  "add_to_rounds s im =
     (let rounds = fst s; answered = snd s; i = fst im; m = snd im in
      if mm_role m = SYSTEM_ROLE then s
      else
        let fresh = (rounds = [] \<or> mm_role m = USER_ROLE \<and> answered);
            rounds' = (if fresh then rounds @ [[]] else rounds);
            answered' = (if fresh then False else answered) in
        (butlast rounds' @ [last rounds' @ [i]], if mm_role m = ASSISTANT_ROLE \<and> mm_tool_calls m = [] then True else answered'))"

definition rounds_of :: "ModelMessage list \<Rightarrow> nat list list" where
  "rounds_of ms = fst (foldl add_to_rounds ([], False) (enumerate 0 ms))"

definition without :: "nat set \<Rightarrow> ModelMessage list \<Rightarrow> ModelMessage list" where
  "without removed ms = map snd (filter (\<lambda>im. fst im \<notin> removed) (enumerate 0 ms))"

fun drop_rounds :: "ContextManager \<Rightarrow> int \<Rightarrow> ModelRequest \<Rightarrow> nat list list \<Rightarrow> nat set \<Rightarrow> nat \<Rightarrow> nat set \<times> nat" where
  "drop_rounds cm budget r [] removed n = (removed, n)"
| "drop_rounds cm budget r (old # rest) removed n =
     (if estimate cm (r\<lparr>mq_messages := without removed (mq_messages r)\<rparr>) \<le> budget then (removed, n)
      else drop_rounds cm budget r rest (removed \<union> set old) (Suc n))"

record PreparedContext =
  pcx_request :: ModelRequest
  pcx_estimated_input_tokens :: int
  pcx_removed_rounds :: nat
  pcx_truncated_tools :: nat

definition shortened :: "ContextManager \<Rightarrow> int \<Rightarrow> ModelRequest \<Rightarrow> ModelRequest" where
  "shortened cm budget r = r\<lparr>mq_messages := map (shorten cm (tool_limit budget (mq_messages r))) (mq_messages r)\<rparr>"

definition reduce_rounds :: "ContextManager \<Rightarrow> int \<Rightarrow> ModelRequest \<Rightarrow> nat \<Rightarrow> PreparedContext result" where
  "reduce_rounds cm budget r truncated =
     (let (removed, n) = drop_rounds cm budget r (butlast (rounds_of (mq_messages r))) {} 0;
          current = r\<lparr>mq_messages := without removed (mq_messages r)\<rparr> in
      if budget < estimate cm current then Raise (ContextCapacityError ''required current input exceeds context budget'')
      else result_bind (validate_pairs (mq_messages current)) (\<lambda>_.
        Return \<lparr>pcx_request = current, pcx_estimated_input_tokens = estimate cm current, pcx_removed_rounds = n,
          pcx_truncated_tools = truncated\<rparr>))"

definition budget_for :: "ModelRequest \<Rightarrow> int \<Rightarrow> int" where
  "budget_for r window = window - (if mq_max_output_tokens r = 0 then 4096 else mq_max_output_tokens r)"

definition prepare :: "ContextManager \<Rightarrow> ModelRequest \<Rightarrow> int \<Rightarrow> PreparedContext result" where
  "prepare cm r window =
     (if window < 1 then Raise (ValueError ''window_tokens must be a positive integer'')
      else result_bind (validate_pairs (mq_messages r)) (\<lambda>_.
        let budget = budget_for r window in
        if budget \<le> 0 then Raise (ContextCapacityError ''output reserve exhausts context budget'')
        else if estimate cm r \<le> budget
        then Return \<lparr>pcx_request = r, pcx_estimated_input_tokens = estimate cm r, pcx_removed_rounds = 0, pcx_truncated_tools = 0\<rparr>
        else reduce_rounds cm budget (shortened cm budget r)
          (length (filter (too_long cm (tool_limit budget (mq_messages r))) (mq_messages r)))))"

end
