(* ===== verification/Model_Context_Laws.thy ===== *)
theory Model_Context_Laws
  imports Model_Context
begin

text \<open>
  Why a shortened conversation is still a valid one: rounds begin where no call is waiting for its result, so leaving out the oldest rounds
  keeps every result with its call.
\<close>

section \<open>Calls and results\<close>

lemma run_pairs_append: "run_pairs (xs @ ys) s = result_bind (run_pairs xs s) (run_pairs ys)"
proof (induction xs arbitrary: s)
  case (Cons x xs)
  then show ?case by (cases "pair_step x s") simp_all
qed simp

lemma run_pairs_system: "list_all is_system ms \<Longrightarrow> run_pairs ms s = Return s"
  by (induction ms arbitrary: s) (simp_all add: pair_step_def is_system_def)

text \<open>Fewer used ids never hurt.\<close>

lemma register_calls_mono:
  "register_calls cs (P, U) = Return (P', U') \<Longrightarrow> V \<subseteq> U \<Longrightarrow> \<exists>V'. V' \<subseteq> U' \<and> register_calls cs (P, V) = Return (P', V')"
proof (induction cs arbitrary: P U V)
  case (Cons c cs)
  then have "mtc_call_id c \<notin> U"
    and rest: "register_calls cs (insert (mtc_call_id c) P, insert (mtc_call_id c) U) = Return (P', U')" by (auto split: if_splits)
  moreover have "insert (mtc_call_id c) V \<subseteq> insert (mtc_call_id c) U" using Cons.prems(2) by blast
  ultimately show ?case using Cons.IH [OF rest] Cons.prems(2) by (auto split: if_splits)
qed simp

lemma pair_step_mono:
  assumes "pair_step m (P, U) = Return (P', U')" "V \<subseteq> U"
  shows "\<exists>V'. V' \<subseteq> U' \<and> pair_step m (P, V) = Return (P', V')"
  using assms register_calls_mono [of "mm_tool_calls m" P U P' U' V] by (auto simp: pair_step_def split: if_splits option.splits)

lemma run_pairs_mono:
  "run_pairs ms (P, U) = Return (P', U') \<Longrightarrow> V \<subseteq> U \<Longrightarrow> \<exists>V'. V' \<subseteq> U' \<and> run_pairs ms (P, V) = Return (P', V')"
proof (induction ms arbitrary: P U V)
  case (Cons m ms)
  then obtain P1 U1 where step: "pair_step m (P, U) = Return (P1, U1)" and rest: "run_pairs ms (P1, U1) = Return (P', U')" by auto
  obtain V1 where "V1 \<subseteq> U1" "pair_step m (P, V) = Return (P1, V1)" using pair_step_mono [OF step Cons.prems(2)] by blast
  then show ?case using Cons.IH [OF rest] by simp
qed simp

lemma validate_pairs_Return: "validate_pairs ms = Return () \<longleftrightarrow> (\<exists>U. run_pairs ms ({}, {}) = Return ({}, U))"
  by (cases "run_pairs ms ({}, {})") (auto simp: validate_pairs_def)

lemma validate_pairs_cut:
  assumes valid: "validate_pairs ms = Return ()" and n: "n < length ms" and user: "mm_role (ms ! n) = USER_ROLE"
  shows "validate_pairs (filter is_system (take n ms) @ drop n ms) = Return ()"
proof -
  obtain U where U: "run_pairs ms ({}, {}) = Return ({}, U)" using valid validate_pairs_Return by blast
  then have "run_pairs (take n ms @ drop n ms) ({}, {}) = Return ({}, U)" by simp
  then obtain P1 U1 where "run_pairs (take n ms) ({}, {}) = Return (P1, U1)" and rest: "run_pairs (drop n ms) (P1, U1) = Return ({}, U)"
    by (auto simp del: append_take_drop_id simp: run_pairs_append)
  have "P1 = {}"
    using rest user unfolding Cons_nth_drop_Suc [OF n, symmetric] by (auto simp: pair_step_def split: if_splits)
  then obtain V where "run_pairs (drop n ms) ({}, {}) = Return ({}, V)" using run_pairs_mono [OF rest, of "{}"] by blast
  moreover have "run_pairs (filter is_system (take n ms)) ({}, {}) = Return ({}, {})"
    by (rule run_pairs_system) (simp add: list_all_iff)
  ultimately show ?thesis by (auto simp: validate_pairs_Return run_pairs_append)
qed

lemma shorten_sel [simp]:
  "mm_role (shorten cm k m) = mm_role m" "mm_tool_calls (shorten cm k m) = mm_tool_calls m"
  "mm_tool_call_id (shorten cm k m) = mm_tool_call_id m" "mm_name (shorten cm k m) = mm_name m"
  by (simp_all add: shorten_def)

lemma pair_step_shorten [simp]: "pair_step (shorten cm k m) s = pair_step m s"
  by (simp add: pair_step_def)

lemma validate_pairs_shorten [simp]: "validate_pairs (map (shorten cm k) ms) = validate_pairs ms"
proof -
  have "run_pairs (map (shorten cm k) ms) s = run_pairs ms s" for s
  proof (induction ms arbitrary: s)
    case (Cons m ms)
    then show ?case by (cases "pair_step m s") simp_all
  qed simp
  then show ?thesis by (simp add: validate_pairs_def)
qed

section \<open>Rounds\<close>

text \<open>The rounds partition the positions of the other messages, in order, and every round but the first begins with a user's message.\<close>

lemma rounds_state:
  "(let (rs, answered) = foldl add_to_rounds ([], False) (enumerate 0 ms) in
    concat rs = filter (\<lambda>i. \<not> is_system (ms ! i)) [0..<length ms] \<and> [] \<notin> set rs \<and>
    (\<forall>k. 0 < k \<longrightarrow> k < length rs \<longrightarrow> mm_role (ms ! hd (rs ! k)) = USER_ROLE))"
proof (induction ms rule: rev_induct)
  case (snoc m ms)
  let ?s = "foldl add_to_rounds ([], False) (enumerate 0 ms)"
  obtain rs answered where s: "?s = (rs, answered)" by (rule prod.exhaust)
  have IH: "concat rs = filter (\<lambda>i. \<not> is_system (ms ! i)) [0..<length ms]" "[] \<notin> set rs"
    "\<And>k. 0 < k \<Longrightarrow> k < length rs \<Longrightarrow> mm_role (ms ! hd (rs ! k)) = USER_ROLE"
    using snoc.IH by (simp_all add: s)
  have old: "filter (\<lambda>i. \<not> is_system ((ms @ [m]) ! i)) [0..<length ms] = concat rs"
    unfolding IH(1) by (rule filter_cong) (simp_all add: nth_append)
  have inside: "hd (rs ! k) < length ms" if "k < length rs" for k
  proof -
    have "rs ! k \<in> set rs" using that by simp
    then have "hd (rs ! k) \<in> set (concat rs)" using IH(2) by (metis UN_I hd_in_set set_concat)
    then show ?thesis unfolding IH(1) by simp
  qed
  have step: "foldl add_to_rounds ([], False) (enumerate 0 (ms @ [m])) = add_to_rounds (rs, answered) (length ms, m)"
    by (simp add: enumerate_append_eq s)
  show ?case
  proof (cases "is_system m")
    case True
    then have "add_to_rounds (rs, answered) (length ms, m) = (rs, answered)" by (simp add: add_to_rounds_def is_system_def)
    then show ?thesis using True IH old inside by (simp add: step nth_append)
  next
    case False
    let ?fresh = "rs = [] \<or> mm_role m = USER_ROLE \<and> answered"
    obtain a where new: "add_to_rounds (rs, answered) (length ms, m) =
        ((if ?fresh then rs @ [[length ms]] else butlast rs @ [last rs @ [length ms]]), a)"
      using False by (simp add: add_to_rounds_def is_system_def Let_def)
    have all: "filter (\<lambda>i. \<not> is_system ((ms @ [m]) ! i)) [0..<length (ms @ [m])] = concat rs @ [length ms]"
      using False by (simp add: old)
    show ?thesis
    proof (cases ?fresh)
      case True
      then have "mm_role ((ms @ [m]) ! hd ((rs @ [[length ms]]) ! k)) = USER_ROLE" if "0 < k" "k < Suc (length rs)" for k
        using that IH(3) inside by (cases "k = length rs") (auto simp: nth_append)
      then show ?thesis unfolding step new all using True IH(2) by auto
    next
      case no: False
      then obtain front final where rs: "rs = front @ [final]" by (metis append_butlast_last_id)
      have "mm_role ((ms @ [m]) ! hd ((front @ [final @ [length ms]]) ! k)) = USER_ROLE" if "0 < k" "k < length rs" for k
      proof -
        have "hd ((front @ [final @ [length ms]]) ! k) = hd (rs ! k)"
          using that IH(2) by (cases "k = length front") (auto simp: rs nth_append hd_append)
        then show ?thesis using IH(3) [OF that] inside [OF that(2)] by (simp add: nth_append)
      qed
      then show ?thesis unfolding step new all using no IH(2) by (auto simp: rs)
    qed
  qed
qed simp

lemma rounds_concat: "concat (rounds_of ms) = filter (\<lambda>i. \<not> is_system (ms ! i)) [0..<length ms]"
  and rounds_nonempty: "[] \<notin> set (rounds_of ms)"
  and rounds_user: "0 < k \<Longrightarrow> k < length (rounds_of ms) \<Longrightarrow> mm_role (ms ! hd (rounds_of ms ! k)) = USER_ROLE"
  using rounds_state [of ms] by (auto simp: rounds_of_def split: prod.splits)

definition oldest :: "nat \<Rightarrow> ModelMessage list \<Rightarrow> nat set" where
  "oldest k ms = set (concat (take k (rounds_of ms)))"

text \<open>Where round \<open>k\<close> begins.\<close>

definition cut :: "nat \<Rightarrow> ModelMessage list \<Rightarrow> nat" where
  "cut k ms = (if k = 0 then 0 else hd (rounds_of ms ! k))"

lemma cut_less:
  assumes "0 < k" "k < length (rounds_of ms)"
  shows "cut k ms < length ms"
proof -
  have "rounds_of ms ! k \<in> set (rounds_of ms)" using assms by simp
  then have "hd (rounds_of ms ! k) \<in> set (concat (rounds_of ms))" using rounds_nonempty by (metis UN_I hd_in_set set_concat)
  then show ?thesis unfolding rounds_concat using assms(1) by (simp add: cut_def)
qed

lemma oldest_before:
  assumes k: "0 < k" "k < length (rounds_of ms)"
  shows "oldest k ms = {i. i < cut k ms \<and> \<not> is_system (ms ! i)}"
proof -
  let ?rs = "rounds_of ms" and ?n = "cut k ms"
  have split: "concat ?rs = concat (take k ?rs) @ concat (drop k ?rs)" by (metis append_take_drop_id concat_append)
  have "sorted (concat ?rs)" "distinct (concat ?rs)" unfolding rounds_concat by (simp_all add: sorted_wrt_filter)
  then have sorted: "sorted (concat (take k ?rs) @ concat (drop k ?rs))" "distinct (concat (take k ?rs) @ concat (drop k ?rs))"
    by (simp_all only: split)
  obtain rest where rest: "concat (drop k ?rs) = ?n # rest"
  proof -
    have "?rs ! k \<noteq> []" using k rounds_nonempty by (metis nth_mem)
    then show thesis
      using that k(1) by (cases "?rs ! k") (auto simp: Cons_nth_drop_Suc [OF k(2), symmetric] cut_def)
  qed
  have below: "i < ?n" if "i \<in> set (concat (take k ?rs))" for i
    using sorted that by (fastforce simp: sorted_append rest)
  have above: "?n \<le> i" if "i \<in> set (concat (drop k ?rs))" for i
    using sorted(1) that by (auto simp: sorted_append rest)
  have "set (concat (take k ?rs)) \<union> set (concat (drop k ?rs)) = {i. i < length ms \<and> \<not> is_system (ms ! i)}"
    using arg_cong [OF split, of set] unfolding rounds_concat by auto
  then have "i \<in> set (concat (take k ?rs)) \<or> i \<in> set (concat (drop k ?rs)) \<longleftrightarrow> i < length ms \<and> \<not> is_system (ms ! i)" for i
    by blast
  then have "i \<in> set (concat (take k ?rs)) \<longleftrightarrow> i < ?n \<and> \<not> is_system (ms ! i)" for i
    using below [of i] above [of i] cut_less [OF k] by (meson leD less_trans)
  then show ?thesis unfolding oldest_def by blast
qed

lemma without_before:
  assumes "n \<le> length ms"
  shows "without {i. i < n \<and> \<not> is_system (ms ! i)} ms = filter is_system (take n ms) @ drop n ms"
proof -
  let ?keep = "\<lambda>im. fst im \<notin> {i. i < n \<and> \<not> is_system (ms ! i)}"
  have "enumerate 0 ms = enumerate 0 (take n ms) @ enumerate n (drop n ms)"
    using assms enumerate_append_eq [of 0 "take n ms" "drop n ms"] by simp
  moreover have "filter ?keep (enumerate 0 (take n ms)) = filter (is_system \<circ> snd) (enumerate 0 (take n ms))"
    using assms by (intro filter_cong) (auto simp: in_set_enumerate_eq)
  moreover have "filter ?keep (enumerate n (drop n ms)) = enumerate n (drop n ms)"
    by (rule filter_True) (auto simp: in_set_enumerate_eq)
  moreover have "map snd (filter (is_system \<circ> snd) xs) = filter is_system (map snd xs)" for xs :: "(nat \<times> ModelMessage) list"
    by (simp add: filter_map)
  ultimately show ?thesis by (simp add: without_def)
qed

lemma without_oldest:
  assumes "k < length (rounds_of ms)"
  shows "without (oldest k ms) ms = filter is_system (take (cut k ms) ms) @ drop (cut k ms) ms"
proof (cases k)
  case 0
  then show ?thesis by (simp add: oldest_def cut_def without_def)
next
  case (Suc j)
  then show ?thesis using assms oldest_before [of k ms] without_before [of "cut k ms" ms] cut_less [of k ms] by simp
qed

lemma rounds_shorten [simp]: "rounds_of (map (shorten cm k) ms) = rounds_of ms"
proof -
  have "foldl add_to_rounds s (enumerate n (map (shorten cm k) ms)) = foldl add_to_rounds s (enumerate n ms)" for s n
    by (induction ms arbitrary: s n) (simp_all add: add_to_rounds_def Let_def)
  then show ?thesis by (simp add: rounds_of_def)
qed

section \<open>The loop\<close>

definition cut_request :: "ModelRequest \<Rightarrow> nat \<Rightarrow> ModelRequest" where
  "cut_request r k = r\<lparr>mq_messages := without (oldest k (mq_messages r)) (mq_messages r)\<rparr>"

text \<open>The loop leaves out as few rounds as make the request fit, and never the last one.\<close>

lemma drop_rounds_from:
  assumes "rs = drop j (butlast (rounds_of (mq_messages r)))" "j \<le> length (butlast (rounds_of (mq_messages r)))"
  shows "\<exists>k. drop_rounds cm b r rs (oldest j (mq_messages r)) j = (oldest k (mq_messages r), k) \<and> j \<le> k \<and>
      k \<le> length (butlast (rounds_of (mq_messages r))) \<and> (\<forall>i. j \<le> i \<longrightarrow> i < k \<longrightarrow> b < estimate cm (cut_request r i)) \<and>
      (k = length (butlast (rounds_of (mq_messages r))) \<or> estimate cm (cut_request r k) \<le> b)"
  using assms
proof (induction rs arbitrary: j)
  case (Cons old rest)
  let ?all = "rounds_of (mq_messages r)"
  have j: "j < length (butlast ?all)" and old: "old = butlast ?all ! j" and rest: "rest = drop (Suc j) (butlast ?all)"
  proof -
    show j: "j < length (butlast ?all)" using Cons.prems(1) by (metis drop_eq_Nil list.distinct(1) not_le)
    have "old # rest = butlast ?all ! j # drop (Suc j) (butlast ?all)"
      using Cons.prems(1) Cons_nth_drop_Suc [OF j] by metis
    then show "old = butlast ?all ! j" "rest = drop (Suc j) (butlast ?all)" by simp_all
  qed
  have next': "oldest j (mq_messages r) \<union> set old = oldest (Suc j) (mq_messages r)"
    using j by (simp add: oldest_def old take_Suc_conv_app_nth nth_butlast)
  show ?case
  proof (cases "estimate cm (cut_request r j) \<le> b")
    case True
    then show ?thesis using j by (intro exI [of _ j]) (simp add: cut_request_def)
  next
    case False
    obtain k where k: "drop_rounds cm b r rest (oldest (Suc j) (mq_messages r)) (Suc j) = (oldest k (mq_messages r), k)" "Suc j \<le> k"
      "k \<le> length (butlast ?all)" "\<forall>i. Suc j \<le> i \<longrightarrow> i < k \<longrightarrow> b < estimate cm (cut_request r i)"
      "k = length (butlast ?all) \<or> estimate cm (cut_request r k) \<le> b"
      using Cons.IH [OF rest] j by auto
    have "b < estimate cm (cut_request r i)" if "j \<le> i" "i < k" for i
      using k(4) that False by (cases "i = j") auto
    then show ?thesis using False k next' by (intro exI [of _ k]) (auto simp: cut_request_def)
  qed
qed auto

lemma drop_rounds_all:
  obtains k where "drop_rounds cm b r (butlast (rounds_of (mq_messages r))) {} 0 = (oldest k (mq_messages r), k)"
    "k = 0 \<or> k < length (rounds_of (mq_messages r))" "\<forall>i < k. b < estimate cm (cut_request r i)"
    "Suc k < length (rounds_of (mq_messages r)) \<longrightarrow> estimate cm (cut_request r k) \<le> b"
proof -
  have "oldest 0 (mq_messages r) = {}" by (simp add: oldest_def)
  with drop_rounds_from [of "butlast (rounds_of (mq_messages r))" 0 r cm b] obtain k where
    k: "drop_rounds cm b r (butlast (rounds_of (mq_messages r))) {} 0 = (oldest k (mq_messages r), k)"
    "k \<le> length (rounds_of (mq_messages r)) - 1" "\<forall>i. 0 \<le> i \<longrightarrow> i < k \<longrightarrow> b < estimate cm (cut_request r i)"
    "k = length (rounds_of (mq_messages r)) - 1 \<or> estimate cm (cut_request r k) \<le> b" by auto
  show thesis
  proof (rule that [OF k(1)])
    show "k = 0 \<or> k < length (rounds_of (mq_messages r))" using k(2) by linarith
    show "\<forall>i < k. b < estimate cm (cut_request r i)" using k(3) by simp
    show "Suc k < length (rounds_of (mq_messages r)) \<longrightarrow> estimate cm (cut_request r k) \<le> b" using k(4) by auto
  qed
qed

lemma cut_request_0 [simp]: "cut_request r 0 = r"
  by (simp add: cut_request_def oldest_def without_def)

lemma cut_request_messages:
  assumes "k = 0 \<or> k < length (rounds_of (mq_messages r))"
  shows "mq_messages (cut_request r k) =
    filter is_system (take (cut k (mq_messages r)) (mq_messages r)) @ drop (cut k (mq_messages r)) (mq_messages r)"
  using assms without_oldest [of k "mq_messages r"] by (cases "k = 0") (auto simp: cut_request_def cut_def oldest_def without_def)

lemma cut_request_valid:
  assumes "validate_pairs (mq_messages r) = Return ()" "k = 0 \<or> k < length (rounds_of (mq_messages r))"
  shows "validate_pairs (mq_messages (cut_request r k)) = Return ()"
proof (cases "k = 0")
  case False
  then have "cut k (mq_messages r) < length (mq_messages r)" "mm_role (mq_messages r ! cut k (mq_messages r)) = USER_ROLE"
    using assms(2) cut_less rounds_user by (auto simp: cut_def)
  then show ?thesis unfolding cut_request_messages [OF assms(2)] by (rule validate_pairs_cut [OF assms(1)])
qed (simp add: assms(1))

text \<open>The second check of the pairs never fails.\<close>

lemma reduce_rounds_cases:
  assumes valid: "validate_pairs (mq_messages r) = Return ()"
  obtains k where "k = 0 \<or> k < length (rounds_of (mq_messages r))" "\<forall>i < k. b < estimate cm (cut_request r i)"
    "estimate cm (cut_request r k) \<le> b"
    "reduce_rounds cm b r t = Return \<lparr>pcx_request = cut_request r k, pcx_estimated_input_tokens = estimate cm (cut_request r k),
       pcx_removed_rounds = k, pcx_truncated_tools = t\<rparr>"
  | "\<forall>k. k = 0 \<or> k < length (rounds_of (mq_messages r)) \<longrightarrow> b < estimate cm (cut_request r k)"
    "reduce_rounds cm b r t = Raise (ContextCapacityError ''required current input exceeds context budget'')"
proof -
  obtain k where k: "drop_rounds cm b r (butlast (rounds_of (mq_messages r))) {} 0 = (oldest k (mq_messages r), k)"
    "k = 0 \<or> k < length (rounds_of (mq_messages r))" "\<forall>i < k. b < estimate cm (cut_request r i)"
    "Suc k < length (rounds_of (mq_messages r)) \<longrightarrow> estimate cm (cut_request r k) \<le> b"
    by (rule drop_rounds_all)
  have same: "r\<lparr>mq_messages := without (oldest k (mq_messages r)) (mq_messages r)\<rparr> = cut_request r k" by (simp add: cut_request_def)
  have "validate_pairs (mq_messages (cut_request r k)) = Return ()" by (rule cut_request_valid [OF valid k(2)])
  show thesis
  proof (cases "estimate cm (cut_request r k) \<le> b")
    case True
    show thesis
      by (rule that(1) [OF k(2,3) True])
        (use True k(1) \<open>validate_pairs (mq_messages (cut_request r k)) = Return ()\<close> in \<open>simp add: reduce_rounds_def same Let_def\<close>)
  next
    case False
    then have final: "\<not> Suc k < length (rounds_of (mq_messages r))" using k(4) by blast
    have "b < estimate cm (cut_request r i)" if "i = 0 \<or> i < length (rounds_of (mq_messages r))" for i
    proof (cases "i < k")
      case False
      then have "i = k" using that final by linarith
      then show ?thesis using \<open>\<not> estimate cm (cut_request r k) \<le> b\<close> by simp
    qed (use k(3) in blast)
    then show thesis using that(2) False k(1) by (simp add: reduce_rounds_def same Let_def)
  qed
qed

end
