(* ===== verification/Model_Registry.thy ===== *)
theory Model_Registry
  imports Model_Types
begin

text \<open>
  \<^verbatim>\<open>src/suiteharness/models/registry.py\<close>: the registry of model providers and the table of the built-in ones. A factory is a value of
  type \<open>'f\<close>, what it builds and how secrets are resolved are parameters. Names are added to the alias table in sorted order;
  the code adds them in the order of a set, and no lookup can tell.
\<close>

section \<open>The registry\<close>

record 'f ProviderRegistry =
  prg_entries :: "(string, ProviderDescriptor \<times> 'f option) dict"
  prg_aliases :: "(string, string) dict"

definition empty_providers :: "'f ProviderRegistry" where
  "empty_providers = \<lparr>prg_entries = [], prg_aliases = []\<rparr>"

definition provider_names :: "ProviderDescriptor \<Rightarrow> string set" where
  "provider_names d = insert (pd_provider_id d) (pd_aliases d)"

definition provider_register ::
    "ProviderDescriptor \<Rightarrow> 'f option \<Rightarrow> 'f ProviderRegistry \<Rightarrow> 'f ProviderRegistry result" where
  "provider_register d factory reg =
     (let names = provider_names d;
          collisions = sorted_list_of_set (Set.filter (\<lambda>n. n \<in> set (dict_keys (prg_aliases reg))) names) in
      if dict_get (prg_entries reg) (pd_provider_id d) \<noteq> None \<or> collisions \<noteq> []
      then Raise (ValueError (''model provider id/alias already registered: '' @
             (if collisions = [] then pd_provider_id d else hd collisions)))
      else Return (reg\<lparr>prg_entries := dict_set (pd_provider_id d) (d, factory) (prg_entries reg),
             prg_aliases := fold (\<lambda>n. dict_set n (pd_provider_id d)) (sorted_list_of_set names) (prg_aliases reg)\<rparr>))"

definition canonical_provider :: "'f ProviderRegistry \<Rightarrow> string \<Rightarrow> string" where
  "canonical_provider reg i = (case dict_get (prg_aliases reg) i of None \<Rightarrow> i | Some c \<Rightarrow> c)"

definition provider_entry :: "'f ProviderRegistry \<Rightarrow> string \<Rightarrow> (ProviderDescriptor \<times> 'f option) option" where
  "provider_entry reg i = dict_get (prg_entries reg) (canonical_provider reg i)"

definition provider_descriptor :: "'f ProviderRegistry \<Rightarrow> string \<Rightarrow> ProviderDescriptor option" where
  "provider_descriptor reg i = map_option fst (provider_entry reg i)"

definition bind_factory :: "string \<Rightarrow> 'f \<Rightarrow> 'f ProviderRegistry \<Rightarrow> 'f ProviderRegistry result" where
  "bind_factory i factory reg =
     (case provider_entry reg i of
        None \<Rightarrow> Raise (LookupError (''model provider '' @ py_repr i @ '' is not registered''))
      | Some (d, existing) \<Rightarrow>
          if existing \<noteq> None
          then Raise (ValueError (''model provider '' @ py_repr (canonical_provider reg i) @ '' already has a factory''))
          else Return (reg\<lparr>prg_entries := dict_set (canonical_provider reg i) (d, Some factory) (prg_entries reg)\<rparr>))"

text \<open>The credential a provider is built with; \<open>secret\<close> is the resolver.\<close>

definition provider_credential :: "(string \<Rightarrow> 's result) \<Rightarrow> ProviderDescriptor \<Rightarrow> ModelProfile \<Rightarrow> 's option result" where
  "provider_credential secret d p =
     (let given = (case mp_credential_ref p of None \<Rightarrow> None | Some ref \<Rightarrow> if ref = [] then None else Some ref) in
      if pd_auth d = API_KEY
      then (case given of
              None \<Rightarrow> Raise (model_error CREDENTIAL_MISSING
                (''profile '' @ py_repr (mp_profile_id p) @ '' has no server credential reference'') (Some (pd_provider_id d)))
            | Some ref \<Rightarrow>
                (case secret ref of
                   Inl _ \<Rightarrow> Raise (model_error CREDENTIAL_MISSING
                     (''credential for profile '' @ py_repr (mp_profile_id p) @ '' is unavailable'') (Some (pd_provider_id d)))
                 | Inr s \<Rightarrow> Return (Some s)))
      else if pd_auth d = INTERNAL_NONE
      then (case given of None \<Rightarrow> Return None | Some ref \<Rightarrow> result_bind (secret ref) (\<lambda>s. Return (Some s)))
      else Return None)"

definition provider_create ::
    "('f \<Rightarrow> ProviderDescriptor \<Rightarrow> ModelProfile \<Rightarrow> 's option \<Rightarrow> 'p result) \<Rightarrow> (string \<Rightarrow> 's result) \<Rightarrow> 'f ProviderRegistry \<Rightarrow>
     ModelProfile \<Rightarrow> 'p result" where
  "provider_create adapt secret reg p =
     (case provider_entry reg (mp_provider_id p) of
        None \<Rightarrow> Raise (model_error PROVIDER_NOT_FOUND
          (''model provider '' @ py_repr (mp_provider_id p) @ '' is not registered'') None)
      | Some (d, None) \<Rightarrow> Raise (model_error CONFIGURATION
          (''provider '' @ py_repr (pd_provider_id d) @ '' requires a deployment adapter factory'') (Some (pd_provider_id d)))
      | Some (d, Some factory) \<Rightarrow>
          result_bind (provider_credential secret d p) (\<lambda>credential.
          result_bind (effective_capabilities p (pd_capabilities d)) (\<lambda>capabilities.
          adapt factory (d\<lparr>pd_capabilities := capabilities\<rparr>) p credential)))"

definition provider_descriptors :: "'f ProviderRegistry \<Rightarrow> ProviderDescriptor list" where
  "provider_descriptors reg = map (\<lambda>e. fst (snd e)) (sort_key fst (prg_entries reg))"

section \<open>The built-in providers\<close>

text \<open>\<open>_factory\<close>, up to the construction of the adapter.\<close>

definition builtin_factory :: "ProviderDescriptor \<Rightarrow> 's option \<Rightarrow> AdapterKind result" where
  "builtin_factory d credential =
     (if pd_adapter d = OPENAI_CHAT then Return OPENAI_CHAT
      else if credential = None
      then Raise (model_error CREDENTIAL_MISSING
             (''provider '' @ py_repr (pd_provider_id d) @ '' requires a server credential'') (Some (pd_provider_id d)))
      else if pd_adapter d \<in> {ANTHROPIC_MESSAGES, GEMINI, OPENAI_RESPONSES} then Return (pd_adapter d)
      else Raise (model_error CONFIGURATION
             (''provider adapter '' @ py_repr (adapter_value (pd_adapter d)) @ '' needs an explicit factory'') (Some (pd_provider_id d))))"

definition TOOLS_VISION :: ProviderCapabilities where
  "TOOLS_VISION = default_capabilities\<lparr>cap_json_schema := True, cap_reasoning := True, cap_vision := True\<rparr>"

definition compatible :: "string \<Rightarrow> string \<Rightarrow> string option \<Rightarrow> string list \<Rightarrow> ProviderAuthKind \<Rightarrow> ProviderDescriptor" where
  "compatible i name base_url aliases auth =
     \<lparr>pd_provider_id = i, pd_display_name = name, pd_adapter = OPENAI_CHAT, pd_auth = auth, pd_default_base_url = base_url,
      pd_aliases = set aliases, pd_capabilities = default_capabilities\<rparr>"

definition BUILTIN_PROVIDERS :: "ProviderDescriptor list" where
  "BUILTIN_PROVIDERS =
     [\<lparr>pd_provider_id = ''openai'', pd_display_name = ''OpenAI'', pd_adapter = OPENAI_RESPONSES, pd_auth = API_KEY,
       pd_default_base_url = Some ''https://api.openai.com/v1'', pd_aliases = {}, pd_capabilities = TOOLS_VISION\<rparr>,
      \<lparr>pd_provider_id = ''anthropic'', pd_display_name = ''Anthropic'', pd_adapter = ANTHROPIC_MESSAGES, pd_auth = API_KEY,
       pd_default_base_url = Some ''https://api.anthropic.com'', pd_aliases = {},
       pd_capabilities = default_capabilities\<lparr>cap_reasoning := True, cap_vision := True, cap_documents := True\<rparr>\<rparr>,
      \<lparr>pd_provider_id = ''gemini'', pd_display_name = ''Google Gemini'', pd_adapter = GEMINI, pd_auth = API_KEY,
       pd_default_base_url = Some ''https://generativelanguage.googleapis.com/v1beta'', pd_aliases = {''google''},
       pd_capabilities = TOOLS_VISION\<rparr>,
      \<lparr>pd_provider_id = ''bedrock'', pd_display_name = ''AWS Bedrock'', pd_adapter = BEDROCK_CONVERSE, pd_auth = AWS_IAM,
       pd_default_base_url = None, pd_aliases = {},
       pd_capabilities = default_capabilities\<lparr>cap_reasoning := True, cap_vision := True, cap_documents := True\<rparr>\<rparr>,
      \<lparr>pd_provider_id = ''vertex'', pd_display_name = ''Google Vertex AI'', pd_adapter = VERTEX_GEMINI, pd_auth = GOOGLE_SERVICE_ACCOUNT,
       pd_default_base_url = None, pd_aliases = {}, pd_capabilities = TOOLS_VISION\<rparr>,
      compatible ''deepseek'' ''DeepSeek'' (Some ''https://api.deepseek.com/v1'') [] API_KEY,
      compatible ''dashscope'' ''Alibaba Cloud DashScope'' (Some ''https://dashscope.aliyuncs.com/compatible-mode/v1'') [''qwen''] API_KEY,
      compatible ''volcengine'' ''VolcEngine Ark'' (Some ''https://ark.cn-beijing.volces.com/api/v3'') [''doubao'', ''ark''] API_KEY,
      compatible ''moonshot'' ''Moonshot AI'' (Some ''https://api.moonshot.cn/v1'') [''kimi''] API_KEY,
      compatible ''minimax'' ''MiniMax'' (Some ''https://api.minimax.io/v1'') [] API_KEY,
      compatible ''zhipu'' ''Zhipu AI'' (Some ''https://open.bigmodel.cn/api/paas/v4'') [''glm''] API_KEY,
      compatible ''baidu'' ''Baidu Qianfan'' (Some ''https://qianfan.baidubce.com/v2'') [''ernie''] API_KEY,
      compatible ''modelscope'' ''ModelScope'' (Some ''https://api-inference.modelscope.cn/v1'') [] API_KEY,
      compatible ''siliconflow'' ''SiliconFlow'' (Some ''https://api.siliconflow.cn/v1'') [] API_KEY,
      compatible ''openrouter'' ''OpenRouter'' (Some ''https://openrouter.ai/api/v1'') [] API_KEY,
      compatible ''aihubmix'' ''AiHubMix'' (Some ''https://aihubmix.com/v1'') [] API_KEY,
      compatible ''groq'' ''Groq'' (Some ''https://api.groq.com/openai/v1'') [] API_KEY,
      compatible ''mistral'' ''Mistral AI'' (Some ''https://api.mistral.ai/v1'') [] API_KEY,
      compatible ''stepfun'' ''StepFun'' (Some ''https://api.stepfun.com/v1'') [] API_KEY,
      compatible ''ollama'' ''Ollama server'' (Some ''http://127.0.0.1:11434/v1'') [] INTERNAL_NONE,
      compatible ''vllm'' ''vLLM server'' None [] INTERNAL_NONE]"

definition has_builtin_factory :: "ProviderDescriptor \<Rightarrow> bool" where
  "has_builtin_factory d \<longleftrightarrow> pd_adapter d \<in> {OPENAI_CHAT, ANTHROPIC_MESSAGES, GEMINI, OPENAI_RESPONSES}"

fun register_all :: "ProviderDescriptor list \<Rightarrow> 'f \<Rightarrow> 'f ProviderRegistry \<Rightarrow> 'f ProviderRegistry result" where
  "register_all [] factory reg = Return reg"
| "register_all (d # ds) factory reg =
     result_bind (provider_register d (if has_builtin_factory d then Some factory else None) reg) (register_all ds factory)"

definition create_builtin_provider_registry :: "'f \<Rightarrow> 'f ProviderRegistry result" where
  "create_builtin_provider_registry factory = register_all BUILTIN_PROVIDERS factory empty_providers"

section \<open>Laws\<close>

text \<open>Every name in the alias table belongs to exactly one descriptor, and every descriptor has all its names there.\<close>

definition providers_ok :: "'f ProviderRegistry \<Rightarrow> bool" where
  "providers_ok reg \<longleftrightarrow>
     (\<forall>i d f. dict_get (prg_entries reg) i = Some (d, f) \<longrightarrow> pd_provider_id d = i \<and> finite (pd_aliases d)) \<and>
     (\<forall>n i. dict_get (prg_aliases reg) n = Some i \<longleftrightarrow>
        (\<exists>d f. dict_get (prg_entries reg) i = Some (d, f) \<and> n \<in> provider_names d))"

lemma providers_ok_empty: "providers_ok empty_providers"
  by (simp add: providers_ok_def empty_providers_def)

lemma register_Return:
  assumes reg: "provider_register d f reg = Return reg'" and fin: "finite (pd_aliases d)"
  shows "dict_get (prg_entries reg) (pd_provider_id d) = None" "\<And>n. n \<in> provider_names d \<Longrightarrow> dict_get (prg_aliases reg) n = None"
    "dict_get (prg_entries reg') = (dict_get (prg_entries reg))(pd_provider_id d \<mapsto> (d, f))"
    "dict_get (prg_aliases reg') n = (if n \<in> provider_names d then Some (pd_provider_id d) else dict_get (prg_aliases reg) n)"
proof -
  let ?names = "provider_names d"
  let ?hits = "Set.filter (\<lambda>n. n \<in> set (dict_keys (prg_aliases reg))) ?names"
  have fin_names: "finite ?names" using fin by (simp add: provider_names_def)
  then have "finite ?hits" by simp
  then have hits: "sorted_list_of_set ?hits = [] \<longleftrightarrow> ?hits = {}" by (simp add: sorted_list_of_set_eq_Nil_iff)
  show "dict_get (prg_entries reg) (pd_provider_id d) = None"
    using reg by (cases "dict_get (prg_entries reg) (pd_provider_id d)") (simp_all add: provider_register_def Let_def)
  have none: "?hits = {}" using reg hits by (auto simp: provider_register_def Let_def split: if_splits)
  then show "dict_get (prg_aliases reg) n = None" if "n \<in> ?names" for n using that by (auto simp: dict_get_None)
  show "dict_get (prg_entries reg') = (dict_get (prg_entries reg))(pd_provider_id d \<mapsto> (d, f))"
    "dict_get (prg_aliases reg') n = (if n \<in> ?names then Some (pd_provider_id d) else dict_get (prg_aliases reg) n)"
    using reg fin_names by (auto simp: provider_register_def Let_def dict_get_fold_const split: if_splits)
qed

lemma providers_ok_register:
  assumes ok: "providers_ok reg" and fin: "finite (pd_aliases d)" and reg: "provider_register d f reg = Return reg'"
  shows "providers_ok reg'"
proof -
  note r = register_Return [OF reg fin]
  have "dict_get (prg_aliases reg') n = Some i \<longleftrightarrow> (\<exists>e g. dict_get (prg_entries reg') i = Some (e, g) \<and> n \<in> provider_names e)" for n i
  proof (cases "n \<in> provider_names d")
    case True
    have "\<not> (\<exists>e g. dict_get (prg_entries reg) i = Some (e, g) \<and> n \<in> provider_names e)"
      using ok r(2) [OF True] unfolding providers_ok_def by (metis option.distinct(1))
    then show ?thesis using True r(3,4) by auto
  next
    case False
    then show ?thesis using ok r(1,3,4) unfolding providers_ok_def by auto
  qed
  moreover have "pd_provider_id e = i \<and> finite (pd_aliases e)" if "dict_get (prg_entries reg') i = Some (e, g)" for i e g
    using ok that fin unfolding providers_ok_def r(3) by (auto split: if_splits)
  ultimately show ?thesis unfolding providers_ok_def by blast
qed

lemma providers_ok_bind:
  assumes ok: "providers_ok reg" and bind: "bind_factory i f reg = Return reg'"
  shows "providers_ok reg'"
proof -
  let ?c = "canonical_provider reg i"
  obtain d where d: "dict_get (prg_entries reg) ?c = Some (d, None)" and reg': "reg' = reg\<lparr>prg_entries := dict_set ?c (d, Some f) (prg_entries reg)\<rparr>"
    using bind by (auto simp: bind_factory_def provider_entry_def split: option.splits if_splits)
  have names: "(\<exists>e g. dict_get (prg_entries reg') j = Some (e, g) \<and> P e) \<longleftrightarrow> (\<exists>e g. dict_get (prg_entries reg) j = Some (e, g) \<and> P e)" for j P
    using d by (auto simp: reg')
  have entry: "pd_provider_id e = j \<and> finite (pd_aliases e)" if g: "dict_get (prg_entries reg') j = Some (e, g)" for j e g
  proof -
    obtain h where "dict_get (prg_entries reg) j = Some (e, h)" using g d by (auto simp: reg' split: if_splits)
    then show ?thesis using ok unfolding providers_ok_def by blast
  qed
  have "prg_aliases reg' = prg_aliases reg" by (simp add: reg')
  then show ?thesis using ok entry names unfolding providers_ok_def by auto
qed

text \<open>A name resolves to the one registered descriptor that carries it.\<close>

lemma provider_descriptor_iff:
  assumes ok: "providers_ok reg"
  shows "provider_descriptor reg n = Some d \<longleftrightarrow> (\<exists>i f. dict_get (prg_entries reg) i = Some (d, f) \<and> n \<in> provider_names d)"
proof (cases "dict_get (prg_aliases reg) n")
  case (Some c)
  then obtain e g where "dict_get (prg_entries reg) c = Some (e, g)" "n \<in> provider_names e" using ok unfolding providers_ok_def by blast
  moreover have "i = c" if "dict_get (prg_entries reg) i = Some (d, f)" "n \<in> provider_names d" for i f
    using that ok Some unfolding providers_ok_def by (metis option.inject)
  ultimately show ?thesis using Some by (fastforce simp: provider_descriptor_def provider_entry_def canonical_provider_def)
next
  case None
  then have no: "n \<notin> provider_names d" if "dict_get (prg_entries reg) i = Some (d, f)" for i d f
    using ok that unfolding providers_ok_def by (metis option.distinct(1))
  have "dict_get (prg_entries reg) n = None"
  proof (cases "dict_get (prg_entries reg) n")
    case (Some x)
    then obtain e g where "dict_get (prg_entries reg) n = Some (e, g)" by (cases x) auto
    then show ?thesis using no ok unfolding providers_ok_def provider_names_def by blast
  qed
  then show ?thesis using None no by (auto simp: provider_descriptor_def provider_entry_def canonical_provider_def)
qed

lemma builtin_registered: "\<not> isl (create_builtin_provider_registry ())"
  by code_simp

end
