(* ===== verification/Model_Gateway.thy ===== *)
theory Model_Gateway
  imports Model_Context Model_Registry
begin

text \<open>
  \<^verbatim>\<open>src/suiteharness/models/gateway.py\<close> and \<^verbatim>\<open>models/usage.py\<close>: routing of a model call over the profiles of its route, with retries and
  failover. What a provider answers is a parameter: \<open>ge_complete\<close> and \<open>ge_stream\<close> give the answer to the call with a given number, so
  that every sequence of answers is covered; a stream is the list of its events and how it ended. The trace records the calls and
  the waits (in microseconds). The log lines of the code are left out.
\<close>

section \<open>Usage\<close>

record usage_row =
  ur_calls :: int
  ur_succeeded :: int
  ur_failed :: int
  ur_cancelled :: int
  ur_usage_unknown :: int
  ur_input_tokens :: int
  ur_output_tokens :: int
  ur_cached_input_tokens :: int
  ur_reasoning_tokens :: int
  ur_elapsed :: int

type_synonym UsageLedger = "(string, usage_row) dict"

definition empty_row :: usage_row where
  "empty_row = \<lparr>ur_calls = 0, ur_succeeded = 0, ur_failed = 0, ur_cancelled = 0, ur_usage_unknown = 0, ur_input_tokens = 0,
     ur_output_tokens = 0, ur_cached_input_tokens = 0, ur_reasoning_tokens = 0, ur_elapsed = 0\<rparr>"

definition UsageLedger_init :: "string list \<Rightarrow> UsageLedger" where
  "UsageLedger_init routes = fold (\<lambda>r. dict_set r empty_row) routes []"

datatype call_status = STATUS_SUCCEEDED | STATUS_FAILED | STATUS_CANCELLED

fun count_status :: "call_status \<Rightarrow> usage_row \<Rightarrow> usage_row" where
  "count_status STATUS_SUCCEEDED row = row\<lparr>ur_succeeded := ur_succeeded row + 1\<rparr>"
| "count_status STATUS_FAILED row = row\<lparr>ur_failed := ur_failed row + 1\<rparr>"
| "count_status STATUS_CANCELLED row = row\<lparr>ur_cancelled := ur_cancelled row + 1\<rparr>"

definition count_usage :: "ModelUsage option \<Rightarrow> usage_row \<Rightarrow> usage_row" where
  "count_usage usage row =
     (case usage of
        None \<Rightarrow> row\<lparr>ur_usage_unknown := ur_usage_unknown row + 1\<rparr>
      | Some u \<Rightarrow> row\<lparr>ur_input_tokens := ur_input_tokens row + us_input_tokens u,
          ur_output_tokens := ur_output_tokens row + us_output_tokens u,
          ur_cached_input_tokens := ur_cached_input_tokens row + us_cached_input_tokens u,
          ur_reasoning_tokens := ur_reasoning_tokens row + us_reasoning_tokens u\<rparr>)"

definition usage_record :: "string \<Rightarrow> call_status \<Rightarrow> int \<Rightarrow> ModelUsage option \<Rightarrow> UsageLedger \<Rightarrow> UsageLedger" where
  "usage_record route_id status elapsed usage ledger =
     (case dict_get ledger route_id of
        None \<Rightarrow> ledger
      | Some row \<Rightarrow>
          let row1 = count_status status (row\<lparr>ur_calls := ur_calls row + 1\<rparr>);
              row2 = row1\<lparr>ur_elapsed := ur_elapsed row1 + max 0 elapsed\<rparr> in
          dict_set route_id (count_usage usage row2) ledger)"

section \<open>The gateway\<close>

datatype 'a awaited = Answered 'a | Failed exn | Cancelled

record ('f, 's, 'p) gateway_env =
  ge_adapt :: "'f \<Rightarrow> ProviderDescriptor \<Rightarrow> ModelProfile \<Rightarrow> 's option \<Rightarrow> 'p result"
  ge_secret :: "string \<Rightarrow> 's result"
  ge_complete :: "nat \<Rightarrow> 'p \<Rightarrow> ModelRequest \<Rightarrow> ModelResponse awaited"
  ge_stream :: "nat \<Rightarrow> 'p \<Rightarrow> ModelRequest \<Rightarrow> ModelStreamEvent list \<times> unit awaited"

record 'f ModelGateway =
  gw_registry :: "'f ProviderRegistry"
  gw_profiles :: "(string, ModelProfile) dict"
  gw_routes :: "(string, ModelRoute) dict"
  gw_context :: ContextManager
  gw_default_context_tokens :: int

datatype gateway_event = Attempt string ModelRequest | Backoff int

record 'p gateway_state =
  gs_providers :: "(string, 'p) dict"
  gs_calls :: nat
  gs_trace :: "gateway_event list"

definition check_profile :: "'f ProviderRegistry \<Rightarrow> string \<times> ModelProfile \<Rightarrow> unit result" where
  "check_profile reg kp =
     (let p = snd kp in
      if fst kp \<noteq> mp_profile_id p then Raise (ValueError ''model profile map key must equal profile_id'')
      else case provider_descriptor reg (mp_provider_id p) of
          None \<Rightarrow> Raise (ValueError (''unknown provider in model profile '' @ py_repr (fst kp)))
        | Some d \<Rightarrow> result_bind (effective_capabilities p (pd_capabilities d)) (\<lambda>_. Return ()))"

definition check_route :: "(string, ModelProfile) dict \<Rightarrow> string \<times> ModelRoute \<Rightarrow> unit result" where
  "check_route profiles kr =
     (let r = snd kr in
      if fst kr \<noteq> mr_route_id r then Raise (ValueError ''model route map key must equal route_id'')
      else case filter (\<lambda>i. dict_get profiles i = None) (route_profiles r) of
          [] \<Rightarrow> Return ()
        | i # _ \<Rightarrow> Raise (ValueError (''model route '' @ py_repr (mr_route_id r) @ '' references unknown profile '' @ py_repr i)))"

fun check_each :: "('a \<Rightarrow> unit result) \<Rightarrow> 'a list \<Rightarrow> unit result" where
  "check_each f [] = Return ()"
| "check_each f (x # xs) = result_bind (f x) (\<lambda>_. check_each f xs)"

definition validate_configuration :: "'f ModelGateway \<Rightarrow> unit result" where
  "validate_configuration g =
     result_bind (check_each (check_profile (gw_registry g)) (gw_profiles g)) (\<lambda>_.
     check_each (check_route (gw_profiles g)) (gw_routes g))"

definition ModelGateway_init :: "'f ModelGateway \<Rightarrow> ('f ModelGateway \<times> UsageLedger) result" where
  "ModelGateway_init g =
     (if gw_default_context_tokens g < 1 then Raise (ValueError ''default_context_tokens must be a positive integer'')
      else result_bind (validate_configuration g) (\<lambda>_. Return (g, UsageLedger_init (dict_keys (gw_routes g)))))"

definition gateway_profile :: "'f ModelGateway \<Rightarrow> string \<Rightarrow> ModelProfile result" where
  "gateway_profile g i =
     (case dict_get (gw_profiles g) i of
        None \<Rightarrow> Raise (model_error PROFILE_NOT_FOUND (''model profile '' @ py_repr i @ '' was not found'') None)
      | Some p \<Rightarrow> Return p)"

definition gateway_route :: "'f ModelGateway \<Rightarrow> string \<Rightarrow> ModelRoute result" where
  "gateway_route g i =
     (case dict_get (gw_routes g) i of
        None \<Rightarrow> Raise (model_error PROFILE_NOT_FOUND (''model route '' @ py_repr i @ '' was not found'') None)
      | Some r \<Rightarrow> Return r)"

definition gateway_provider ::
    "('f, 's, 'p) gateway_env \<Rightarrow> 'f ModelGateway \<Rightarrow> ModelProfile \<Rightarrow> 'p gateway_state \<Rightarrow> ('p \<times> 'p gateway_state) result" where
  "gateway_provider env g p st =
     (case dict_get (gs_providers st) (mp_profile_id p) of
        Some provider \<Rightarrow> Return (provider, st)
      | None \<Rightarrow>
          result_bind (provider_create (ge_adapt env) (ge_secret env) (gw_registry g) p) (\<lambda>provider.
          Return (provider, st\<lparr>gs_providers := dict_set (mp_profile_id p) provider (gs_providers st)\<rparr>)))"

definition unsupported :: "ProviderDescriptor \<Rightarrow> string \<Rightarrow> unit result" where
  "unsupported d what = Raise (model_error UNSUPPORTED_FEATURE
     (''provider '' @ py_repr (pd_provider_id d) @ '' does not support '' @ what) (Some (pd_provider_id d)))"

definition request_parts :: "ModelRequest \<Rightarrow> ContentPart list" where
  "request_parts r = concat (map mm_content (mq_messages r))"

definition requested_model :: "ModelProfile \<Rightarrow> ModelRequest \<Rightarrow> string" where
  "requested_model p r = (case mq_model r of None \<Rightarrow> mp_model p | Some m \<Rightarrow> if m = [] then mp_model p else m)"

definition validate_request :: "'f ModelGateway \<Rightarrow> ModelProfile \<Rightarrow> ModelRequest \<Rightarrow> bool \<Rightarrow> unit result" where
  "validate_request g p r streaming =
     (if \<not> permits_model p (requested_model p r)
      then Raise (model_error MODEL_PERMISSION_DENIED (''model '' @ py_repr (requested_model p r) @ '' is not allowed by profile '' @
             py_repr (mp_profile_id p)) (Some (mp_provider_id p)))
      else case provider_descriptor (gw_registry g) (mp_provider_id p) of
          None \<Rightarrow> Raise (model_error PROVIDER_NOT_FOUND (''provider '' @ py_repr (mp_provider_id p) @ '' was not found'') None)
        | Some d \<Rightarrow>
            result_bind (effective_capabilities p (pd_capabilities d)) (\<lambda>c.
            if streaming \<and> \<not> cap_streaming c
            then Raise (model_error UNSUPPORTED_FEATURE
                   (''profile '' @ py_repr (mp_profile_id p) @ '' does not support streaming'') (Some (pd_provider_id d)))
            else if mq_tools r \<noteq> [] \<and> \<not> cap_tools c then unsupported d ''tools''
            else if mq_response_schema r \<noteq> None \<and> \<not> cap_json_schema c then unsupported d ''JSON Schema output''
            else if list_ex is_image (request_parts r) \<and> \<not> cap_vision c then unsupported d ''image input''
            else if list_ex is_document (request_parts r) \<and> \<not> cap_documents c then unsupported d ''document input''
            else Return ()))"

text \<open>The capabilities of a profile; an unknown provider fails an \<open>assert\<close>.\<close>

definition profile_capabilities :: "'f ModelGateway \<Rightarrow> ModelProfile \<Rightarrow> ProviderCapabilities result" where
  "profile_capabilities g p =
     (case provider_descriptor (gw_registry g) (mp_provider_id p) of
        None \<Rightarrow> Raise (RuntimeError ''assertion failed'')
      | Some d \<Rightarrow> effective_capabilities p (pd_capabilities d))"

definition window_of :: "'f ModelGateway \<Rightarrow> ProviderCapabilities \<Rightarrow> int" where
  "window_of g c = (case cap_max_context_tokens c of
     None \<Rightarrow> gw_default_context_tokens g | Some w \<Rightarrow> if w = 0 then gw_default_context_tokens g else w)"

definition prepare_context :: "'f ModelGateway \<Rightarrow> ModelProfile \<Rightarrow> ModelRequest \<Rightarrow> PreparedContext result" where
  "prepare_context g p r =
     result_bind (profile_capabilities g p) (\<lambda>c. prepare (gw_context g) r (window_of g c))"

section \<open>Completing\<close>

definition parallel_error :: "ModelProfile \<Rightarrow> exn" where
  "parallel_error p = model_error UNSUPPORTED_FEATURE ''model returned parallel tool calls disabled by the profile'' (Some (mp_provider_id p))"

text \<open>\<open>asyncio.sleep(min(0.25 * (2**attempt), 2.0))\<close>\<close>

definition backoff :: "nat \<Rightarrow> int" where
  "backoff attempt = min (250000 * 2 ^ attempt) 2000000"

definition checked_answer :: "ModelProfile \<Rightarrow> ProviderCapabilities \<Rightarrow> ModelResponse awaited \<Rightarrow> ModelResponse awaited" where
  "checked_answer p c a =
     (case a of
        Answered r \<Rightarrow> if 1 < length (mrs_tool_calls r) \<and> \<not> cap_parallel_tool_calls c then Failed (parallel_error p) else Answered r
      | _ \<Rightarrow> a)"

definition log_event :: "gateway_event \<Rightarrow> 'p gateway_state \<Rightarrow> 'p gateway_state" where
  "log_event e st = st\<lparr>gs_trace := gs_trace st @ [e]\<rparr>"

definition log_call :: "ModelProfile \<Rightarrow> ModelRequest \<Rightarrow> 'p gateway_state \<Rightarrow> 'p gateway_state" where
  "log_call p r st = log_event (Attempt (mp_profile_id p) r) (st\<lparr>gs_calls := Suc (gs_calls st)\<rparr>)"

definition ask_complete ::
    "('f, 's, 'p) gateway_env \<Rightarrow> 'p \<Rightarrow> ModelProfile \<Rightarrow> ProviderCapabilities \<Rightarrow> ModelRequest \<Rightarrow> 'p gateway_state \<Rightarrow> ModelResponse awaited" where
  "ask_complete env provider p c r st = checked_answer p c (ge_complete env (gs_calls st) provider r)"

text \<open>The loop over the attempts: attempt \<open>k\<close>, with \<open>m\<close> more to come.\<close>

fun attempts ::
    "('f, 's, 'p) gateway_env \<Rightarrow> 'p \<Rightarrow> ModelProfile \<Rightarrow> ProviderCapabilities \<Rightarrow> ModelRequest \<Rightarrow> nat \<Rightarrow> nat \<Rightarrow> 'p gateway_state \<Rightarrow>
     ModelResponse awaited \<times> 'p gateway_state" where
  "attempts env provider p c r k 0 st = (ask_complete env provider p c r st, log_call p r st)"
| "attempts env provider p c r k (Suc m) st =
     (case ask_complete env provider p c r st of
        Failed e \<Rightarrow>
          if is_provider_error e \<and> retryable e
          then attempts env provider p c r (Suc k) m (log_event (Backoff (backoff k)) (log_call p r st))
          else (Failed e, log_call p r st)
      | a \<Rightarrow> (a, log_call p r st))"

text \<open>The loop over the profiles, with the last error.\<close>

fun try_profiles ::
    "('f, 's, 'p) gateway_env \<Rightarrow> 'f ModelGateway \<Rightarrow> ModelRequest \<Rightarrow> string list \<Rightarrow> exn option \<Rightarrow> 'p gateway_state \<Rightarrow>
     ModelResponse awaited \<times> 'p gateway_state" where
  "try_profiles env g r [] last_error st =
     (Failed (case last_error of Some e \<Rightarrow> e | None \<Rightarrow> model_error UNAVAILABLE ''model route has no usable profile'' None), st)"
| "try_profiles env g r (i # is) last_error st =
     (case result_bind (gateway_profile g i) (\<lambda>p. result_bind (validate_request g p r False) (\<lambda>_. Return p)) of
        Inl e \<Rightarrow> (Failed e, st)
      | Inr p \<Rightarrow>
          (case prepare_context g p r of
             Inl e \<Rightarrow> if is_capacity_error e then try_profiles env g r is (Some e) st else (Failed e, st)
           | Inr prepared \<Rightarrow>
               (case result_bind (gateway_provider env g p st) (\<lambda>ps. result_bind (profile_capabilities g p) (\<lambda>c. Return (ps, c))) of
                  Inl e \<Rightarrow> (Failed e, st)
                | Inr ((provider, st1), c) \<Rightarrow>
                    (case attempts env provider p c (pcx_request prepared) 0 (nat (mp_max_retries p)) st1 of
                       (Failed e, st2) \<Rightarrow>
                         if is_provider_error e \<and> retryable e then try_profiles env g r is (Some e) st2 else (Failed e, st2)
                     | (a, st2) \<Rightarrow> (a, st2)))))"

definition gateway_complete ::
    "('f, 's, 'p) gateway_env \<Rightarrow> 'f ModelGateway \<Rightarrow> string \<Rightarrow> ModelRequest \<Rightarrow> 'p gateway_state \<Rightarrow> ModelResponse awaited \<times> 'p gateway_state" where
  "gateway_complete env g route_id r st =
     (case gateway_route g route_id of
        Inl e \<Rightarrow> (Failed e, st)
      | Inr route \<Rightarrow> try_profiles env g r (route_profiles route) None st)"

text \<open>\<open>complete\<close> with its accounting.\<close>

definition awaited_status :: "'a awaited \<Rightarrow> call_status" where
  "awaited_status a = (case a of Answered _ \<Rightarrow> STATUS_SUCCEEDED | Failed _ \<Rightarrow> STATUS_FAILED | Cancelled \<Rightarrow> STATUS_CANCELLED)"

definition complete ::
    "('f, 's, 'p) gateway_env \<Rightarrow> 'f ModelGateway \<Rightarrow> string \<Rightarrow> ModelRequest \<Rightarrow> int \<Rightarrow> 'p gateway_state \<times> UsageLedger \<Rightarrow>
     ModelResponse awaited \<times> 'p gateway_state \<times> UsageLedger" where
  "complete env g route_id r elapsed s =
     (case gateway_complete env g route_id r (fst s) of
        (a, st) \<Rightarrow> (a, st, usage_record route_id (awaited_status a) elapsed
           (case a of Answered resp \<Rightarrow> mrs_usage resp | _ \<Rightarrow> None) (snd s)))"

section \<open>Streaming\<close>

definition compaction_event :: "PreparedContext \<Rightarrow> ModelStreamEvent" where
  "compaction_event prepared =
     \<lparr>se_type = CONTEXT_COMPACTED, se_response_id = None, se_text_delta = None, se_reasoning_delta = None, se_tool_call = None,
      se_usage = None, se_finish_reason = None,
      se_context_info = Some [(''estimated_input_tokens'', JInt (pcx_estimated_input_tokens prepared)),
        (''removed_rounds'', JInt (int (pcx_removed_rounds prepared))), (''truncated_tools'', JInt (int (pcx_truncated_tools prepared)))],
      se_prepared_messages = Some (mq_messages (pcx_request prepared))\<rparr>"

definition compacted :: "PreparedContext \<Rightarrow> bool" where
  "compacted prepared \<longleftrightarrow> pcx_removed_rounds prepared \<noteq> 0 \<or> pcx_truncated_tools prepared \<noteq> 0"

definition gateway_owned :: "ModelStreamEvent \<Rightarrow> bool" where
  "gateway_owned e \<longleftrightarrow> se_type e = CONTEXT_COMPACTED \<or> se_prepared_messages e \<noteq> None"

text \<open>The loop over the events of one stream: what was passed on, and how it ended.\<close>

fun relay ::
    "ModelProfile \<Rightarrow> ProviderCapabilities \<Rightarrow> PreparedContext \<Rightarrow> ModelStreamEvent list \<Rightarrow> unit awaited \<Rightarrow> bool \<Rightarrow> string set \<Rightarrow>
     ModelStreamEvent list \<times> unit awaited" where
  "relay p c prepared [] ending emitted call_ids = ([], ending)"
| "relay p c prepared (e # es) ending emitted call_ids =
     (if gateway_owned e
      then ([], Failed (model_error RESPONSE_INVALID ''provider attempted to emit gateway-owned context state'' (Some (mp_provider_id p))))
      else
        let ids = (case se_tool_call e of None \<Rightarrow> call_ids | Some t \<Rightarrow> insert (mtc_call_id t) call_ids) in
        if se_tool_call e \<noteq> None \<and> 1 < card ids \<and> \<not> cap_parallel_tool_calls c then ([], Failed (parallel_error p))
        else
          let (out, a) = relay p c prepared es ending True ids in
          ((if \<not> emitted \<and> compacted prepared then [compaction_event prepared] else []) @ e # out, a))"

definition ask_stream_events ::
    "('f, 's, 'p) gateway_env \<Rightarrow> 'p \<Rightarrow> ModelProfile \<Rightarrow> ProviderCapabilities \<Rightarrow> PreparedContext \<Rightarrow> 'p gateway_state \<Rightarrow>
     ModelStreamEvent list \<times> unit awaited" where
  "ask_stream_events env provider p c prepared st =
     (case ge_stream env (gs_calls st) provider (pcx_request prepared) of (es, ending) \<Rightarrow> relay p c prepared es ending False {})"

fun stream_attempts ::
    "('f, 's, 'p) gateway_env \<Rightarrow> 'p \<Rightarrow> ModelProfile \<Rightarrow> ProviderCapabilities \<Rightarrow> PreparedContext \<Rightarrow> nat \<Rightarrow> nat \<Rightarrow> 'p gateway_state \<Rightarrow>
     (ModelStreamEvent list \<times> unit awaited) \<times> 'p gateway_state" where
  "stream_attempts env provider p c prepared k 0 st =
     (ask_stream_events env provider p c prepared st, log_call p (pcx_request prepared) st)"
| "stream_attempts env provider p c prepared k (Suc m) st =
     (let st1 = log_call p (pcx_request prepared) st in
      case ask_stream_events env provider p c prepared st of
        (out, Failed e) \<Rightarrow>
          if out = [] \<and> is_provider_error e \<and> retryable e
          then stream_attempts env provider p c prepared (Suc k) m (log_event (Backoff (backoff k)) st1)
          else ((out, Failed e), st1)
      | answer \<Rightarrow> (answer, st1))"

fun stream_profiles ::
    "('f, 's, 'p) gateway_env \<Rightarrow> 'f ModelGateway \<Rightarrow> ModelRequest \<Rightarrow> string list \<Rightarrow> exn option \<Rightarrow> 'p gateway_state \<Rightarrow>
     (ModelStreamEvent list \<times> unit awaited) \<times> 'p gateway_state" where
  "stream_profiles env g r [] last_error st =
     (([], Failed (case last_error of Some e \<Rightarrow> e | None \<Rightarrow> model_error UNAVAILABLE ''model route has no usable profile'' None)), st)"
| "stream_profiles env g r (i # is) last_error st =
     (case result_bind (gateway_profile g i) (\<lambda>p. result_bind (validate_request g p r True) (\<lambda>_. Return p)) of
        Inl e \<Rightarrow> (([], Failed e), st)
      | Inr p \<Rightarrow>
          (case prepare_context g p r of
             Inl e \<Rightarrow> if is_capacity_error e then stream_profiles env g r is (Some e) st else (([], Failed e), st)
           | Inr prepared \<Rightarrow>
               (case result_bind (gateway_provider env g p st) (\<lambda>ps. result_bind (profile_capabilities g p) (\<lambda>c. Return (ps, c))) of
                  Inl e \<Rightarrow> (([], Failed e), st)
                | Inr ((provider, st1), c) \<Rightarrow>
                    (case stream_attempts env provider p c prepared 0 (nat (mp_max_retries p)) st1 of
                       ((out, Failed e), st2) \<Rightarrow>
                         if out = [] \<and> is_provider_error e \<and> retryable e then stream_profiles env g r is (Some e) st2
                         else ((out, Failed e), st2)
                     | answer \<Rightarrow> answer))))"

definition stream_unobserved ::
    "('f, 's, 'p) gateway_env \<Rightarrow> 'f ModelGateway \<Rightarrow> string \<Rightarrow> ModelRequest \<Rightarrow> 'p gateway_state \<Rightarrow>
     (ModelStreamEvent list \<times> unit awaited) \<times> 'p gateway_state" where
  "stream_unobserved env g route_id r st =
     (case gateway_route g route_id of
        Inl e \<Rightarrow> (([], Failed e), st)
      | Inr route \<Rightarrow> stream_profiles env g r (route_profiles route) None st)"

definition last_usage :: "ModelStreamEvent list \<Rightarrow> ModelUsage option" where
  "last_usage es = fold (\<lambda>e u. case se_usage e of None \<Rightarrow> u | Some v \<Rightarrow> Some v) es None"

text \<open>\<open>stream\<close>, read by its caller to the end, with its accounting.\<close>

definition gateway_stream ::
    "('f, 's, 'p) gateway_env \<Rightarrow> 'f ModelGateway \<Rightarrow> string \<Rightarrow> ModelRequest \<Rightarrow> int \<Rightarrow> 'p gateway_state \<times> UsageLedger \<Rightarrow>
     (ModelStreamEvent list \<times> unit awaited) \<times> 'p gateway_state \<times> UsageLedger" where
  "gateway_stream env g route_id r elapsed s =
     (case stream_unobserved env g route_id r (fst s) of
        ((out, a), st) \<Rightarrow> ((out, a), st, usage_record route_id (awaited_status a) elapsed (last_usage out) (snd s)))"

end
