(* ===== verification/Model_Gateway_Laws.thy ===== *)
theory Model_Gateway_Laws
  imports Model_Context_Laws Model_Gateway
begin

text \<open>
  What every model call of the gateway satisfies. \<open>complete\<close> and \<open>stream\<close> walk over a route in the same way and differ in what one call
  returns and when it may be repeated; the locale \<open>route_walk\<close> states the walk once, and both are interpretations of it.
\<close>

section \<open>Calls\<close>

text \<open>One call made: the adapter, the profile it was made for, the capabilities, and the prepared request.\<close>

record 'p asked =
  aq_provider :: 'p
  aq_profile :: ModelProfile
  aq_capabilities :: ProviderCapabilities
  aq_prepared :: PreparedContext

definition asked_id :: "'p asked \<Rightarrow> string" where
  "asked_id x = mp_profile_id (aq_profile x)"

definition asked_event :: "'p asked \<Rightarrow> gateway_event" where
  "asked_event x = Attempt (asked_id x) (pcx_request (aq_prepared x))"

definition is_attempt :: "gateway_event \<Rightarrow> bool" where
  "is_attempt e \<longleftrightarrow> (case e of Attempt _ _ \<Rightarrow> True | Backoff _ \<Rightarrow> False)"

lemma is_attempt_simps [simp]: "is_attempt (Attempt i q)" "\<not> is_attempt (Backoff t)" "is_attempt (asked_event x)"
  by (simp_all add: is_attempt_def asked_event_def)

text \<open>What the profile must allow of a request.\<close>

definition request_allowed :: "ModelProfile \<Rightarrow> ProviderCapabilities \<Rightarrow> ModelRequest \<Rightarrow> bool \<Rightarrow> bool" where
  "request_allowed p c r streaming \<longleftrightarrow>
     permits_model p (requested_model p r) \<and> (streaming \<longrightarrow> cap_streaming c) \<and> (mq_tools r \<noteq> [] \<longrightarrow> cap_tools c) \<and>
     (mq_response_schema r \<noteq> None \<longrightarrow> cap_json_schema c) \<and> (list_ex is_image (request_parts r) \<longrightarrow> cap_vision c) \<and>
     (list_ex is_document (request_parts r) \<longrightarrow> cap_documents c)"

text \<open>The adapters kept for reuse were made for their own profiles.\<close>

definition adapters_ok :: "('f, 's, 'p) gateway_env \<Rightarrow> 'f ModelGateway \<Rightarrow> 'p gateway_state \<Rightarrow> bool" where
  "adapters_ok env g st \<longleftrightarrow>
     (\<forall>i x. dict_get (gs_providers st) i = Some x \<longrightarrow>
        (\<exists>p. dict_get (gw_profiles g) i = Some p \<and> provider_create (ge_adapt env) (ge_secret env) (gw_registry g) p = Return x))"

definition admitted :: "('f, 's, 'p) gateway_env \<Rightarrow> 'f ModelGateway \<Rightarrow> ModelRequest \<Rightarrow> bool \<Rightarrow> string list \<Rightarrow> 'p asked \<Rightarrow> bool" where
  "admitted env g r streaming is x \<longleftrightarrow>
     asked_id x \<in> set is \<and> dict_get (gw_profiles g) (asked_id x) = Some (aq_profile x) \<and>
     provider_create (ge_adapt env) (ge_secret env) (gw_registry g) (aq_profile x) = Return (aq_provider x) \<and>
     profile_capabilities g (aq_profile x) = Return (aq_capabilities x) \<and>
     request_allowed (aq_profile x) (aq_capabilities x) r streaming \<and>
     prepare (gw_context g) r (window_of g (aq_capabilities x)) = Return (aq_prepared x)"

text \<open>How often each profile of a list was tried, in the order of the list.\<close>

definition in_route_order :: "'f ModelGateway \<Rightarrow> string list \<Rightarrow> string list \<Rightarrow> bool" where
  "in_route_order g is tried \<longleftrightarrow>
     (\<exists>ns. tried = concat (map2 replicate ns is) \<and>
       list_all2 (\<lambda>n i. \<forall>p. dict_get (gw_profiles g) i = Some p \<longrightarrow> n \<le> Suc (nat (mp_max_retries p))) ns is)"

lemma in_route_order_Nil: "in_route_order g is []"
proof -
  have "concat (map2 replicate (replicate (length is) 0) is) = ([] :: string list)" by (induction "is") simp_all
  moreover have "list_all2 (\<lambda>n i. \<forall>p. dict_get (gw_profiles g) i = Some p \<longrightarrow> n \<le> Suc (nat (mp_max_retries p))) (replicate (length is) 0) is"
    by (simp add: list_all2_conv_all_nth)
  ultimately show ?thesis unfolding in_route_order_def by (intro exI [of _ "replicate (length is) 0"]) simp
qed

lemma in_route_order_Cons:
  assumes "dict_get (gw_profiles g) i = Some p" "n \<le> Suc (nat (mp_max_retries p))" "in_route_order g is tried"
  shows "in_route_order g (i # is) (replicate n i @ tried)"
proof -
  obtain ns where "tried = concat (map2 replicate ns is)"
    "list_all2 (\<lambda>n i. \<forall>p. dict_get (gw_profiles g) i = Some p \<longrightarrow> n \<le> Suc (nat (mp_max_retries p))) ns is"
    using assms(3) unfolding in_route_order_def by blast
  then show ?thesis using assms(1,2) unfolding in_route_order_def by (intro exI [of _ "n # ns"]) simp
qed

lemma in_route_order_skip:
  assumes "in_route_order g is tried"
  shows "in_route_order g (i # is) tried"
proof -
  obtain ns where "tried = concat (map2 replicate ns is)"
    "list_all2 (\<lambda>n i. \<forall>p. dict_get (gw_profiles g) i = Some p \<longrightarrow> n \<le> Suc (nat (mp_max_retries p))) ns is"
    using assms unfolding in_route_order_def by blast
  then show ?thesis unfolding in_route_order_def by (intro exI [of _ "0 # ns"]) simp
qed

lemma admitted_mono: "admitted env g r streaming is x \<Longrightarrow> admitted env g r streaming (i # is) x"
  by (simp add: admitted_def)

section \<open>Configuration\<close>

lemma check_each_Return: "check_each f xs = Return () \<longleftrightarrow> (\<forall>x \<in> set xs. f x = Return ())"
  by (induction xs) auto

lemma configured_profile:
  assumes "validate_configuration g = Return ()" "dict_get (gw_profiles g) i = Some p"
  obtains d c where "mp_profile_id p = i" "provider_descriptor (gw_registry g) (mp_provider_id p) = Some d"
    "effective_capabilities p (pd_capabilities d) = Return c"
proof -
  have "(i, p) \<in> set (gw_profiles g)" by (rule map_of_SomeD [OF assms(2)])
  then have "check_profile (gw_registry g) (i, p) = Return ()" using assms(1) by (auto simp: validate_configuration_def check_each_Return)
  then show thesis using that by (auto simp: check_profile_def Let_def split: if_splits option.splits)
qed

lemma gateway_profile_Return [simp]: "gateway_profile g i = Return p \<longleftrightarrow> dict_get (gw_profiles g) i = Some p"
  by (simp add: gateway_profile_def split: option.splits)

lemma validate_request_allowed:
  assumes "validate_request g p r streaming = Return ()" "profile_capabilities g p = Return c"
  shows "request_allowed p c r streaming"
  using assms by (auto simp: validate_request_def profile_capabilities_def request_allowed_def unsupported_def split: option.splits if_splits)

lemma prepare_context_Return:
  assumes "prepare_context g p r = Return x" "profile_capabilities g p = Return c"
  shows "prepare (gw_context g) r (window_of g c) = Return x"
  using assms by (simp add: prepare_context_def)

lemma gateway_provider_ok:
  assumes ok: "adapters_ok env g st" and p: "dict_get (gw_profiles g) (mp_profile_id p) = Some p"
    and got: "gateway_provider env g p st = Return (x, st')"
  shows "provider_create (ge_adapt env) (ge_secret env) (gw_registry g) p = Return x" "adapters_ok env g st'"
    "gs_calls st' = gs_calls st" "gs_trace st' = gs_trace st"
proof -
  let ?made = "provider_create (ge_adapt env) (ge_secret env) (gw_registry g) p = Return x"
  consider "dict_get (gs_providers st) (mp_profile_id p) = Some x" "st' = st"
    | "?made" "st' = st\<lparr>gs_providers := dict_set (mp_profile_id p) x (gs_providers st)\<rparr>"
    using got by (auto simp: gateway_provider_def split: option.splits)
  then have "?made \<and> adapters_ok env g st' \<and> gs_calls st' = gs_calls st \<and> gs_trace st' = gs_trace st"
  proof cases
    case 1
    then show ?thesis using ok p unfolding adapters_ok_def by fastforce
  next
    case 2
    then show ?thesis using ok p unfolding adapters_ok_def by simp
  qed
  then show ?made "adapters_ok env g st'" "gs_calls st' = gs_calls st" "gs_trace st' = gs_trace st" by simp_all
qed

section \<open>The walk over a route\<close>

text \<open>
  From \<open>st\<close> to \<open>st'\<close> exactly the calls \<open>xs\<close> were made, in this order, and each but the last was answered by an error that may be repeated.
\<close>

definition made_calls ::
    "('p asked \<Rightarrow> nat \<Rightarrow> 'a) \<Rightarrow> ('a \<Rightarrow> exn option) \<Rightarrow> 'p gateway_state \<Rightarrow> 'p asked list \<Rightarrow> 'p gateway_state \<Rightarrow> bool" where
  "made_calls ask again st xs st' \<longleftrightarrow>
     gs_calls st' = gs_calls st + length xs \<and> (\<exists>new. gs_trace st' = gs_trace st @ new \<and> filter is_attempt new = map asked_event xs) \<and>
     (\<forall>j. Suc j < length xs \<longrightarrow> again (ask (xs ! j) (gs_calls st + j)) \<noteq> None)"

text \<open>The result is an error, or what the last call was answered.\<close>

definition answered_by :: "('p asked \<Rightarrow> nat \<Rightarrow> 'a) \<Rightarrow> (exn \<Rightarrow> 'a) \<Rightarrow> 'p gateway_state \<Rightarrow> 'p asked list \<Rightarrow> 'a \<Rightarrow> bool" where
  "answered_by ask failure st xs a \<longleftrightarrow> (\<exists>e. a = failure e) \<or> xs \<noteq> [] \<and> a = ask (last xs) (gs_calls st + (length xs - 1))"

locale route_walk =
  fixes env :: "('f, 's, 'p) gateway_env" and g :: "'f ModelGateway" and r :: ModelRequest and streaming :: bool
    and ask :: "'p asked \<Rightarrow> nat \<Rightarrow> 'a" and failure :: "exn \<Rightarrow> 'a" and again :: "'a \<Rightarrow> exn option"
    and retry :: "'p asked \<Rightarrow> nat \<Rightarrow> nat \<Rightarrow> 'p gateway_state \<Rightarrow> 'a \<times> 'p gateway_state"
    and walk :: "string list \<Rightarrow> exn option \<Rightarrow> 'p gateway_state \<Rightarrow> 'a \<times> 'p gateway_state"
  assumes retry_0: "retry x k 0 st = (ask x (gs_calls st), log_call (aq_profile x) (pcx_request (aq_prepared x)) st)"
    and retry_Suc: "retry x k (Suc m) st =
      (let st1 = log_call (aq_profile x) (pcx_request (aq_prepared x)) st in
       if again (ask x (gs_calls st)) = None then (ask x (gs_calls st), st1)
       else retry x (Suc k) m (log_event (Backoff (backoff k)) st1))"
    and walk_Nil: "walk [] le st = (failure (case le of Some e \<Rightarrow> e | None \<Rightarrow> model_error UNAVAILABLE ''model route has no usable profile'' None), st)"
    and walk_Cons: "walk (i # is) le st =
      (case result_bind (gateway_profile g i) (\<lambda>p. result_bind (validate_request g p r streaming) (\<lambda>_. Return p)) of
         Inl e \<Rightarrow> (failure e, st)
       | Inr p \<Rightarrow>
           (case prepare_context g p r of
              Inl e \<Rightarrow> if is_capacity_error e then walk is (Some e) st else (failure e, st)
            | Inr prepared \<Rightarrow>
                (case result_bind (gateway_provider env g p st) (\<lambda>ps. result_bind (profile_capabilities g p) (\<lambda>c. Return (ps, c))) of
                   Inl e \<Rightarrow> (failure e, st)
                 | Inr ((provider, st1), c) \<Rightarrow>
                     let (a, st2) = retry \<lparr>aq_provider = provider, aq_profile = p, aq_capabilities = c, aq_prepared = prepared\<rparr>
                           0 (nat (mp_max_retries p)) st1 in
                     case again a of Some e \<Rightarrow> walk is (Some e) st2 | None \<Rightarrow> (a, st2))))"
begin

lemma calls_Nil [simp]: "made_calls ask again st [] st' \<longleftrightarrow> gs_calls st' = gs_calls st \<and> (\<exists>new. gs_trace st' = gs_trace st @ new \<and> filter is_attempt new = [])"
  by (simp add: made_calls_def)

lemma calls_append:
  assumes "made_calls ask again st xs st1" "made_calls ask again st1 ys st'" "xs \<noteq> [] \<Longrightarrow> again (ask (last xs) (gs_calls st + (length xs - 1))) \<noteq> None"
  shows "made_calls ask again st (xs @ ys) st'"
proof -
  have "again (ask ((xs @ ys) ! j) (gs_calls st + j)) \<noteq> None" if j: "Suc j < length (xs @ ys)" for j
  proof -
    consider "Suc j < length xs" | "Suc j = length xs" | "length xs \<le> j" by linarith
    then show ?thesis
    proof cases
      case 2
      then have "xs \<noteq> []" "j = length xs - 1" by auto
      then show ?thesis using assms(3) by (simp add: last_conv_nth nth_append)
    next
      case 3
      then have "Suc (j - length xs) < length ys" using j by simp
      then have "again (ask (ys ! (j - length xs)) (gs_calls st1 + (j - length xs))) \<noteq> None" using assms(2) unfolding made_calls_def by blast
      moreover have "gs_calls st1 + (j - length xs) = gs_calls st + j" using assms(1) 3 by (simp add: made_calls_def)
      ultimately show ?thesis using 3 by (simp add: nth_append)
    qed (use assms(1) in \<open>simp add: made_calls_def nth_append\<close>)
  qed
  then show ?thesis using assms(1,2) unfolding made_calls_def by (metis (no_types, lifting) append_assoc filter_append length_append map_append add.assoc)
qed

lemma retry_calls:
  "retry x k m st = (a, st') \<Longrightarrow>
     \<exists>n \<le> m. made_calls ask again st (replicate (Suc n) x) st' \<and> a = ask x (gs_calls st + n) \<and> gs_providers st' = gs_providers st"
proof (induction m arbitrary: k st)
  case 0
  then show ?case
    by (auto simp: retry_0 made_calls_def log_call_def log_event_def asked_event_def asked_id_def)
next
  case (Suc m)
  let ?st = "log_call (aq_profile x) (pcx_request (aq_prepared x)) st"
  have one: "gs_calls ?st = Suc (gs_calls st)" "gs_trace ?st = gs_trace st @ [asked_event x]" "gs_providers ?st = gs_providers st"
    by (simp_all add: log_call_def log_event_def asked_event_def asked_id_def)
  show ?case
  proof (cases "again (ask x (gs_calls st)) = None")
    case True
    then have "a = ask x (gs_calls st)" "st' = ?st" using Suc.prems by (simp_all add: retry_Suc Let_def)
    then show ?thesis using one by (intro exI [of _ 0]) (simp add: made_calls_def)
  next
    case False
    let ?st1 = "log_event (Backoff (backoff k)) ?st"
    have two: "gs_calls ?st1 = Suc (gs_calls st)" "gs_trace ?st1 = gs_trace st @ [asked_event x, Backoff (backoff k)]"
      "gs_providers ?st1 = gs_providers st"
      using one by (simp_all add: log_event_def)
    have "retry x (Suc k) m ?st1 = (a, st')" using Suc.prems False by (simp add: retry_Suc Let_def)
    then obtain n where n: "n \<le> m" "made_calls ask again ?st1 (replicate (Suc n) x) st'" "a = ask x (gs_calls ?st1 + n)"
      "gs_providers st' = gs_providers ?st1" using Suc.IH by blast
    have "made_calls ask again st [x] ?st1" using two by (simp add: made_calls_def)
    then have "made_calls ask again st ([x] @ replicate (Suc n) x) st'" by (rule calls_append [OF _ n(2)]) (simp add: False)
    then show ?thesis using n two by (intro exI [of _ "Suc n"]) simp
  qed
qed

lemma answered_by_append:
  assumes "made_calls ask again st xs st1" "answered_by ask failure st1 ys a"
  shows "answered_by ask failure st (xs @ ys) a"
proof (cases "ys = []")
  case False
  then have "gs_calls st1 + (length ys - 1) = gs_calls st + (length (xs @ ys) - 1)" using assms(1) by (cases ys) (simp_all add: made_calls_def)
  then show ?thesis using assms(2) False by (auto simp: answered_by_def)
qed (use assms(2) in \<open>simp add: answered_by_def\<close>)

lemma walk_spec:
  assumes config: "validate_configuration g = Return ()"
  shows "walk is le st = (a, st') \<Longrightarrow> adapters_ok env g st \<Longrightarrow>
    \<exists>xs. made_calls ask again st xs st' \<and> adapters_ok env g st' \<and> list_all (admitted env g r streaming is) xs \<and>
      in_route_order g is (map asked_id xs) \<and> answered_by ask failure st xs a"
proof (induction "is" arbitrary: le st)
  case Nil
  then show ?case by (intro exI [of _ "[]"]) (auto simp: walk_Nil in_route_order_Nil answered_by_def)
next
  case (Cons i "is")
  let ?goal = "\<exists>xs. made_calls ask again st xs st' \<and> adapters_ok env g st' \<and> list_all (admitted env g r streaming (i # is)) xs \<and>
      in_route_order g (i # is) (map asked_id xs) \<and> answered_by ask failure st xs a"
  have none: ?goal if "(failure e, st) = (a, st')" for e
    using that Cons.prems(2) by (intro exI [of _ "[]"]) (auto simp: in_route_order_Nil answered_by_def)
  show ?case
  proof (cases "result_bind (gateway_profile g i) (\<lambda>p. result_bind (validate_request g p r streaming) (\<lambda>_. Return p))")
    case (Inl e)
    then show ?thesis using Cons.prems(1) by (intro none [of e]) (simp add: walk_Cons)
  next
    case (Inr p)
    then have p: "dict_get (gw_profiles g) i = Some p" and valid: "validate_request g p r streaming = Return ()" by auto
    have key: "mp_profile_id p = i" using configured_profile [OF config p] by blast
    show ?thesis
    proof (cases "prepare_context g p r")
      case no: (Inl e)
      show ?thesis
      proof (cases "is_capacity_error e")
        case True
        then have "walk is (Some e) st = (a, st')" using Cons.prems(1) Inr no by (simp add: walk_Cons)
        then obtain xs where "made_calls ask again st xs st'" "adapters_ok env g st'" "list_all (admitted env g r streaming is) xs"
          "in_route_order g is (map asked_id xs)" "answered_by ask failure st xs a" using Cons.IH Cons.prems(2) by blast
        then show ?thesis by (intro exI [of _ xs]) (auto simp: list_all_iff intro: admitted_mono in_route_order_skip)
      qed (use Cons.prems(1) Inr no in \<open>intro none [of e], simp add: walk_Cons\<close>)
    next
      case prepared: (Inr prepared)
      show ?thesis
      proof (cases "result_bind (gateway_provider env g p st) (\<lambda>ps. result_bind (profile_capabilities g p) (\<lambda>c. Return (ps, c)))")
        case (Inl e)
        then show ?thesis using Cons.prems(1) Inr prepared by (intro none [of e]) (simp add: walk_Cons)
      next
        case connect: (Inr y)
        then obtain provider st1 c where y: "y = ((provider, st1), c)" "gateway_provider env g p st = Return (provider, st1)"
          and c: "profile_capabilities g p = Return c" by auto
        let ?x = "\<lparr>aq_provider = provider, aq_profile = p, aq_capabilities = c, aq_prepared = prepared\<rparr>"
        note connected = gateway_provider_ok [OF Cons.prems(2), of p, unfolded key, OF p y(2)]
        have x: "admitted env g r streaming (i # is) ?x"
          using p key connected(1) c validate_request_allowed [OF valid c] prepare_context_Return [OF prepared c]
          by (simp add: admitted_def asked_id_def)
        obtain b st2 where run: "retry ?x 0 (nat (mp_max_retries p)) st1 = (b, st2)" by (rule prod.exhaust)
        obtain n where n: "n \<le> nat (mp_max_retries p)" "made_calls ask again st1 (replicate (Suc n) ?x) st2" "b = ask ?x (gs_calls st1 + n)"
          "gs_providers st2 = gs_providers st1" using retry_calls [OF run] by blast
        have here: "made_calls ask again st (replicate (Suc n) ?x) st2" using n(2) connected(3,4) by (simp add: made_calls_def)
        have ok: "adapters_ok env g st2" using connected(2) n(4) by (simp add: adapters_ok_def)
        have ids: "map asked_id (replicate (Suc n) ?x) = replicate (Suc n) i" by (simp add: asked_id_def key)
        have bound: "Suc n \<le> Suc (nat (mp_max_retries p))" using n(1) by simp
        have last: "b = ask (last (replicate (Suc n) ?x)) (gs_calls st + (length (replicate (Suc n) ?x) - 1))"
          using n(3) connected(3) by simp
        show ?thesis
        proof (cases "again b")
          case None
          then have "a = b" "st' = st2" using Cons.prems(1) Inr prepared connect y run by (simp_all add: walk_Cons)
          moreover have "in_route_order g (i # is) (replicate (Suc n) i @ [])"
            by (rule in_route_order_Cons [OF p bound in_route_order_Nil])
          ultimately show ?thesis
            using here ok x last
            by (intro exI [of _ "replicate (Suc n) ?x"])
              (simp del: replicate.simps map_replicate last_replicate add: answered_by_def ids list_all_iff)
        next
          case (Some e)
          then have "walk is (Some e) st2 = (a, st')" using Cons.prems(1) Inr prepared connect y run by (simp add: walk_Cons)
          then obtain xs where xs: "made_calls ask again st2 xs st'" "adapters_ok env g st'" "list_all (admitted env g r streaming is) xs"
            "in_route_order g is (map asked_id xs)" "answered_by ask failure st2 xs a" using Cons.IH ok by blast
          have "made_calls ask again st (replicate (Suc n) ?x @ xs) st'"
            by (rule calls_append [OF here xs(1)]) (simp only: last [symmetric] Some, simp)
          moreover have "in_route_order g (i # is) (map asked_id (replicate (Suc n) ?x @ xs))"
            unfolding map_append ids by (rule in_route_order_Cons [OF p bound xs(4)])
          moreover have "answered_by ask failure st (replicate (Suc n) ?x @ xs) a"
            by (rule answered_by_append [OF here xs(5)])
          moreover have "list_all (admitted env g r streaming (i # is)) (replicate (Suc n) ?x @ xs)"
            using x xs(3) by (auto simp: list_all_iff intro: admitted_mono)
          ultimately show ?thesis using xs(2) by blast
        qed
      qed
    qed
  qed
qed

end

section \<open>The two walks of the gateway\<close>

definition complete_call :: "('f, 's, 'p) gateway_env \<Rightarrow> 'p asked \<Rightarrow> nat \<Rightarrow> ModelResponse awaited" where
  "complete_call env x n = checked_answer (aq_profile x) (aq_capabilities x) (ge_complete env n (aq_provider x) (pcx_request (aq_prepared x)))"

definition complete_again :: "'a awaited \<Rightarrow> exn option" where
  "complete_again a = (case a of Failed e \<Rightarrow> if is_provider_error e \<and> retryable e then Some e else None | _ \<Rightarrow> None)"

definition complete_retry ::
    "('f, 's, 'p) gateway_env \<Rightarrow> 'p asked \<Rightarrow> nat \<Rightarrow> nat \<Rightarrow> 'p gateway_state \<Rightarrow> ModelResponse awaited \<times> 'p gateway_state" where
  "complete_retry env x = attempts env (aq_provider x) (aq_profile x) (aq_capabilities x) (pcx_request (aq_prepared x))"

lemma complete_case:
  "(case y of (Failed e, s) \<Rightarrow> if is_provider_error e \<and> retryable e then f e s else (Failed e, s) | (a, s) \<Rightarrow> (a, s)) =
   (let (a, s) = y in case complete_again a of Some e \<Rightarrow> f e s | None \<Rightarrow> (a, s))"
  by (cases y) (simp add: complete_again_def split: awaited.split)

interpretation completing: route_walk env g r False "complete_call env" Failed complete_again "complete_retry env" "try_profiles env g r"
  for env :: "('f, 's, 'p) gateway_env" and g :: "'f ModelGateway" and r :: ModelRequest
proof unfold_locales
  fix x :: "'p asked" and k m :: nat and st :: "'p gateway_state" and le i "is"
  show "complete_retry env x k 0 st = (complete_call env x (gs_calls st), log_call (aq_profile x) (pcx_request (aq_prepared x)) st)"
    by (simp add: complete_retry_def complete_call_def ask_complete_def)
  show "complete_retry env x k (Suc m) st =
      (let st1 = log_call (aq_profile x) (pcx_request (aq_prepared x)) st in
       if complete_again (complete_call env x (gs_calls st)) = None then (complete_call env x (gs_calls st), st1)
       else complete_retry env x (Suc k) m (log_event (Backoff (backoff k)) st1))"
    by (simp add: complete_retry_def complete_call_def ask_complete_def complete_again_def Let_def split: awaited.split)
  show "try_profiles env g r (i # is) le st =
      (case result_bind (gateway_profile g i) (\<lambda>p. result_bind (validate_request g p r False) (\<lambda>_. Return p)) of
         Inl e \<Rightarrow> (Failed e, st)
       | Inr p \<Rightarrow>
           (case prepare_context g p r of
              Inl e \<Rightarrow> if is_capacity_error e then try_profiles env g r is (Some e) st else (Failed e, st)
            | Inr prepared \<Rightarrow>
                (case result_bind (gateway_provider env g p st) (\<lambda>ps. result_bind (profile_capabilities g p) (\<lambda>c. Return (ps, c))) of
                   Inl e \<Rightarrow> (Failed e, st)
                 | Inr ((provider, st1), c) \<Rightarrow>
                     let (a, st2) = complete_retry env \<lparr>aq_provider = provider, aq_profile = p, aq_capabilities = c, aq_prepared = prepared\<rparr>
                           0 (nat (mp_max_retries p)) st1 in
                     case complete_again a of Some e \<Rightarrow> try_profiles env g r is (Some e) st2 | None \<Rightarrow> (a, st2))))"
    by (simp only: try_profiles.simps complete_case complete_retry_def asked.select_convs)
qed simp

definition stream_call :: "('f, 's, 'p) gateway_env \<Rightarrow> 'p asked \<Rightarrow> nat \<Rightarrow> ModelStreamEvent list \<times> unit awaited" where
  "stream_call env x n =
     (case ge_stream env n (aq_provider x) (pcx_request (aq_prepared x)) of
        (es, ending) \<Rightarrow> relay (aq_profile x) (aq_capabilities x) (aq_prepared x) es ending False {})"

definition stream_again :: "ModelStreamEvent list \<times> unit awaited \<Rightarrow> exn option" where
  "stream_again a = (if fst a = [] then complete_again (snd a) else None)"

definition stream_retry ::
    "('f, 's, 'p) gateway_env \<Rightarrow> 'p asked \<Rightarrow> nat \<Rightarrow> nat \<Rightarrow> 'p gateway_state \<Rightarrow>
     (ModelStreamEvent list \<times> unit awaited) \<times> 'p gateway_state" where
  "stream_retry env x = stream_attempts env (aq_provider x) (aq_profile x) (aq_capabilities x) (aq_prepared x)"

lemma stream_case:
  "(case y of ((out, Failed e), s) \<Rightarrow> if out = [] \<and> is_provider_error e \<and> retryable e then f e s else ((out, Failed e), s) | z \<Rightarrow> z) =
   (let (a, s) = y in case stream_again a of Some e \<Rightarrow> f e s | None \<Rightarrow> (a, s))"
  by (cases y) (simp add: stream_again_def complete_again_def split: awaited.split prod.split)

interpretation streaming: route_walk env g r True "stream_call env" "\<lambda>e. ([], Failed e)" stream_again "stream_retry env"
    "stream_profiles env g r"
  for env :: "('f, 's, 'p) gateway_env" and g :: "'f ModelGateway" and r :: ModelRequest
proof unfold_locales
  fix x :: "'p asked" and k m :: nat and st :: "'p gateway_state" and le i "is"
  show "stream_retry env x k 0 st = (stream_call env x (gs_calls st), log_call (aq_profile x) (pcx_request (aq_prepared x)) st)"
    by (simp add: stream_retry_def stream_call_def ask_stream_events_def)
  show "stream_retry env x k (Suc m) st =
      (let st1 = log_call (aq_profile x) (pcx_request (aq_prepared x)) st in
       if stream_again (stream_call env x (gs_calls st)) = None then (stream_call env x (gs_calls st), st1)
       else stream_retry env x (Suc k) m (log_event (Backoff (backoff k)) st1))"
    by (simp add: stream_retry_def stream_call_def ask_stream_events_def complete_again_def stream_again_def Let_def
        split: awaited.split prod.split)
  show "stream_profiles env g r (i # is) le st =
      (case result_bind (gateway_profile g i) (\<lambda>p. result_bind (validate_request g p r True) (\<lambda>_. Return p)) of
         Inl e \<Rightarrow> (([], Failed e), st)
       | Inr p \<Rightarrow>
           (case prepare_context g p r of
              Inl e \<Rightarrow> if is_capacity_error e then stream_profiles env g r is (Some e) st else (([], Failed e), st)
            | Inr prepared \<Rightarrow>
                (case result_bind (gateway_provider env g p st) (\<lambda>ps. result_bind (profile_capabilities g p) (\<lambda>c. Return (ps, c))) of
                   Inl e \<Rightarrow> (([], Failed e), st)
                 | Inr ((provider, st1), c) \<Rightarrow>
                     let (a, st2) = stream_retry env \<lparr>aq_provider = provider, aq_profile = p, aq_capabilities = c, aq_prepared = prepared\<rparr>
                           0 (nat (mp_max_retries p)) st1 in
                     case stream_again a of Some e \<Rightarrow> stream_profiles env g r is (Some e) st2 | None \<Rightarrow> (a, st2))))"
    by (simp only: stream_profiles.simps stream_case stream_retry_def asked.select_convs)
qed simp

end
