(* ===== verification/Model_Properties.thy ===== *)
theory Model_Properties
  imports Model_Gateway_Laws
begin

text \<open>What the model gateway guarantees: the request a provider is sent, which calls are made, and what a stream passes on.\<close>

section \<open>Prepared requests\<close>

text \<open>The text of a tool message, and the bounded reference to a stored result that it may carry.\<close>

definition tool_text :: "ModelMessage \<Rightarrow> string" where
  "tool_text m = join_with [CHR 0x0A] [t. TextContent t \<leftarrow> mm_content m]"

definition refers_to :: "ContextManager \<Rightarrow> string \<Rightarrow> (string \<times> json) list \<Rightarrow> bool" where
  "refers_to cm raw reference \<longleftrightarrow>
     (\<exists>payload result. cm_loads cm raw = Some (JObj payload) \<and> dict_get payload ''result'' = Some (JObj result) \<and>
        dict_get result ''result_reference'' = Some (JObj reference)) \<and> length (json_ascii (JObj reference)) \<le> 512"

text \<open>
  What shortening to \<open>limit\<close> tokens leaves of a message: a tool result within the limit and every other message is kept; a longer one is replaced
  by an object with the whole characters of its first \<open>limit - 64\<close> bytes and its bounded reference, if it has one.
\<close>

definition over_limit :: "ContextManager \<Rightarrow> int \<Rightarrow> ModelMessage \<Rightarrow> bool" where
  "over_limit cm limit m \<longleftrightarrow> mm_role m = TOOL_ROLE \<and> limit < cm_text_tokens cm (tool_text m)"

definition shortened_from :: "ContextManager \<Rightarrow> int \<Rightarrow> ModelMessage \<Rightarrow> ModelMessage \<Rightarrow> bool" where
  "shortened_from cm limit m m' \<longleftrightarrow>
     (if over_limit cm limit m
      then \<exists>hint. m' = m\<lparr>mm_content := [TextContent (json_spaced (JObj ([(''truncated'', JBool True),
               (''excerpt'', JStr (utf8_ignore (nat (limit - 64)) (take (nat (limit - 64)) (tool_text m))))] @ hint)))]\<rparr> \<and>
             (hint = [] \<and> (\<nexists>reference. refers_to cm (tool_text m) reference) \<or>
              (\<exists>reference. hint = [(''result_reference'', JObj reference)] \<and> refers_to cm (tool_text m) reference))
      else m' = m)"

lemma tool_text: "raw_text m = tool_text m"
proof -
  have "map the (filter (\<lambda>t. t \<noteq> None) (map part_text cs)) = [t. TextContent t \<leftarrow> cs]" for cs
  proof (induction cs)
    case (Cons c cs)
    then show ?case by (cases c) simp_all
  qed simp
  then show ?thesis by (simp add: raw_text_def tool_text_def)
qed

lemma reader_hint:
  "reader_hint cm raw = [] \<and> (\<nexists>reference. refers_to cm raw reference) \<or>
   (\<exists>reference. reader_hint cm raw = [(''result_reference'', JObj reference)] \<and> refers_to cm raw reference)"
  by (auto simp: reader_hint_def refers_to_def split: option.split json.split)

lemma shorten_from: "shortened_from cm k m (shorten cm k m)"
proof (cases "over_limit cm k m")
  case True
  have "nat (max 0 (k - 64)) = nat (k - 64)" by simp
  then have "shorten cm k m = m\<lparr>mm_content := [TextContent (json_spaced (JObj ([(''truncated'', JBool True),
      (''excerpt'', JStr (utf8_ignore (nat (k - 64)) (take (nat (k - 64)) (tool_text m))))] @ reader_hint cm (tool_text m))))]\<rparr>"
    using True by (simp add: shorten_def too_long_def over_limit_def tool_text compact_text_def Let_def)
  then show ?thesis unfolding shortened_from_def using True reader_hint [of cm "tool_text m"] by auto
next
  case False
  then have "\<not> too_long cm k m" by (simp add: too_long_def over_limit_def tool_text)
  with False show ?thesis by (simp add: shortened_from_def shorten_def)
qed

text \<open>
  The request before rounds are left out: as it was given when that fits, otherwise with its tool results shortened, each to its share of
  the budget, at least 64 and at most 2048 tokens; and how many were.
\<close>

definition tool_share :: "int \<Rightarrow> ModelRequest \<Rightarrow> int" where
  "tool_share b r = max 64 (min 2048 (b div max 4 (2 * int (length [m \<leftarrow> mq_messages r. mm_role m = TOOL_ROLE]))))"

definition results_shortened :: "ContextManager \<Rightarrow> int \<Rightarrow> ModelRequest \<Rightarrow> ModelRequest \<Rightarrow> nat \<Rightarrow> bool" where
  "results_shortened cm b r s n \<longleftrightarrow>
     (if estimate cm r \<le> b then s = r \<and> n = 0
      else s = r\<lparr>mq_messages := mq_messages s\<rparr> \<and> list_all2 (shortened_from cm (tool_share b r)) (mq_messages r) (mq_messages s) \<and>
        n = length (filter (over_limit cm (tool_share b r)) (mq_messages r)))"

lemma tool_share: "tool_limit b (mq_messages r) = tool_share b r"
  by (simp add: tool_limit_def tool_share_def mult.commute)

lemma results_shortened_shortened:
  "\<not> estimate cm r \<le> b \<Longrightarrow> results_shortened cm b r (shortened cm b r) (length (filter (too_long cm (tool_limit b (mq_messages r))) (mq_messages r)))"
  by (simp add: results_shortened_def shortened_def list_all2_conv_all_nth shorten_from tool_share too_long_def [abs_def] over_limit_def [abs_def]
      tool_text)

text \<open>
  \<open>fewest_cut cm b s k q\<close>: \<open>q\<close> is \<open>s\<close> without the messages of its \<open>k\<close> oldest rounds, other than the system's; it fits into \<open>b\<close>, and
  without fewer rounds it would not. The cut is at the beginning or at a message of the user.
\<close>

definition fewest_cut :: "ContextManager \<Rightarrow> int \<Rightarrow> ModelRequest \<Rightarrow> nat \<Rightarrow> ModelRequest \<Rightarrow> bool" where
  "fewest_cut cm b s k q \<longleftrightarrow>
     q = s\<lparr>mq_messages := mq_messages q\<rparr> \<and>
     (\<exists>n. (n = 0 \<or> n < length (mq_messages s) \<and> mm_role (mq_messages s ! n) = USER_ROLE) \<and>
        mq_messages q = filter is_system (take n (mq_messages s)) @ drop n (mq_messages s)) \<and>
     q = cut_request s k \<and> (k = 0 \<or> k < length (rounds_of (mq_messages s))) \<and> estimate cm q \<le> b \<and>
     (\<forall>i < k. b < estimate cm (cut_request s i))"

lemma fewest_cutI:
  assumes k: "k = 0 \<or> k < length (rounds_of (mq_messages s))" and "estimate cm (cut_request s k) \<le> b" "\<forall>i < k. b < estimate cm (cut_request s i)"
  shows "fewest_cut cm b s k (cut_request s k)"
proof -
  let ?n = "cut k (mq_messages s)"
  have "?n = 0 \<or> ?n < length (mq_messages s) \<and> mm_role (mq_messages s ! ?n) = USER_ROLE"
    using k cut_less [of k "mq_messages s"] rounds_user [of k "mq_messages s"] by (cases "k = 0") (simp_all add: cut_def)
  moreover have "cut_request s k = s\<lparr>mq_messages := mq_messages (cut_request s k)\<rparr>" by (simp add: cut_request_def)
  ultimately show ?thesis unfolding fewest_cut_def using assms cut_request_messages [OF k] by blast
qed

text \<open>
  C30. A request whose tool calls and results pair up is prepared for a window exactly when it can be made to fit. One that fits is left as it
  is. Of any other the tool results longer than their share of the budget are replaced by an excerpt with the bounded reference, nothing
  else is changed, and the fewest oldest rounds are left out; the prepared request costs what is reported and no more than the
  window minus the output reserve, its calls and results still pair up, and the number of shortened results is reported. Otherwise
  the error is a capacity error, so that the next profile of the route is tried, and the reserve leaves nothing or no cut of the shortened request fits.
\<close>

theorem prepared_context_fits:
  assumes valid: "validate_pairs (mq_messages r) = Return ()" and window: "1 \<le> window"
  shows "case prepare cm r window of
      Inr p \<Rightarrow> \<exists>s. results_shortened cm (budget_for r window) r s (pcx_truncated_tools p) \<and>
        fewest_cut cm (budget_for r window) s (pcx_removed_rounds p) (pcx_request p) \<and>
        pcx_estimated_input_tokens p = estimate cm (pcx_request p) \<and> validate_pairs (mq_messages (pcx_request p)) = Return ()
    | Inl e \<Rightarrow> is_capacity_error e \<and> (budget_for r window \<le> 0 \<or>
        (\<exists>s n. results_shortened cm (budget_for r window) r s n \<and>
          (\<forall>k. k = 0 \<or> k < length (rounds_of (mq_messages s)) \<longrightarrow> budget_for r window < estimate cm (cut_request s k))))"
proof -
  let ?b = "budget_for r window"
  consider "?b \<le> 0" | "0 < ?b" "estimate cm r \<le> ?b" | "0 < ?b" "?b < estimate cm r" by linarith
  then show ?thesis
  proof cases
    case 1
    then show ?thesis using valid window by (simp add: prepare_def Let_def)
  next
    case 2
    then show ?thesis using valid window fewest_cutI [of 0 r cm ?b] by (simp add: prepare_def Let_def results_shortened_def)
  next
    case 3
    let ?s = "shortened cm ?b r"
    let ?t = "length (filter (too_long cm (tool_limit ?b (mq_messages r))) (mq_messages r))"
    have prep: "prepare cm r window = reduce_rounds cm ?b ?s ?t" using 3 valid window by (simp add: prepare_def Let_def)
    have s: "validate_pairs (mq_messages ?s) = Return ()" using valid by (simp add: shortened_def)
    have cut: "results_shortened cm ?b r ?s ?t" using 3 by (intro results_shortened_shortened) simp
    show ?thesis
    proof (rule reduce_rounds_cases [OF s, of ?b cm ?t])
      fix k
      assume k: "k = 0 \<or> k < length (rounds_of (mq_messages ?s))" "\<forall>i < k. ?b < estimate cm (cut_request ?s i)"
        "estimate cm (cut_request ?s k) \<le> ?b"
        "reduce_rounds cm ?b ?s ?t = Return \<lparr>pcx_request = cut_request ?s k, pcx_estimated_input_tokens = estimate cm (cut_request ?s k),
           pcx_removed_rounds = k, pcx_truncated_tools = ?t\<rparr>"
      show ?thesis
        unfolding prep k(4) sum.case PreparedContext.select_convs
        using cut fewest_cutI [OF k(1,3,2)] cut_request_valid [OF s k(1)] by blast
    next
      assume none: "\<forall>k. k = 0 \<or> k < length (rounds_of (mq_messages ?s)) \<longrightarrow> ?b < estimate cm (cut_request ?s k)"
        "reduce_rounds cm ?b ?s ?t = Raise (ContextCapacityError ''required current input exceeds context budget'')"
      show ?thesis unfolding prep none(2) sum.case using cut none(1) by (auto simp del: budget_for_def)
    qed
  qed
qed

section \<open>Calls\<close>

text \<open>
  C28. Every call \<open>complete\<close> makes goes to an adapter made for a profile of the route, in the order of the route and at most
  \<open>max_retries + 1\<close> times each; the profile permits the model, its capabilities cover what the request uses, and the request was prepared for
  its window. A call follows another only when that one failed with a retryable error, and the answer is that of the last call,
  with several tool calls only where the profile allows them.
\<close>

theorem model_calls_admitted:
  assumes config: "validate_configuration g = Return ()" and route: "gateway_route g i = Return route" and ok: "adapters_ok env g st"
    and run: "gateway_complete env g i r st = (a, st')"
  shows "\<exists>xs new. gs_trace st' = gs_trace st @ new \<and> filter is_attempt new = map asked_event xs \<and>
    list_all (admitted env g r False (route_profiles route)) xs \<and> in_route_order g (route_profiles route) (map asked_id xs) \<and>
    (\<forall>j. Suc j < length xs \<longrightarrow> complete_again (complete_call env (xs ! j) (gs_calls st + j)) \<noteq> None) \<and>
    (\<forall>resp. a = Answered resp \<longrightarrow> xs \<noteq> [] \<and>
       ge_complete env (gs_calls st + (length xs - 1)) (aq_provider (last xs)) (pcx_request (aq_prepared (last xs))) = Answered resp \<and>
       (length (mrs_tool_calls resp) \<le> 1 \<or> cap_parallel_tool_calls (aq_capabilities (last xs)))) \<and> adapters_ok env g st'"
proof -
  have "try_profiles env g r (route_profiles route) None st = (a, st')" using run route by (simp add: gateway_complete_def)
  then obtain xs where xs: "made_calls (complete_call env) complete_again st xs st'" "adapters_ok env g st'"
    "list_all (admitted env g r False (route_profiles route)) xs" "in_route_order g (route_profiles route) (map asked_id xs)"
    "answered_by (complete_call env) Failed st xs a" using completing.walk_spec [OF config _ ok] by blast
  have "xs \<noteq> [] \<and> complete_call env (last xs) (gs_calls st + (length xs - 1)) = Answered resp" if "a = Answered resp" for resp
    using xs(5) that by (auto simp: answered_by_def)
  then have "xs \<noteq> [] \<and>
       ge_complete env (gs_calls st + (length xs - 1)) (aq_provider (last xs)) (pcx_request (aq_prepared (last xs))) = Answered resp \<and>
       (length (mrs_tool_calls resp) \<le> 1 \<or> cap_parallel_tool_calls (aq_capabilities (last xs)))" if "a = Answered resp" for resp
    using that by (fastforce simp: complete_call_def checked_answer_def split: awaited.splits if_splits)
  then show ?thesis using xs(1-4) unfolding made_calls_def by blast
qed

section \<open>Streams\<close>

definition stream_ids :: "ModelStreamEvent list \<Rightarrow> string set" where
  "stream_ids es = (\<Union>e \<in> set es. case se_tool_call e of None \<Rightarrow> {} | Some t \<Rightarrow> {mtc_call_id t})"

lemma stream_ids_Cons [simp]:
  "stream_ids [] = {}" "stream_ids (e # es) = (case se_tool_call e of None \<Rightarrow> {} | Some t \<Rightarrow> {mtc_call_id t}) \<union> stream_ids es"
  by (simp_all add: stream_ids_def)

text \<open>What one stream passes on: a prefix of the provider's events, announced by the context it was prepared with.\<close>

lemma relay_prefix:
  "relay p c prepared es ending emitted ids = (out, a) \<Longrightarrow> finite ids \<Longrightarrow> cap_parallel_tool_calls c \<or> card ids \<le> 1 \<Longrightarrow>
     \<exists>k \<le> length es. out = (if k = 0 \<or> emitted \<or> \<not> compacted prepared then [] else [compaction_event prepared]) @ take k es \<and>
       list_all (\<lambda>e. \<not> gateway_owned e) (take k es) \<and> (cap_parallel_tool_calls c \<or> card (ids \<union> stream_ids (take k es)) \<le> 1) \<and>
       (a = Answered () \<longrightarrow> k = length es \<and> ending = Answered ())"
proof (induction es arbitrary: emitted ids out a)
  case (Cons e es)
  let ?ids = "case se_tool_call e of None \<Rightarrow> ids | Some t \<Rightarrow> insert (mtc_call_id t) ids"
  have stop: ?case if "out = []" "a = Failed f" for f
    using that Cons.prems(3) by (intro exI [of _ 0]) simp
  show ?case
  proof (cases "gateway_owned e \<or> se_tool_call e \<noteq> None \<and> 1 < card ?ids \<and> \<not> cap_parallel_tool_calls c")
    case True
    then show ?thesis using Cons.prems(1) stop by (auto simp: Let_def split: if_splits)
  next
    case False
    obtain out' where rest: "relay p c prepared es ending True ?ids = (out', a)"
      and out: "out = (if \<not> emitted \<and> compacted prepared then [compaction_event prepared] else []) @ e # out'"
      using Cons.prems(1) False by (cases "relay p c prepared es ending True ?ids") (auto simp: Let_def)
    have fin: "finite ?ids" "cap_parallel_tool_calls c \<or> card ?ids \<le> 1"
      using Cons.prems(2,3) False by (auto split: option.splits)
    obtain k where k: "k \<le> length es" "out' = take k es" "list_all (\<lambda>e. \<not> gateway_owned e) (take k es)"
      "cap_parallel_tool_calls c \<or> card (?ids \<union> stream_ids (take k es)) \<le> 1" "a = Answered () \<longrightarrow> k = length es \<and> ending = Answered ()"
      using Cons.IH [OF rest fin] by auto
    have "?ids \<union> stream_ids (take k es) = ids \<union> stream_ids (take (Suc k) (e # es))" by (auto split: option.split)
    then show ?thesis using k out False by (intro exI [of _ "Suc k"]) auto
  qed
qed auto

text \<open>
  C29. Two answers are never spliced: whatever a stream yields is a prefix of the events of one call, the last one made, to an adapter
  of the route; in front of it stands the description of the shortened context exactly when that call's context was shortened. No event carries
  context state of the provider's own, events name several tool calls only where the profile allows it, and a stream that ends without error
  has passed on every event.
\<close>

theorem stream_not_spliced:
  assumes config: "validate_configuration g = Return ()" and route: "gateway_route g i = Return route" and ok: "adapters_ok env g st"
    and run: "stream_unobserved env g i r st = ((out, a), st')" and some: "out \<noteq> []"
  shows "\<exists>xs new n es ending k. gs_trace st' = gs_trace st @ new \<and> filter is_attempt new = map asked_event xs \<and>
    list_all (admitted env g r True (route_profiles route)) xs \<and> xs \<noteq> [] \<and> gs_calls st' = Suc n \<and>
    ge_stream env n (aq_provider (last xs)) (pcx_request (aq_prepared (last xs))) = (es, ending) \<and> 0 < k \<and> k \<le> length es \<and>
    out = (if compacted (aq_prepared (last xs)) then [compaction_event (aq_prepared (last xs))] else []) @ take k es \<and>
    list_all (\<lambda>e. \<not> gateway_owned e) (take k es) \<and>
    (cap_parallel_tool_calls (aq_capabilities (last xs)) \<or> card (stream_ids (take k es)) \<le> 1) \<and>
    (a = Answered () \<longrightarrow> k = length es \<and> ending = Answered ())"
proof -
  have "stream_profiles env g r (route_profiles route) None st = ((out, a), st')" using run route by (simp add: stream_unobserved_def)
  then obtain xs where xs: "made_calls (stream_call env) stream_again st xs st'" "list_all (admitted env g r True (route_profiles route)) xs"
    "answered_by (stream_call env) (\<lambda>e. ([], Failed e)) st xs (out, a)" using streaming.walk_spec [OF config _ ok] by blast
  let ?n = "gs_calls st + (length xs - 1)" and ?x = "last xs"
  have ne: "xs \<noteq> []" and call: "(out, a) = stream_call env ?x ?n" using xs(3) some by (auto simp: answered_by_def)
  obtain new where new: "gs_trace st' = gs_trace st @ new" "filter is_attempt new = map asked_event xs" and "gs_calls st' = Suc ?n"
    using xs(1) ne by (auto simp: made_calls_def)
  obtain es ending where es: "ge_stream env ?n (aq_provider ?x) (pcx_request (aq_prepared ?x)) = (es, ending)" by (rule prod.exhaust)
  have relayed: "relay (aq_profile ?x) (aq_capabilities ?x) (aq_prepared ?x) es ending False {} = (out, a)"
    using call es by (simp add: stream_call_def)
  obtain k where k: "k \<le> length es"
    "out = (if k = 0 \<or> \<not> compacted (aq_prepared ?x) then [] else [compaction_event (aq_prepared ?x)]) @ take k es"
    "list_all (\<lambda>e. \<not> gateway_owned e) (take k es)" "cap_parallel_tool_calls (aq_capabilities ?x) \<or> card (stream_ids (take k es)) \<le> 1"
    "a = Answered () \<longrightarrow> k = length es \<and> ending = Answered ()"
    using relay_prefix [OF relayed] by auto
  then have "0 < k" using some by (cases k) auto
  then have "out = (if compacted (aq_prepared ?x) then [compaction_event (aq_prepared ?x)] else []) @ take k es" using k(2) by simp
  then show ?thesis using new xs(2) ne es k(1,3-5) \<open>0 < k\<close> \<open>gs_calls st' = Suc ?n\<close> by blast
qed

section \<open>An example\<close>

text \<open>
  A route over two profiles of one provider. The first two calls are refused with a retryable error; the conversation has one round too many for
  the window of the profiles.
\<close>

definition route_demo_say :: "ModelRole \<Rightarrow> ModelMessage" where
  "route_demo_say role = \<lparr>mm_role = role, mm_content = [TextContent ''x''], mm_tool_calls = [], mm_tool_call_id = None, mm_name = None\<rparr>"

definition route_demo_request :: ModelRequest where
  "route_demo_request = \<lparr>mq_messages = [route_demo_say SYSTEM_ROLE, route_demo_say USER_ROLE, route_demo_say ASSISTANT_ROLE, route_demo_say USER_ROLE], mq_model = None,
     mq_tools = [], mq_tool_choice = CHOICE_AUTO, mq_temperature = None, mq_top_p = None, mq_max_output_tokens = 10, mq_stop = [],
     mq_response_schema = None, mq_metadata = []\<rparr>"

definition route_demo_context :: ContextManager where
  "route_demo_context = \<lparr>cm_text_tokens = (\<lambda>_. 1), cm_image_tokens = 1, cm_loads = (\<lambda>_. None)\<rparr>"

definition route_demo_provider :: ProviderDescriptor where
  "route_demo_provider = \<lparr>pd_provider_id = ''p'', pd_display_name = ''P'', pd_adapter = OPENAI_CHAT, pd_auth = INTERNAL_NONE, pd_default_base_url = None,
     pd_aliases = {}, pd_capabilities = default_capabilities\<lparr>cap_max_context_tokens := Some 100\<rparr>\<rparr>"

definition route_demo_profile :: "string \<Rightarrow> int \<Rightarrow> ModelProfile" where
  "route_demo_profile i retries = \<lparr>mp_profile_id = i, mp_provider_id = ''p'', mp_model = ''m'', mp_credential_ref = None, mp_base_url = None,
     mp_timeout = 1, mp_max_retries = retries, mp_allowed_models = {}, mp_default_headers = [], mp_provider_options = [],
     mp_allow_plain_http = False, mp_capabilities = \<lparr>mc_streaming = None, mc_tools = None, mc_parallel_tool_calls = Some False,
       mc_json_schema = None, mc_reasoning = None, mc_vision = None, mc_documents = None, mc_max_context_tokens = None\<rparr>,
     mp_allow_capability_overrides = False\<rparr>"

definition route_demo_gateway :: "unit ModelGateway" where
  "route_demo_gateway = \<lparr>gw_registry = \<lparr>prg_entries = [(''p'', (route_demo_provider, Some ()))], prg_aliases = [(''p'', ''p'')]\<rparr>,
     gw_profiles = [(''a'', route_demo_profile ''a'' 1), (''b'', route_demo_profile ''b'' 0)],
     gw_routes = [(''r'', \<lparr>mr_route_id = ''r'', mr_primary_profile = ''a'', mr_fallback_profiles = [''b'']\<rparr>)],
     gw_context = route_demo_context, gw_default_context_tokens = 100\<rparr>"

definition route_demo_busy :: exn where
  "route_demo_busy = ModelProviderError ''rate_limit'' ''busy'' (Some ''p'') (Some 429) True"

definition route_demo_response :: ModelResponse where
  "route_demo_response = \<lparr>mrs_response_id = ''1'', mrs_provider_id = ''p'', mrs_model = ''m'', mrs_content = [], mrs_tool_calls = [],
     mrs_finish_reason = FINISH_STOP, mrs_usage = None, mrs_provider_metadata = []\<rparr>"

definition route_demo_event :: ModelStreamEvent where
  "route_demo_event = \<lparr>se_type = TEXT_DELTA, se_response_id = None, se_text_delta = Some ''y'', se_reasoning_delta = None, se_tool_call = None,
     se_usage = None, se_finish_reason = None, se_context_info = None, se_prepared_messages = None\<rparr>"

definition route_demo_env :: "(unit, unit, string) gateway_env" where
  "route_demo_env = \<lparr>ge_adapt = (\<lambda>_ _ p _. Return (mp_profile_id p)), ge_secret = (\<lambda>_. Return ()),
     ge_complete = (\<lambda>n _ _. if n < 2 then Failed route_demo_busy else Answered route_demo_response),
     ge_stream = (\<lambda>n _ _. if n < 2 then ([], Failed route_demo_busy) else ([route_demo_event, route_demo_event], Answered ()))\<rparr>"

definition route_demo_state :: "string gateway_state" where
  "route_demo_state = \<lparr>gs_providers = [], gs_calls = 0, gs_trace = []\<rparr>"

lemma route_demo_config: "validate_configuration route_demo_gateway = Return ()"
  by code_simp

lemma route_demo_adapters: "adapters_ok route_demo_env route_demo_gateway route_demo_state"
  by (simp add: adapters_ok_def route_demo_state_def)

lemma route_demo_pairs: "validate_pairs (mq_messages route_demo_request) = Return ()"
  by code_simp

text \<open>The request both profiles are sent.\<close>

definition route_demo_sent :: ModelRequest where
  "route_demo_sent = route_demo_request\<lparr>mq_messages := [route_demo_say SYSTEM_ROLE, route_demo_say USER_ROLE]\<rparr>"

definition route_demo_prepared :: PreparedContext where
  "route_demo_prepared = \<lparr>pcx_request = route_demo_sent, pcx_estimated_input_tokens = 71, pcx_removed_rounds = 1, pcx_truncated_tools = 0\<rparr>"

definition route_demo_end :: "string gateway_state" where
  "route_demo_end = \<lparr>gs_providers = [(''a'', ''a''), (''b'', ''b'')], gs_calls = 3,
     gs_trace = [Attempt ''a'' route_demo_sent, Backoff 250000, Attempt ''a'' route_demo_sent, Attempt ''b'' route_demo_sent]\<rparr>"

lemma route_demo_prepare: "prepare route_demo_context route_demo_request 100 = Return route_demo_prepared"
  by code_simp

lemma route_demo_route: "gateway_route route_demo_gateway ''r'' = Return \<lparr>mr_route_id = ''r'', mr_primary_profile = ''a'', mr_fallback_profiles = [''b'']\<rparr>"
  by code_simp

lemma route_demo_complete: "gateway_complete route_demo_env route_demo_gateway ''r'' route_demo_request route_demo_state = (Answered route_demo_response, route_demo_end)"
  by code_simp

lemma route_demo_stream: "stream_unobserved route_demo_env route_demo_gateway ''r'' route_demo_request route_demo_state =
    (([compaction_event route_demo_prepared, route_demo_event, route_demo_event], Answered ()), route_demo_end)"
  by code_simp

lemma route_demo_asked:
  assumes "gs_trace route_demo_end = gs_trace route_demo_state @ new" "filter is_attempt new = map asked_event xs"
  shows "map asked_id xs = [''a'', ''a'', ''b'']"
  using assms by (auto simp: route_demo_end_def route_demo_state_def asked_event_def Cons_eq_map_conv)

theorem prepared_context_fits_witness:
  "\<exists>s. results_shortened route_demo_context 90 route_demo_request s 0 \<and> fewest_cut route_demo_context 90 s 1 route_demo_sent"
proof -
  have "budget_for route_demo_request 100 = 90" by code_simp
  then show ?thesis
    using prepared_context_fits [of route_demo_request 100 route_demo_context, OF route_demo_pairs] by (auto simp: route_demo_prepare route_demo_prepared_def)
qed

theorem model_calls_admitted_witness:
  "\<exists>xs. map asked_id xs = [''a'', ''a'', ''b''] \<and> list_all (admitted route_demo_env route_demo_gateway route_demo_request False [''a'', ''b'']) xs \<and>
     in_route_order route_demo_gateway [''a'', ''b''] (map asked_id xs) \<and>
     ge_complete route_demo_env 2 (aq_provider (last xs)) (pcx_request (aq_prepared (last xs))) = Answered route_demo_response"
proof -
  obtain xs new where xs: "gs_trace route_demo_end = gs_trace route_demo_state @ new" "filter is_attempt new = map asked_event xs"
    "list_all (admitted route_demo_env route_demo_gateway route_demo_request False [''a'', ''b'']) xs" "in_route_order route_demo_gateway [''a'', ''b''] (map asked_id xs)"
    "ge_complete route_demo_env (gs_calls route_demo_state + (length xs - 1)) (aq_provider (last xs)) (pcx_request (aq_prepared (last xs))) = Answered route_demo_response"
    using model_calls_admitted [OF route_demo_config route_demo_route route_demo_adapters route_demo_complete] by (auto simp: route_profiles_def)
  have "map asked_id xs = [''a'', ''a'', ''b'']" by (rule route_demo_asked [OF xs(1,2)])
  moreover from this have "length xs = 3" using length_map [of asked_id xs] by simp
  ultimately have "gs_calls route_demo_state + (length xs - 1) = 2" by (simp add: route_demo_state_def)
  with xs(5) have "ge_complete route_demo_env 2 (aq_provider (last xs)) (pcx_request (aq_prepared (last xs))) = Answered route_demo_response"
    by (simp only:)
  then show ?thesis using xs(3,4) route_demo_asked [OF xs(1,2)] by (intro exI [of _ xs] conjI)
qed

theorem stream_not_spliced_witness:
  "\<exists>xs k. map asked_id xs = [''a'', ''a'', ''b''] \<and> list_all (admitted route_demo_env route_demo_gateway route_demo_request True [''a'', ''b'']) xs \<and>
     [compaction_event route_demo_prepared, route_demo_event, route_demo_event] =
       (if compacted (aq_prepared (last xs)) then [compaction_event (aq_prepared (last xs))] else []) @ take k [route_demo_event, route_demo_event]"
proof -
  obtain xs new n es ending k where xs: "gs_trace route_demo_end = gs_trace route_demo_state @ new" "filter is_attempt new = map asked_event xs"
    "list_all (admitted route_demo_env route_demo_gateway route_demo_request True [''a'', ''b'']) xs" "gs_calls route_demo_end = Suc n"
    "ge_stream route_demo_env n (aq_provider (last xs)) (pcx_request (aq_prepared (last xs))) = (es, ending)"
    "[compaction_event route_demo_prepared, route_demo_event, route_demo_event] =
       (if compacted (aq_prepared (last xs)) then [compaction_event (aq_prepared (last xs))] else []) @ take k es"
    using stream_not_spliced [OF route_demo_config route_demo_route route_demo_adapters route_demo_stream list.distinct(2), unfolded route_profiles_def ModelRoute.select_convs]
    by blast
  have "n = 2" using xs(4) by (simp add: route_demo_end_def)
  then have "es = [route_demo_event, route_demo_event]" using xs(5) by (simp add: route_demo_env_def)
  note out = xs(6) [unfolded this]
  show ?thesis using xs(3) out route_demo_asked [OF xs(1,2)] by (intro exI [of _ xs] exI [of _ k] conjI)
qed

end
