(* ===== verification/Scopes.thy ===== *)
theory Scopes
  imports Prelude
begin

text \<open>
  \<^verbatim>\<open>src/suiteharness/runtime/scopes.py\<close>: scope paths (\<open>ScopePath\<close>), the authenticated
  request identity (\<open>RequestScope\<close>), typed service keys (\<open>ServiceKey\<close>) and the immutable
  layers of service bindings (\<open>ServiceBindings\<close>) with parent fallback; and the registration
  candidates of \<^verbatim>\<open>execution/protocols.py\<close>. A constructor that validates is a function into
  \<open>result\<close>; a value the constructor accepts satisfies the validity predicate of its type.
  The runtime classes a service contract names are not part of the repository's data: a
  contract is an opaque value and \<open>isinstance\<close> a parameter, \<open>None\<close> where Python raises
  \<open>TypeError\<close> because the class is not runtime-checkable.
\<close>

section \<open>Identifiers\<close>

definition ID_PATTERN :: "string \<Rightarrow> bool" where
  [guard_defs]: "ID_PATTERN s \<longleftrightarrow> head_then (\<lambda>c. is_alnum c \<or> c \<in> set ''._:-'') 127 s"

definition SERVICE_PATTERN :: "string \<Rightarrow> bool" where
  [guard_defs]: "SERVICE_PATTERN s \<longleftrightarrow> name_pattern s"

definition check_identifier :: "string option \<Rightarrow> string \<Rightarrow> string result" where
  "check_identifier value label =
     (case value of
        None \<Rightarrow> Raise (ValueError (label @ '' is not a valid identifier''))
      | Some s \<Rightarrow>
          if ID_PATTERN s then Return s
          else Raise (ValueError (label @ '' is not a valid identifier'')))"

lemma check_identifier_Inr [simp]: "check_identifier v l = Inr s \<longleftrightarrow> v = Some s \<and> ID_PATTERN s"
  by (auto simp: check_identifier_def split: option.splits)

lemma ID_PATTERN_nonempty: "ID_PATTERN s \<Longrightarrow> s \<noteq> []"
  by (auto simp: guard_defs)

lemma ID_PATTERN_length: "ID_PATTERN s \<Longrightarrow> length s \<le> 128"
  by (auto simp: guard_defs split: list.splits)

section \<open>Scope paths\<close>

datatype ScopeKind = ROOT | TENANT | PRODUCT | AGENT

fun CHILD_KIND :: "ScopeKind \<Rightarrow> ScopeKind option" where
  "CHILD_KIND ROOT = Some TENANT"
| "CHILD_KIND TENANT = Some PRODUCT"
| "CHILD_KIND PRODUCT = Some AGENT"
| "CHILD_KIND AGENT = None"

record ScopePath =
  sp_kind :: ScopeKind
  sp_tenant_id :: "string option"
  sp_product_id :: "string option"
  sp_agent_id :: "string option"
  sp_session_id :: "string option"

definition ScopePath_post_init :: "ScopePath \<Rightarrow> ScopePath result" where
  "ScopePath_post_init p =
     (if sp_kind p = ROOT then
        (if sp_tenant_id p \<noteq> None \<or> sp_product_id p \<noteq> None \<or> sp_agent_id p \<noteq> None \<or>
            sp_session_id p \<noteq> None
         then Raise (ValueError ''root scope cannot carry child identifiers'')
         else Return p)
      else result_bind (check_identifier (sp_tenant_id p) ''tenant_id'') (\<lambda>_.
        if sp_kind p = TENANT then
          (if sp_product_id p \<noteq> None \<or> sp_agent_id p \<noteq> None \<or> sp_session_id p \<noteq> None
           then Raise (ValueError ''tenant scope cannot carry product or agent identifiers'')
           else Return p)
        else result_bind (check_identifier (sp_product_id p) ''product_id'') (\<lambda>_.
          if sp_kind p = PRODUCT then
            (if sp_agent_id p \<noteq> None \<or> sp_session_id p \<noteq> None
             then Raise (ValueError ''product scope cannot carry agent identifiers'')
             else Return p)
          else result_bind (check_identifier (sp_agent_id p) ''agent_id'') (\<lambda>_.
            result_bind (check_identifier (sp_session_id p) ''session_id'') (\<lambda>_. Return p)))))"

abbreviation root_path :: ScopePath where
  "root_path \<equiv> \<lparr>sp_kind = ROOT, sp_tenant_id = None, sp_product_id = None,
                 sp_agent_id = None, sp_session_id = None\<rparr>"

abbreviation tenant_path :: "string option \<Rightarrow> ScopePath" where
  "tenant_path t \<equiv> \<lparr>sp_kind = TENANT, sp_tenant_id = t, sp_product_id = None,
                     sp_agent_id = None, sp_session_id = None\<rparr>"

abbreviation product_path :: "string option \<Rightarrow> string option \<Rightarrow> ScopePath" where
  "product_path t p \<equiv> \<lparr>sp_kind = PRODUCT, sp_tenant_id = t, sp_product_id = p,
                        sp_agent_id = None, sp_session_id = None\<rparr>"

definition ScopePath_root :: "ScopePath result" where
  "ScopePath_root = ScopePath_post_init root_path"

definition ScopePath_tenant :: "string option \<Rightarrow> ScopePath result" where
  "ScopePath_tenant t = ScopePath_post_init (tenant_path t)"

definition ScopePath_product :: "string option \<Rightarrow> string option \<Rightarrow> ScopePath result" where
  "ScopePath_product t p = ScopePath_post_init (product_path t p)"

definition ScopePath_agent ::
    "string option \<Rightarrow> string option \<Rightarrow> string option \<Rightarrow> string option \<Rightarrow> ScopePath result" where
  "ScopePath_agent t p a s =
     ScopePath_post_init \<lparr>sp_kind = AGENT, sp_tenant_id = t, sp_product_id = p,
                          sp_agent_id = a, sp_session_id = s\<rparr>"

definition ScopePath_parent :: "ScopePath \<Rightarrow> ScopePath option result" where
  "ScopePath_parent p =
     (case sp_kind p of
        ROOT \<Rightarrow> Return None
      | TENANT \<Rightarrow> result_bind ScopePath_root (\<lambda>q. Return (Some q))
      | PRODUCT \<Rightarrow> result_bind (ScopePath_tenant (sp_tenant_id p)) (\<lambda>q. Return (Some q))
      | AGENT \<Rightarrow> result_bind (ScopePath_product (sp_tenant_id p) (sp_product_id p))
                   (\<lambda>q. Return (Some q)))"

text \<open>The paths the constructor accepts: exactly the identifiers of the kind, all valid.\<close>

definition id_present :: "string option \<Rightarrow> bool" where
  [guard_defs]: "id_present v \<longleftrightarrow> (case v of None \<Rightarrow> False | Some s \<Rightarrow> ID_PATTERN s)"

fun valid_path :: "ScopePath \<Rightarrow> bool" where
  "valid_path p =
     (case sp_kind p of
        ROOT \<Rightarrow> sp_tenant_id p = None \<and> sp_product_id p = None \<and> sp_agent_id p = None \<and>
                sp_session_id p = None
      | TENANT \<Rightarrow> id_present (sp_tenant_id p) \<and> sp_product_id p = None \<and>
                sp_agent_id p = None \<and> sp_session_id p = None
      | PRODUCT \<Rightarrow> id_present (sp_tenant_id p) \<and> id_present (sp_product_id p) \<and>
                sp_agent_id p = None \<and> sp_session_id p = None
      | AGENT \<Rightarrow> id_present (sp_tenant_id p) \<and> id_present (sp_product_id p) \<and>
                id_present (sp_agent_id p) \<and> id_present (sp_session_id p))"

section \<open>The authenticated request scope\<close>

record RequestScope =
  rs_path :: ScopePath
  rs_principal_id :: string
  rs_channel_id :: string
  rs_roles :: "string set"
  rs_purpose :: string
  rs_request_id :: string
  rs_correlation_id :: string
  rs_session_owner_id :: "string option"

definition RequestScope_post_init :: "RequestScope \<Rightarrow> RequestScope result" where
  "RequestScope_post_init r =
     (if sp_kind (rs_path r) \<notin> {PRODUCT, AGENT}
      then Raise (ValueError ''request scope must target a product or agent'')
      else result_bind (check_identifier (Some (rs_principal_id r)) ''principal_id'') (\<lambda>_.
        result_bind (check_identifier (Some (rs_channel_id r)) ''channel_id'') (\<lambda>_.
          if py_strip (rs_purpose r) = [] then Raise (ValueError ''purpose must not be empty'')
          else if \<exists>role \<in> rs_roles r. \<not> ID_PATTERN role
          then Raise (ValueError ''role is not a valid identifier'')
          else if rs_request_id r \<noteq> [] \<and> \<not> ID_PATTERN (rs_request_id r)
          then Raise (ValueError ''request_id is not a valid identifier'')
          else if rs_correlation_id r \<noteq> [] \<and> \<not> ID_PATTERN (rs_correlation_id r)
          then Raise (ValueError ''correlation_id is not a valid identifier'')
          else case rs_session_owner_id r of
                 None \<Rightarrow> Return r
               | Some s \<Rightarrow> result_bind (check_identifier (Some s) ''session_owner_id'') (\<lambda>_. Return r))))"

definition rs_tenant_id :: "RequestScope \<Rightarrow> string option" where
  "rs_tenant_id r = sp_tenant_id (rs_path r)"

definition rs_product_id :: "RequestScope \<Rightarrow> string option" where
  "rs_product_id r = sp_product_id (rs_path r)"

definition effective_session_owner_id :: "RequestScope \<Rightarrow> string" where
  "effective_session_owner_id r =
     (case rs_session_owner_id r of
        None \<Rightarrow> rs_principal_id r
      | Some s \<Rightarrow> if s = [] then rs_principal_id r else s)"

text \<open>
  \<open>registration_candidates\<close> of \<^verbatim>\<open>execution/protocols.py\<close>: the most specific scope first. The
  paths it builds repeat identifiers the request's own path already validated
  (\<open>candidates_valid\<close> below), so the constructors cannot raise.
\<close>

definition registration_candidates :: "RequestScope \<Rightarrow> ScopePath list" where
  "registration_candidates r =
     [if sp_kind (rs_path r) = PRODUCT then rs_path r
      else product_path (rs_tenant_id r) (rs_product_id r),
      tenant_path (rs_tenant_id r),
      root_path]"

definition valid_request :: "RequestScope \<Rightarrow> bool" where
  "valid_request r \<longleftrightarrow> valid_path (rs_path r) \<and> RequestScope_post_init r = Inr r"

section \<open>Service keys and binding layers\<close>

record 'c ServiceKey =
  sk_name :: string
  sk_contract :: 'c
  sk_declared_at :: ScopeKind
  sk_overridable_at :: "ScopeKind set"

definition ServiceKey_post_init :: "'c ServiceKey \<Rightarrow> 'c ServiceKey result" where
  "ServiceKey_post_init k =
     (if \<not> SERVICE_PATTERN (sk_name k) then Raise (ValueError ''invalid service key'')
      else if sk_declared_at k \<in> sk_overridable_at k
      then Raise (ValueError ''declared scope must not be repeated in overridable_at'')
      else Return k)"

definition binding_scopes :: "'c ServiceKey \<Rightarrow> ScopeKind set" where
  "binding_scopes k = insert (sk_declared_at k) (sk_overridable_at k)"

definition ServiceKey_validate ::
    "('v \<Rightarrow> 'c \<Rightarrow> bool option) \<Rightarrow> 'c ServiceKey \<Rightarrow> 'v \<Rightarrow> unit result" where
  "ServiceKey_validate isinst k v =
     (case isinst v (sk_contract k) of
        None \<Rightarrow> Raise (TypeError ''service contract is not runtime-checkable'')
      | Some False \<Rightarrow> Raise (TypeError ''service requires its contract'')
      | Some True \<Rightarrow> Return ())"

record ('c, 'v) Binding =
  b_key :: "'c ServiceKey"
  b_value :: 'v

datatype ('c, 'v) ServiceBindings =
  ServiceBindings (sb_kind: ScopeKind) (sb_local: "(string, ('c, 'v) Binding) dict")
    (sb_parent: "('c, 'v) ServiceBindings option")

fun sb_find :: "('c, 'v) ServiceBindings \<Rightarrow> string \<Rightarrow> ('c, 'v) Binding option" where
  "sb_find (ServiceBindings k loc par) name =
     (case dict_get loc name of
        Some b \<Rightarrow> Some b
      | None \<Rightarrow> (case par of None \<Rightarrow> None | Some q \<Rightarrow> sb_find q name))"

text \<open>The loop of \<open>ServiceBindings.__init__\<close> over the offered values.\<close>

fun bind_values ::
    "('v \<Rightarrow> 'c \<Rightarrow> bool option) \<Rightarrow> ScopeKind \<Rightarrow> ('c, 'v) ServiceBindings option \<Rightarrow>
     (string, ('c, 'v) Binding) dict \<Rightarrow> ('c ServiceKey \<times> 'v) list \<Rightarrow>
     (string, ('c, 'v) Binding) dict result" where
  "bind_values isinst kind par loc [] = Return loc"
| "bind_values isinst kind par loc ((key, value) # rest) =
     (if dict_get loc (sk_name key) \<noteq> None
      then Raise (ServiceBindingError ''duplicate local service name'')
      else if kind \<notin> binding_scopes key
      then Raise (ServiceBindingError ''service cannot be bound at this scope'')
      else result_bind (ServiceKey_validate isinst key value) (\<lambda>_.
        case (case par of None \<Rightarrow> None | Some p \<Rightarrow> sb_find p (sk_name key)) of
          Some inherited \<Rightarrow>
            if b_key inherited \<noteq> key
            then Raise (ServiceBindingError ''service was redefined with an incompatible ServiceKey'')
            else if kind \<notin> sk_overridable_at key
            then Raise (ServiceBindingError ''service cannot be overridden at this scope'')
            else bind_values isinst kind par
                   (dict_set (sk_name key) \<lparr>b_key = key, b_value = value\<rparr> loc) rest
        | None \<Rightarrow> bind_values isinst kind par
                   (dict_set (sk_name key) \<lparr>b_key = key, b_value = value\<rparr> loc) rest))"

definition ServiceBindings_init ::
    "('v \<Rightarrow> 'c \<Rightarrow> bool option) \<Rightarrow> ScopeKind \<Rightarrow> ('c ServiceKey \<times> 'v) list \<Rightarrow>
     ('c, 'v) ServiceBindings option \<Rightarrow> ('c, 'v) ServiceBindings result" where
  "ServiceBindings_init isinst kind values par =
     (if par = None \<and> kind \<noteq> ROOT
      then Raise (ServiceBindingError ''only root bindings may omit a parent'')
      else if (case par of None \<Rightarrow> False | Some p \<Rightarrow> CHILD_KIND (sb_kind p) \<noteq> Some kind)
      then Raise (ServiceBindingError ''bindings cannot inherit directly from this kind'')
      else result_bind (bind_values isinst kind par [] values)
             (\<lambda>loc. Return (ServiceBindings kind loc par)))"

definition sb_derive ::
    "('v \<Rightarrow> 'c \<Rightarrow> bool option) \<Rightarrow> ('c, 'v) ServiceBindings \<Rightarrow> ScopeKind \<Rightarrow>
     ('c ServiceKey \<times> 'v) list \<Rightarrow> ('c, 'v) ServiceBindings result" where
  "sb_derive isinst b kind values = ServiceBindings_init isinst kind values (Some b)"

definition sb_resolve :: "('c, 'v) ServiceBindings \<Rightarrow> 'c ServiceKey \<Rightarrow> 'v result" where
  "sb_resolve b key =
     (case sb_find b (sk_name key) of
        None \<Rightarrow> Raise (LookupError ''service is not bound'')
      | Some bd \<Rightarrow>
          if b_key bd \<noteq> key
          then Raise (ServiceBindingError ''service was requested with an incompatible ServiceKey'')
          else Return (b_value bd))"

definition sb_contains :: "('c, 'v) ServiceBindings \<Rightarrow> 'c ServiceKey \<Rightarrow> bool" where
  "sb_contains b key \<longleftrightarrow>
     (case sb_find b (sk_name key) of None \<Rightarrow> False | Some bd \<Rightarrow> b_key bd = key)"

definition sb_local_names :: "('c, 'v) ServiceBindings \<Rightarrow> string list" where
  "sb_local_names b = sort (dict_keys (sb_local b))"

text \<open>\<open>snapshot\<close>: the layers from the most specific to the root, then overlaid from the root.\<close>

fun sb_lineage :: "('c, 'v) ServiceBindings \<Rightarrow> ('c, 'v) ServiceBindings list" where
  "sb_lineage (ServiceBindings k loc par) =
     ServiceBindings k loc par # (case par of None \<Rightarrow> [] | Some q \<Rightarrow> sb_lineage q)"

definition overlay :: "('c, 'v) ServiceBindings \<Rightarrow> (string, 'v) dict \<Rightarrow> (string, 'v) dict" where
  "overlay layer acc = fold (\<lambda>(n, b) d. dict_set n (b_value b) d) (sb_local layer) acc"

definition sb_snapshot :: "('c, 'v) ServiceBindings \<Rightarrow> (string, 'v) dict" where
  "sb_snapshot b = fold overlay (rev (sb_lineage b)) []"

text \<open>The layers built by the constructor only.\<close>

inductive constructed ::
    "('v \<Rightarrow> 'c \<Rightarrow> bool option) \<Rightarrow> ('c, 'v) ServiceBindings \<Rightarrow> bool" for isinst where
  constructed_root: "ServiceBindings_init isinst ROOT vs None = Inr b \<Longrightarrow> constructed isinst b"
| constructed_child: "constructed isinst p \<Longrightarrow> ServiceBindings_init isinst k vs (Some p) = Inr b \<Longrightarrow>
     constructed isinst b"


section \<open>Scope paths: the constructor and the parent chain\<close>

lemma ScopePath_post_init_iff [simp]:
  "ScopePath_post_init p = Inr q \<longleftrightarrow> q = p \<and> valid_path p"
  by (cases "sp_kind p")
     (auto simp: ScopePath_post_init_def id_present_def split: option.splits)

lemma valid_path_simps [simp]:
  "valid_path root_path"
  "valid_path (tenant_path t) \<longleftrightarrow> id_present t"
  "valid_path (product_path t p) \<longleftrightarrow> id_present t \<and> id_present p"
  by simp_all

declare valid_path.simps [simp del]

lemma valid_path_ids:
  "valid_path p \<Longrightarrow> sp_kind p \<noteq> ROOT \<Longrightarrow> id_present (sp_tenant_id p)"
  "valid_path p \<Longrightarrow> sp_kind p = PRODUCT \<or> sp_kind p = AGENT \<Longrightarrow> id_present (sp_product_id p)"
  by (auto simp: valid_path.simps split: ScopeKind.splits)

lemma valid_product_path:
  "valid_path p \<Longrightarrow> sp_kind p = PRODUCT \<Longrightarrow> p = product_path (sp_tenant_id p) (sp_product_id p)"
  by (cases p) (simp add: valid_path.simps)

lemma ScopePath_constructors:
  "ScopePath_root = Inr root_path"
  "id_present t \<Longrightarrow> ScopePath_tenant t = Inr (tenant_path t)"
  "id_present t \<Longrightarrow> id_present p \<Longrightarrow> ScopePath_product t p = Inr (product_path t p)"
  by (simp_all add: ScopePath_root_def ScopePath_tenant_def ScopePath_product_def)

lemma ScopePath_parent_eq:
  assumes "valid_path p"
  shows "ScopePath_parent p = Inr
     (case sp_kind p of
        ROOT \<Rightarrow> None
      | TENANT \<Rightarrow> Some root_path
      | PRODUCT \<Rightarrow> Some (tenant_path (sp_tenant_id p))
      | AGENT \<Rightarrow> Some (product_path (sp_tenant_id p) (sp_product_id p)))"
  using valid_path_ids [OF assms]
  by (cases "sp_kind p") (simp_all add: ScopePath_parent_def ScopePath_constructors)

lemma ScopePath_parent_valid:
  assumes "valid_path p" and "ScopePath_parent p = Inr (Some q)"
  shows "valid_path q \<and> CHILD_KIND (sp_kind q) = Some (sp_kind p)"
  using assms(2) valid_path_ids [OF assms(1)]
  by (auto simp: ScopePath_parent_eq [OF assms(1)] split: ScopeKind.splits)

section \<open>Request scopes\<close>

lemma RequestScope_post_init_Inr:
  "RequestScope_post_init r = Inr r' \<Longrightarrow>
     r' = r \<and> sp_kind (rs_path r) \<in> {PRODUCT, AGENT} \<and> ID_PATTERN (rs_principal_id r) \<and>
     ID_PATTERN (rs_channel_id r) \<and> (\<forall>role \<in> rs_roles r. ID_PATTERN role)"
  by (auto simp: RequestScope_post_init_def split: if_splits option.splits)

lemma valid_requestD:
  assumes "valid_request r"
  shows "valid_path (rs_path r)" and "sp_kind (rs_path r) = PRODUCT \<or> sp_kind (rs_path r) = AGENT"
    and "id_present (rs_tenant_id r)" and "id_present (rs_product_id r)"
    and "ID_PATTERN (rs_principal_id r)"
proof -
  show v: "valid_path (rs_path r)" using assms by (simp add: valid_request_def)
  have "RequestScope_post_init r = Inr r" using assms by (simp add: valid_request_def)
  from RequestScope_post_init_Inr [OF this]
  show k: "sp_kind (rs_path r) = PRODUCT \<or> sp_kind (rs_path r) = AGENT"
    and "ID_PATTERN (rs_principal_id r)" by auto
  show "id_present (rs_tenant_id r)" "id_present (rs_product_id r)"
    using valid_path_ids [OF v] k by (auto simp: rs_tenant_id_def rs_product_id_def)
qed

lemma registration_candidates_eq:
  assumes "valid_request r"
  shows "registration_candidates r =
           [product_path (rs_tenant_id r) (rs_product_id r), tenant_path (rs_tenant_id r), root_path]"
proof -
  have "rs_path r = product_path (rs_tenant_id r) (rs_product_id r)" if "sp_kind (rs_path r) = PRODUCT"
    using valid_product_path [OF valid_requestD(1) [OF assms] that]
    by (simp add: rs_tenant_id_def rs_product_id_def)
  then show ?thesis by (simp add: registration_candidates_def)
qed

lemma candidates_valid:
  assumes "valid_request r"
  shows "list_all valid_path (registration_candidates r)"
  using valid_requestD(3,4) [OF assms] by (simp add: registration_candidates_eq [OF assms])

section \<open>Binding layers\<close>

lemma bind_values_ok:
  "bind_values isinst kind par loc vs = Inr loc' \<Longrightarrow> dict_ok loc \<Longrightarrow> dict_ok loc'"
  by (induction isinst kind par loc vs rule: bind_values.induct)
     (auto split: if_splits option.splits)

text \<open>
  What a finished layer promises of each of its own bindings: the binding sits under its key's
  name, the key may be bound at the layer's kind, and a binding that hides an inherited one has
  the inherited key and that key allows the override at this kind.
\<close>

definition layer_entry_ok ::
    "ScopeKind \<Rightarrow> ('c, 'v) ServiceBindings option \<Rightarrow> string \<Rightarrow> ('c, 'v) Binding \<Rightarrow> bool" where
  "layer_entry_ok kind par n b \<longleftrightarrow>
     sk_name (b_key b) = n \<and> kind \<in> binding_scopes (b_key b) \<and>
     (\<forall>q inh. par = Some q \<longrightarrow> sb_find q n = Some inh \<longrightarrow>
        b_key inh = b_key b \<and> kind \<in> sk_overridable_at (b_key b))"

lemma bind_values_entry:
  assumes "bind_values isinst kind par loc vs = Inr loc'"
    and "\<And>n b. dict_get loc n = Some b \<Longrightarrow> layer_entry_ok kind par n b"
    and "dict_get loc' n = Some b"
  shows "layer_entry_ok kind par n b"
  using assms
proof (induction vs arbitrary: loc)
  case Nil
  then show ?case by simp
next
  case (Cons kv rest)
  obtain key v where kv: "kv = (key, v)" by (cases kv)
  let ?new = "\<lparr>b_key = key, b_value = v\<rparr>"
  let ?loc = "dict_set (sk_name key) ?new loc"
  have new: "layer_entry_ok kind par (sk_name key) ?new"
    using Cons.prems(1) kv by (auto simp: layer_entry_ok_def split: if_splits option.splits)
  have rest: "bind_values isinst kind par ?loc rest = Inr loc'"
    using Cons.prems(1) kv by (auto split: if_splits option.splits)
  show ?case
    by (rule Cons.IH [OF rest _ Cons.prems(3)]) (use new Cons.prems(2) in \<open>auto split: if_splits\<close>)
qed

lemma ServiceBindings_initD:
  assumes "ServiceBindings_init isinst kind vs par = Inr b"
  shows "\<exists>loc. b = ServiceBindings kind loc par \<and> dict_ok loc \<and>
           (\<forall>n bd. dict_get loc n = Some bd \<longrightarrow> layer_entry_ok kind par n bd)"
    and "\<And>p. par = Some p \<Longrightarrow> CHILD_KIND (sb_kind p) = Some kind"
    and "par = None \<Longrightarrow> kind = ROOT"
proof -
  obtain loc where loc: "bind_values isinst kind par [] vs = Inr loc"
    and b: "b = ServiceBindings kind loc par"
    using assms by (auto simp: ServiceBindings_init_def split: if_splits)
  have "dict_ok loc" using bind_values_ok [OF loc] by simp
  moreover have "layer_entry_ok kind par n bd" if "dict_get loc n = Some bd" for n bd
    by (rule bind_values_entry [OF loc _ that]) simp
  ultimately show "\<exists>loc. b = ServiceBindings kind loc par \<and> dict_ok loc \<and>
           (\<forall>n bd. dict_get loc n = Some bd \<longrightarrow> layer_entry_ok kind par n bd)"
    using b by blast
  show "\<And>p. par = Some p \<Longrightarrow> CHILD_KIND (sb_kind p) = Some kind"
    and "par = None \<Longrightarrow> kind = ROOT"
    using assms by (auto simp: ServiceBindings_init_def split: if_splits)
qed

text \<open>Looking a service up below a constructed layer keeps its key, and its value too unless
  the key allows an override at the layer's kind.\<close>

lemma find_in_child:
  assumes "ServiceBindings_init isinst kind vs (Some p) = Inr b" and "sb_find p n = Some inh"
  shows "\<exists>bd. sb_find b n = Some bd \<and> b_key bd = b_key inh \<and>
           (kind \<notin> sk_overridable_at (b_key inh) \<longrightarrow> bd = inh)"
proof -
  obtain loc where b: "b = ServiceBindings kind loc (Some p)"
    and ok: "\<And>n bd. dict_get loc n = Some bd \<Longrightarrow> layer_entry_ok kind (Some p) n bd"
    using ServiceBindings_initD(1) [OF assms(1)] by blast
  show ?thesis
  proof (cases "dict_get loc n")
    case None
    with b assms(2) show ?thesis by simp
  next
    case (Some bd)
    from ok [OF Some] assms(2) have "b_key inh = b_key bd" and "kind \<in> sk_overridable_at (b_key bd)"
      by (auto simp: layer_entry_ok_def)
    with Some b show ?thesis by simp
  qed
qed

lemma lineage_self [simp]: "b \<in> set (sb_lineage b)"
  by (cases b) simp

lemma constructed_lineage:
  assumes "constructed isinst b" and "q \<in> set (sb_lineage b)" and "sb_find q n = Some inh"
  shows "\<exists>bd. sb_find b n = Some bd \<and> b_key bd = b_key inh \<and>
           (sk_overridable_at (b_key inh) = {} \<longrightarrow> bd = inh)"
  using assms
proof (induction arbitrary: q inh rule: constructed.induct)
  case (constructed_root vs b)
  then obtain loc where "b = ServiceBindings ROOT loc None"
    using ServiceBindings_initD(1) by blast
  with constructed_root.prems show ?case by auto
next
  case (constructed_child p k vs b)
  obtain loc where b: "b = ServiceBindings k loc (Some p)"
    using ServiceBindings_initD(1) [OF constructed_child.hyps(2)] by blast
  show ?case
  proof (cases "q = b")
    case True
    with constructed_child.prems show ?thesis by auto
  next
    case False
    with constructed_child.prems(1) b have "q \<in> set (sb_lineage p)" by auto
    from constructed_child.IH [OF this constructed_child.prems(2)] obtain pd where
      pd: "sb_find p n = Some pd" and key: "b_key pd = b_key inh"
      and same: "sk_overridable_at (b_key inh) = {} \<longrightarrow> pd = inh"
      by blast
    from find_in_child [OF constructed_child.hyps(2) pd] obtain bd where
      "sb_find b n = Some bd" "b_key bd = b_key pd" "k \<notin> sk_overridable_at (b_key pd) \<longrightarrow> bd = pd"
      by blast
    with key same show ?thesis by auto
  qed
qed

lemma dict_get_fold_set:
  "dict_get (fold (\<lambda>(k, v) d. dict_set k (f v) d) kvs acc) n =
     (case dict_get (rev kvs) n of Some v \<Rightarrow> Some (f v) | None \<Rightarrow> dict_get acc n)"
  by (induction kvs arbitrary: acc) (auto simp: map_add_def split: option.splits)

lemma dict_get_overlay:
  assumes "dict_ok (sb_local l)"
  shows "dict_get (overlay l acc) n =
           (case dict_get (sb_local l) n of Some b \<Rightarrow> Some (b_value b) | None \<Rightarrow> dict_get acc n)"
proof -
  have "dict_get (rev (sb_local l)) = dict_get (sb_local l)"
    using assms by (simp add: dict_get_rev)
  then show ?thesis by (simp add: overlay_def dict_get_fold_set)
qed

lemma constructed_snapshot:
  "constructed isinst b \<Longrightarrow> dict_get (sb_snapshot b) n = map_option b_value (sb_find b n)"
proof (induction rule: constructed.induct)
  case (constructed_root vs b)
  then obtain loc where "b = ServiceBindings ROOT loc None" "dict_ok loc"
    using ServiceBindings_initD(1) by blast
  then show ?case by (auto simp: sb_snapshot_def dict_get_overlay split: option.splits)
next
  case (constructed_child p k vs b)
  then obtain loc where "b = ServiceBindings k loc (Some p)" "dict_ok loc"
    using ServiceBindings_initD(1) by blast
  with constructed_child.IH show ?case
    by (auto simp: sb_snapshot_def dict_get_overlay split: option.splits)
qed

section \<open>Properties\<close>

text \<open>The scopes from a path up to the root, as following \<open>parent\<close> gives them.\<close>

definition scope_chain :: "ScopePath \<Rightarrow> ScopePath list" where
  "scope_chain p = p #
     (case sp_kind p of
        ROOT \<Rightarrow> []
      | TENANT \<Rightarrow> [root_path]
      | PRODUCT \<Rightarrow> [tenant_path (sp_tenant_id p), root_path]
      | AGENT \<Rightarrow> [product_path (sp_tenant_id p) (sp_product_id p), tenant_path (sp_tenant_id p), root_path])"

definition sample_path :: ScopePath where
  "sample_path = (product_path (Some ''acme'') (Some ''shop''))
     \<lparr>sp_kind := AGENT, sp_agent_id := Some ''bot'', sp_session_id := Some ''s1''\<rparr>"

definition sample_key :: "unit ServiceKey" where
  "sample_key = \<lparr>sk_name = ''audit'', sk_contract = (), sk_declared_at = ROOT, sk_overridable_at = {PRODUCT}\<rparr>"

definition sample_root :: "(unit, nat) ServiceBindings" where
  "sample_root = ServiceBindings ROOT [(''audit'', \<lparr>b_key = sample_key, b_value = 7\<rparr>)] None"

definition sample_tenant :: "(unit, nat) ServiceBindings" where
  "sample_tenant = ServiceBindings TENANT [] (Some sample_root)"

lemma sample_tenant_constructed: "constructed (\<lambda>_ _. Some True) sample_tenant"
proof -
  have "ServiceBindings_init (\<lambda>_ _. Some True) ROOT [(sample_key, 7 :: nat)] None = Inr sample_root"
    by (simp add: ServiceBindings_init_def binding_scopes_def ServiceKey_validate_def sample_root_def sample_key_def)
  moreover have "ServiceBindings_init (\<lambda>_ _. Some True) TENANT [] (Some sample_root) = Inr sample_tenant"
    by (simp add: ServiceBindings_init_def sample_tenant_def sample_root_def)
  ultimately show ?thesis by (blast intro: constructed.intros)
qed

text \<open>
  C20. Following \<open>parent\<close> from a valid scope leads through valid scopes, each of the next outer
  kind, to the root, in at most three steps.
\<close>

theorem scope_chain_reaches_root:
  assumes "valid_path p"
  shows "last (scope_chain p) = root_path \<and> length (scope_chain p) \<le> 4 \<and> list_all valid_path (scope_chain p) \<and>
     (\<forall>i. Suc i < length (scope_chain p) \<longrightarrow>
        ScopePath_parent (scope_chain p ! i) = Inr (Some (scope_chain p ! Suc i)) \<and>
        CHILD_KIND (sp_kind (scope_chain p ! Suc i)) = Some (sp_kind (scope_chain p ! i)))"
  using assms valid_path_ids [OF assms]
  by (cases "sp_kind p")
     (auto simp: scope_chain_def ScopePath_parent_eq nth_Cons' less_Suc_eq valid_path.simps)

theorem scope_chain_reaches_root_witness:
  "last (scope_chain sample_path) = root_path \<and> list_all valid_path (scope_chain sample_path)"
proof -
  have "valid_path sample_path" by code_simp
  from scope_chain_reaches_root [OF this] show ?thesis by blast
qed

text \<open>
  C19. A binding of an outer scope is what an inner scope sees, unless one of the scopes in
  between is of a kind at which the service's key may be overridden.
\<close>

theorem service_kept_unless_overridable:
  assumes "constructed isinst b" and "outer \<in> set (sb_lineage b)" and "sb_find outer n = Some inherited"
    and "\<forall>layer \<in> set (takeWhile (\<lambda>l. l \<noteq> outer) (sb_lineage b)). sb_kind layer \<notin> sk_overridable_at (b_key inherited)"
  shows "sb_find b n = Some inherited"
  using assms
proof (induction rule: constructed.induct)
  case (constructed_root vs b)
  then have "outer = b" using ServiceBindings_initD(1) [OF constructed_root(1)] by auto
  with constructed_root show ?case by simp
next
  case (constructed_child p k vs b)
  obtain loc where b: "b = ServiceBindings k loc (Some p)"
    using ServiceBindings_initD(1) [OF constructed_child(2)] by auto
  show ?case
  proof (cases "outer = b")
    case False
    with constructed_child b have "sb_find p n = Some inherited" and "k \<notin> sk_overridable_at (b_key inherited)" by auto
    with find_in_child [OF constructed_child(2)] show ?thesis by auto
  qed (use constructed_child in simp)
qed

theorem service_kept_unless_overridable_witness:
  "sb_find sample_tenant ''audit'' = Some \<lparr>b_key = sample_key, b_value = 7\<rparr>"
  by (rule service_kept_unless_overridable [OF sample_tenant_constructed, of sample_root])
     (simp_all add: sample_tenant_def sample_root_def sample_key_def)

text \<open>
  The flattened snapshot of a scope's services agrees with looking every name up through the
  chain of scopes.
\<close>

theorem snapshot_agrees_with_lookup:
  assumes "constructed isinst b"
  shows "dict_get (sb_snapshot b) n = map_option b_value (sb_find b n)"
  using assms by (rule constructed_snapshot)

theorem snapshot_agrees_with_lookup_witness:
  "dict_get (sb_snapshot sample_tenant) ''audit'' = map_option b_value (sb_find sample_tenant ''audit'')"
  by (rule snapshot_agrees_with_lookup [OF sample_tenant_constructed])

end
