(* ===== verification/Memory_Models.thy ===== *)
theory Memory_Models
  imports Json_Model Scopes "HOL-Library.Product_Lexorder"
begin

text \<open>
  \<^verbatim>\<open>src/suiteharness/memory/models.py\<close>, \<^verbatim>\<open>memory/errors.py\<close> and the helpers at the head of \<^verbatim>\<open>memory/in_memory.py\<close>:
  claims, sharing policies, candidates, curation, and the argument checks, fingerprints and idempotency records the
  two providers share. A claim's value is a JSON value; a value that \<open>json.dumps\<close> refuses is
  \<open>None\<close> where a command takes one. The elements of a set are written into a fingerprint in their order as strings.
  The clock and SHA-256 are parameters.
\<close>

section \<open>Errors\<close>

datatype MemoryErrorCode =
    PERMISSION_DENIED | POLICY_REFUSED | NOT_FOUND | ENTITY_ALIAS_NOT_FOUND | REVISION_CONFLICT | IDEMPOTENCY_CONFLICT
  | INVALID_STATE | INVALID_ARGUMENT

fun memory_code_value :: "MemoryErrorCode \<Rightarrow> string" where
  "memory_code_value PERMISSION_DENIED = ''PERMISSION_DENIED''"
| "memory_code_value POLICY_REFUSED = ''POLICY_DENIED''"
| "memory_code_value NOT_FOUND = ''NOT_FOUND''"
| "memory_code_value ENTITY_ALIAS_NOT_FOUND = ''ENTITY_ALIAS_NOT_FOUND''"
| "memory_code_value REVISION_CONFLICT = ''REVISION_CONFLICT''"
| "memory_code_value IDEMPOTENCY_CONFLICT = ''IDEMPOTENCY_CONFLICT''"
| "memory_code_value INVALID_STATE = ''INVALID_STATE''"
| "memory_code_value INVALID_ARGUMENT = ''INVALID_ARGUMENT''"

abbreviation memory_error :: "MemoryErrorCode \<Rightarrow> string \<Rightarrow> (string \<times> string list) list \<Rightarrow> 'a result" where
  "memory_error code message detail \<equiv> Raise (MemoryCapabilityError (memory_code_value code) message detail)"

section \<open>Roles\<close>

definition PRIVATE_READ :: string where "PRIVATE_READ = ''memory.private.read''"
definition PRIVATE_WRITE :: string where "PRIVATE_WRITE = ''memory.private.write''"
definition SHARE_PROPOSE :: string where "SHARE_PROPOSE = ''memory.share.propose''"
definition SHARED_READ :: string where "SHARED_READ = ''memory.shared.read''"
definition SHARING_ADMIN :: string where "SHARING_ADMIN = ''memory.sharing.admin''"
definition ENTITY_ADMIN :: string where "ENTITY_ADMIN = ''memory.entity.admin''"
definition CURATOR :: string where "CURATOR = ''memory.customer360.curate''"

text \<open>A valid request scope has both ids.\<close>

definition scope_tenant :: "RequestScope \<Rightarrow> string" where
  "scope_tenant s = (case rs_tenant_id s of None \<Rightarrow> [] | Some t \<Rightarrow> t)"

definition scope_product :: "RequestScope \<Rightarrow> string" where
  "scope_product s = (case rs_product_id s of None \<Rightarrow> [] | Some p \<Rightarrow> p)"

section \<open>Models\<close>

datatype SpaceKind = PRODUCT_PRIVATE | CUSTOMER360_SHARED

record SpaceRef =
  sr_tenant_id :: string
  sr_kind :: SpaceKind
  sr_owner_product_id :: "string option"

definition SpaceRef_post_init :: "SpaceRef \<Rightarrow> SpaceRef result" where
  "SpaceRef_post_init r =
     (if py_strip (sr_tenant_id r) = [] then Raise (ValueError ''tenant_id must not be empty'')
      else if sr_kind r = PRODUCT_PRIVATE \<and> (sr_owner_product_id r = None \<or> sr_owner_product_id r = Some [])
      then Raise (ValueError ''a private space must have an owner product'')
      else if sr_kind r = CUSTOMER360_SHARED \<and> sr_owner_product_id r \<noteq> None
      then Raise (ValueError ''a Customer360 space cannot have an owner product'')
      else Return r)"

definition SpaceRef_private :: "RequestScope \<Rightarrow> SpaceRef result" where
  "SpaceRef_private s = SpaceRef_post_init
     \<lparr>sr_tenant_id = scope_tenant s, sr_kind = PRODUCT_PRIVATE, sr_owner_product_id = Some (scope_product s)\<rparr>"

definition SpaceRef_customer360 :: "string \<Rightarrow> SpaceRef result" where
  "SpaceRef_customer360 t =
     SpaceRef_post_init \<lparr>sr_tenant_id = t, sr_kind = CUSTOMER360_SHARED, sr_owner_product_id = None\<rparr>"

datatype PrivateClaimStatus = CLAIM_ASSERTED | CLAIM_RETRACTED
datatype CandidateStatus = CAND_PENDING | CAND_ACCEPTED | CAND_REJECTED | CAND_STALE | CAND_WITHDRAWN
datatype SharedClaimStatus = SHARED_SELECTED | SHARED_RETRACTED
datatype CurationAction = ACTION_ACCEPT | ACTION_REJECT

fun candidate_status_value :: "CandidateStatus \<Rightarrow> string" where
  "candidate_status_value CAND_PENDING = ''pending''"
| "candidate_status_value CAND_ACCEPTED = ''accepted''"
| "candidate_status_value CAND_REJECTED = ''rejected''"
| "candidate_status_value CAND_STALE = ''stale''"
| "candidate_status_value CAND_WITHDRAWN = ''withdrawn''"

fun curation_action_value :: "CurationAction \<Rightarrow> string" where
  "curation_action_value ACTION_ACCEPT = ''accept''"
| "curation_action_value ACTION_REJECT = ''reject''"

fun parse_action :: "string \<Rightarrow> CurationAction result" where
  "parse_action s =
     (if s = ''accept'' then Return ACTION_ACCEPT else if s = ''reject'' then Return ACTION_REJECT
      else memory_error INVALID_ARGUMENT ''unsupported curation action'' [(''action'', [s])])"

record PrivateClaim =
  pc_claim_id :: string
  pc_space :: SpaceRef
  pc_local_subject_id :: string
  pc_predicate :: string
  pc_value :: json
  pc_source_ref :: string
  pc_created_by :: string
  pc_recorded_at :: int
  pc_status :: PrivateClaimStatus
  pc_version :: int
  pc_retraction_reason :: string
  pc_retracted_at :: "int option"

record EntityAlias =
  ea_tenant_id :: string
  ea_source_product_id :: string
  ea_local_subject_id :: string
  ea_entity_id :: string
  ea_revision :: int
  ea_bound_by :: string
  ea_bound_at :: int

record PeerPredicateRule =
  pr_peer_product_id :: string
  pr_predicates :: "string set"

record SharingPolicy =
  sg_tenant_id :: string
  sg_product_id :: string
  sg_publish_enabled :: bool
  sg_consume_enabled :: bool
  sg_publish_predicates :: "string set"
  sg_consume_predicates :: "string set"
  sg_publish_to_products :: "string set"
  sg_consume_from_products :: "string set"
  sg_publish_rules :: "PeerPredicateRule list"
  sg_consume_rules :: "PeerPredicateRule list"
  sg_revision :: int
  sg_updated_by :: string
  sg_updated_at :: "int option"

definition default_sharing :: "string \<Rightarrow> string \<Rightarrow> SharingPolicy" where
  "default_sharing t p =
     \<lparr>sg_tenant_id = t, sg_product_id = p, sg_publish_enabled = False, sg_consume_enabled = False, sg_publish_predicates = {},
      sg_consume_predicates = {}, sg_publish_to_products = {}, sg_consume_from_products = {}, sg_publish_rules = [],
      sg_consume_rules = [], sg_revision = 0, sg_updated_by = [], sg_updated_at = None\<rparr>"

definition publish_audience_for :: "SharingPolicy \<Rightarrow> string \<Rightarrow> string set" where
  "publish_audience_for p predicate =
     (if \<not> sg_publish_enabled p then {}
      else if sg_publish_rules p \<noteq> []
      then pr_peer_product_id ` set (filter (\<lambda>r. predicate \<in> pr_predicates r) (sg_publish_rules p))
      else if predicate \<notin> sg_publish_predicates p then {}
      else sg_publish_to_products p)"

definition can_consume_from :: "SharingPolicy \<Rightarrow> string \<Rightarrow> string \<Rightarrow> bool" where
  "can_consume_from p source predicate \<longleftrightarrow>
     sg_consume_enabled p \<and>
     (if sg_consume_rules p \<noteq> []
      then list_ex (\<lambda>r. pr_peer_product_id r = source \<and> predicate \<in> pr_predicates r) (sg_consume_rules p)
      else source \<in> sg_consume_from_products p \<and> predicate \<in> sg_consume_predicates p)"

record ShareCandidate =
  sc_candidate_id :: string
  sc_tenant_id :: string
  sc_entity_id :: string
  sc_source_space :: SpaceRef
  sc_source_claim_id :: string
  sc_source_claim_version :: int
  sc_source_product_id :: string
  sc_source_ref :: string
  sc_predicate :: string
  sc_value :: json
  sc_audience_product_ids :: "string set"
  sc_policy_revision :: int
  sc_status :: CandidateStatus
  sc_proposed_by :: string
  sc_proposed_at :: int
  sc_decided_at :: "int option"

record ProvenanceRef =
  pv_source_product_id :: string
  pv_source_claim_id :: string
  pv_source_claim_version :: int
  pv_source_ref :: string
  pv_candidate_id :: string
  pv_policy_revision :: int

record SharedClaim =
  sh_claim_id :: string
  sh_space :: SpaceRef
  sh_entity_id :: string
  sh_predicate :: string
  sh_value :: json
  sh_audience_product_ids :: "string set"
  sh_provenance :: "ProvenanceRef list"
  sh_status :: SharedClaimStatus
  sh_created_at :: int
  sh_retracted_at :: "int option"
  sh_retraction_reason :: string

record CurationDecision =
  cud_decision_id :: string
  cud_candidate_id :: string
  cud_action :: CurationAction
  cud_reason :: string
  cud_curator :: string
  cud_previous_revision :: int
  cud_new_revision :: int
  cud_decided_at :: int

record CurationResult =
  cur_candidate :: ShareCandidate
  cur_decision :: CurationDecision
  cur_shared_claim :: "SharedClaim option"
  cur_entity_revision :: int

record EntityRevision =
  er_entity_id :: string
  er_revision :: int

record WithdrawalReceipt =
  wr_source_claim_id :: string
  wr_candidates_withdrawn :: nat
  wr_shared_claims_retracted :: nat
  wr_entity_revisions :: "EntityRevision list"

section \<open>Arguments\<close>

definition memory_text :: "string \<Rightarrow> string \<Rightarrow> string result" where
  "memory_text v name =
     (if py_strip v = [] then memory_error INVALID_ARGUMENT (name @ '' must not be empty'') [(''argument'', [name])]
      else Return (py_strip v))"

definition string_set :: "string list \<Rightarrow> string \<Rightarrow> string set result" where
  "string_set vs name =
     (if list_ex (\<lambda>v. py_strip v = []) vs
      then memory_error INVALID_ARGUMENT (name @ '' must not be empty'') [(''argument'', [name])]
      else Return (py_strip ` set vs))"

fun collect_rules :: "(string \<times> string list) list \<Rightarrow> string \<Rightarrow> PeerPredicateRule list result" where
  "collect_rules [] name = Return []"
| "collect_rules ((peer, predicates) # rest) name =
     result_bind (memory_text peer (name @ ''.peer_product_id'')) (\<lambda>peer_id.
     result_bind (string_set predicates (name @ ''.'' @ peer_id)) (\<lambda>predicate_set.
     if predicate_set = {}
     then memory_error INVALID_ARGUMENT (name @ '' entries must contain at least one predicate'')
            [(''argument'', [name]), (''peer_product_id'', [peer_id])]
     else result_bind (collect_rules rest name) (\<lambda>rules.
       Return (\<lparr>pr_peer_product_id = peer_id, pr_predicates = predicate_set\<rparr> # rules))))"

definition peer_rules :: "(string \<times> string list) list \<Rightarrow> string \<Rightarrow> PeerPredicateRule list result" where
  "peer_rules vs name = result_bind (collect_rules vs name) (\<lambda>rules. Return (sort_key pr_peer_product_id rules))"

definition flatten_rules :: "PeerPredicateRule list \<Rightarrow> string set \<times> string set" where
  "flatten_rules rules = (pr_peer_product_id ` set rules, \<Union> (pr_predicates ` set rules))"

definition memory_revision :: "int \<Rightarrow> string \<Rightarrow> int result" where
  "memory_revision v name =
     (if v < 0 then memory_error INVALID_ARGUMENT (name @ '' must be a non-negative integer'') [(''argument'', [name])]
      else Return v)"

definition memory_require :: "RequestScope \<Rightarrow> string \<Rightarrow> unit result" where
  "memory_require s role =
     (if role \<in> rs_roles s then Return ()
      else memory_error PERMISSION_DENIED ''the authenticated principal lacks the required memory capability''
             [(''required_role'', [role])])"

definition memory_require_any :: "RequestScope \<Rightarrow> string list \<Rightarrow> unit result" where
  "memory_require_any s roles =
     (if list_ex (\<lambda>role. role \<in> rs_roles s) roles then Return ()
      else memory_error PERMISSION_DENIED ''the authenticated principal lacks the required memory capability''
             [(''required_any_role'', roles)])"

section \<open>Fingerprints and idempotency\<close>

definition memory_fingerprint :: "(string \<Rightarrow> string) \<Rightarrow> json \<Rightarrow> string" where
  "memory_fingerprint sha payload = sha (dumps payload)"

definition json_set :: "string set \<Rightarrow> json" where
  "json_set vs = JList (map JStr (sorted_list_of_set vs))"

definition json_rule :: "PeerPredicateRule \<Rightarrow> json" where
  "json_rule r = JObj [(''peer_product_id'', JStr (pr_peer_product_id r)), (''predicates'', json_set (pr_predicates r))]"

datatype memory_result =
    RClaim PrivateClaim
  | RAlias EntityAlias
  | RPolicy SharingPolicy
  | RCandidate ShareCandidate
  | RCuration CurationResult
  | RReceipt WithdrawalReceipt

type_synonym idem_key = "string \<times> string \<times> string \<times> string"

type_synonym idem_records = "(idem_key, string \<times> memory_result) dict"

definition make_idem_key :: "RequestScope \<Rightarrow> string \<Rightarrow> string \<Rightarrow> idem_key result" where
  "make_idem_key s operation key =
     result_bind (memory_text key ''idempotency_key'') (\<lambda>k. Return (scope_tenant s, scope_product s, operation, k))"

definition memory_replay :: "idem_records \<Rightarrow> idem_key \<Rightarrow> string \<Rightarrow> memory_result option result" where
  "memory_replay records key fingerprint =
     (case dict_get records key of
        None \<Rightarrow> Return None
      | Some (stored, r) \<Rightarrow>
          if stored \<noteq> fingerprint
          then memory_error IDEMPOTENCY_CONFLICT ''an idempotency key was reused with a different command''
                 [(''operation'', [fst (snd (snd key))])]
          else Return (Some r))"

definition memory_remember :: "idem_key \<Rightarrow> string \<Rightarrow> memory_result \<Rightarrow> idem_records \<Rightarrow> idem_records" where
  "memory_remember key fingerprint r records = dict_set key (fingerprint, r) records"

text \<open>
  The frame of every command: the checked arguments, then under the lock the recorded answer, or the body, which
  leaves the store alone when it raises. \<open>records\<close> and \<open>store\<close> read and write the
  idempotency records of a state.
\<close>

definition as_command ::
    "('s \<Rightarrow> idem_records) \<Rightarrow> idem_key \<times> string \<Rightarrow> ('s \<Rightarrow> memory_result result \<times> 's) \<Rightarrow>
     (idem_records \<Rightarrow> 's \<Rightarrow> 's) \<Rightarrow> 's \<Rightarrow> memory_result result \<times> 's" where
  "as_command records kf body store st =
     (case memory_replay (records st) (fst kf) (snd kf) of
        Inl e \<Rightarrow> (Raise e, st)
      | Inr (Some r) \<Rightarrow> (Return r, st)
      | Inr None \<Rightarrow>
          (case body st of
             (Inl e, st') \<Rightarrow> (Raise e, st')
           | (Inr r, st') \<Rightarrow> (Return r, store (memory_remember (fst kf) (snd kf) r (records st')) st')))"

definition checked_args :: "'a result \<Rightarrow> 's \<Rightarrow> ('a \<Rightarrow> 'b result \<times> 's) \<Rightarrow> 'b result \<times> 's" where
  "checked_args r st k = (case r of Inl e \<Rightarrow> (Raise e, st) | Inr x \<Rightarrow> k x)"

lemma checked_args_simps [simp]:
  "checked_args (Inl e) st k = (Raise e, st)" "checked_args (Inr x) st k = k x"
  by (simp_all add: checked_args_def)

text \<open>What a command can do: nothing, what its body does when it raises, or what its body does and a record.\<close>

lemma command_cases:
  obtains r where "as_command records kf body store st = (r, st)"
  | e st' where "body st = (Raise e, st')" "as_command records kf body store st = (Raise e, st')"
  | r st' where "body st = (Return r, st')"
      "as_command records kf body store st = (Return r, store (memory_remember (fst kf) (snd kf) r (records st')) st')"
proof (cases "memory_replay (records st) (fst kf) (snd kf)")
  case (Inl e)
  then show thesis using that(1) by (simp add: as_command_def)
next
  case (Inr a)
  show thesis
  proof (cases a)
    case (Some r)
    with Inr show thesis using that(1) by (simp add: as_command_def)
  next
    case None
    obtain r st' where b: "body st = (r, st')" by fastforce
    with Inr None show thesis using that(2,3) by (cases r) (simp_all add: as_command_def)
  qed
qed

lemma checked_args_cases:
  obtains e where "r = Inl e" "checked_args r st k = (Raise e, st)" | x where "r = Inr x" "checked_args r st k = k x"
  by (cases r) auto

end
