(* ===== verification/Profile_Memory.thy ===== *)
theory Profile_Memory
  imports Memory_Models
begin

text \<open>
  \<^verbatim>\<open>InMemoryProfileProvider\<close> and \<^verbatim>\<open>InMemoryProfileDirectory\<close> of \<^verbatim>\<open>src/suiteharness/memory/in_memory.py\<close>: the private claims
  of the products. Each method holds the lock while it reads and writes, so that it is a function on the state. \<open>ids\<close> is the
  supply of \<open>uuid4\<close> ids and \<open>now\<close> what the clock answers.
\<close>

section \<open>The store\<close>

record ProfileStore =
  pf_claims :: "(string, PrivateClaim) dict"
  pf_subject_claims :: "(string \<times> string \<times> string, string list) dict"
  pf_idempotency :: idem_records
  pf_drawn :: nat

definition empty_profile :: ProfileStore where
  "empty_profile = \<lparr>pf_claims = [], pf_subject_claims = [], pf_idempotency = [], pf_drawn = 0\<rparr>"

definition owns_claim :: "RequestScope \<Rightarrow> PrivateClaim \<Rightarrow> bool" where
  "owns_claim s c \<longleftrightarrow>
     sr_tenant_id (pc_space c) = scope_tenant s \<and> sr_owner_product_id (pc_space c) = Some (scope_product s)"

definition subject_key :: "RequestScope \<Rightarrow> string \<Rightarrow> string \<times> string \<times> string" where
  "subject_key s subject = (scope_tenant s, scope_product s, subject)"

definition subject_ids :: "ProfileStore \<Rightarrow> string \<times> string \<times> string \<Rightarrow> string list" where
  "subject_ids st k = (case dict_get (pf_subject_claims st) k of None \<Rightarrow> [] | Some xs \<Rightarrow> xs)"

definition profile_remember :: "idem_records \<Rightarrow> ProfileStore \<Rightarrow> ProfileStore" where
  "profile_remember records st = st\<lparr>pf_idempotency := records\<rparr>"

section \<open>Asserting and retracting\<close>

definition assert_args ::
    "(string \<Rightarrow> string) \<Rightarrow> RequestScope \<Rightarrow> string \<Rightarrow> string \<Rightarrow> json option \<Rightarrow> string \<Rightarrow> string \<Rightarrow>
     ((string \<times> string \<times> json \<times> string) \<times> idem_key \<times> string) result" where
  "assert_args sha s subject predicate v source_ref key =
     result_bind (memory_require s PRIVATE_WRITE) (\<lambda>_.
     result_bind (memory_text subject ''local_subject_id'') (\<lambda>subject.
     result_bind (memory_text predicate ''predicate'') (\<lambda>predicate.
     result_bind (memory_text source_ref ''source_ref'') (\<lambda>source_ref.
     case v of
       None \<Rightarrow> memory_error INVALID_ARGUMENT ''memory values must be JSON serializable'' []
     | Some v \<Rightarrow>
         result_bind (make_idem_key s ''profile.assert_claim'' key) (\<lambda>k.
         Return ((subject, predicate, v, source_ref), k, memory_fingerprint sha
           (JObj [(''local_subject_id'', JStr subject), (''predicate'', JStr predicate), (''value'', v),
                  (''source_ref'', JStr source_ref)])))))))"

definition store_claim :: "RequestScope \<Rightarrow> PrivateClaim \<Rightarrow> ProfileStore \<Rightarrow> ProfileStore" where
  "store_claim s c st =
     (let k = subject_key s (pc_local_subject_id c) in
      st\<lparr>pf_claims := dict_set (pc_claim_id c) c (pf_claims st),
         pf_subject_claims := dict_set k (subject_ids st k @ [pc_claim_id c]) (pf_subject_claims st)\<rparr>)"

definition assert_body ::
    "(nat \<Rightarrow> string) \<Rightarrow> RequestScope \<Rightarrow> string \<times> string \<times> json \<times> string \<Rightarrow> int \<Rightarrow> ProfileStore \<Rightarrow>
     memory_result result \<times> ProfileStore" where
  "assert_body ids s args now st =
     (case args of (subject, predicate, v, source_ref) \<Rightarrow>
        let st' = st\<lparr>pf_drawn := Suc (pf_drawn st)\<rparr> in
        checked_args (SpaceRef_private s) st' (\<lambda>space.
        let c = \<lparr>pc_claim_id = ids (pf_drawn st), pc_space = space, pc_local_subject_id = subject, pc_predicate = predicate,
                 pc_value = v, pc_source_ref = source_ref, pc_created_by = rs_principal_id s, pc_recorded_at = now,
                 pc_status = CLAIM_ASSERTED, pc_version = 1, pc_retraction_reason = [], pc_retracted_at = None\<rparr> in
        (Return (RClaim c), store_claim s c st')))"

definition assert_claim ::
    "(string \<Rightarrow> string) \<Rightarrow> (nat \<Rightarrow> string) \<Rightarrow> RequestScope \<Rightarrow> string \<Rightarrow> string \<Rightarrow> json option \<Rightarrow> string \<Rightarrow> string \<Rightarrow> int \<Rightarrow>
     ProfileStore \<Rightarrow> memory_result result \<times> ProfileStore" where
  "assert_claim sha ids s subject predicate v source_ref key now st =
     checked_args (assert_args sha s subject predicate v source_ref key) st (\<lambda>(args, kf).
     as_command pf_idempotency kf (assert_body ids s args now) profile_remember st)"

definition find_claim :: "RequestScope \<Rightarrow> string \<Rightarrow> ProfileStore \<Rightarrow> PrivateClaim result" where
  "find_claim s claim_id st =
     (case dict_get (pf_claims st) claim_id of
        Some c \<Rightarrow> if owns_claim s c then Return c else memory_error NOT_FOUND ''private claim not found'' []
      | None \<Rightarrow> memory_error NOT_FOUND ''private claim not found'' [])"

definition get_claim :: "RequestScope \<Rightarrow> string \<Rightarrow> ProfileStore \<Rightarrow> PrivateClaim result" where
  "get_claim s claim_id st =
     result_bind (memory_require s PRIVATE_READ) (\<lambda>_.
     result_bind (memory_text claim_id ''claim_id'') (\<lambda>claim_id. find_claim s claim_id st))"

text \<open>A claim id that the index names and the store does not hold raises \<open>KeyError\<close>.\<close>

fun claims_by_id :: "(string, PrivateClaim) dict \<Rightarrow> string list \<Rightarrow> PrivateClaim list result" where
  "claims_by_id claims [] = Return []"
| "claims_by_id claims (i # is) =
     (case dict_get claims i of
        None \<Rightarrow> Raise (LookupError i)
      | Some c \<Rightarrow> result_bind (claims_by_id claims is) (\<lambda>cs. Return (c # cs)))"

definition list_claims :: "RequestScope \<Rightarrow> string \<Rightarrow> bool \<Rightarrow> ProfileStore \<Rightarrow> PrivateClaim list result" where
  "list_claims s subject include_retracted st =
     result_bind (memory_require s PRIVATE_READ) (\<lambda>_.
     result_bind (memory_text subject ''local_subject_id'') (\<lambda>subject.
     result_bind (claims_by_id (pf_claims st) (subject_ids st (subject_key s subject))) (\<lambda>claims.
     Return (filter (\<lambda>c. include_retracted \<or> pc_status c = CLAIM_ASSERTED) claims))))"

definition retract_args ::
    "(string \<Rightarrow> string) \<Rightarrow> RequestScope \<Rightarrow> string \<Rightarrow> string \<Rightarrow> string \<Rightarrow> ((string \<times> string) \<times> idem_key \<times> string) result" where
  "retract_args sha s claim_id reason key =
     result_bind (memory_require s PRIVATE_WRITE) (\<lambda>_.
     result_bind (memory_text claim_id ''claim_id'') (\<lambda>claim_id.
     result_bind (memory_text reason ''reason'') (\<lambda>reason.
     result_bind (make_idem_key s ''profile.retract_claim'' key) (\<lambda>k.
     Return ((claim_id, reason), k,
       memory_fingerprint sha (JObj [(''claim_id'', JStr claim_id), (''reason'', JStr reason)]))))))"

definition retract_body ::
    "RequestScope \<Rightarrow> string \<times> string \<Rightarrow> int \<Rightarrow> ProfileStore \<Rightarrow> memory_result result \<times> ProfileStore" where
  "retract_body s args now st =
     checked_args (find_claim s (fst args) st) st (\<lambda>c.
     if pc_status c \<noteq> CLAIM_ASSERTED
     then (memory_error INVALID_STATE ''only an asserted private claim can be retracted'' [], st)
     else let c' = c\<lparr>pc_status := CLAIM_RETRACTED, pc_version := pc_version c + 1, pc_retraction_reason := snd args,
                     pc_retracted_at := Some now\<rparr> in
       (Return (RClaim c'), st\<lparr>pf_claims := dict_set (fst args) c' (pf_claims st)\<rparr>))"

definition retract_claim ::
    "(string \<Rightarrow> string) \<Rightarrow> RequestScope \<Rightarrow> string \<Rightarrow> string \<Rightarrow> string \<Rightarrow> int \<Rightarrow> ProfileStore \<Rightarrow>
     memory_result result \<times> ProfileStore" where
  "retract_claim sha s claim_id reason key now st =
     checked_args (retract_args sha s claim_id reason key) st (\<lambda>(args, kf).
     as_command pf_idempotency kf (retract_body s args now) profile_remember st)"

section \<open>The directory\<close>

text \<open>Providers are objects, named by \<open>'p\<close>.\<close>

type_synonym 'p ProfileDirectory = "(string \<times> string, 'p) dict"

definition directory_key :: "string \<Rightarrow> string \<Rightarrow> (string \<times> string) result" where
  "directory_key t p =
     result_bind (memory_text t ''tenant_id'') (\<lambda>t. result_bind (memory_text p ''product_id'') (\<lambda>p. Return (t, p)))"

definition directory_register :: "string \<Rightarrow> string \<Rightarrow> 'p \<Rightarrow> 'p ProfileDirectory \<Rightarrow> unit result \<times> 'p ProfileDirectory" where
  "directory_register t p provider d =
     checked_args (directory_key t p) d (\<lambda>k.
     case dict_get d k of
       Some current \<Rightarrow>
         if current \<noteq> provider
         then (Raise (ValueError (''profile provider already registered: '' @ fst k @ ''/'' @ snd k)), d)
         else (Return (), dict_set k provider d)
     | None \<Rightarrow> (Return (), dict_set k provider d))"

definition directory_unregister :: "string \<Rightarrow> string \<Rightarrow> 'p ProfileDirectory \<Rightarrow> bool result \<times> 'p ProfileDirectory" where
  "directory_unregister t p d =
     checked_args (directory_key t p) d (\<lambda>k. (Return (dict_get d k \<noteq> None), dict_pop k d))"

definition directory_resolve :: "RequestScope \<Rightarrow> 'p ProfileDirectory \<Rightarrow> 'p result" where
  "directory_resolve s d =
     (case dict_get d (scope_tenant s, scope_product s) of
        None \<Rightarrow> memory_error NOT_FOUND ''private profile provider is not configured for this product scope'' []
      | Some provider \<Rightarrow> Return provider)"

text \<open>\<open>self._profile.resolve(scope).get_claim(scope, claim_id)\<close>, with the states of the providers.\<close>

definition resolved_claim ::
    "'p ProfileDirectory \<times> ('p \<Rightarrow> ProfileStore) \<Rightarrow> RequestScope \<Rightarrow> string \<Rightarrow> PrivateClaim result" where
  "resolved_claim w s claim_id =
     result_bind (directory_resolve s (fst w)) (\<lambda>p. get_claim s claim_id (snd w p))"

section \<open>Calls\<close>

datatype profile_op =
    AssertOp RequestScope string string "json option" string string int
  | RetractOp RequestScope string string string int

fun profile_scope :: "profile_op \<Rightarrow> RequestScope" where
  "profile_scope (AssertOp s _ _ _ _ _ _) = s"
| "profile_scope (RetractOp s _ _ _ _) = s"

fun profile_step ::
    "(string \<Rightarrow> string) \<Rightarrow> (nat \<Rightarrow> string) \<Rightarrow> profile_op \<Rightarrow> ProfileStore \<Rightarrow> memory_result result \<times> ProfileStore" where
  "profile_step sha ids (AssertOp s subject predicate v source_ref key now) =
     assert_claim sha ids s subject predicate v source_ref key now"
| "profile_step sha ids (RetractOp s claim_id reason key now) = retract_claim sha s claim_id reason key now"

section \<open>Laws\<close>

text \<open>The fields of the state besides the records.\<close>

lemma profile_remember_sel [simp]:
  "pf_claims (profile_remember x st) = pf_claims st" "pf_subject_claims (profile_remember x st) = pf_subject_claims st"
  "pf_drawn (profile_remember x st) = pf_drawn st" "subject_ids (profile_remember x st) k = subject_ids st k"
  by (simp_all add: profile_remember_def subject_ids_def)

text \<open>Every claim stands under its id, and the index lists exactly the claims of a subject.\<close>

definition claim_key :: "PrivateClaim \<Rightarrow> (string \<times> string option \<times> string)" where
  "claim_key c = (sr_tenant_id (pc_space c), sr_owner_product_id (pc_space c), pc_local_subject_id c)"

definition profile_ok :: "(nat \<Rightarrow> string) \<Rightarrow> ProfileStore \<Rightarrow> bool" where
  "profile_ok ids st \<longleftrightarrow>
     (\<forall>i c. dict_get (pf_claims st) i = Some c \<longrightarrow> pc_claim_id c = i \<and> (\<exists>k < pf_drawn st. i = ids k))
     \<and> (\<forall>t p subject i. i \<in> set (subject_ids st (t, p, subject)) \<longleftrightarrow>
          (\<exists>c. dict_get (pf_claims st) i = Some c \<and> claim_key c = (t, Some p, subject)))"

definition foreign :: "RequestScope \<Rightarrow> RequestScope \<Rightarrow> bool" where
  "foreign s s' \<longleftrightarrow> (scope_tenant s, scope_product s) \<noteq> (scope_tenant s', scope_product s')"

text \<open>What a scope can see of a store: its claims and its index.\<close>

definition sees_same :: "RequestScope \<Rightarrow> ProfileStore \<Rightarrow> ProfileStore \<Rightarrow> bool" where
  "sees_same s st st' \<longleftrightarrow>
     (\<forall>i c. owns_claim s c \<longrightarrow> (dict_get (pf_claims st) i = Some c \<longleftrightarrow> dict_get (pf_claims st') i = Some c))
     \<and> (\<forall>subject. subject_ids st (subject_key s subject) = subject_ids st' (subject_key s subject))"

lemma sees_same_refl [simp]: "sees_same s st st"
  by (simp add: sees_same_def)

lemma sees_same_trans: "sees_same s st st' \<Longrightarrow> sees_same s st' st'' \<Longrightarrow> sees_same s st st''"
  by (simp add: sees_same_def)

lemma find_claim_Return: "find_claim s i st = Return c \<longleftrightarrow> dict_get (pf_claims st) i = Some c \<and> owns_claim s c"
  by (auto simp: find_claim_def split: option.splits)

lemma find_claim_Raise:
  "(\<And>c. dict_get (pf_claims st) i = Some c \<Longrightarrow> \<not> owns_claim s c) \<Longrightarrow>
   find_claim s i st = memory_error NOT_FOUND ''private claim not found'' []"
  by (auto simp: find_claim_def split: option.splits)

lemma sees_same_find:
  assumes "sees_same s st st'"
  shows "find_claim s i st' = find_claim s i st"
proof (cases "\<exists>c. dict_get (pf_claims st) i = Some c \<and> owns_claim s c")
  case True
  then obtain c where "dict_get (pf_claims st) i = Some c" "owns_claim s c" by blast
  with assms have "find_claim s i st = Return c" "find_claim s i st' = Return c"
    by (simp_all add: find_claim_Return sees_same_def)
  then show ?thesis by simp
next
  case False
  with assms have "\<not> owns_claim s c" if "dict_get (pf_claims st') i = Some c" for c
    using that by (auto simp: sees_same_def)
  with False show ?thesis by (simp add: find_claim_Raise)
qed

lemma claims_by_id_same:
  "(\<And>i. i \<in> set is \<Longrightarrow> dict_get d i = dict_get d' i) \<Longrightarrow> claims_by_id d is = claims_by_id d' is"
  by (induction "is") (auto split: option.split)

lemma claims_by_id_Return:
  "claims_by_id d is = Return cs \<Longrightarrow> list_all2 (\<lambda>i c. dict_get d i = Some c) is cs"
  by (induction "is" arbitrary: cs) (auto split: option.splits)

lemma index_owned:
  assumes "profile_ok ids st" "i \<in> set (subject_ids st (subject_key s subject))"
  obtains c where "dict_get (pf_claims st) i = Some c" "owns_claim s c" "pc_local_subject_id c = subject"
proof -
  obtain c where c: "dict_get (pf_claims st) i = Some c" "claim_key c = (scope_tenant s, Some (scope_product s), subject)"
    using assms unfolding profile_ok_def subject_key_def by blast
  show thesis by (rule that [OF c(1)]) (use c(2) in \<open>simp_all add: claim_key_def owns_claim_def\<close>)
qed

lemma sees_same_list:
  assumes ok: "profile_ok ids st" and same: "sees_same s st st'"
  shows "list_claims s subject b st' = list_claims s subject b st"
proof -
  have ids: "subject_ids st' (subject_key s x) = subject_ids st (subject_key s x)" for x
    using same by (simp add: sees_same_def)
  have "dict_get (pf_claims st') i = dict_get (pf_claims st) i" if "i \<in> set (subject_ids st (subject_key s x))" for i x
    using index_owned [OF ok that] same by (metis sees_same_def)
  then have "claims_by_id (pf_claims st') (subject_ids st (subject_key s x)) =
      claims_by_id (pf_claims st) (subject_ids st (subject_key s x))" for x
    by (rule claims_by_id_same)
  then show ?thesis by (simp add: list_claims_def ids)
qed

section \<open>Every reachable store\<close>

lemma subject_ids_store:
  "subject_ids (store_claim s c st) k =
   (if k = subject_key s (pc_local_subject_id c) then subject_ids st k @ [pc_claim_id c] else subject_ids st k)"
  by (simp add: store_claim_def subject_ids_def Let_def)

lemma store_claim_claims [simp]:
  "dict_get (pf_claims (store_claim s c st)) = (dict_get (pf_claims st))(pc_claim_id c \<mapsto> c)"
  "pf_drawn (store_claim s c st) = pf_drawn st"
  by (simp_all add: store_claim_def Let_def)

lemma subject_ids_drawn [simp]: "subject_ids (st\<lparr>pf_drawn := n\<rparr>) k = subject_ids st k"
  by (simp add: subject_ids_def)

lemma SpaceRef_private_Return:
  "SpaceRef_private s = Return space \<Longrightarrow>
   space = \<lparr>sr_tenant_id = scope_tenant s, sr_kind = PRODUCT_PRIVATE, sr_owner_product_id = Some (scope_product s)\<rparr>"
  by (simp add: SpaceRef_private_def SpaceRef_post_init_def split: if_splits)

lemma profile_ok_remember [simp]: "profile_ok ids (profile_remember x st) \<longleftrightarrow> profile_ok ids st"
  by (simp add: profile_ok_def)

lemma sees_same_remember [simp]: "sees_same s st (profile_remember x st') \<longleftrightarrow> sees_same s st st'"
  by (simp add: sees_same_def)

text \<open>A state in which an id was drawn and nothing else happened.\<close>

lemma profile_ok_drawn: "profile_ok ids st \<Longrightarrow> profile_ok ids (st\<lparr>pf_drawn := Suc (pf_drawn st)\<rparr>)"
  unfolding profile_ok_def by (auto simp: subject_ids_def) (meson less_SucI)

lemma fresh_claim_id:
  assumes "inj ids" "profile_ok ids st"
  shows "dict_get (pf_claims st) (ids (pf_drawn st)) = None"
proof (cases "dict_get (pf_claims st) (ids (pf_drawn st))")
  case (Some c)
  with assms(2) obtain k where "k < pf_drawn st" "ids (pf_drawn st) = ids k" unfolding profile_ok_def by blast
  then show ?thesis using assms(1) by (simp add: inj_eq)
qed

lemma profile_ok_store:
  assumes inj: "inj ids" and ok: "profile_ok ids st" and i: "pc_claim_id c = ids (pf_drawn st)"
    and space: "SpaceRef_private s = Return (pc_space c)"
  shows "profile_ok ids (store_claim s c (st\<lparr>pf_drawn := Suc (pf_drawn st)\<rparr>))"
proof -
  let ?st = "st\<lparr>pf_drawn := Suc (pf_drawn st)\<rparr>"
  have fresh: "dict_get (pf_claims st) (pc_claim_id c) = None" using fresh_claim_id [OF inj ok] i by simp
  have key: "claim_key c = (scope_tenant s, Some (scope_product s), pc_local_subject_id c)"
    using SpaceRef_private_Return [OF space] by (simp add: claim_key_def)
  have ok': "profile_ok ids ?st" by (rule profile_ok_drawn [OF ok])
  show ?thesis
    unfolding profile_ok_def
  proof (intro conjI allI impI)
    fix i c'
    assume "dict_get (pf_claims (store_claim s c ?st)) i = Some c'"
    then show "pc_claim_id c' = i" "\<exists>k < pf_drawn (store_claim s c ?st). i = ids k"
      using ok' i by (auto simp: profile_ok_def split: if_splits)
  next
    fix t p subject j
    have "j \<in> set (subject_ids st (t, p, subject)) \<longleftrightarrow> (\<exists>c. dict_get (pf_claims st) j = Some c \<and> claim_key c = (t, Some p, subject))"
      using ok unfolding profile_ok_def by blast
    then show "j \<in> set (subject_ids (store_claim s c ?st) (t, p, subject)) \<longleftrightarrow>
        (\<exists>c'. dict_get (pf_claims (store_claim s c ?st)) j = Some c' \<and> claim_key c' = (t, Some p, subject))"
      using fresh key by (cases "j = pc_claim_id c") (auto simp: subject_ids_store subject_key_def)
  qed
qed

lemma sees_same_store:
  assumes "inj ids" "profile_ok ids st" "pc_claim_id c = ids (pf_drawn st)" "SpaceRef_private s' = Return (pc_space c)" "foreign s s'"
  shows "sees_same s st (store_claim s' c (st\<lparr>pf_drawn := Suc (pf_drawn st)\<rparr>))"
  using fresh_claim_id [OF assms(1,2)] SpaceRef_private_Return [OF assms(4)] assms(3,5)
  by (auto simp: sees_same_def subject_ids_store subject_key_def foreign_def owns_claim_def split: if_splits)

lemma profile_ok_retract:
  assumes ok: "profile_ok ids st" and c: "dict_get (pf_claims st) i = Some c"
    and same: "pc_claim_id c' = pc_claim_id c" "claim_key c' = claim_key c"
  shows "profile_ok ids (st\<lparr>pf_claims := dict_set i c' (pf_claims st)\<rparr>)"
proof -
  have index: "subject_ids (st\<lparr>pf_claims := x\<rparr>) k = subject_ids st k" for x k by (simp add: subject_ids_def)
  have "(\<exists>d. ((dict_get (pf_claims st))(i \<mapsto> c')) j = Some d \<and> claim_key d = k) \<longleftrightarrow>
      (\<exists>d. dict_get (pf_claims st) j = Some d \<and> claim_key d = k)" for j k
    using c same by auto
  then show ?thesis using ok c same unfolding profile_ok_def index by (auto split: if_splits)
qed

lemma sees_same_retract:
  assumes "owns_claim s' c" "dict_get (pf_claims st) i = Some c" "claim_key c' = claim_key c" "foreign s s'"
  shows "sees_same s st (st\<lparr>pf_claims := dict_set i c' (pf_claims st)\<rparr>)"
  using assms by (auto simp: sees_same_def owns_claim_def claim_key_def foreign_def subject_ids_def split: if_splits)

text \<open>What the bodies do to a good store, for any scope and for a foreign one.\<close>

lemma assert_body_effect:
  assumes "inj ids" "profile_ok ids st"
  shows "profile_ok ids (snd (assert_body ids s' args now st))
    \<and> (foreign s s' \<longrightarrow> sees_same s st (snd (assert_body ids s' args now st)))"
proof (cases "SpaceRef_private s'")
  case (Inl e)
  then show ?thesis using profile_ok_drawn [OF assms(2)]
    by (simp add: assert_body_def Let_def sees_same_def split: prod.split)
next
  case (Inr space)
  then show ?thesis
    using profile_ok_store [OF assms, where s = s'] sees_same_store [OF assms, where s' = s' and s = s]
    by (simp add: assert_body_def Let_def split: prod.split)
qed

lemma retract_body_effect:
  assumes "profile_ok ids st"
  shows "profile_ok ids (snd (retract_body s' args now st))
    \<and> (foreign s s' \<longrightarrow> sees_same s st (snd (retract_body s' args now st)))"
proof (cases "find_claim s' (fst args) st")
  case (Inl e)
  then show ?thesis using assms by (simp add: retract_body_def)
next
  case (Inr c)
  then have "dict_get (pf_claims st) (fst args) = Some c" "owns_claim s' c" by (simp_all add: find_claim_Return)
  then show ?thesis
    using assms profile_ok_retract [OF assms, of "fst args" c] sees_same_retract [of s' c st "fst args"]
    by (simp add: retract_body_def Inr Let_def claim_key_def)
qed

lemma profile_command_effect:
  assumes "profile_ok ids (snd (body st)) \<and> (foreign s s' \<longrightarrow> sees_same s st (snd (body st)))" "profile_ok ids st"
  shows "profile_ok ids (snd (as_command pf_idempotency kf body profile_remember st))
    \<and> (foreign s s' \<longrightarrow> sees_same s st (snd (as_command pf_idempotency kf body profile_remember st)))"
  using assms by (cases rule: command_cases [of pf_idempotency kf body profile_remember st]) auto

lemma profile_step_effect:
  assumes "inj ids" "profile_ok ids st"
  shows "profile_ok ids (snd (profile_step sha ids op st))
    \<and> (foreign s (profile_scope op) \<longrightarrow> sees_same s st (snd (profile_step sha ids op st)))"
proof (cases op)
  case (AssertOp s' subject predicate v source_ref key now)
  show ?thesis
  proof (cases "assert_args sha s' subject predicate v source_ref key")
    case (Inr x)
    obtain args kf where x: "x = (args, kf)" by (rule prod.exhaust)
    show ?thesis
      unfolding AssertOp profile_step.simps profile_scope.simps assert_claim_def Inr x checked_args_simps prod.case
      by (rule profile_command_effect) (rule assert_body_effect [OF assms], rule assms(2))
  qed (use assms AssertOp in \<open>simp add: assert_claim_def\<close>)
next
  case (RetractOp s' claim_id reason key now)
  show ?thesis
  proof (cases "retract_args sha s' claim_id reason key")
    case (Inr x)
    obtain args kf where x: "x = (args, kf)" by (rule prod.exhaust)
    show ?thesis
      unfolding RetractOp profile_step.simps profile_scope.simps retract_claim_def Inr x checked_args_simps prod.case
      by (rule profile_command_effect) (rule retract_body_effect [OF assms(2)], rule assms(2))
  qed (use assms RetractOp in \<open>simp add: retract_claim_def\<close>)
qed

lemma profile_ok_empty: "profile_ok ids empty_profile"
  by (simp add: profile_ok_def empty_profile_def subject_ids_def)

end
