(* ===== verification/Customer360.thy ===== *)
theory Customer360
  imports Profile_Memory
begin

text \<open>
  \<^verbatim>\<open>InMemoryCustomer360Provider\<close> of \<^verbatim>\<open>src/suiteharness/memory/in_memory.py\<close>: what products share about a customer. Each
  method body under the lock is a function on the state. \<open>propose_share\<close> and \<open>withdraw_source\<close> have two critical sections
  and read the source claim in between; they are taken as one, and what the private provider answered (\<open>source\<close>) is an
  argument, so that it may be out of date. Two overlapping calls with one idempotency key differ from this only in the
  answer to a call whose claim could not be read.
\<close>

section \<open>The state\<close>

record Customer360 =
  cu_aliases :: "(string \<times> string \<times> string, EntityAlias) dict"
  cu_policies :: "(string \<times> string, SharingPolicy) dict"
  cu_candidates :: "(string, ShareCandidate) dict"
  cu_candidate_by_source :: "(string \<times> string \<times> string \<times> int \<times> int, string) dict"
  cu_shared_claims :: "(string, SharedClaim) dict"
  cu_shared_by_candidate :: "(string, string) dict"
  cu_shared_by_entity :: "(string \<times> string, string list) dict"
  cu_entity_revisions :: "(string \<times> string, int) dict"
  cu_decisions :: "CurationDecision list"
  cu_idempotency :: idem_records
  cu_drawn :: nat

definition empty_customer :: Customer360 where
  "empty_customer = \<lparr>cu_aliases = [], cu_policies = [], cu_candidates = [], cu_candidate_by_source = [], cu_shared_claims = [],
     cu_shared_by_candidate = [], cu_shared_by_entity = [], cu_entity_revisions = [], cu_decisions = [], cu_idempotency = [],
     cu_drawn = 0\<rparr>"

definition customer_remember :: "idem_records \<Rightarrow> Customer360 \<Rightarrow> Customer360" where
  "customer_remember records st = st\<lparr>cu_idempotency := records\<rparr>"

abbreviation customer_command ::
    "idem_key \<times> string \<Rightarrow> (Customer360 \<Rightarrow> memory_result result \<times> Customer360) \<Rightarrow> Customer360 \<Rightarrow> memory_result result \<times> Customer360" where
  "customer_command kf body \<equiv> as_command cu_idempotency kf body customer_remember"

definition current_policy :: "Customer360 \<Rightarrow> string \<Rightarrow> string \<Rightarrow> SharingPolicy" where
  "current_policy st t p = (case dict_get (cu_policies st) (t, p) of None \<Rightarrow> default_sharing t p | Some pol \<Rightarrow> pol)"

definition revision_of :: "Customer360 \<Rightarrow> string \<times> string \<Rightarrow> int" where
  "revision_of st k = (case dict_get (cu_entity_revisions st) k of None \<Rightarrow> 0 | Some r \<Rightarrow> r)"

definition revision_conflict :: "string \<Rightarrow> int \<Rightarrow> int \<Rightarrow> 'a result" where
  "revision_conflict message expected actual =
     memory_error REVISION_CONFLICT message [(''expected'', [show_int expected]), (''actual'', [show_int actual])]"

section \<open>Aliases\<close>

definition alias_args ::
    "(string \<Rightarrow> string) \<Rightarrow> RequestScope \<Rightarrow> string \<Rightarrow> string \<Rightarrow> string \<Rightarrow> int \<Rightarrow> string \<Rightarrow>
     ((string \<times> string \<times> string \<times> int) \<times> idem_key \<times> string) result" where
  "alias_args sha s product subject entity expected key =
     result_bind (memory_require_any s [ENTITY_ADMIN, CURATOR]) (\<lambda>_.
     result_bind (memory_text product ''source_product_id'') (\<lambda>product.
     result_bind (memory_text subject ''local_subject_id'') (\<lambda>subject.
     result_bind (memory_text entity ''entity_id'') (\<lambda>entity.
     result_bind (memory_revision expected ''expected_revision'') (\<lambda>expected.
     result_bind (make_idem_key s ''customer360.bind_entity_alias'' key) (\<lambda>k.
     Return ((product, subject, entity, expected), k, memory_fingerprint sha
       (JObj [(''source_product_id'', JStr product), (''local_subject_id'', JStr subject), (''entity_id'', JStr entity),
              (''expected_revision'', JInt expected)]))))))))"

definition alias_body ::
    "RequestScope \<Rightarrow> string \<times> string \<times> string \<times> int \<Rightarrow> int \<Rightarrow> Customer360 \<Rightarrow> memory_result result \<times> Customer360" where
  "alias_body s args now st =
     (case args of (product, subject, entity, expected) \<Rightarrow>
        let k = (scope_tenant s, product, subject);
            current_revision = (case dict_get (cu_aliases st) k of None \<Rightarrow> 0 | Some a \<Rightarrow> ea_revision a) in
        if expected \<noteq> current_revision
        then (revision_conflict ''entity alias revision changed'' expected current_revision, st)
        else let a = \<lparr>ea_tenant_id = scope_tenant s, ea_source_product_id = product, ea_local_subject_id = subject,
                      ea_entity_id = entity, ea_revision = current_revision + 1, ea_bound_by = rs_principal_id s,
                      ea_bound_at = now\<rparr> in
          (Return (RAlias a), st\<lparr>cu_aliases := dict_set k a (cu_aliases st)\<rparr>))"

definition bind_entity_alias ::
    "(string \<Rightarrow> string) \<Rightarrow> RequestScope \<Rightarrow> string \<Rightarrow> string \<Rightarrow> string \<Rightarrow> int \<Rightarrow> string \<Rightarrow> int \<Rightarrow> Customer360 \<Rightarrow>
     memory_result result \<times> Customer360" where
  "bind_entity_alias sha s product subject entity expected key now st =
     checked_args (alias_args sha s product subject entity expected key) st (\<lambda>(args, kf).
     customer_command kf (alias_body s args now) st)"

definition resolve_entity_alias :: "RequestScope \<Rightarrow> string \<Rightarrow> Customer360 \<Rightarrow> EntityAlias result" where
  "resolve_entity_alias s subject st =
     result_bind (memory_require s PRIVATE_READ) (\<lambda>_.
     result_bind (memory_text subject ''local_subject_id'') (\<lambda>subject.
     case dict_get (cu_aliases st) (scope_tenant s, scope_product s, subject) of
       None \<Rightarrow> memory_error ENTITY_ALIAS_NOT_FOUND ''no verified Customer360 entity alias exists'' []
     | Some a \<Rightarrow> Return a))"

section \<open>Withdrawing and invalidating\<close>

definition candidate_allowed :: "SharingPolicy \<Rightarrow> ShareCandidate \<Rightarrow> bool" where
  "candidate_allowed pol c \<longleftrightarrow>
     sc_audience_product_ids c \<noteq> {} \<and> sc_audience_product_ids c \<subseteq> publish_audience_for pol (sc_predicate c)"

definition stale_candidate :: "SharingPolicy \<Rightarrow> int \<Rightarrow> ShareCandidate \<Rightarrow> ShareCandidate" where
  "stale_candidate pol now c =
     (if sc_tenant_id c = sg_tenant_id pol \<and> sc_source_product_id c = sg_product_id pol \<and> sc_status c = CAND_PENDING
         \<and> \<not> candidate_allowed pol c
      then c\<lparr>sc_status := CAND_STALE, sc_decided_at := Some now\<rparr> else c)"

definition invalidate_pending :: "SharingPolicy \<Rightarrow> int \<Rightarrow> Customer360 \<Rightarrow> Customer360" where
  "invalidate_pending pol now st =
     st\<lparr>cu_candidates := map (\<lambda>(i, c). (i, stale_candidate pol now c)) (cu_candidates st)\<rparr>"

text \<open>
  The loop that \<open>withdraw_source\<close> and \<open>_withdraw_product_locked\<close> share: \<open>hit\<close> selects the candidates, the counters and the
  touched entities are collected. A candidate whose shared claim is missing raises \<open>KeyError\<close>, which no reachable
  state allows; what the loop has written by then is left out.
\<close>

record withdrawal =
  wd_state :: Customer360
  wd_candidates :: nat
  wd_shared :: nat
  wd_touched :: "string set"

definition retract_shared :: "string \<Rightarrow> int \<Rightarrow> string \<times> ShareCandidate \<Rightarrow> withdrawal \<Rightarrow> withdrawal result" where
  "retract_shared reason now ic w =
     (let st = wd_state w in
      case dict_get (cu_shared_by_candidate st) (fst ic) of
        None \<Rightarrow> Return w
      | Some sid \<Rightarrow>
          (case dict_get (cu_shared_claims st) sid of
             None \<Rightarrow> Raise (LookupError sid)
           | Some sh \<Rightarrow>
               if sh_status sh \<noteq> SHARED_SELECTED then Return w
               else Return (w\<lparr>wd_state := st\<lparr>cu_shared_claims := dict_set sid
                      (sh\<lparr>sh_status := SHARED_RETRACTED, sh_retracted_at := Some now, sh_retraction_reason := reason\<rparr>)
                      (cu_shared_claims st)\<rparr>,
                    wd_shared := Suc (wd_shared w), wd_touched := insert (sc_entity_id (snd ic)) (wd_touched w)\<rparr>)))"

definition withdraw_candidate :: "string \<Rightarrow> int \<Rightarrow> string \<times> ShareCandidate \<Rightarrow> withdrawal \<Rightarrow> withdrawal result" where
  "withdraw_candidate reason now ic w =
     (let c' = (snd ic)\<lparr>sc_status := CAND_WITHDRAWN, sc_decided_at := Some now\<rparr> in
      retract_shared reason now ic
        (w\<lparr>wd_state := (wd_state w)\<lparr>cu_candidates := dict_set (fst ic) c' (cu_candidates (wd_state w))\<rparr>,
           wd_candidates := Suc (wd_candidates w)\<rparr>))"

fun withdraw_loop ::
    "(ShareCandidate \<Rightarrow> bool) \<Rightarrow> string \<Rightarrow> int \<Rightarrow> (string \<times> ShareCandidate) list \<Rightarrow> withdrawal \<Rightarrow> withdrawal result" where
  "withdraw_loop hit reason now [] w = Return w"
| "withdraw_loop hit reason now (ic # rest) w =
     (if \<not> hit (snd ic) \<or> sc_status (snd ic) = CAND_REJECTED \<or> sc_status (snd ic) = CAND_WITHDRAWN
      then withdraw_loop hit reason now rest w
      else result_bind (withdraw_candidate reason now ic w) (withdraw_loop hit reason now rest))"

definition start_withdrawal :: "Customer360 \<Rightarrow> withdrawal" where
  "start_withdrawal st = \<lparr>wd_state = st, wd_candidates = 0, wd_shared = 0, wd_touched = {}\<rparr>"

fun bump_entities :: "string \<Rightarrow> string list \<Rightarrow> Customer360 \<Rightarrow> EntityRevision list \<times> Customer360" where
  "bump_entities t [] st = ([], st)"
| "bump_entities t (e # es) st =
     (let r = revision_of st (t, e) + 1;
          (revs, st') = bump_entities t es (st\<lparr>cu_entity_revisions := dict_set (t, e) r (cu_entity_revisions st)\<rparr>) in
      (\<lparr>er_entity_id = e, er_revision = r\<rparr> # revs, st'))"

definition withdraw_product :: "string \<Rightarrow> string \<Rightarrow> string \<Rightarrow> int \<Rightarrow> Customer360 \<Rightarrow> unit result \<times> Customer360" where
  "withdraw_product t product reason now st =
     (case withdraw_loop (\<lambda>c. sc_tenant_id c = t \<and> sc_source_product_id c = product) reason now (cu_candidates st)
             (start_withdrawal st) of
        Inl e \<Rightarrow> (Raise e, st)
      | Inr w \<Rightarrow> (Return (), snd (bump_entities t (sorted_list_of_set (wd_touched w)) (wd_state w))))"

section \<open>Policies\<close>

record policy_input =
  pi_publish_enabled :: bool
  pi_consume_enabled :: bool
  pi_publish_predicates :: "string list"
  pi_consume_predicates :: "string list"
  pi_publish_to_products :: "string list"
  pi_consume_from_products :: "string list"
  pi_expected_revision :: int
  pi_withdraw_existing :: bool
  pi_publish_rules :: "(string \<times> string list) list option"
  pi_consume_rules :: "(string \<times> string list) list option"

definition exact_rules ::
    "(string \<times> string list) list option \<Rightarrow> string \<Rightarrow> string set \<Rightarrow> string set \<Rightarrow> PeerPredicateRule list result" where
  "exact_rules given name predicates products =
     (case given of
        None \<Rightarrow> Return (if predicates = {} then []
                  else map (\<lambda>peer. \<lparr>pr_peer_product_id = peer, pr_predicates = predicates\<rparr>) (sorted_list_of_set products))
      | Some rules \<Rightarrow> peer_rules rules name)"

definition rules_match :: "(string \<times> string list) list option \<Rightarrow> PeerPredicateRule list \<Rightarrow> string set \<Rightarrow> string set \<Rightarrow> bool" where
  "rules_match given rules predicates products \<longleftrightarrow> given = None \<or> flatten_rules rules = (products, predicates)"

definition policy_fingerprint :: "(string \<Rightarrow> string) \<Rightarrow> SharingPolicy \<Rightarrow> int \<Rightarrow> bool \<Rightarrow> string" where
  "policy_fingerprint sha p expected withdraw_existing = memory_fingerprint sha (JObj
     [(''publish_enabled'', JBool (sg_publish_enabled p)), (''consume_enabled'', JBool (sg_consume_enabled p)),
      (''publish_predicates'', json_set (sg_publish_predicates p)), (''consume_predicates'', json_set (sg_consume_predicates p)),
      (''publish_to_products'', json_set (sg_publish_to_products p)),
      (''consume_from_products'', json_set (sg_consume_from_products p)),
      (''publish_rules'', JList (map json_rule (sg_publish_rules p))),
      (''consume_rules'', JList (map json_rule (sg_consume_rules p))),
      (''expected_revision'', JInt expected), (''withdraw_existing'', JBool withdraw_existing)])"

text \<open>The policy that was asked for; its revision, author and time come with the commit.\<close>

definition policy_args ::
    "(string \<Rightarrow> string) \<Rightarrow> RequestScope \<Rightarrow> policy_input \<Rightarrow> string \<Rightarrow>
     ((SharingPolicy \<times> int \<times> bool) \<times> idem_key \<times> string) result" where
  "policy_args sha s inp key =
     result_bind (memory_require s SHARING_ADMIN) (\<lambda>_.
     result_bind (memory_revision (pi_expected_revision inp) ''expected_revision'') (\<lambda>expected.
     result_bind (string_set (pi_publish_predicates inp) ''publish_predicates'') (\<lambda>pub_preds.
     result_bind (string_set (pi_consume_predicates inp) ''consume_predicates'') (\<lambda>con_preds.
     result_bind (string_set (pi_publish_to_products inp) ''publish_to_products'') (\<lambda>pub_to.
     result_bind (string_set (pi_consume_from_products inp) ''consume_from_products'') (\<lambda>con_from.
     result_bind (exact_rules (pi_publish_rules inp) ''publish_rules'' pub_preds pub_to) (\<lambda>pub_rules.
     result_bind (exact_rules (pi_consume_rules inp) ''consume_rules'' con_preds con_from) (\<lambda>con_rules.
     if \<not> rules_match (pi_publish_rules inp) pub_rules pub_preds pub_to
     then memory_error INVALID_ARGUMENT ''publish_rules must match the flattened publish allowlists''
            [(''argument'', [''publish_rules''])]
     else if \<not> rules_match (pi_consume_rules inp) con_rules con_preds con_from
     then memory_error INVALID_ARGUMENT ''consume_rules must match the flattened consume allowlists''
            [(''argument'', [''consume_rules''])]
     else
       let p = \<lparr>sg_tenant_id = scope_tenant s, sg_product_id = scope_product s, sg_publish_enabled = pi_publish_enabled inp,
                sg_consume_enabled = pi_consume_enabled inp, sg_publish_predicates = pub_preds, sg_consume_predicates = con_preds,
                sg_publish_to_products = pub_to, sg_consume_from_products = con_from, sg_publish_rules = pub_rules,
                sg_consume_rules = con_rules, sg_revision = 0, sg_updated_by = rs_principal_id s, sg_updated_at = None\<rparr> in
       result_bind (make_idem_key s ''customer360.configure_policy'' key) (\<lambda>k.
       Return ((p, expected, pi_withdraw_existing inp), k, policy_fingerprint sha p expected (pi_withdraw_existing inp)))))))))))"

text \<open>\<open>clock\<close> gives the readings of the clock in turn.\<close>

definition policy_body ::
    "RequestScope \<Rightarrow> SharingPolicy \<times> int \<times> bool \<Rightarrow> (nat \<Rightarrow> int) \<Rightarrow> Customer360 \<Rightarrow> memory_result result \<times> Customer360" where
  "policy_body s args clock st =
     (case args of (asked, expected, withdraw_existing) \<Rightarrow>
        let current = current_policy st (scope_tenant s) (scope_product s) in
        if sg_revision current \<noteq> expected
        then (revision_conflict ''sharing policy revision changed'' expected (sg_revision current), st)
        else
          let p = asked\<lparr>sg_revision := sg_revision current + 1, sg_updated_at := Some (clock 0)\<rparr>;
              st' = invalidate_pending p (clock 1) (st\<lparr>cu_policies := dict_set (scope_tenant s, scope_product s) p (cu_policies st)\<rparr>) in
          if \<not> withdraw_existing then (Return (RPolicy p), st')
          else (case withdraw_product (scope_tenant s) (scope_product s) ''sharing policy withdrew existing contributions''
                       (clock 2) st' of
                  (Inl e, st'') \<Rightarrow> (Raise e, st'')
                | (Inr _, st'') \<Rightarrow> (Return (RPolicy p), st'')))"

definition configure_policy ::
    "(string \<Rightarrow> string) \<Rightarrow> RequestScope \<Rightarrow> policy_input \<Rightarrow> string \<Rightarrow> (nat \<Rightarrow> int) \<Rightarrow> Customer360 \<Rightarrow> memory_result result \<times> Customer360" where
  "configure_policy sha s inp key clock st =
     checked_args (policy_args sha s inp key) st (\<lambda>(args, kf). customer_command kf (policy_body s args clock) st)"

definition get_policy :: "RequestScope \<Rightarrow> Customer360 \<Rightarrow> SharingPolicy" where
  "get_policy s st = current_policy st (scope_tenant s) (scope_product s)"

definition rules_input :: "PeerPredicateRule list \<Rightarrow> (string \<times> string list) list option" where
  "rules_input rules =
     (if rules = [] then None
      else Some (fold (\<lambda>r. dict_set (pr_peer_product_id r) (sorted_list_of_set (pr_predicates r))) rules []))"

definition policy_again :: "SharingPolicy \<Rightarrow> bool \<Rightarrow> bool \<Rightarrow> int \<Rightarrow> bool \<Rightarrow> policy_input" where
  "policy_again p publish_enabled consume_enabled expected withdraw_existing =
     \<lparr>pi_publish_enabled = publish_enabled, pi_consume_enabled = consume_enabled,
      pi_publish_predicates = sorted_list_of_set (sg_publish_predicates p),
      pi_consume_predicates = sorted_list_of_set (sg_consume_predicates p),
      pi_publish_to_products = sorted_list_of_set (sg_publish_to_products p),
      pi_consume_from_products = sorted_list_of_set (sg_consume_from_products p), pi_expected_revision = expected,
      pi_withdraw_existing = withdraw_existing, pi_publish_rules = rules_input (sg_publish_rules p),
      pi_consume_rules = rules_input (sg_consume_rules p)\<rparr>"

definition disable_publishing ::
    "(string \<Rightarrow> string) \<Rightarrow> RequestScope \<Rightarrow> int \<Rightarrow> string \<Rightarrow> bool \<Rightarrow> (nat \<Rightarrow> int) \<Rightarrow> Customer360 \<Rightarrow>
     memory_result result \<times> Customer360" where
  "disable_publishing sha s expected key withdraw_existing clock st =
     (let current = get_policy s st in
      configure_policy sha s (policy_again current False (sg_consume_enabled current) expected withdraw_existing) key clock st)"

definition disable_consumption ::
    "(string \<Rightarrow> string) \<Rightarrow> RequestScope \<Rightarrow> int \<Rightarrow> string \<Rightarrow> (nat \<Rightarrow> int) \<Rightarrow> Customer360 \<Rightarrow> memory_result result \<times> Customer360" where
  "disable_consumption sha s expected key clock st =
     (let current = get_policy s st in
      configure_policy sha s (policy_again current (sg_publish_enabled current) False expected False) key clock st)"

section \<open>Proposing\<close>

definition propose_args ::
    "(string \<Rightarrow> string) \<Rightarrow> RequestScope \<Rightarrow> string \<Rightarrow> string \<Rightarrow> (string \<times> idem_key \<times> string) result" where
  "propose_args sha s claim_id key =
     result_bind (memory_require s SHARE_PROPOSE) (\<lambda>_.
     result_bind (memory_text claim_id ''source_claim_id'') (\<lambda>claim_id.
     result_bind (make_idem_key s ''customer360.propose_share'' key) (\<lambda>k.
     Return (claim_id, k, memory_fingerprint sha (JObj [(''source_claim_id'', JStr claim_id)])))))"

definition natural_key :: "RequestScope \<Rightarrow> PrivateClaim \<Rightarrow> SharingPolicy \<Rightarrow> string \<times> string \<times> string \<times> int \<times> int" where
  "natural_key s c pol = (scope_tenant s, scope_product s, pc_claim_id c, pc_version c, sg_revision pol)"

definition new_candidate ::
    "string \<Rightarrow> RequestScope \<Rightarrow> PrivateClaim \<Rightarrow> EntityAlias \<Rightarrow> SharingPolicy \<Rightarrow> int \<Rightarrow> ShareCandidate" where
  "new_candidate i s source a pol now =
     \<lparr>sc_candidate_id = i, sc_tenant_id = scope_tenant s, sc_entity_id = ea_entity_id a, sc_source_space = pc_space source,
      sc_source_claim_id = pc_claim_id source, sc_source_claim_version = pc_version source,
      sc_source_product_id = scope_product s, sc_source_ref = pc_source_ref source, sc_predicate = pc_predicate source,
      sc_value = pc_value source, sc_audience_product_ids = publish_audience_for pol (pc_predicate source),
      sc_policy_revision = sg_revision pol, sc_status = CAND_PENDING, sc_proposed_by = rs_principal_id s,
      sc_proposed_at = now, sc_decided_at = None\<rparr>"

text \<open>The second critical section; a candidate id in the index that is missing raises \<open>KeyError\<close>.\<close>

definition propose_body ::
    "(nat \<Rightarrow> string) \<Rightarrow> RequestScope \<Rightarrow> PrivateClaim \<Rightarrow> int \<Rightarrow> Customer360 \<Rightarrow> memory_result result \<times> Customer360" where
  "propose_body ids s source now st =
     (case dict_get (cu_aliases st) (scope_tenant s, scope_product s, pc_local_subject_id source) of
        None \<Rightarrow> (memory_error ENTITY_ALIAS_NOT_FOUND ''no verified Customer360 entity alias exists'' [], st)
      | Some a \<Rightarrow>
          let pol = current_policy st (scope_tenant s) (scope_product s) in
          if publish_audience_for pol (pc_predicate source) = {}
          then (memory_error POLICY_REFUSED ''publishing is disabled or the predicate is not allowlisted'' [], st)
          else
            (case dict_get (cu_candidate_by_source st) (natural_key s source pol) of
               Some i \<Rightarrow>
                 (case dict_get (cu_candidates st) i of
                    None \<Rightarrow> (Raise (LookupError i), st)
                  | Some c \<Rightarrow> (Return (RCandidate c), st))
             | None \<Rightarrow>
                 let i = ids (cu_drawn st); c = new_candidate i s source a pol now in
                 (Return (RCandidate c),
                  st\<lparr>cu_drawn := Suc (cu_drawn st), cu_candidates := dict_set i c (cu_candidates st),
                     cu_candidate_by_source := dict_set (natural_key s source pol) i (cu_candidate_by_source st)\<rparr>)))"

text \<open>
  The first critical section only looks for a recorded answer, and the second looks again: between the two the claim is read,
  and a claim that is missing, foreign or retracted ends the call.
\<close>

definition propose_commit ::
    "(nat \<Rightarrow> string) \<Rightarrow> RequestScope \<Rightarrow> PrivateClaim result \<Rightarrow> int \<Rightarrow> Customer360 \<Rightarrow> memory_result result \<times> Customer360" where
  "propose_commit ids s source now st =
     (case source of
        Inl e \<Rightarrow> (Raise e, st)
      | Inr c \<Rightarrow>
          if pc_status c \<noteq> CLAIM_ASSERTED
          then (memory_error INVALID_STATE ''a retracted private claim cannot be proposed for sharing'' [], st)
          else propose_body ids s c now st)"

definition propose_share ::
    "(string \<Rightarrow> string) \<Rightarrow> (nat \<Rightarrow> string) \<Rightarrow> RequestScope \<Rightarrow> string \<Rightarrow> string \<Rightarrow> PrivateClaim result \<Rightarrow> int \<Rightarrow> Customer360 \<Rightarrow>
     memory_result result \<times> Customer360" where
  "propose_share sha ids s claim_id key source now st =
     checked_args (propose_args sha s claim_id key) st (\<lambda>(claim_id, kf).
     customer_command kf (propose_commit ids s source now) st)"

section \<open>Candidates\<close>

definition visible_candidate :: "RequestScope \<Rightarrow> ShareCandidate \<Rightarrow> bool" where
  "visible_candidate s c \<longleftrightarrow>
     CURATOR \<in> rs_roles s \<or> (sc_source_product_id c = scope_product s \<and> SHARE_PROPOSE \<in> rs_roles s)"

definition get_candidate :: "RequestScope \<Rightarrow> string \<Rightarrow> Customer360 \<Rightarrow> ShareCandidate result" where
  "get_candidate s i st =
     result_bind (memory_text i ''candidate_id'') (\<lambda>i.
     case dict_get (cu_candidates st) i of
       None \<Rightarrow> memory_error NOT_FOUND ''share candidate not found'' []
     | Some c \<Rightarrow> if sc_tenant_id c \<noteq> scope_tenant s \<or> \<not> visible_candidate s c
                then memory_error NOT_FOUND ''share candidate not found'' [] else Return c)"

definition list_candidates :: "RequestScope \<Rightarrow> CandidateStatus option \<Rightarrow> Customer360 \<Rightarrow> ShareCandidate list result" where
  "list_candidates s status st =
     result_bind (memory_require_any s [CURATOR, SHARE_PROPOSE]) (\<lambda>_.
     Return (sort_key sc_proposed_at (filter (\<lambda>c.
       sc_tenant_id c = scope_tenant s \<and> (CURATOR \<in> rs_roles s \<or> sc_source_product_id c = scope_product s) \<and>
       (status = None \<or> Some (sc_status c) = status)) (dict_values (cu_candidates st)))))"

section \<open>Curating\<close>

definition curate_args ::
    "(string \<Rightarrow> string) \<Rightarrow> RequestScope \<Rightarrow> string \<Rightarrow> string \<Rightarrow> string \<Rightarrow> int \<Rightarrow> string \<Rightarrow>
     ((string \<times> CurationAction \<times> string \<times> int) \<times> idem_key \<times> string) result" where
  "curate_args sha s i action reason expected key =
     result_bind (memory_require s CURATOR) (\<lambda>_.
     result_bind (memory_text i ''candidate_id'') (\<lambda>i.
     result_bind (memory_text reason ''reason'') (\<lambda>reason.
     result_bind (memory_revision expected ''expected_revision'') (\<lambda>expected.
     result_bind (parse_action action) (\<lambda>action.
     result_bind (make_idem_key s ''customer360.curate'' key) (\<lambda>k.
     Return ((i, action, reason, expected), k, memory_fingerprint sha
       (JObj [(''candidate_id'', JStr i), (''action'', JStr (curation_action_value action)), (''reason'', JStr reason),
              (''expected_revision'', JInt expected)]))))))))"

definition new_shared :: "string \<Rightarrow> SpaceRef \<Rightarrow> ShareCandidate \<Rightarrow> int \<Rightarrow> SharedClaim" where
  "new_shared i space c now =
     \<lparr>sh_claim_id = i, sh_space = space, sh_entity_id = sc_entity_id c, sh_predicate = sc_predicate c, sh_value = sc_value c,
      sh_audience_product_ids = sc_audience_product_ids c,
      sh_provenance = [\<lparr>pv_source_product_id = sc_source_product_id c, pv_source_claim_id = sc_source_claim_id c,
        pv_source_claim_version = sc_source_claim_version c, pv_source_ref = sc_source_ref c,
        pv_candidate_id = sc_candidate_id c, pv_policy_revision = sc_policy_revision c\<rparr>],
      sh_status = SHARED_SELECTED, sh_created_at = now, sh_retracted_at = None, sh_retraction_reason = []\<rparr>"

definition entity_claims :: "Customer360 \<Rightarrow> string \<times> string \<Rightarrow> string list" where
  "entity_claims st k = (case dict_get (cu_shared_by_entity st) k of None \<Rightarrow> [] | Some xs \<Rightarrow> xs)"

definition store_shared :: "SharedClaim \<Rightarrow> string \<Rightarrow> ShareCandidate \<Rightarrow> Customer360 \<Rightarrow> Customer360" where
  "store_shared sh i c st =
     (let k = (sc_tenant_id c, sc_entity_id c) in
      st\<lparr>cu_shared_claims := dict_set (sh_claim_id sh) sh (cu_shared_claims st),
         cu_shared_by_candidate := dict_set i (sh_claim_id sh) (cu_shared_by_candidate st),
         cu_shared_by_entity := dict_set k (entity_claims st k @ [sh_claim_id sh]) (cu_shared_by_entity st)\<rparr>)"

definition decide_candidate :: "CurationAction \<Rightarrow> int \<Rightarrow> ShareCandidate \<Rightarrow> ShareCandidate" where
  "decide_candidate action now c =
     c\<lparr>sc_status := (case action of ACTION_ACCEPT \<Rightarrow> CAND_ACCEPTED | ACTION_REJECT \<Rightarrow> CAND_REJECTED), sc_decided_at := Some now\<rparr>"

text \<open>From the drawing of the decision's id on.\<close>

definition record_decision ::
    "(nat \<Rightarrow> string) \<Rightarrow> RequestScope \<Rightarrow> string \<times> CurationAction \<times> string \<times> int \<Rightarrow> ShareCandidate \<Rightarrow> SharedClaim option \<Rightarrow> int \<Rightarrow>
     Customer360 \<Rightarrow> memory_result result \<times> Customer360" where
  "record_decision ids s args c shared now st =
     (case args of (i, action, reason, expected) \<Rightarrow>
        let k = (sc_tenant_id c, sc_entity_id c); current = revision_of st k;
            d = \<lparr>cud_decision_id = ids (cu_drawn st), cud_candidate_id = i, cud_action = action, cud_reason = reason,
                 cud_curator = rs_principal_id s, cud_previous_revision = current, cud_new_revision = current + 1,
                 cud_decided_at = now\<rparr> in
        (Return (RCuration \<lparr>cur_candidate = c, cur_decision = d, cur_shared_claim = shared, cur_entity_revision = current + 1\<rparr>),
         st\<lparr>cu_drawn := Suc (cu_drawn st), cu_decisions := cu_decisions st @ [d],
            cu_entity_revisions := dict_set k (current + 1) (cu_entity_revisions st)\<rparr>))"

definition curate_commit ::
    "(nat \<Rightarrow> string) \<Rightarrow> RequestScope \<Rightarrow> string \<times> CurationAction \<times> string \<times> int \<Rightarrow> ShareCandidate \<Rightarrow> int \<Rightarrow> Customer360 \<Rightarrow>
     memory_result result \<times> Customer360" where
  "curate_commit ids s args c now st =
     (let action = fst (snd args); c' = decide_candidate action now c;
          st1 = st\<lparr>cu_candidates := dict_set (fst args) c' (cu_candidates st)\<rparr> in
      if action = ACTION_REJECT then record_decision ids s args c' None now st1
      else
        let st2 = st1\<lparr>cu_drawn := Suc (cu_drawn st1)\<rparr> in
        checked_args (SpaceRef_customer360 (sc_tenant_id c)) st2 (\<lambda>space.
        let sh = new_shared (ids (cu_drawn st1)) space c now in
        record_decision ids s args c' (Some sh) now (store_shared sh (fst args) c' st2)))"

definition curate_body ::
    "(nat \<Rightarrow> string) \<Rightarrow> RequestScope \<Rightarrow> string \<times> CurationAction \<times> string \<times> int \<Rightarrow> int \<Rightarrow> Customer360 \<Rightarrow>
     memory_result result \<times> Customer360" where
  "curate_body ids s args now st =
     (case args of (i, action, reason, expected) \<Rightarrow>
        (case dict_get (cu_candidates st) i of
           None \<Rightarrow> (memory_error NOT_FOUND ''share candidate not found'' [], st)
         | Some c \<Rightarrow>
             if sc_tenant_id c \<noteq> scope_tenant s then (memory_error NOT_FOUND ''share candidate not found'' [], st)
             else if sc_status c \<noteq> CAND_PENDING
             then (memory_error INVALID_STATE ''only a pending candidate can be curated''
                     [(''status'', [candidate_status_value (sc_status c)])], st)
             else if action = ACTION_ACCEPT
                \<and> \<not> candidate_allowed (current_policy st (sc_tenant_id c) (sc_source_product_id c)) c
             then (memory_error POLICY_REFUSED ''the current producer policy no longer permits this candidate'' [], st)
             else if revision_of st (sc_tenant_id c, sc_entity_id c) \<noteq> expected
             then (revision_conflict ''Customer360 entity revision changed'' expected
                     (revision_of st (sc_tenant_id c, sc_entity_id c)), st)
             else curate_commit ids s args c now st))"

definition curate ::
    "(string \<Rightarrow> string) \<Rightarrow> (nat \<Rightarrow> string) \<Rightarrow> RequestScope \<Rightarrow> string \<Rightarrow> string \<Rightarrow> string \<Rightarrow> int \<Rightarrow> string \<Rightarrow> int \<Rightarrow> Customer360 \<Rightarrow>
     memory_result result \<times> Customer360" where
  "curate sha ids s i action reason expected key now st =
     checked_args (curate_args sha s i action reason expected key) st (\<lambda>(args, kf).
     customer_command kf (curate_body ids s args now) st)"

section \<open>Reading\<close>

definition readable :: "SharingPolicy \<Rightarrow> RequestScope \<Rightarrow> SharedClaim \<Rightarrow> bool" where
  "readable pol s sh \<longleftrightarrow>
     sh_status sh = SHARED_SELECTED \<and> scope_product s \<in> sh_audience_product_ids sh \<and>
     list_ex (\<lambda>pv. can_consume_from pol (pv_source_product_id pv) (sh_predicate sh)) (sh_provenance sh)"

fun shared_by_id :: "(string, SharedClaim) dict \<Rightarrow> string list \<Rightarrow> SharedClaim list result" where
  "shared_by_id claims [] = Return []"
| "shared_by_id claims (i # is) =
     (case dict_get claims i of
        None \<Rightarrow> Raise (LookupError i)
      | Some c \<Rightarrow> result_bind (shared_by_id claims is) (\<lambda>cs. Return (c # cs)))"

definition read_shared :: "RequestScope \<Rightarrow> string \<Rightarrow> Customer360 \<Rightarrow> SharedClaim list result" where
  "read_shared s entity st =
     result_bind (memory_require s SHARED_READ) (\<lambda>_.
     result_bind (memory_text entity ''entity_id'') (\<lambda>entity.
     let pol = current_policy st (scope_tenant s) (scope_product s) in
     if \<not> sg_consume_enabled pol then memory_error POLICY_REFUSED ''Customer360 consumption is disabled'' []
     else result_bind (shared_by_id (cu_shared_claims st) (entity_claims st (scope_tenant s, entity))) (\<lambda>claims.
       Return (sort_key (\<lambda>sh. (sh_created_at sh, sh_claim_id sh)) (filter (readable pol s) claims)))))"

definition entity_revision :: "RequestScope \<Rightarrow> string \<Rightarrow> Customer360 \<Rightarrow> int result" where
  "entity_revision s entity st =
     result_bind (memory_require_any s [CURATOR, SHARED_READ]) (\<lambda>_.
     result_bind (memory_text entity ''entity_id'') (\<lambda>entity. Return (revision_of st (scope_tenant s, entity))))"

definition list_decisions :: "RequestScope \<Rightarrow> Customer360 \<Rightarrow> CurationDecision list result" where
  "list_decisions s st =
     result_bind (memory_require s CURATOR) (\<lambda>_.
     let own = sc_candidate_id ` set (filter (\<lambda>c. sc_tenant_id c = scope_tenant s) (dict_values (cu_candidates st))) in
     Return (filter (\<lambda>d. cud_candidate_id d \<in> own) (cu_decisions st)))"

section \<open>Withdrawing a source\<close>

definition withdraw_args ::
    "(string \<Rightarrow> string) \<Rightarrow> RequestScope \<Rightarrow> string \<Rightarrow> string \<Rightarrow> string \<Rightarrow> ((string \<times> string) \<times> idem_key \<times> string) result" where
  "withdraw_args sha s claim_id reason key =
     result_bind (memory_require s SHARE_PROPOSE) (\<lambda>_.
     result_bind (memory_text claim_id ''source_claim_id'') (\<lambda>claim_id.
     result_bind (memory_text reason ''reason'') (\<lambda>reason.
     result_bind (make_idem_key s ''customer360.withdraw_source'' key) (\<lambda>k.
     Return ((claim_id, reason), k,
       memory_fingerprint sha (JObj [(''source_claim_id'', JStr claim_id), (''reason'', JStr reason)]))))))"

definition from_source :: "RequestScope \<Rightarrow> string \<Rightarrow> ShareCandidate \<Rightarrow> bool" where
  "from_source s claim_id c \<longleftrightarrow>
     sc_tenant_id c = scope_tenant s \<and> sc_source_product_id c = scope_product s \<and> sc_source_claim_id c = claim_id"

definition withdraw_body ::
    "RequestScope \<Rightarrow> string \<times> string \<Rightarrow> PrivateClaim result \<Rightarrow> int \<Rightarrow> Customer360 \<Rightarrow> memory_result result \<times> Customer360" where
  "withdraw_body s args source now st =
     (case source of
        Inl e \<Rightarrow> (Raise e, st)
      | Inr _ \<Rightarrow>
          (case withdraw_loop (from_source s (fst args)) (snd args) now (cu_candidates st) (start_withdrawal st) of
             Inl e \<Rightarrow> (Raise e, st)
           | Inr w \<Rightarrow>
               (case bump_entities (scope_tenant s) (sorted_list_of_set (wd_touched w)) (wd_state w) of
                  (revs, st') \<Rightarrow>
                    (Return (RReceipt \<lparr>wr_source_claim_id = fst args, wr_candidates_withdrawn = wd_candidates w,
                       wr_shared_claims_retracted = wd_shared w, wr_entity_revisions = revs\<rparr>), st'))))"

definition withdraw_source ::
    "(string \<Rightarrow> string) \<Rightarrow> RequestScope \<Rightarrow> string \<Rightarrow> string \<Rightarrow> string \<Rightarrow> PrivateClaim result \<Rightarrow> int \<Rightarrow> Customer360 \<Rightarrow>
     memory_result result \<times> Customer360" where
  "withdraw_source sha s claim_id reason key source now st =
     checked_args (withdraw_args sha s claim_id reason key) st (\<lambda>(args, kf).
     customer_command kf (withdraw_body s args source now) st)"

section \<open>Calls\<close>

datatype customer_op =
    AliasOp RequestScope string string string int string int
  | PolicyOp RequestScope policy_input string "nat \<Rightarrow> int"
  | DisablePublishingOp RequestScope int string bool "nat \<Rightarrow> int"
  | DisableConsumptionOp RequestScope int string "nat \<Rightarrow> int"
  | ProposeOp RequestScope string string "PrivateClaim result" int
  | CurateOp RequestScope string string string int string int
  | WithdrawOp RequestScope string string string "PrivateClaim result" int

fun customer_step ::
    "(string \<Rightarrow> string) \<Rightarrow> (nat \<Rightarrow> string) \<Rightarrow> customer_op \<Rightarrow> Customer360 \<Rightarrow> memory_result result \<times> Customer360" where
  "customer_step sha ids (AliasOp s product subject entity expected key now) =
     bind_entity_alias sha s product subject entity expected key now"
| "customer_step sha ids (PolicyOp s inp key clock) = configure_policy sha s inp key clock"
| "customer_step sha ids (DisablePublishingOp s expected key withdraw_existing clock) =
     disable_publishing sha s expected key withdraw_existing clock"
| "customer_step sha ids (DisableConsumptionOp s expected key clock) = disable_consumption sha s expected key clock"
| "customer_step sha ids (ProposeOp s claim_id key source now) = propose_share sha ids s claim_id key source now"
| "customer_step sha ids (CurateOp s i action reason expected key now) =
     curate sha ids s i action reason expected key now"
| "customer_step sha ids (WithdrawOp s claim_id reason key source now) = withdraw_source sha s claim_id reason key source now"

end
