(* ===== verification/Customer360_Laws.thy ===== *)
theory Customer360_Laws
  imports Customer360
begin

text \<open>
  What is true of every reachable state of the Customer360 provider: its indexes agree, a shared claim is selected
  exactly while its candidate is accepted, and no lookup of the code fails.
\<close>

section \<open>The invariant\<close>

definition provenance_of :: "ShareCandidate \<Rightarrow> ProvenanceRef" where
  "provenance_of c = \<lparr>pv_source_product_id = sc_source_product_id c, pv_source_claim_id = sc_source_claim_id c,
     pv_source_claim_version = sc_source_claim_version c, pv_source_ref = sc_source_ref c,
     pv_candidate_id = sc_candidate_id c, pv_policy_revision = sc_policy_revision c\<rparr>"

text \<open>What a shared claim takes over from its candidate.\<close>

definition agrees :: "SharedClaim \<Rightarrow> ShareCandidate \<Rightarrow> bool" where
  "agrees sh c \<longleftrightarrow>
     sr_tenant_id (sh_space sh) = sc_tenant_id c \<and> sh_entity_id sh = sc_entity_id c \<and> sh_predicate sh = sc_predicate c \<and>
     sh_value sh = sc_value c \<and> sh_audience_product_ids sh = sc_audience_product_ids c \<and> sh_provenance sh = [provenance_of c]"

definition linked_ok :: "(string, ShareCandidate) dict \<Rightarrow> (string, SharedClaim) dict \<Rightarrow> string \<Rightarrow> string \<Rightarrow> bool" where
  "linked_ok cands shared i sid \<longleftrightarrow>
     (\<exists>c sh. dict_get cands i = Some c \<and> dict_get shared sid = Some sh \<and> agrees sh c \<and>
        (sh_status sh = SHARED_SELECTED \<longleftrightarrow> sc_status c = CAND_ACCEPTED) \<and>
        (sc_status c = CAND_ACCEPTED \<or> sc_status c = CAND_WITHDRAWN))"

definition drawn_id :: "(nat \<Rightarrow> string) \<Rightarrow> nat \<Rightarrow> string \<Rightarrow> bool" where
  "drawn_id ids n i \<longleftrightarrow> (\<exists>k < n. i = ids k)"

definition entity_of :: "SharedClaim \<Rightarrow> string \<times> string" where
  "entity_of sh = (sr_tenant_id (sh_space sh), sh_entity_id sh)"

definition customer_ok :: "(nat \<Rightarrow> string) \<Rightarrow> Customer360 \<Rightarrow> bool" where
  "customer_ok ids st \<longleftrightarrow>
     dict_ok (cu_candidates st)
     \<and> (\<forall>i c. dict_get (cu_candidates st) i = Some c \<longrightarrow> sc_candidate_id c = i \<and> drawn_id ids (cu_drawn st) i
          \<and> py_strip (sc_tenant_id c) \<noteq> [])
     \<and> (\<forall>i sh. dict_get (cu_shared_claims st) i = Some sh \<longrightarrow> sh_claim_id sh = i \<and> drawn_id ids (cu_drawn st) i)
     \<and> (\<forall>i sid. dict_get (cu_shared_by_candidate st) i = Some sid \<longrightarrow>
          linked_ok (cu_candidates st) (cu_shared_claims st) i sid)
     \<and> (\<forall>sid sh. dict_get (cu_shared_claims st) sid = Some sh \<longrightarrow>
          (\<exists>i. dict_get (cu_shared_by_candidate st) i = Some sid))
     \<and> (\<forall>i c. dict_get (cu_candidates st) i = Some c \<longrightarrow> sc_status c = CAND_ACCEPTED \<longrightarrow>
          dict_get (cu_shared_by_candidate st) i \<noteq> None)
     \<and> (\<forall>k sid. sid \<in> set (entity_claims st k) \<longleftrightarrow>
          (\<exists>sh. dict_get (cu_shared_claims st) sid = Some sh \<and> entity_of sh = k))
     \<and> (\<forall>k i. dict_get (cu_candidate_by_source st) k = Some i \<longrightarrow> dict_get (cu_candidates st) i \<noteq> None)"

text \<open>The parts of it, by name.\<close>

lemma customer_okD:
  assumes "customer_ok ids st"
  shows customer_candidates: "dict_ok (cu_candidates st)"
    and customer_candidate_id: "dict_get (cu_candidates st) i = Some c \<Longrightarrow> sc_candidate_id c = i"
    and customer_candidate_drawn: "dict_get (cu_candidates st) i = Some c \<Longrightarrow> drawn_id ids (cu_drawn st) i"
    and customer_tenant: "dict_get (cu_candidates st) i = Some c \<Longrightarrow> py_strip (sc_tenant_id c) \<noteq> []"
    and customer_shared_id: "dict_get (cu_shared_claims st) sid = Some sh \<Longrightarrow> sh_claim_id sh = sid"
    and customer_shared_drawn: "dict_get (cu_shared_claims st) sid = Some sh \<Longrightarrow> drawn_id ids (cu_drawn st) sid"
    and customer_linked: "dict_get (cu_shared_by_candidate st) i = Some sid \<Longrightarrow>
      linked_ok (cu_candidates st) (cu_shared_claims st) i sid"
    and customer_has_candidate: "dict_get (cu_shared_claims st) sid = Some sh \<Longrightarrow>
      \<exists>i. dict_get (cu_shared_by_candidate st) i = Some sid"
    and customer_accepted: "dict_get (cu_candidates st) i = Some c \<Longrightarrow> sc_status c = CAND_ACCEPTED \<Longrightarrow>
      \<exists>sid. dict_get (cu_shared_by_candidate st) i = Some sid"
    and customer_entities: "sid \<in> set (entity_claims st k) \<longleftrightarrow>
      (\<exists>sh. dict_get (cu_shared_claims st) sid = Some sh \<and> entity_of sh = k)"
    and customer_index: "dict_get (cu_candidate_by_source st) nk = Some i \<Longrightarrow> \<exists>c. dict_get (cu_candidates st) i = Some c"
  using assms unfolding customer_ok_def by blast+

lemma drawn_id_Suc [simp, intro]: "drawn_id ids n i \<Longrightarrow> drawn_id ids (Suc n) i"
  by (auto simp: drawn_id_def intro: less_SucI)

lemma drawn_id_here [simp, intro]: "drawn_id ids (Suc n) (ids n)"
  by (auto simp: drawn_id_def)

lemma drawn_id_fresh: "inj ids \<Longrightarrow> \<not> drawn_id ids n (ids n)"
  by (auto simp: drawn_id_def inj_eq)

lemma fresh_candidate: "inj ids \<Longrightarrow> customer_ok ids st \<Longrightarrow> dict_get (cu_candidates st) (ids (cu_drawn st)) = None"
  using drawn_id_fresh customer_candidate_drawn by (metis not_None_eq)

lemma fresh_shared: "inj ids \<Longrightarrow> customer_ok ids st \<Longrightarrow> dict_get (cu_shared_claims st) (ids (cu_drawn st)) = None"
  using drawn_id_fresh customer_shared_drawn by (metis not_None_eq)

text \<open>Two candidates never share a claim.\<close>

lemma link_unique:
  assumes ok: "customer_ok ids st"
    and "dict_get (cu_shared_by_candidate st) i = Some sid" "dict_get (cu_shared_by_candidate st) j = Some sid"
  shows "i = j"
proof -
  have "sh_provenance sh = [provenance_of c] \<Longrightarrow> pv_candidate_id (hd (sh_provenance sh)) = sc_candidate_id c" for sh c
    by (simp add: provenance_of_def)
  with customer_linked [OF ok assms(2)] customer_linked [OF ok assms(3)] show ?thesis
    unfolding linked_ok_def agrees_def using customer_candidate_id [OF ok] by (metis option.inject)
qed

text \<open>The invariant reads neither the aliases, the policies, the revisions, the decisions nor the idempotency records.\<close>

definition same_core :: "Customer360 \<Rightarrow> Customer360 \<Rightarrow> bool" where
  "same_core st st' \<longleftrightarrow>
     cu_candidates st = cu_candidates st' \<and> cu_candidate_by_source st = cu_candidate_by_source st' \<and>
     cu_shared_claims st = cu_shared_claims st' \<and> cu_shared_by_candidate st = cu_shared_by_candidate st' \<and>
     cu_shared_by_entity st = cu_shared_by_entity st' \<and> cu_drawn st = cu_drawn st'"

lemma same_core_ok: "same_core st st' \<Longrightarrow> customer_ok ids st = customer_ok ids st'"
  by (simp add: same_core_def customer_ok_def entity_claims_def)

lemma customer_ok_frame [simp]:
  "customer_ok ids (customer_remember x st) = customer_ok ids st"
  "customer_ok ids (st\<lparr>cu_aliases := a\<rparr>) = customer_ok ids st"
  "customer_ok ids (st\<lparr>cu_policies := p\<rparr>) = customer_ok ids st"
  "customer_ok ids (st\<lparr>cu_entity_revisions := r\<rparr>) = customer_ok ids st"
  "customer_ok ids (st\<lparr>cu_decisions := d\<rparr>) = customer_ok ids st"
  by (rule same_core_ok, simp add: same_core_def customer_remember_def)+

lemma customer_ok_empty: "customer_ok ids empty_customer"
  by (simp add: customer_ok_def empty_customer_def entity_claims_def)

section \<open>Changing a candidate\<close>

text \<open>
  A candidate may change its status and date alone. While it has no shared claim any status but the accepted one will do.
\<close>

lemma agrees_status [simp]: "agrees sh (c\<lparr>sc_status := x, sc_decided_at := y\<rparr>) = agrees sh c"
  by (simp add: agrees_def provenance_of_def)

lemma customer_ok_unlinked:
  assumes ok: "customer_ok ids st" and c: "dict_get (cu_candidates st) i = Some c"
    and un: "dict_get (cu_shared_by_candidate st) i = None" and x: "x \<noteq> CAND_ACCEPTED"
  shows "customer_ok ids (st\<lparr>cu_candidates := dict_set i (c\<lparr>sc_status := x, sc_decided_at := y\<rparr>) (cu_candidates st)\<rparr>)"
proof -
  let ?c = "c\<lparr>sc_status := x, sc_decided_at := y\<rparr>"
  let ?cands = "dict_set i ?c (cu_candidates st)"
  have link: "linked_ok ?cands (cu_shared_claims st) j sid" if "dict_get (cu_shared_by_candidate st) j = Some sid" for j sid
    using customer_linked [OF ok that] that un by (cases "j = i") (auto simp: linked_ok_def)
  have ent: "entity_claims (st\<lparr>cu_candidates := ?cands\<rparr>) k = entity_claims st k" for k by (simp add: entity_claims_def)
  show ?thesis
    using ok c link x unfolding customer_ok_def ent by (auto split: if_splits)
qed

text \<open>An accepted candidate is withdrawn together with its shared claim.\<close>

definition retracted :: "string \<Rightarrow> int \<Rightarrow> SharedClaim \<Rightarrow> SharedClaim" where
  "retracted reason now sh = sh\<lparr>sh_status := SHARED_RETRACTED, sh_retracted_at := Some now, sh_retraction_reason := reason\<rparr>"

lemma retracted_sel [simp]:
  "sh_status (retracted reason now sh) = SHARED_RETRACTED" "entity_of (retracted reason now sh) = entity_of sh"
  "sh_claim_id (retracted reason now sh) = sh_claim_id sh" "agrees (retracted reason now sh) c = agrees sh c"
  by (simp_all add: retracted_def entity_of_def agrees_def)

lemma customer_ok_linked:
  assumes ok: "customer_ok ids st" and c: "dict_get (cu_candidates st) i = Some c"
    and l: "dict_get (cu_shared_by_candidate st) i = Some sid" and sh: "dict_get (cu_shared_claims st) sid = Some sh"
  shows "customer_ok ids (st\<lparr>cu_candidates := dict_set i (c\<lparr>sc_status := CAND_WITHDRAWN, sc_decided_at := y\<rparr>) (cu_candidates st),
    cu_shared_claims := dict_set sid (retracted reason now sh) (cu_shared_claims st)\<rparr>)"
proof -
  let ?c = "c\<lparr>sc_status := CAND_WITHDRAWN, sc_decided_at := y\<rparr>"
  let ?cands = "dict_set i ?c (cu_candidates st)" and ?shared = "dict_set sid (retracted reason now sh) (cu_shared_claims st)"
  have "agrees sh c" using customer_linked [OF ok l] c sh by (simp add: linked_ok_def)
  then have here: "linked_ok ?cands ?shared i sid" by (simp add: linked_ok_def)
  have link: "linked_ok ?cands ?shared j sid'" if j: "dict_get (cu_shared_by_candidate st) j = Some sid'" for j sid'
  proof (cases "j = i")
    case True
    then show ?thesis using here j l by simp
  next
    case False
    then have "sid' \<noteq> sid" using link_unique [OF ok j] l by blast
    then show ?thesis using customer_linked [OF ok j] False by (simp add: linked_ok_def)
  qed
  have ent: "entity_claims (st\<lparr>cu_candidates := ?cands, cu_shared_claims := ?shared\<rparr>) k = entity_claims st k" for k
    by (simp add: entity_claims_def)
  have members: "(\<exists>x. dict_get ?shared z = Some x \<and> entity_of x = k) \<longleftrightarrow>
      (\<exists>x. dict_get (cu_shared_claims st) z = Some x \<and> entity_of x = k)" for z k
    using sh by auto
  show ?thesis
    unfolding customer_ok_def ent
  proof (intro conjI allI impI)
    fix k z
    show "z \<in> set (entity_claims st k) \<longleftrightarrow>
      (\<exists>x. dict_get (cu_shared_claims (st\<lparr>cu_candidates := ?cands, cu_shared_claims := ?shared\<rparr>)) z = Some x \<and> entity_of x = k)"
      using customer_entities [OF ok, of z k] members by simp
  qed (use ok c sh link in \<open>auto simp: customer_ok_def split: if_splits\<close>)
qed

section \<open>The loop that withdraws\<close>

definition withdrawn :: "(ShareCandidate \<Rightarrow> bool) \<Rightarrow> int \<Rightarrow> ShareCandidate \<Rightarrow> ShareCandidate" where
  "withdrawn hit now c =
     (if \<not> hit c \<or> sc_status c = CAND_REJECTED \<or> sc_status c = CAND_WITHDRAWN then c
      else c\<lparr>sc_status := CAND_WITHDRAWN, sc_decided_at := Some now\<rparr>)"

text \<open>Shared claims stay as they are or are retracted, and then their entity is among the touched ones of the tenant.\<close>

definition moved :: "string \<Rightarrow> string set \<Rightarrow> SharedClaim option \<Rightarrow> SharedClaim option \<Rightarrow> bool" where
  "moved t touched x x' \<longleftrightarrow> x' = x \<or>
     (\<exists>sh sh'. x = Some sh \<and> x' = Some sh' \<and> sh_status sh' = SHARED_RETRACTED \<and> entity_of sh' = entity_of sh \<and>
        fst (entity_of sh) = t \<and> snd (entity_of sh) \<in> touched)"

lemma moved_trans: "moved t T x x' \<Longrightarrow> moved t T' x' x'' \<Longrightarrow> T \<subseteq> T' \<Longrightarrow> moved t T' x x''"
  unfolding moved_def by auto

definition shared_moves :: "string \<Rightarrow> string set \<Rightarrow> (string, SharedClaim) dict \<Rightarrow> (string, SharedClaim) dict \<Rightarrow> bool" where
  "shared_moves t touched S S' \<longleftrightarrow> (\<forall>sid. moved t touched (dict_get S sid) (dict_get S' sid))"

lemma shared_moves_refl [simp]: "shared_moves t T S S"
  by (simp add: shared_moves_def moved_def)

lemma shared_moves_trans: "shared_moves t T S S' \<Longrightarrow> shared_moves t T' S' S'' \<Longrightarrow> T \<subseteq> T' \<Longrightarrow> shared_moves t T' S S''"
  unfolding shared_moves_def by (meson moved_trans)

text \<open>Everything but the candidates and the shared claims is as before.\<close>

definition same_frame :: "Customer360 \<Rightarrow> Customer360 \<Rightarrow> bool" where
  "same_frame st st' \<longleftrightarrow>
     cu_aliases st' = cu_aliases st \<and> cu_policies st' = cu_policies st \<and>
     cu_candidate_by_source st' = cu_candidate_by_source st \<and> cu_shared_by_candidate st' = cu_shared_by_candidate st \<and>
     cu_shared_by_entity st' = cu_shared_by_entity st \<and> cu_entity_revisions st' = cu_entity_revisions st \<and>
     cu_decisions st' = cu_decisions st \<and> cu_idempotency st' = cu_idempotency st \<and> cu_drawn st' = cu_drawn st"

lemma same_frame_refl [simp]: "same_frame st st"
  by (simp add: same_frame_def)

lemma same_frame_trans: "same_frame st st' \<Longrightarrow> same_frame st' st'' \<Longrightarrow> same_frame st st''"
  by (simp add: same_frame_def)

lemma same_frame_update [simp]: "same_frame st (st\<lparr>cu_candidates := x, cu_shared_claims := y\<rparr>)" "same_frame st (st\<lparr>cu_candidates := x\<rparr>)"
  by (simp_all add: same_frame_def)

lemma withdraw_candidate_effect:
  assumes ok: "customer_ok ids (wd_state w)" and c: "dict_get (cu_candidates (wd_state w)) i = Some c"
    and live: "sc_status c \<noteq> CAND_WITHDRAWN" and t: "sc_tenant_id c = t"
  shows "\<exists>w'. withdraw_candidate reason now (i, c) w = Return w' \<and> customer_ok ids (wd_state w')
    \<and> same_frame (wd_state w) (wd_state w')
    \<and> dict_get (cu_candidates (wd_state w')) =
        (dict_get (cu_candidates (wd_state w)))(i \<mapsto> c\<lparr>sc_status := CAND_WITHDRAWN, sc_decided_at := Some now\<rparr>)
    \<and> wd_touched w \<subseteq> wd_touched w' \<and> (finite (wd_touched w) \<longrightarrow> finite (wd_touched w'))
    \<and> shared_moves t (wd_touched w') (cu_shared_claims (wd_state w)) (cu_shared_claims (wd_state w'))"
proof -
  have i: "sc_candidate_id c = i" by (rule customer_candidate_id [OF ok c])
  show ?thesis
  proof (cases "dict_get (cu_shared_by_candidate (wd_state w)) i")
    case None
    then show ?thesis
      using customer_ok_unlinked [OF ok c None]
      by (simp add: withdraw_candidate_def retract_shared_def Let_def i)
  next
    case (Some sid)
    then obtain sh where sh: "dict_get (cu_shared_claims (wd_state w)) sid = Some sh" "agrees sh c"
        "sh_status sh = SHARED_SELECTED \<longleftrightarrow> sc_status c = CAND_ACCEPTED"
        "sc_status c = CAND_ACCEPTED \<or> sc_status c = CAND_WITHDRAWN"
      using customer_linked [OF ok Some] c by (auto simp: linked_ok_def)
    then have "sh_status sh = SHARED_SELECTED" using live by simp
    moreover have "entity_of sh = (t, sc_entity_id c)" using sh(2) t by (simp add: entity_of_def agrees_def)
    ultimately show ?thesis
      using customer_ok_linked [OF ok c Some sh(1), where y = "Some now" and reason = reason and now = now] sh(1) Some
      by (auto simp: withdraw_candidate_def retract_shared_def Let_def i retracted_def shared_moves_def moved_def entity_of_def)
  qed
qed

lemma withdraw_loop_effect:
  assumes "customer_ok ids (wd_state w)" "distinct (map fst ics)"
    "\<And>i c. (i, c) \<in> set ics \<Longrightarrow> dict_get (cu_candidates (wd_state w)) i = Some c" "\<And>c. hit c \<Longrightarrow> sc_tenant_id c = t"
  shows "\<exists>w'. withdraw_loop hit reason now ics w = Return w' \<and> customer_ok ids (wd_state w')
    \<and> same_frame (wd_state w) (wd_state w')
    \<and> dict_get (cu_candidates (wd_state w')) = (\<lambda>i. if i \<in> fst ` set ics
        then map_option (withdrawn hit now) (dict_get (cu_candidates (wd_state w)) i) else dict_get (cu_candidates (wd_state w)) i)
    \<and> wd_touched w \<subseteq> wd_touched w' \<and> (finite (wd_touched w) \<longrightarrow> finite (wd_touched w'))
    \<and> shared_moves t (wd_touched w') (cu_shared_claims (wd_state w)) (cu_shared_claims (wd_state w'))"
  using assms(1-3)
proof (induction ics arbitrary: w)
  case (Cons ic rest)
  obtain i c where ic: "ic = (i, c)" by (rule prod.exhaust)
  have c: "dict_get (cu_candidates (wd_state w)) i = Some c" and new: "i \<notin> fst ` set rest"
    using Cons.prems(2,3) ic by auto
  show ?case
  proof (cases "\<not> hit c \<or> sc_status c = CAND_REJECTED \<or> sc_status c = CAND_WITHDRAWN")
    case True
    then have "withdrawn hit now c = c" by (simp add: withdrawn_def)
    moreover obtain w' where "withdraw_loop hit reason now rest w = Return w'" "customer_ok ids (wd_state w')"
      "same_frame (wd_state w) (wd_state w')"
      "dict_get (cu_candidates (wd_state w')) = (\<lambda>i. if i \<in> fst ` set rest
        then map_option (withdrawn hit now) (dict_get (cu_candidates (wd_state w)) i) else dict_get (cu_candidates (wd_state w)) i)"
      "wd_touched w \<subseteq> wd_touched w'" "finite (wd_touched w) \<longrightarrow> finite (wd_touched w')" "shared_moves t (wd_touched w') (cu_shared_claims (wd_state w)) (cu_shared_claims (wd_state w'))"
      using Cons.IH [OF Cons.prems(1)] Cons.prems(2,3) ic by auto
    ultimately show ?thesis using True ic c new by (intro exI [of _ w']) (auto simp: fun_eq_iff)
  next
    case False
    then obtain w1 where w1: "withdraw_candidate reason now (i, c) w = Return w1" "customer_ok ids (wd_state w1)"
      "same_frame (wd_state w) (wd_state w1)"
      "dict_get (cu_candidates (wd_state w1)) =
        (dict_get (cu_candidates (wd_state w)))(i \<mapsto> c\<lparr>sc_status := CAND_WITHDRAWN, sc_decided_at := Some now\<rparr>)"
      "wd_touched w \<subseteq> wd_touched w1" "finite (wd_touched w) \<longrightarrow> finite (wd_touched w1)" "shared_moves t (wd_touched w1) (cu_shared_claims (wd_state w)) (cu_shared_claims (wd_state w1))"
      using withdraw_candidate_effect [OF Cons.prems(1) c _ assms(4)] by metis
    have "dict_get (cu_candidates (wd_state w1)) j = Some d" if "(j, d) \<in> set rest" for j d
      using Cons.prems(3) [of j d] that new w1(4) by force
    then obtain w' where w': "withdraw_loop hit reason now rest w1 = Return w'" "customer_ok ids (wd_state w')"
      "same_frame (wd_state w1) (wd_state w')"
      "dict_get (cu_candidates (wd_state w')) = (\<lambda>i. if i \<in> fst ` set rest
        then map_option (withdrawn hit now) (dict_get (cu_candidates (wd_state w1)) i) else dict_get (cu_candidates (wd_state w1)) i)"
      "wd_touched w1 \<subseteq> wd_touched w'" "finite (wd_touched w1) \<longrightarrow> finite (wd_touched w')" "shared_moves t (wd_touched w') (cu_shared_claims (wd_state w1)) (cu_shared_claims (wd_state w'))"
      using Cons.IH [OF w1(2)] Cons.prems(2) ic by auto
    show ?thesis
      using False ic c new w1 w' same_frame_trans [OF w1(3) w'(3)] shared_moves_trans [OF w1(7) w'(7,5)]
      by (intro exI [of _ w']) (auto simp: fun_eq_iff withdrawn_def)
  qed
qed simp

lemma start_withdrawal_sel [simp]: "wd_state (start_withdrawal st) = st" "wd_touched (start_withdrawal st) = {}"
  by (simp_all add: start_withdrawal_def)

lemma withdraw_loop_all:
  assumes ok: "customer_ok ids st" and t: "\<And>c. hit c \<Longrightarrow> sc_tenant_id c = t"
  obtains w where "withdraw_loop hit reason now (cu_candidates st) (start_withdrawal st) = Return w" "customer_ok ids (wd_state w)"
    "same_frame st (wd_state w)" "finite (wd_touched w)"
    "\<And>i. dict_get (cu_candidates (wd_state w)) i = map_option (withdrawn hit now) (dict_get (cu_candidates st) i)"
    "shared_moves t (wd_touched w) (cu_shared_claims st) (cu_shared_claims (wd_state w))"
proof -
  have dist: "distinct (map fst (cu_candidates st))" using customer_candidates [OF ok] by (simp add: dict_ok_def)
  have ok0: "customer_ok ids (wd_state (start_withdrawal st))" using ok by simp
  have found: "dict_get (cu_candidates (wd_state (start_withdrawal st))) i = Some c" if "(i, c) \<in> set (cu_candidates st)" for i c
    using that dict_get_in_set [OF customer_candidates [OF ok]] by simp
  from withdraw_loop_effect [where hit = hit and t = t and reason = reason and now = now, OF ok0 dist found t, unfolded start_withdrawal_sel] obtain w where
    w: "withdraw_loop hit reason now (cu_candidates st) (start_withdrawal st) = Return w" "customer_ok ids (wd_state w)"
    "same_frame st (wd_state w)" "finite (wd_touched w)"
    "shared_moves t (wd_touched w) (cu_shared_claims st) (cu_shared_claims (wd_state w))"
    and c: "dict_get (cu_candidates (wd_state w)) = (\<lambda>i. if i \<in> fst ` set (cu_candidates st)
      then map_option (withdrawn hit now) (dict_get (cu_candidates st) i) else dict_get (cu_candidates st) i)"
    by auto
  have "dict_get (cu_candidates (wd_state w)) i = map_option (withdrawn hit now) (dict_get (cu_candidates st) i)" for i
    unfolding c by (auto simp: map_of_eq_None_iff [symmetric])
  then show thesis using that w by blast
qed

lemma distinct_count_list: "distinct xs \<Longrightarrow> count_list xs x = (if x \<in> set xs then 1 else 0)"
  by (induction xs) auto

lemma bump_entities_effect:
  "(\<exists>r. snd (bump_entities t es st) = st\<lparr>cu_entity_revisions := r\<rparr>) \<and>
   revision_of (snd (bump_entities t es st)) (t', e) = revision_of st (t', e) + (if t' = t then int (count_list es e) else 0)"
proof (induction es arbitrary: st)
  case Nil
  show ?case by (cases st) simp
next
  case (Cons x es)
  let ?st = "st\<lparr>cu_entity_revisions := dict_set (t, x) (revision_of st (t, x) + 1) (cu_entity_revisions st)\<rparr>"
  have "snd (bump_entities t (x # es) st) = snd (bump_entities t es ?st)" by (simp add: Let_def split: prod.split)
  moreover have "revision_of ?st (t', e) = revision_of st (t', e) + (if t' = t \<and> e = x then 1 else 0)"
    by (simp add: revision_of_def)
  ultimately show ?case using Cons.IH [of ?st] by (auto simp del: bump_entities.simps)
qed

section \<open>Views and revisions\<close>

text \<open>The selected claims of an entity, as they stand.\<close>

definition entity_view :: "Customer360 \<Rightarrow> string \<times> string \<Rightarrow> SharedClaim list" where
  "entity_view st k =
     filter (\<lambda>sh. sh_status sh = SHARED_SELECTED) (map (\<lambda>i. the (dict_get (cu_shared_claims st) i)) (entity_claims st k))"

definition policy_grows :: "Customer360 \<Rightarrow> Customer360 \<Rightarrow> bool" where
  "policy_grows st st' \<longleftrightarrow>
     (\<forall>t p. sg_revision (current_policy st t p) \<le> sg_revision (current_policy st' t p) \<and>
        (sg_revision (current_policy st t p) = sg_revision (current_policy st' t p) \<longrightarrow>
           current_policy st' t p = current_policy st t p))"

definition view_grows :: "Customer360 \<Rightarrow> Customer360 \<Rightarrow> bool" where
  "view_grows st st' \<longleftrightarrow>
     (\<forall>k. revision_of st k \<le> revision_of st' k \<and> (revision_of st k = revision_of st' k \<longrightarrow> entity_view st' k = entity_view st k))"

definition grows :: "Customer360 \<Rightarrow> Customer360 \<Rightarrow> bool" where
  "grows st st' \<longleftrightarrow> policy_grows st st' \<and> view_grows st st'"

lemma grows_refl [simp]: "grows st st"
  by (simp add: grows_def policy_grows_def view_grows_def)

lemma policy_grows_trans: "policy_grows st st' \<Longrightarrow> policy_grows st' st'' \<Longrightarrow> policy_grows st st''"
  unfolding policy_grows_def by (metis (no_types, lifting) order_antisym order_trans)

lemma view_grows_trans: "view_grows st st' \<Longrightarrow> view_grows st' st'' \<Longrightarrow> view_grows st st''"
  unfolding view_grows_def by (metis (no_types, lifting) order_antisym order_trans)

lemma grows_trans: "grows st st' \<Longrightarrow> grows st' st'' \<Longrightarrow> grows st st''"
  unfolding grows_def using policy_grows_trans view_grows_trans by blast

lemma policy_grows_same: "cu_policies st' = cu_policies st \<Longrightarrow> policy_grows st st'"
  by (simp add: policy_grows_def current_policy_def)

lemma view_grows_same:
  "cu_shared_claims st' = cu_shared_claims st \<Longrightarrow> cu_shared_by_entity st' = cu_shared_by_entity st \<Longrightarrow>
   cu_entity_revisions st' = cu_entity_revisions st \<Longrightarrow> view_grows st st'"
  by (simp add: view_grows_def entity_view_def entity_claims_def revision_of_def)

lemma view_same:
  assumes "entity_claims st' k = entity_claims st k"
    "\<And>i. i \<in> set (entity_claims st k) \<Longrightarrow> dict_get (cu_shared_claims st') i = dict_get (cu_shared_claims st) i"
  shows "entity_view st' k = entity_view st k"
  using assms unfolding entity_view_def by (metis (mono_tags, lifting) map_eq_conv)

text \<open>What withdrawing does, with the revisions of the touched entities.\<close>

lemma withdraw_view_grows:
  assumes ok: "customer_ok ids st" and frame: "same_frame st st'" and fin: "finite T"
    and moves: "shared_moves t T (cu_shared_claims st) (cu_shared_claims st')"
  shows "view_grows st (snd (bump_entities t (sorted_list_of_set T) st'))"
proof -
  let ?b = "snd (bump_entities t (sorted_list_of_set T) st')"
  obtain r where r: "?b = st'\<lparr>cu_entity_revisions := r\<rparr>" using bump_entities_effect by blast
  have count: "count_list (sorted_list_of_set T) e = (if e \<in> T then 1 else 0)" for e
    using fin by (simp add: distinct_count_list)
  have rev: "revision_of ?b (t', e) = revision_of st (t', e) + (if t' = t \<and> e \<in> T then 1 else 0)" for t' e
    using bump_entities_effect [of t "sorted_list_of_set T" st' t' e] frame by (simp add: count revision_of_def same_frame_def)
  have "entity_view ?b k = entity_view st k" if "\<not> (fst k = t \<and> snd k \<in> T)" for k
  proof (rule view_same)
    show "entity_claims ?b k = entity_claims st k" using frame by (simp add: r entity_claims_def same_frame_def)
    fix i
    assume "i \<in> set (entity_claims st k)"
    then obtain sh where "dict_get (cu_shared_claims st) i = Some sh" "entity_of sh = k" using customer_entities [OF ok] by blast
    then show "dict_get (cu_shared_claims ?b) i = dict_get (cu_shared_claims st) i"
      using moves [unfolded shared_moves_def, rule_format, of i] that by (auto simp: r moved_def)
  qed
  then show ?thesis unfolding view_grows_def using rev by (auto split: if_splits)
qed

section \<open>The effect of every call\<close>

definition good_step :: "(nat \<Rightarrow> string) \<Rightarrow> Customer360 \<Rightarrow> Customer360 \<Rightarrow> bool" where
  "good_step ids st st' \<longleftrightarrow> customer_ok ids st' \<and> grows st st'"

lemma good_step_refl: "customer_ok ids st \<Longrightarrow> good_step ids st st"
  by (simp add: good_step_def)

lemma good_step_trans: "good_step ids st st' \<Longrightarrow> good_step ids st' st'' \<Longrightarrow> good_step ids st st''"
  unfolding good_step_def using grows_trans by blast

lemma remember_grows: "grows st (customer_remember x st)"
  by (simp add: grows_def policy_grows_same view_grows_same customer_remember_def)

lemma command_good:
  assumes "customer_ok ids st" "good_step ids st (snd (body st))"
  shows "good_step ids st (snd (customer_command kf body st))"
proof (cases rule: command_cases [of cu_idempotency kf body customer_remember st])
  case (3 r st')
  then have "good_step ids st st'" using assms(2) by simp
  moreover have "good_step ids st' (customer_remember x st')" for x
    using calculation remember_grows by (simp add: good_step_def)
  ultimately show ?thesis using 3 good_step_trans by simp
qed (use assms good_step_refl in auto)

lemma alias_good: "customer_ok ids st \<Longrightarrow> good_step ids st (snd (alias_body s args now st))"
  by (auto simp: alias_body_def good_step_def grows_def policy_grows_same view_grows_same Let_def split: prod.split)

lemma dict_get_map_values: "dict_get (map (\<lambda>(i, c). (i, f c)) d) i = map_option f (dict_get d i)"
  by (induction d) auto

lemma invalidate_ok:
  assumes ok: "customer_ok ids st"
  shows "customer_ok ids (invalidate_pending pol now st)"
proof -
  let ?f = "stale_candidate pol now" and ?st = "invalidate_pending pol now st"
  have get: "dict_get (cu_candidates ?st) i = map_option ?f (dict_get (cu_candidates st) i)" for i
    by (simp add: invalidate_pending_def dict_get_map_values)
  have keep: "sc_candidate_id (?f c) = sc_candidate_id c" "sc_tenant_id (?f c) = sc_tenant_id c" "agrees sh (?f c) = agrees sh c"
    "sc_status (?f c) = CAND_ACCEPTED \<longleftrightarrow> sc_status c = CAND_ACCEPTED" "sc_status (?f c) = CAND_WITHDRAWN \<longleftrightarrow> sc_status c = CAND_WITHDRAWN"
    for c sh
    by (auto simp: stale_candidate_def)
  have same: "cu_shared_claims ?st = cu_shared_claims st" "cu_shared_by_candidate ?st = cu_shared_by_candidate st"
    "cu_drawn ?st = cu_drawn st" "entity_claims ?st k = entity_claims st k" "cu_candidate_by_source ?st = cu_candidate_by_source st" for k
    by (simp_all add: invalidate_pending_def entity_claims_def)
  have "dict_ok (cu_candidates ?st)"
    using customer_candidates [OF ok] by (simp add: invalidate_pending_def dict_ok_def o_def case_prod_unfold)
  moreover have "linked_ok (cu_candidates ?st) (cu_shared_claims st) i sid"
    if "dict_get (cu_shared_by_candidate st) i = Some sid" for i sid
    using customer_linked [OF ok that] unfolding linked_ok_def get by (auto simp: keep)
  ultimately show ?thesis
    using ok unfolding customer_ok_def get same by (auto simp: keep)
qed

lemma invalidate_frame [simp]:
  "cu_policies (invalidate_pending pol now st) = cu_policies st" "cu_shared_claims (invalidate_pending pol now st) = cu_shared_claims st"
  "cu_shared_by_entity (invalidate_pending pol now st) = cu_shared_by_entity st"
  "cu_entity_revisions (invalidate_pending pol now st) = cu_entity_revisions st"
  by (simp_all add: invalidate_pending_def)

lemma bump_ok: "customer_ok ids st \<Longrightarrow> customer_ok ids (snd (bump_entities t es st))"
  using bump_entities_effect [of t es st] by (metis customer_ok_frame(4))

lemma bump_policies: "cu_policies (snd (bump_entities t es st)) = cu_policies st"
proof -
  obtain r where "snd (bump_entities t es st) = st\<lparr>cu_entity_revisions := r\<rparr>" using bump_entities_effect by blast
  then show ?thesis by simp
qed

lemma withdraw_product_good:
  assumes ok: "customer_ok ids st"
  shows "\<exists>st'. withdraw_product t product reason now st = (Return (), st') \<and> good_step ids st st' \<and> cu_policies st' = cu_policies st"
proof -
  obtain w where w: "withdraw_loop (\<lambda>c. sc_tenant_id c = t \<and> sc_source_product_id c = product) reason now (cu_candidates st)
      (start_withdrawal st) = Return w" "customer_ok ids (wd_state w)" "same_frame st (wd_state w)" "finite (wd_touched w)"
      "shared_moves t (wd_touched w) (cu_shared_claims st) (cu_shared_claims (wd_state w))"
    using withdraw_loop_all [OF ok, of "\<lambda>c. sc_tenant_id c = t \<and> sc_source_product_id c = product" t reason now] by blast
  let ?st = "snd (bump_entities t (sorted_list_of_set (wd_touched w)) (wd_state w))"
  have "cu_policies ?st = cu_policies st" using w(3) by (simp add: bump_policies same_frame_def)
  then show ?thesis
    using w withdraw_view_grows [OF ok w(3,4,5)] bump_ok [OF w(2)]
    by (simp add: withdraw_product_def good_step_def grows_def policy_grows_same)
qed

lemma policy_set_grows:
  assumes "sg_revision p = sg_revision (current_policy st t q) + 1" "cu_policies st' = dict_set (t, q) p (cu_policies st)"
  shows "policy_grows st st'"
proof -
  have "current_policy st' t' q' = (if (t', q') = (t, q) then p else current_policy st t' q')" for t' q'
    by (simp add: current_policy_def assms(2))
  then show ?thesis using assms(1) by (simp add: policy_grows_def)
qed

lemma policy_good:
  assumes ok: "customer_ok ids st"
  shows "good_step ids st (snd (policy_body s args clock st))"
proof -
  obtain asked expected withdraw_existing where args: "args = (asked, expected, withdraw_existing)" by (rule prod_cases3)
  let ?cur = "current_policy st (scope_tenant s) (scope_product s)"
  let ?p = "asked\<lparr>sg_revision := sg_revision ?cur + 1, sg_updated_at := Some (clock 0)\<rparr>"
  let ?st = "invalidate_pending ?p (clock 1) (st\<lparr>cu_policies := dict_set (scope_tenant s, scope_product s) ?p (cu_policies st)\<rparr>)"
  have ok': "customer_ok ids ?st" using ok by (simp add: invalidate_ok)
  have first: "good_step ids st ?st"
    using ok' policy_set_grows [of ?p st "scope_tenant s" "scope_product s" ?st]
    by (simp add: good_step_def grows_def view_grows_same)
  obtain st'' where "withdraw_product (scope_tenant s) (scope_product s) ''sharing policy withdrew existing contributions'' (clock 2) ?st
      = (Return (), st'')" "good_step ids ?st st''"
    using withdraw_product_good [OF ok'] by blast
  then have "good_step ids st (snd (policy_body s args clock st))" if "sg_revision ?cur = expected" "withdraw_existing"
    using good_step_trans [OF first] that by (simp add: policy_body_def args Let_def)
  moreover have "good_step ids st (snd (policy_body s args clock st))" if "sg_revision ?cur = expected" "\<not> withdraw_existing"
    using first that by (simp add: policy_body_def args Let_def)
  moreover have "good_step ids st (snd (policy_body s args clock st))" if "sg_revision ?cur \<noteq> expected"
    using good_step_refl [OF ok] that by (simp add: policy_body_def args Let_def)
  ultimately show ?thesis by blast
qed

text \<open>A new candidate gets an id that is not in use.\<close>

lemma customer_ok_new_candidate:
  assumes inj: "inj ids" and ok: "customer_ok ids st" and i: "sc_candidate_id c = ids (cu_drawn st)" and pending: "sc_status c = CAND_PENDING"
    and tenant: "py_strip (sc_tenant_id c) \<noteq> []"
  shows "customer_ok ids (st\<lparr>cu_drawn := Suc (cu_drawn st), cu_candidates := dict_set (ids (cu_drawn st)) c (cu_candidates st),
    cu_candidate_by_source := dict_set nk (ids (cu_drawn st)) (cu_candidate_by_source st)\<rparr>)"
proof -
  let ?i = "ids (cu_drawn st)" and ?cands = "dict_set (ids (cu_drawn st)) c (cu_candidates st)"
  have fresh: "dict_get (cu_candidates st) ?i = None" by (rule fresh_candidate [OF inj ok])
  have link: "linked_ok ?cands (cu_shared_claims st) j sid" if "dict_get (cu_shared_by_candidate st) j = Some sid" for j sid
    using customer_linked [OF ok that] fresh by (cases "j = ?i") (auto simp: linked_ok_def)
  have ent: "entity_claims (st\<lparr>cu_drawn := x, cu_candidates := y, cu_candidate_by_source := z\<rparr>) k = entity_claims st k" for x y z k
    by (simp add: entity_claims_def)
  show ?thesis
    unfolding customer_ok_def ent
  proof (intro conjI allI impI)
    fix k z
    show "z \<in> set (entity_claims st k) \<longleftrightarrow> (\<exists>sh. dict_get (cu_shared_claims (st\<lparr>cu_drawn := Suc (cu_drawn st),
        cu_candidates := ?cands, cu_candidate_by_source := dict_set nk ?i (cu_candidate_by_source st)\<rparr>)) z = Some sh \<and> entity_of sh = k)"
      using customer_entities [OF ok, of z k] by simp
  qed (use ok link i pending tenant fresh in \<open>auto simp: customer_ok_def split: if_splits\<close>)
qed

lemma propose_good:
  assumes inj: "inj ids" and ok: "customer_ok ids st" and tenant: "py_strip (scope_tenant s) \<noteq> []"
  shows "good_step ids st (snd (propose_commit ids s source now st))"
proof -
  have body: "good_step ids st (snd (propose_body ids s src now st))" for src
  proof (cases "dict_get (cu_aliases st) (scope_tenant s, scope_product s, pc_local_subject_id src)")
    case None
    then show ?thesis using good_step_refl [OF ok] by (simp add: propose_body_def)
  next
    case (Some a)
    let ?pol = "current_policy st (scope_tenant s) (scope_product s)"
    let ?c = "new_candidate (ids (cu_drawn st)) s src a ?pol now"
    have "customer_ok ids (st\<lparr>cu_drawn := Suc (cu_drawn st), cu_candidates := dict_set (ids (cu_drawn st)) ?c (cu_candidates st),
        cu_candidate_by_source := dict_set (natural_key s src ?pol) (ids (cu_drawn st)) (cu_candidate_by_source st)\<rparr>)"
      by (rule customer_ok_new_candidate [OF inj ok]) (simp_all add: new_candidate_def tenant)
    then show ?thesis
      using good_step_refl [OF ok] Some
      by (auto simp: propose_body_def good_step_def grows_def policy_grows_same view_grows_same Let_def split: option.split)
  qed
  show ?thesis
    using body good_step_refl [OF ok] by (auto simp: propose_commit_def split: sum.split)
qed

lemma withdraw_good:
  assumes ok: "customer_ok ids st"
  shows "good_step ids st (snd (withdraw_body s args source now st))"
proof (cases source)
  case (Inl e)
  then show ?thesis using good_step_refl [OF ok] by (simp add: withdraw_body_def)
next
  case (Inr src)
  obtain w where w: "withdraw_loop (from_source s (fst args)) (snd args) now (cu_candidates st) (start_withdrawal st) = Return w"
      "customer_ok ids (wd_state w)" "same_frame st (wd_state w)" "finite (wd_touched w)"
      "shared_moves (scope_tenant s) (wd_touched w) (cu_shared_claims st) (cu_shared_claims (wd_state w))"
    using withdraw_loop_all [OF ok, of "from_source s (fst args)" "scope_tenant s"] by (metis from_source_def)
  let ?st = "snd (bump_entities (scope_tenant s) (sorted_list_of_set (wd_touched w)) (wd_state w))"
  have "cu_policies ?st = cu_policies st" using w(3) by (simp add: bump_policies same_frame_def)
  moreover have "snd (withdraw_body s args source now st) = ?st"
    by (simp add: withdraw_body_def Inr w(1) split: prod.split)
  ultimately show ?thesis
    using withdraw_view_grows [OF ok w(3,4,5)] bump_ok [OF w(2)] by (simp add: good_step_def grows_def policy_grows_same)
qed

section \<open>Curation\<close>

lemma customer_ok_drawn: "customer_ok ids st \<Longrightarrow> customer_ok ids (st\<lparr>cu_drawn := Suc (cu_drawn st)\<rparr>)"
  by (simp add: customer_ok_def entity_claims_def)

lemma pending_unlinked:
  assumes "customer_ok ids st" "dict_get (cu_candidates st) i = Some c" "sc_status c = CAND_PENDING"
  shows "dict_get (cu_shared_by_candidate st) i = None"
  using customer_linked [OF assms(1), of i] assms(2,3)
  by (cases "dict_get (cu_shared_by_candidate st) i") (auto simp: linked_ok_def)

lemma SpaceRef_customer360_ok:
  "py_strip t \<noteq> [] \<Longrightarrow> SpaceRef_customer360 t = Return \<lparr>sr_tenant_id = t, sr_kind = CUSTOMER360_SHARED, sr_owner_product_id = None\<rparr>"
  by (simp add: SpaceRef_customer360_def SpaceRef_post_init_def)

lemma record_decision_state:
  "snd (record_decision ids s args c shared now st) =
   st\<lparr>cu_drawn := Suc (cu_drawn st), cu_decisions := cu_decisions (snd (record_decision ids s args c shared now st)),
      cu_entity_revisions := dict_set (sc_tenant_id c, sc_entity_id c) (revision_of st (sc_tenant_id c, sc_entity_id c) + 1)
        (cu_entity_revisions st)\<rparr>"
  by (simp add: record_decision_def Let_def split: prod.split)

lemma record_decision_ok: "customer_ok ids st \<Longrightarrow> customer_ok ids (snd (record_decision ids s args c shared now st))"
  by (subst record_decision_state) (simp add: customer_ok_drawn)

lemma customer_ok_accept:
  assumes inj: "inj ids" and ok: "customer_ok ids st" and c: "dict_get (cu_candidates st) i = Some c"
    and pending: "sc_status c = CAND_PENDING" and c': "c' = decide_candidate ACTION_ACCEPT now c"
    and sh: "sh = new_shared (ids (cu_drawn st)) \<lparr>sr_tenant_id = sc_tenant_id c, sr_kind = CUSTOMER360_SHARED, sr_owner_product_id = None\<rparr> c now"
    and st': "st' = store_shared sh i c' (st\<lparr>cu_candidates := dict_set i c' (cu_candidates st), cu_drawn := Suc (cu_drawn st)\<rparr>)"
  shows "customer_ok ids st'"
proof -
  let ?sid = "ids (cu_drawn st)"
  have i: "sc_candidate_id c = i" by (rule customer_candidate_id [OF ok c])
  have fresh: "dict_get (cu_shared_claims st) ?sid = None" by (rule fresh_shared [OF inj ok])
  have un: "dict_get (cu_shared_by_candidate st) i = None" by (rule pending_unlinked [OF ok c pending])
  have sel: "sc_candidate_id c' = i" "sc_tenant_id c' = sc_tenant_id c" "sc_entity_id c' = sc_entity_id c" "sc_status c' = CAND_ACCEPTED"
    "sh_claim_id sh = ?sid" "sh_status sh = SHARED_SELECTED" "entity_of sh = (sc_tenant_id c, sc_entity_id c)" "agrees sh c'"
    by (simp_all add: c' sh decide_candidate_def new_shared_def i entity_of_def agrees_def provenance_of_def)
  have fields: "cu_candidates st' = dict_set i c' (cu_candidates st)" "cu_drawn st' = Suc (cu_drawn st)"
    "dict_get (cu_shared_claims st') = (dict_get (cu_shared_claims st))(?sid \<mapsto> sh)"
    "dict_get (cu_shared_by_candidate st') = (dict_get (cu_shared_by_candidate st))(i \<mapsto> ?sid)"
    "cu_candidate_by_source st' = cu_candidate_by_source st"
    "entity_claims st' k = (if k = entity_of sh then entity_claims st k @ [?sid] else entity_claims st k)" for k
    by (simp_all add: st' store_shared_def sel Let_def entity_claims_def)
  have old: "sid \<noteq> ?sid" if "dict_get (cu_shared_by_candidate st) j = Some sid" for j sid
    using customer_linked [OF ok that] fresh by (auto simp: linked_ok_def)
  have link: "linked_ok (cu_candidates st') (cu_shared_claims st') j sid" if "dict_get (cu_shared_by_candidate st') j = Some sid" for j sid
  proof (cases "j = i")
    case True
    then show ?thesis using that by (auto simp: linked_ok_def fields sel)
  next
    case False
    then have "dict_get (cu_shared_by_candidate st) j = Some sid" using that by (simp add: fields)
    then show ?thesis using customer_linked [OF ok] old False by (simp add: linked_ok_def fields)
  qed
  have entities: "sid \<in> set (entity_claims st' k) \<longleftrightarrow> (\<exists>x. dict_get (cu_shared_claims st') sid = Some x \<and> entity_of x = k)" for sid k
    using customer_entities [OF ok, of sid k] fresh by (auto simp: fields)
  have has: "\<exists>j. dict_get (cu_shared_by_candidate st') j = Some sid" if "dict_get (cu_shared_claims st') sid = Some x" for sid x
  proof (cases "sid = ?sid")
    case False
    then have "dict_get (cu_shared_claims st) sid = Some x" using that by (simp add: fields)
    then obtain j where "dict_get (cu_shared_by_candidate st) j = Some sid"
      using customer_has_candidate [OF ok] by blast
    then show ?thesis using un by (intro exI [of _ j]) (auto simp: fields)
  qed (auto simp: fields)
  show ?thesis
    unfolding customer_ok_def
  proof (intro conjI allI impI)
    show "\<And>k sid. sid \<in> set (entity_claims st' k) \<longleftrightarrow> (\<exists>x. dict_get (cu_shared_claims st') sid = Some x \<and> entity_of x = k)"
      by (rule entities)
    show "\<And>j sid. dict_get (cu_shared_by_candidate st') j = Some sid \<Longrightarrow> linked_ok (cu_candidates st') (cu_shared_claims st') j sid"
      by (rule link)
    show "\<And>sid x. dict_get (cu_shared_claims st') sid = Some x \<Longrightarrow> \<exists>j. dict_get (cu_shared_by_candidate st') j = Some sid"
      by (rule has)
  qed (use ok c sel in \<open>auto simp: customer_ok_def fields split: if_splits\<close>)
qed

lemma decided_view_grows:
  assumes rev: "\<And>k. revision_of st' k = revision_of st k + (if k = target then 1 else 0)"
    and view: "\<And>k. k \<noteq> target \<Longrightarrow> entity_view st' k = entity_view st k"
  shows "view_grows st st'"
  using assms by (auto simp: view_grows_def)

lemma record_decision_rev:
  "revision_of (snd (record_decision ids s args c shared now st)) k =
   revision_of st k + (if k = (sc_tenant_id c, sc_entity_id c) then 1 else 0)"
  by (subst record_decision_state) (simp add: revision_of_def)

lemma record_decision_frame:
  "entity_view (snd (record_decision ids s args c shared now st)) k = entity_view st k"
  "cu_policies (snd (record_decision ids s args c shared now st)) = cu_policies st"
  by (subst record_decision_state, simp add: entity_view_def entity_claims_def)+

lemma store_shared_view:
  assumes ok: "customer_ok ids st" and fresh: "dict_get (cu_shared_claims st) (sh_claim_id sh) = None"
    and k: "k \<noteq> (sc_tenant_id c, sc_entity_id c)"
    and same: "cu_shared_claims st1 = cu_shared_claims st" "cu_shared_by_entity st1 = cu_shared_by_entity st"
  shows "entity_view (store_shared sh j c st1) k = entity_view st k"
proof (rule view_same)
  show "entity_claims (store_shared sh j c st1) k = entity_claims st k"
    using k same by (simp add: store_shared_def entity_claims_def Let_def)
  fix i
  assume "i \<in> set (entity_claims st k)"
  then have "i \<noteq> sh_claim_id sh" using customer_entities [OF ok, of i k] fresh by auto
  then show "dict_get (cu_shared_claims (store_shared sh j c st1)) i = dict_get (cu_shared_claims st) i"
    using same by (simp add: store_shared_def Let_def)
qed

lemma curate_commit_good:
  assumes inj: "inj ids" and ok: "customer_ok ids st" and c: "dict_get (cu_candidates st) (fst args) = Some c"
    and pending: "sc_status c = CAND_PENDING"
  shows "good_step ids st (snd (curate_commit ids s args c now st))"
proof (cases "fst (snd args)")
  case ACTION_REJECT
  let ?c = "decide_candidate ACTION_REJECT now c"
  let ?st = "st\<lparr>cu_candidates := dict_set (fst args) ?c (cu_candidates st)\<rparr>"
  let ?st' = "snd (record_decision ids s args ?c None now ?st)"
  have "customer_ok ids ?st"
    using customer_ok_unlinked [OF ok c pending_unlinked [OF ok c pending], of CAND_REJECTED "Some now"] by (simp add: decide_candidate_def)
  then have "customer_ok ids ?st'" by (rule record_decision_ok)
  moreover have "view_grows st ?st'"
    by (rule decided_view_grows [where target = "(sc_tenant_id ?c, sc_entity_id ?c)"])
      (simp_all add: record_decision_rev record_decision_frame, simp_all add: revision_of_def entity_view_def entity_claims_def)
  moreover have "policy_grows st ?st'" by (rule policy_grows_same) (simp add: record_decision_frame)
  ultimately show ?thesis by (simp add: curate_commit_def ACTION_REJECT Let_def good_step_def grows_def)
next
  case ACTION_ACCEPT
  let ?c = "decide_candidate ACTION_ACCEPT now c"
  let ?space = "\<lparr>sr_tenant_id = sc_tenant_id c, sr_kind = CUSTOMER360_SHARED, sr_owner_product_id = None\<rparr>"
  let ?sh = "new_shared (ids (cu_drawn st)) ?space c now"
  let ?st1 = "st\<lparr>cu_candidates := dict_set (fst args) ?c (cu_candidates st), cu_drawn := Suc (cu_drawn st)\<rparr>"
  let ?st' = "snd (record_decision ids s args ?c (Some ?sh) now (store_shared ?sh (fst args) ?c ?st1))"
  have "customer_ok ids (store_shared ?sh (fst args) ?c ?st1)" by (rule customer_ok_accept [OF inj ok c pending refl refl refl])
  then have ok': "customer_ok ids ?st'" by (rule record_decision_ok)
  have rev: "revision_of (store_shared ?sh (fst args) ?c ?st1) k = revision_of st k" for k
    by (simp add: revision_of_def store_shared_def Let_def)
  have "dict_get (cu_shared_claims st) (sh_claim_id ?sh) = None" using fresh_shared [OF inj ok] by (simp add: new_shared_def)
  from store_shared_view [OF ok this, of _ ?c ?st1 "fst args"] have view: "entity_view (store_shared ?sh (fst args) ?c ?st1) k = entity_view st k"
    if "k \<noteq> (sc_tenant_id ?c, sc_entity_id ?c)" for k using that by simp
  have "view_grows st ?st'"
    by (rule decided_view_grows [where target = "(sc_tenant_id ?c, sc_entity_id ?c)"])
      (simp only: record_decision_rev rev, simp only: record_decision_frame, rule view)
  moreover have "policy_grows st ?st'"
    by (rule policy_grows_same) (simp add: record_decision_frame store_shared_def Let_def)
  ultimately show ?thesis
    using ok' SpaceRef_customer360_ok [OF customer_tenant [OF ok c]]
    by (simp add: curate_commit_def ACTION_ACCEPT Let_def good_step_def grows_def)
qed

lemma curate_good:
  assumes inj: "inj ids" and ok: "customer_ok ids st"
  shows "good_step ids st (snd (curate_body ids s args now st))"
proof -
  obtain i action reason expected where args: "args = (i, action, reason, expected)" by (rule prod_cases4)
  show ?thesis
    using curate_commit_good [OF inj ok, of args] good_step_refl [OF ok]
    by (cases "dict_get (cu_candidates st) i") (simp_all add: curate_body_def args)
qed

section \<open>Reachable states\<close>

fun customer_scope :: "customer_op \<Rightarrow> RequestScope" where
  "customer_scope (AliasOp s _ _ _ _ _ _) = s"
| "customer_scope (PolicyOp s _ _ _) = s"
| "customer_scope (DisablePublishingOp s _ _ _ _) = s"
| "customer_scope (DisableConsumptionOp s _ _ _) = s"
| "customer_scope (ProposeOp s _ _ _ _) = s"
| "customer_scope (CurateOp s _ _ _ _ _ _) = s"
| "customer_scope (WithdrawOp s _ _ _ _ _) = s"

lemma checked_good:
  assumes "customer_ok ids st" "\<And>args kf. good_step ids st (snd (f args kf))"
  shows "good_step ids st (snd (checked_args r st (\<lambda>(args, kf). f args kf)))"
  using assms good_step_refl by (cases r) auto

lemma configure_good: "customer_ok ids st \<Longrightarrow> good_step ids st (snd (configure_policy sha s inp key clock st))"
  unfolding configure_policy_def by (intro checked_good command_good policy_good)

lemma step_good:
  assumes inj: "inj ids" and ok: "customer_ok ids st" and scope: "py_strip (scope_tenant (customer_scope op)) \<noteq> []"
  shows "good_step ids st (snd (customer_step sha ids op st))"
proof (cases op)
  case (ProposeOp s claim_id key source now)
  then have "py_strip (scope_tenant s) \<noteq> []" using scope by simp
  then show ?thesis
    unfolding ProposeOp customer_step.simps propose_share_def by (intro checked_good command_good propose_good ok inj)
next
  case (AliasOp s product subject entity expected key now)
  show ?thesis
    unfolding AliasOp customer_step.simps bind_entity_alias_def by (intro checked_good command_good alias_good ok)
next
  case (CurateOp s i action reason expected key now)
  show ?thesis
    unfolding CurateOp customer_step.simps curate_def by (intro checked_good command_good curate_good ok inj)
next
  case (WithdrawOp s claim_id reason key source now)
  show ?thesis
    unfolding WithdrawOp customer_step.simps withdraw_source_def by (intro checked_good command_good withdraw_good ok)
qed (simp_all add: configure_good [OF ok] disable_publishing_def disable_consumption_def Let_def)

end
