(* ===== verification/Customer360_Sharing.thy ===== *)
theory Customer360_Sharing
  imports Customer360_Laws
begin

text \<open>
  The chain of authority behind a shared claim. Over a history of calls, everything in the store goes back
  to a call that was allowed to put it there: policies to an administrator of the producing product, candidates to a proposal under such
  a policy, shared claims to a curator of the tenant.
\<close>

section \<open>Valid scopes\<close>

lemma py_chars_points: "p \<in> set (py_chars s) \<Longrightarrow> p \<noteq> []"
  by (induction s rule: py_chars.induct) (auto split: list.splits if_splits)

lemma py_chars_first: "\<exists>p ps. py_chars (c # cs) = (c # p) # ps"
  by (simp split: list.split)

lemma dropWhile_first: "dropWhile P xs = y # ys \<Longrightarrow> \<not> P y"
  by (metis hd_dropWhile list.distinct(1) list.sel(1))

lemma not_blank:
  assumes "py_chars s = p # ps" "\<not> space_point p"
  shows "py_strip s \<noteq> []"
proof -
  let ?r = "dropWhile space_point (rev (p # ps))"
  have first: "dropWhile space_point (py_chars s) = p # ps" using assms by simp
  have "?r \<noteq> []" using assms(2) by (auto simp: dropWhile_eq_Nil_conv)
  moreover have "set ?r \<subseteq> set (py_chars s)" using assms(1) set_dropWhileD by fastforce
  ultimately have "concat (rev ?r) \<noteq> []" using py_chars_points by (metis concat_eq_Nil_conv last_in_set set_rev subset_iff)
  then show ?thesis by (simp only: py_strip_def first not_False_eq_True)
qed

lemma alnum_no_space: "is_alnum c \<Longrightarrow> \<not> space_point (c # p)"
  by (cases p) (auto simp: space_point_def is_alnum_def is_digit_def is_lower_def is_upper_def is_space_def less_eq_char_def)

lemma id_not_blank: "ID_PATTERN t \<Longrightarrow> py_strip t \<noteq> []"
proof (cases t)
  case (Cons c cs)
  assume "ID_PATTERN t"
  then have "is_alnum c" using Cons by (simp add: ID_PATTERN_def head_then_def)
  moreover obtain p ps where "py_chars (c # cs) = (c # p) # ps" using py_chars_first by blast
  ultimately show ?thesis using not_blank alnum_no_space Cons by metis
qed (simp add: ID_PATTERN_def head_then_def)

lemma valid_tenant: "valid_request s \<Longrightarrow> py_strip (scope_tenant s) \<noteq> []"
  using valid_requestD(3) [of s] id_not_blank by (cases "rs_tenant_id s") (auto simp: scope_tenant_def id_present_def)

section \<open>Histories\<close>

text \<open>The private provider answers with claims of the caller, whichever stores the directory names.\<close>

locale claim_reader =
  fixes claim_read :: "'w \<Rightarrow> RequestScope \<Rightarrow> string \<Rightarrow> PrivateClaim result"
  assumes own: "claim_read w s i = Return c \<Longrightarrow> owns_claim s c"
begin

lemma answered_own: "\<exists>w. source = claim_read w s i \<Longrightarrow> source = Return c \<Longrightarrow> owns_claim s c"
  using own by metis

end

interpretation provider: claim_reader "\<lambda>st s i. get_claim s i st"
  by unfold_locales (auto simp: get_claim_def find_claim_Return)

interpretation directory: claim_reader resolved_claim
  by unfold_locales (auto simp: resolved_claim_def intro: provider.own)

definition valid_call :: "customer_op \<Rightarrow> bool" where
  "valid_call op \<longleftrightarrow> valid_request (customer_scope op) \<and>
     (case op of
        ProposeOp s i key source now \<Rightarrow> (\<exists>w :: nat ProfileDirectory \<times> (nat \<Rightarrow> ProfileStore). source = resolved_claim w s i)
      | WithdrawOp s i reason key source now \<Rightarrow> (\<exists>w :: nat ProfileDirectory \<times> (nat \<Rightarrow> ProfileStore). source = resolved_claim w s i)
      | _ \<Rightarrow> True)"

type_synonym history = "(customer_op \<times> memory_result result) list"

inductive customer_reach :: "(string \<Rightarrow> string) \<Rightarrow> (nat \<Rightarrow> string) \<Rightarrow> history \<Rightarrow> Customer360 \<Rightarrow> bool" for sha ids where
  reach_start: "customer_reach sha ids [] empty_customer"
| reach_call: "customer_reach sha ids log st \<Longrightarrow> valid_call op \<Longrightarrow> customer_step sha ids op st = (r, st') \<Longrightarrow>
    customer_reach sha ids (log @ [(op, r)]) st'"

lemma reach_ok:
  assumes "inj ids" "customer_reach sha ids log st"
  shows "customer_ok ids st"
  using assms(2)
proof induction
  case (reach_call log st op r st')
  have "py_strip (scope_tenant (customer_scope op)) \<noteq> []"
    using reach_call.hyps(2) valid_tenant by (simp add: valid_call_def)
  from step_good [OF assms(1) reach_call.IH this, of sha] show ?case
    using reach_call.hyps(3) by (simp add: good_step_def)
qed (rule customer_ok_empty)

section \<open>Who put it there\<close>

definition configured :: "history \<Rightarrow> string \<Rightarrow> string \<Rightarrow> SharingPolicy \<Rightarrow> bool" where
  "configured log t p pol \<longleftrightarrow>
     (\<exists>op. (op, Return (RPolicy pol)) \<in> set log \<and> SHARING_ADMIN \<in> rs_roles (customer_scope op) \<and>
        scope_tenant (customer_scope op) = t \<and> scope_product (customer_scope op) = p)"

definition proposed :: "history \<Rightarrow> ShareCandidate \<Rightarrow> bool" where
  "proposed log c \<longleftrightarrow>
     (\<exists>s i key source now. (ProposeOp s i key (Return source) now, Return (RCandidate c)) \<in> set log \<and>
        SHARE_PROPOSE \<in> rs_roles s \<and> scope_tenant s = sc_tenant_id c \<and> scope_product s = sc_source_product_id c \<and>
        owns_claim s source \<and> pc_status source = CLAIM_ASSERTED \<and> pc_claim_id source = sc_source_claim_id c \<and>
        pc_predicate source = sc_predicate c \<and> pc_value source = sc_value c)"

definition accepted :: "history \<Rightarrow> ShareCandidate \<Rightarrow> bool" where
  "accepted log c \<longleftrightarrow>
     (\<exists>s i action reason expected key now r. (CurateOp s i action reason expected key now, Return (RCuration r)) \<in> set log \<and>
        CURATOR \<in> rs_roles s \<and> scope_tenant s = sc_tenant_id c \<and> parse_action action = Return ACTION_ACCEPT \<and>
        sc_candidate_id (cur_candidate r) = sc_candidate_id c)"

text \<open>A candidate as it was proposed.\<close>

definition as_proposed :: "ShareCandidate \<Rightarrow> ShareCandidate" where
  "as_proposed c = c\<lparr>sc_status := CAND_PENDING, sc_decided_at := None\<rparr>"

definition authorised :: "history \<Rightarrow> ShareCandidate \<Rightarrow> bool" where
  "authorised log c \<longleftrightarrow>
     proposed log (as_proposed c) \<and>
     (\<exists>pol. configured log (sc_tenant_id c) (sc_source_product_id c) pol \<and> sg_revision pol = sc_policy_revision c \<and>
        sc_audience_product_ids c = publish_audience_for pol (sc_predicate c))"

definition accounted_for :: "history \<Rightarrow> Customer360 \<Rightarrow> bool" where
  "accounted_for log st \<longleftrightarrow>
     (\<forall>t p pol. dict_get (cu_policies st) (t, p) = Some pol \<longrightarrow> configured log t p pol) \<and>
     (\<forall>i c. dict_get (cu_candidates st) i = Some c \<longrightarrow> authorised log c) \<and>
     (\<forall>i sid c. dict_get (cu_shared_by_candidate st) i = Some sid \<longrightarrow> dict_get (cu_candidates st) i = Some c \<longrightarrow> accepted log c)"

lemma configured_mono: "configured log t p pol \<Longrightarrow> configured (log @ later) t p pol"
  unfolding configured_def by (metis UnI1 set_append)

lemma proposed_mono: "proposed log c \<Longrightarrow> proposed (log @ later) c"
  unfolding proposed_def set_append by blast

lemma accepted_mono: "accepted log c \<Longrightarrow> accepted (log @ later) c"
  unfolding accepted_def set_append by blast

lemma authorised_mono: "authorised log c \<Longrightarrow> authorised (log @ later) c"
  unfolding authorised_def using proposed_mono configured_mono by blast

lemma accounted_mono: "accounted_for log st \<Longrightarrow> accounted_for (log @ later) st"
  unfolding accounted_for_def using configured_mono authorised_mono accepted_mono by blast

text \<open>Changing a candidate's status changes nothing in its account.\<close>

lemma authorised_same: "as_proposed c = as_proposed c' \<Longrightarrow> authorised log c = authorised log c'"
  by (cases c; cases c') (simp add: authorised_def as_proposed_def)

lemma accepted_same: "as_proposed c = as_proposed c' \<Longrightarrow> accepted log c = accepted log c'"
  by (cases c; cases c') (simp add: accepted_def as_proposed_def)

text \<open>A step that adds no policy, no candidate and no link.\<close>

lemma accounted_kept:
  assumes "accounted_for log st" "cu_policies st' = cu_policies st" "cu_shared_by_candidate st' = cu_shared_by_candidate st"
    and "\<And>i c'. dict_get (cu_candidates st') i = Some c' \<Longrightarrow> \<exists>c. dict_get (cu_candidates st) i = Some c \<and> as_proposed c = as_proposed c'"
  shows "accounted_for log st'"
proof -
  have cand: "authorised log c'" if c': "dict_get (cu_candidates st') i = Some c'" for i c'
  proof -
    obtain c where "dict_get (cu_candidates st) i = Some c" "as_proposed c = as_proposed c'" using assms(4) [OF c'] by blast
    then show ?thesis using assms(1) authorised_same unfolding accounted_for_def by blast
  qed
  have "accepted log c'" if sid: "dict_get (cu_shared_by_candidate st) i = Some sid" and c': "dict_get (cu_candidates st') i = Some c'" for i sid c'
  proof -
    obtain c where "dict_get (cu_candidates st) i = Some c" "as_proposed c = as_proposed c'" using assms(4) [OF c'] by blast
    then show ?thesis using assms(1) sid accepted_same unfolding accounted_for_def by blast
  qed
  then show ?thesis using cand assms(1) unfolding accounted_for_def assms(2,3) by blast
qed

lemma as_proposed_withdrawn [simp]: "as_proposed (withdrawn hit now c) = as_proposed c"
  by (simp add: withdrawn_def as_proposed_def)

lemma as_proposed_stale [simp]: "as_proposed (stale_candidate pol now c) = as_proposed c"
  by (simp add: stale_candidate_def as_proposed_def)

lemma as_proposed_decided [simp]: "as_proposed (decide_candidate action now c) = as_proposed c"
  by (simp add: decide_candidate_def as_proposed_def)

lemma accounted_withdraw_loop:
  assumes acc: "accounted_for log st" and frame: "same_frame st (wd_state w)"
    and cands: "\<And>i. dict_get (cu_candidates (wd_state w)) i = map_option (withdrawn hit now) (dict_get (cu_candidates st) i)"
  shows "accounted_for log (snd (bump_entities t es (wd_state w)))"
proof -
  obtain r where r: "snd (bump_entities t es (wd_state w)) = (wd_state w)\<lparr>cu_entity_revisions := r\<rparr>"
    using bump_entities_effect by blast
  show ?thesis
    unfolding r by (rule accounted_kept [OF acc]) (use frame cands in \<open>auto simp: same_frame_def\<close>)
qed

lemma accounted_remember [simp]: "accounted_for log (customer_remember x st) = accounted_for log st"
  by (simp add: accounted_for_def customer_remember_def)

section \<open>Every call leaves an account\<close>

text \<open>
  What a command adds to the history is its own entry; it suffices that its body, when it returns, accounts for what it did, and that
  it changes nothing when it raises.
\<close>

lemma command_accounted:
  assumes acc: "accounted_for log st"
    and raised: "\<And>e st'. body st = (Raise e, st') \<Longrightarrow> accounted_for log st'"
    and returned: "\<And>r st'. body st = (Return r, st') \<Longrightarrow> accounted_for (log @ [(op, Return r)]) st'"
    and step: "customer_command kf body st = (r, st')"
  shows "accounted_for (log @ [(op, r)]) st'"
proof (cases rule: command_cases [of cu_idempotency kf body customer_remember st])
  case (1 x)
  then show ?thesis using acc step accounted_mono by simp
next
  case (2 e st1)
  then show ?thesis using raised step accounted_mono by auto
next
  case (3 x st1)
  then show ?thesis using returned step by auto
qed

lemma checked_accounted:
  assumes "accounted_for log st" "checked_args r st f = (x, st')"
    and "\<And>y. r = Return y \<Longrightarrow> f y = (x, st') \<Longrightarrow> accounted_for (log @ [(op, x)]) st'"
  shows "accounted_for (log @ [(op, x)]) st'"
  using assms accounted_mono by (cases r) auto

lemma alias_accounted: "accounted_for log st \<Longrightarrow> accounted_for log (snd (alias_body s args now st))"
  by (auto simp: alias_body_def accounted_for_def Let_def split: prod.split)

lemma policy_args_admin:
  "policy_args sha s inp key = Return ((asked, expected, w), kf) \<Longrightarrow> SHARING_ADMIN \<in> rs_roles s"
  by (auto simp: policy_args_def memory_require_def split: if_splits)

lemma policy_accounted:
  assumes ok: "customer_ok ids st" and acc: "accounted_for log st" and admin: "SHARING_ADMIN \<in> rs_roles s"
    and op: "customer_scope op = s" and step: "policy_body s args clock st = (Return r, st')"
  shows "accounted_for (log @ [(op, Return r)]) st'"
proof -
  obtain asked expected withdraw_existing where args: "args = (asked, expected, withdraw_existing)" by (rule prod_cases3)
  let ?t = "scope_tenant s" and ?q = "scope_product s"
  define p where "p = asked\<lparr>sg_revision := sg_revision (current_policy st ?t ?q) + 1, sg_updated_at := Some (clock 0)\<rparr>"
  define st1 where "st1 = invalidate_pending p (clock 1) (st\<lparr>cu_policies := dict_set (?t, ?q) p (cu_policies st)\<rparr>)"
  have ok1: "customer_ok ids st1" using ok by (simp add: st1_def invalidate_ok)
  let ?log = "log @ [(op, Return (RPolicy p))]"
  have "configured ?log ?t ?q p" using admin op by (auto simp: configured_def)
  then have "accounted_for ?log (st\<lparr>cu_policies := dict_set (?t, ?q) p (cu_policies st)\<rparr>)"
    using accounted_mono [OF acc, of "[(op, Return (RPolicy p))]"] unfolding accounted_for_def by simp
  then have acc1: "accounted_for ?log st1"
    unfolding st1_def
    by (rule accounted_kept) (auto simp: invalidate_pending_def dict_get_map_values)
  have stepped: "sg_revision (current_policy st ?t ?q) = expected" using step by (auto simp: policy_body_def args Let_def revision_conflict_def split: if_splits)
  show ?thesis
  proof (cases withdraw_existing)
    case False
    then show ?thesis using step stepped acc1 by (simp add: policy_body_def args Let_def p_def st1_def)
  next
    case True
    obtain w where w: "withdraw_loop (\<lambda>c. sc_tenant_id c = ?t \<and> sc_source_product_id c = ?q)
        ''sharing policy withdrew existing contributions'' (clock 2) (cu_candidates st1) (start_withdrawal st1) = Return w"
      "same_frame st1 (wd_state w)"
      "\<And>i. dict_get (cu_candidates (wd_state w)) i = map_option
        (withdrawn (\<lambda>c. sc_tenant_id c = ?t \<and> sc_source_product_id c = ?q) (clock 2)) (dict_get (cu_candidates st1) i)"
      using withdraw_loop_all [OF ok1, of "\<lambda>c. sc_tenant_id c = ?t \<and> sc_source_product_id c = ?q" ?t
        "''sharing policy withdrew existing contributions''" "clock 2"] by blast
    have "r = RPolicy p" "st' = snd (bump_entities ?t (sorted_list_of_set (wd_touched w)) (wd_state w))"
      using step stepped True w(1) by (auto simp: policy_body_def args Let_def p_def st1_def withdraw_product_def)
    then show ?thesis using accounted_withdraw_loop [OF acc1 w(2,3)] by simp
  qed
qed

lemma audience_configured:
  assumes "accounted_for log st" "publish_audience_for (current_policy st t p) predicate \<noteq> {}"
  shows "configured log t p (current_policy st t p)"
  using assms by (cases "dict_get (cu_policies st) (t, p)")
    (auto simp: current_policy_def accounted_for_def default_sharing_def publish_audience_for_def)

lemma propose_accounted:
  assumes inj: "inj ids" and ok: "customer_ok ids st" and acc: "accounted_for log st" and role: "SHARE_PROPOSE \<in> rs_roles s"
    and own: "owns_claim s source" and live: "pc_status source = CLAIM_ASSERTED"
    and step: "propose_body ids s source now st = (Return r, st')"
  shows "accounted_for (log @ [(ProposeOp s i key (Return source) now, Return r)]) st'"
proof -
  let ?t = "scope_tenant s" and ?q = "scope_product s"
  let ?pol = "current_policy st ?t ?q" and ?j = "ids (cu_drawn st)" and ?log = "log @ [(ProposeOp s i key (Return source) now, Return r)]"
  obtain a where a: "dict_get (cu_aliases st) (?t, ?q, pc_local_subject_id source) = Some a"
    using step by (auto simp: propose_body_def split: option.splits)
  have aud: "publish_audience_for ?pol (pc_predicate source) \<noteq> {}"
    using step a by (auto simp: propose_body_def Let_def split: if_splits)
  show ?thesis
  proof (cases "dict_get (cu_candidate_by_source st) (natural_key s source ?pol)")
    case (Some x)
    then have "st' = st" using step a aud by (auto simp: propose_body_def Let_def split: option.splits)
    then show ?thesis using accounted_mono [OF acc] by simp
  next
    case None
    let ?c = "new_candidate ?j s source a ?pol now"
    have r: "r = RCandidate ?c" and st': "cu_policies st' = cu_policies st" "cu_shared_by_candidate st' = cu_shared_by_candidate st"
        "cu_candidates st' = dict_set ?j ?c (cu_candidates st)"
      using step a aud None by (auto simp: propose_body_def Let_def)
    have "proposed ?log (as_proposed ?c)"
      unfolding proposed_def r
      by (intro exI [of _ s] exI [of _ i] exI [of _ key] exI [of _ source] exI [of _ now])
        (simp add: as_proposed_def new_candidate_def role own live)
    moreover have "configured ?log ?t ?q ?pol" by (rule configured_mono [OF audience_configured [OF acc aud]])
    ultimately have "authorised ?log ?c" unfolding authorised_def by (auto simp: new_candidate_def)
    moreover have "dict_get (cu_shared_by_candidate st) ?j = None"
      using customer_linked [OF ok, of ?j] fresh_candidate [OF inj ok]
      by (cases "dict_get (cu_shared_by_candidate st) ?j") (auto simp: linked_ok_def)
    ultimately show ?thesis
      using accounted_mono [OF acc, of "[(ProposeOp s i key (Return source) now, Return r)]"]
      unfolding accounted_for_def st' by auto
  qed
qed

lemma curate_args_curator:
  "curate_args sha s i action reason expected key = Return ((j, act, re, ex), kf) \<Longrightarrow>
   CURATOR \<in> rs_roles s \<and> parse_action action = Return act"
  by (auto simp: curate_args_def memory_require_def simp del: parse_action.simps split: if_splits)

lemma record_decision_core:
  "cu_policies (snd (record_decision ids s args c shared now st)) = cu_policies st"
  "cu_shared_by_candidate (snd (record_decision ids s args c shared now st)) = cu_shared_by_candidate st"
  "cu_candidates (snd (record_decision ids s args c shared now st)) = cu_candidates st"
  by (subst record_decision_state, simp)+

lemma record_decision_result:
  "\<exists>res. fst (record_decision ids s args c shared now st) = Return (RCuration res) \<and> cur_candidate res = c"
  by (simp add: record_decision_def Let_def split: prod.split)

lemma curate_accounted:
  assumes ok: "customer_ok ids st" and acc: "accounted_for log st" and role: "CURATOR \<in> rs_roles s"
    and action: "parse_action action = Return (fst (snd args))" and c: "dict_get (cu_candidates st) (fst args) = Some c"
    and tenant: "sc_tenant_id c = scope_tenant s" and step: "curate_commit ids s args c now st = (r, st')"
  shows "accounted_for (log @ [(CurateOp s i action reason expected key now, r)]) st'"
proof (cases "fst (snd args)")
  case ACTION_REJECT
  have st': "st' = snd (record_decision ids s args (decide_candidate ACTION_REJECT now c) None now
      (st\<lparr>cu_candidates := dict_set (fst args) (decide_candidate ACTION_REJECT now c) (cu_candidates st)\<rparr>))"
    using step by (simp add: curate_commit_def ACTION_REJECT Let_def)
  have "accounted_for log st'"
    by (rule accounted_kept [OF acc]) (use c in \<open>auto simp: st' record_decision_core split: if_splits\<close>)
  then show ?thesis by (rule accounted_mono)
next
  case ACTION_ACCEPT
  let ?c = "decide_candidate ACTION_ACCEPT now c" and ?log = "log @ [(CurateOp s i action reason expected key now, r)]"
  define sh where "sh = new_shared (ids (cu_drawn st))
    \<lparr>sr_tenant_id = sc_tenant_id c, sr_kind = CUSTOMER360_SHARED, sr_owner_product_id = None\<rparr> c now"
  define st1 where "st1 = st\<lparr>cu_candidates := dict_set (fst args) ?c (cu_candidates st), cu_drawn := Suc (cu_drawn st)\<rparr>"
  have rec: "(r, st') = record_decision ids s args ?c (Some sh) now (store_shared sh (fst args) ?c st1)"
    using step SpaceRef_customer360_ok [OF customer_tenant [OF ok c]]
    by (simp add: curate_commit_def ACTION_ACCEPT Let_def sh_def st1_def)
  have st1: "cu_policies st1 = cu_policies st" "cu_shared_by_candidate st1 = cu_shared_by_candidate st"
      "cu_candidates st1 = dict_set (fst args) ?c (cu_candidates st)"
    by (simp_all add: st1_def)
  have core: "cu_policies st' = cu_policies st" "cu_candidates st' = dict_set (fst args) ?c (cu_candidates st)"
    "cu_shared_by_candidate st' = dict_set (fst args) (sh_claim_id sh) (cu_shared_by_candidate st)"
    using record_decision_core [of ids s args ?c "Some sh" now "store_shared sh (fst args) ?c st1"] rec [symmetric]
    by (simp_all add: store_shared_def Let_def st1)
  obtain res where r: "r = Return (RCuration res)" "cur_candidate res = ?c"
    using record_decision_result [of ids s args ?c "Some sh" now "store_shared sh (fst args) ?c st1"] rec [symmetric] by auto
  have id: "sc_candidate_id ?c = fst args" using customer_candidate_id [OF ok c] by (simp add: decide_candidate_def)
  have "accepted ?log ?c"
    unfolding accepted_def
    by (intro exI [of _ s] exI [of _ i] exI [of _ action] exI [of _ reason] exI [of _ expected] exI [of _ key] exI [of _ now] exI [of _ res])
      (use role tenant action r in \<open>simp add: ACTION_ACCEPT decide_candidate_def del: parse_action.simps\<close>)
  moreover have "authorised ?log ?c"
    using accounted_mono [OF acc, of "[(CurateOp s i action reason expected key now, r)]"] c authorised_same [of ?c c] by (auto simp: accounted_for_def)
  ultimately show ?thesis
    using accounted_mono [OF acc, of "[(CurateOp s i action reason expected key now, r)]"]
    unfolding accounted_for_def core id by (auto split: if_splits)
qed

lemma curate_commit_returns:
  assumes "customer_ok ids st" "dict_get (cu_candidates st) (fst args) = Some c"
  shows "curate_commit ids s args c now st \<noteq> (Raise e, st')"
  using SpaceRef_customer360_ok [OF customer_tenant [OF assms]]
  by (auto simp: curate_commit_def record_decision_def Let_def split: prod.splits)

lemma propose_args_role: "propose_args sha s i key = Return (j, kf) \<Longrightarrow> SHARE_PROPOSE \<in> rs_roles s"
  by (auto simp: propose_args_def memory_require_def split: if_splits)

lemma policy_raised:
  assumes ok: "customer_ok ids st" and step: "policy_body s args clock st = (Raise e, st1)"
  shows "st1 = st"
proof -
  have no: "withdraw_product t q reason now (invalidate_pending p n (st\<lparr>cu_policies := x\<rparr>)) \<noteq> (Raise e, st1)" for t q reason now p n x
    using withdraw_product_good [of ids "invalidate_pending p n (st\<lparr>cu_policies := x\<rparr>)" t q reason now] ok
    by (auto simp: invalidate_ok)
  show ?thesis
    using step no by (cases args) (auto simp: policy_body_def Let_def split: if_splits prod.splits sum.splits)
qed

lemma configure_accounted:
  assumes "customer_ok ids st" "accounted_for log st" "customer_scope op = s" "configure_policy sha s inp key clock st = (r, st')"
  shows "accounted_for (log @ [(op, r)]) st'"
proof (rule checked_accounted [OF assms(2) assms(4) [unfolded configure_policy_def]])
  fix y
  assume y: "policy_args sha s inp key = Return y" and step: "(case y of (args, kf) \<Rightarrow> customer_command kf (policy_body s args clock) st) = (r, st')"
  obtain asked expected w kf where y': "y = ((asked, expected, w), kf)" by (metis prod_cases3 surj_pair)
  have admin: "SHARING_ADMIN \<in> rs_roles s" using policy_args_admin y y' by blast
  show "accounted_for (log @ [(op, r)]) st'"
  proof (rule command_accounted [OF assms(2) _ _ step [unfolded y' prod.case]])
    fix e st1
    assume "policy_body s (asked, expected, w) clock st = (Raise e, st1)"
    from policy_raised [OF assms(1) this] show "accounted_for log st1" using assms(2) by simp
  next
    fix r st1
    assume "policy_body s (asked, expected, w) clock st = (Return r, st1)"
    then show "accounted_for (log @ [(op, Return r)]) st1" by (rule policy_accounted [OF assms(1,2) admin assms(3)])
  qed
qed

lemma propose_step_accounted:
  assumes "inj ids" "customer_ok ids st" "accounted_for log st" and own: "\<And>c. source = Return c \<Longrightarrow> owns_claim s c"
    and "propose_share sha ids s i key source now st = (r, st')"
  shows "accounted_for (log @ [(ProposeOp s i key source now, r)]) st'"
proof (rule checked_accounted [OF assms(3) assms(5) [unfolded propose_share_def]])
  fix y
  assume y: "propose_args sha s i key = Return y" and step: "(case y of (j, kf) \<Rightarrow> customer_command kf (propose_commit ids s source now) st) = (r, st')"
  obtain j kf where y': "y = (j, kf)" by (rule prod.exhaust)
  have role: "SHARE_PROPOSE \<in> rs_roles s" using propose_args_role y y' by blast
  show "accounted_for (log @ [(ProposeOp s i key source now, r)]) st'"
  proof (rule command_accounted [OF assms(3) _ _ step [unfolded y' prod.case]])
    fix e st1
    assume "propose_commit ids s source now st = (Raise e, st1)"
    then have "st1 = st" by (auto simp: propose_commit_def propose_body_def Let_def split: sum.splits if_splits option.splits)
    then show "accounted_for log st1" using assms(3) by simp
  next
    fix r st1
    assume commit: "propose_commit ids s source now st = (Return r, st1)"
    then obtain c where c: "source = Return c" by (auto simp: propose_commit_def split: sum.splits)
    then have "pc_status c = CLAIM_ASSERTED" "propose_body ids s c now st = (Return r, st1)"
      using commit by (auto simp: propose_commit_def split: if_splits)
    then show "accounted_for (log @ [(ProposeOp s i key source now, Return r)]) st1"
      using propose_accounted [OF assms(1,2,3) role own [OF c]] c by simp
  qed
qed

lemma curate_step_accounted:
  assumes "customer_ok ids st" "accounted_for log st" "curate sha ids s i action reason expected key now st = (r, st')"
  shows "accounted_for (log @ [(CurateOp s i action reason expected key now, r)]) st'"
proof (rule checked_accounted [OF assms(2) assms(3) [unfolded curate_def]])
  let ?op = "CurateOp s i action reason expected key now"
  fix y
  assume y: "curate_args sha s i action reason expected key = Return y"
    and step: "(case y of (args, kf) \<Rightarrow> customer_command kf (curate_body ids s args now) st) = (r, st')"
  obtain j act re ex kf where y': "y = ((j, act, re, ex), kf)" by (metis prod_cases4 surj_pair)
  have role: "CURATOR \<in> rs_roles s" "parse_action action = Return (fst (snd (j, act, re, ex)))"
    using curate_args_curator [of sha s i action reason expected key j act re ex kf] y y' by (simp_all del: parse_action.simps)
  have body: "accounted_for (log @ [(?op, x)]) st1" if b: "curate_body ids s (j, act, re, ex) now st = (x, st1)" for x st1
  proof -
    consider "st1 = st" | c where "dict_get (cu_candidates st) (fst (j, act, re, ex)) = Some c" "sc_tenant_id c = scope_tenant s"
        "curate_commit ids s (j, act, re, ex) c now st = (x, st1)"
      using b by (auto simp: curate_body_def split: option.splits if_splits)
    then show ?thesis
    proof cases
      case 1
      then show ?thesis using accounted_mono [OF assms(2)] by simp
    next
      case (2 c)
      then show ?thesis by (rule curate_accounted [OF assms(1,2) role])
    qed
  qed
  have raised: "accounted_for log st1" if "curate_body ids s (j, act, re, ex) now st = (Raise e, st1)" for e st1
  proof -
    have "st1 = st"
      using that curate_commit_returns [OF assms(1), of "(j, act, re, ex)"]
      by (auto simp: curate_body_def revision_conflict_def split: option.splits if_splits)
    then show ?thesis using assms(2) by simp
  qed
  show "accounted_for (log @ [(?op, r)]) st'"
    by (rule command_accounted [OF assms(2) raised body step [unfolded y' prod.case]])
qed

lemma withdraw_step_accounted:
  assumes ok: "customer_ok ids st" and acc: "accounted_for log st"
    and step: "withdraw_source sha s i reason key source now st = (r, st')"
  shows "accounted_for (log @ [(op, r)]) st'"
proof (rule checked_accounted [OF acc step [unfolded withdraw_source_def]])
  fix y
  assume "(case y of (args, kf) \<Rightarrow> customer_command kf (withdraw_body s args source now) st) = (r, st')"
  moreover obtain args kf where "y = (args, kf)" by (rule prod.exhaust)
  ultimately have cmd: "customer_command kf (withdraw_body s args source now) st = (r, st')" by simp
  obtain w where w: "withdraw_loop (from_source s (fst args)) (snd args) now (cu_candidates st) (start_withdrawal st) = Return w"
      "same_frame st (wd_state w)"
      "\<And>i. dict_get (cu_candidates (wd_state w)) i = map_option (withdrawn (from_source s (fst args)) now) (dict_get (cu_candidates st) i)"
    using withdraw_loop_all [OF ok, of "from_source s (fst args)" "scope_tenant s"] by (metis from_source_def)
  have body: "accounted_for log (snd (withdraw_body s args source now st))"
    using acc accounted_withdraw_loop [OF acc w(2,3)] by (cases source) (simp_all add: withdraw_body_def w(1) case_prod_beta)
  show "accounted_for (log @ [(op, r)]) st'"
    by (rule command_accounted [OF acc _ _ cmd]) (use body accounted_mono in \<open>force+\<close>)
qed

lemma step_accounted:
  assumes inj: "inj ids" and ok: "customer_ok ids st" and acc: "accounted_for log st" and valid: "valid_call op"
    and step: "customer_step sha ids op st = (r, st')"
  shows "accounted_for (log @ [(op, r)]) st'"
proof (cases op)
  case (AliasOp s product subject entity expected key now)
  then have step': "bind_entity_alias sha s product subject entity expected key now st = (r, st')" using step by simp
  show ?thesis
  proof (rule checked_accounted [OF acc step' [unfolded bind_entity_alias_def]])
    fix y
    assume "(case y of (args, kf) \<Rightarrow> customer_command kf (alias_body s args now) st) = (r, st')"
    moreover obtain args kf where "y = (args, kf)" by (rule prod.exhaust)
    ultimately have cmd: "customer_command kf (alias_body s args now) st = (r, st')" by simp
    show "accounted_for (log @ [(op, r)]) st'"
    proof (rule command_accounted [OF acc _ _ cmd])
      fix e st1
      assume "alias_body s args now st = (Raise e, st1)"
      then show "accounted_for log st1" using alias_accounted [OF acc, of s args now] by simp
    next
      fix r st1
      assume "alias_body s args now st = (Return r, st1)"
      then show "accounted_for (log @ [(op, Return r)]) st1" using alias_accounted [OF acc, of s args now] accounted_mono by simp
    qed
  qed
next
  case (ProposeOp s i key source now)
  then have "owns_claim s c" if "source = Return c" for c
    using valid that directory.answered_own by (fastforce simp: valid_call_def)
  then show ?thesis using propose_step_accounted [OF inj ok acc] step ProposeOp by simp
next
  case (CurateOp s i action reason expected key now)
  then show ?thesis using curate_step_accounted [OF ok acc] step by simp
next
  case (WithdrawOp s i reason key source now)
  then show ?thesis using withdraw_step_accounted [OF ok acc] step by simp
next
  case (PolicyOp s inp key clock)
  then show ?thesis using configure_accounted [OF ok acc, of op s] step by simp
next
  case (DisablePublishingOp s expected key w clock)
  then show ?thesis using configure_accounted [OF ok acc, of op s] step by (simp add: disable_publishing_def Let_def)
next
  case (DisableConsumptionOp s expected key clock)
  then show ?thesis using configure_accounted [OF ok acc, of op s] step by (simp add: disable_consumption_def Let_def)
qed

lemma reach_accounted:
  assumes "inj ids" "customer_reach sha ids log st"
  shows "accounted_for log st"
  using assms(2)
proof induction
  case (reach_call log st op r st')
  then show ?case using step_accounted [OF assms(1) reach_ok [OF assms(1)]] by blast
qed (simp add: accounted_for_def empty_customer_def)

section \<open>Reading\<close>

lemma shared_by_id_Return:
  assumes "customer_ok ids st" "set is \<subseteq> set (entity_claims st k)"
  shows "shared_by_id (cu_shared_claims st) is = Return (map (\<lambda>i. the (dict_get (cu_shared_claims st) i)) is)"
  using assms(2)
proof (induction "is")
  case (Cons i js)
  then obtain sh where "dict_get (cu_shared_claims st) i = Some sh" using customer_entities [OF assms(1), of i k] by auto
  then show ?case using Cons by simp
qed simp

text \<open>A read is a matter of the reader's policy and the view of the entity alone.\<close>

lemma read_shared_view:
  assumes "customer_ok ids st"
  shows "read_shared s entity st =
    result_bind (memory_require s SHARED_READ) (\<lambda>_.
    result_bind (memory_text entity ''entity_id'') (\<lambda>entity.
    let pol = current_policy st (scope_tenant s) (scope_product s) in
    if \<not> sg_consume_enabled pol then memory_error POLICY_REFUSED ''Customer360 consumption is disabled'' []
    else Return (sort_key (\<lambda>sh. (sh_created_at sh, sh_claim_id sh))
      (filter (readable pol s) (entity_view st (scope_tenant s, entity))))))"
proof -
  have "filter (readable pol s) (map (\<lambda>i. the (dict_get (cu_shared_claims st) i)) (entity_claims st k)) =
      filter (readable pol s) (entity_view st k)" for pol k
    by (auto simp: entity_view_def readable_def intro!: filter_cong)
  then have "result_bind (shared_by_id (cu_shared_claims st) (entity_claims st k)) (\<lambda>claims. Return (f (filter (readable pol s) claims))) =
      Return (f (filter (readable pol s) (entity_view st k)))" for pol k and f :: "SharedClaim list \<Rightarrow> SharedClaim list"
    by (simp add: shared_by_id_Return [OF assms subset_refl])
  then show ?thesis unfolding read_shared_def Let_def by presburger
qed

lemma view_member:
  assumes ok: "customer_ok ids st" and v: "v \<in> set (entity_view st k)"
  obtains i c where "dict_get (cu_shared_by_candidate st) i = Some (sh_claim_id v)" "dict_get (cu_candidates st) i = Some c"
    "agrees v c" "sc_status c = CAND_ACCEPTED" "entity_of v = k" "dict_get (cu_shared_claims st) (sh_claim_id v) = Some v"
proof -
  obtain sid where sid: "sid \<in> set (entity_claims st k)" "v = the (dict_get (cu_shared_claims st) sid)" "sh_status v = SHARED_SELECTED"
    using v by (auto simp: entity_view_def)
  then have got: "dict_get (cu_shared_claims st) sid = Some v" "entity_of v = k" using customer_entities [OF ok, of sid k] by auto
  then have id: "sh_claim_id v = sid" using customer_shared_id [OF ok] by blast
  obtain i where i: "dict_get (cu_shared_by_candidate st) i = Some sid" using customer_has_candidate [OF ok got(1)] by blast
  from customer_linked [OF ok i] got(1) sid(3) obtain c where
    "dict_get (cu_candidates st) i = Some c" "agrees v c" "sc_status c = CAND_ACCEPTED"
    by (auto simp: linked_ok_def)
  then show thesis using that i got id by blast
qed

end
