(* ===== verification/Refinement.thy ===== *)
theory Refinement
  imports Prelude
begin

text \<open>
  Sequences of calls on a stateful component, and the contract of a component that implements a more abstract one:
  a relation between the two states that every call keeps, with equal outcomes.
\<close>

text \<open>The outcome of every call of a sequence, and the state it ends in.\<close>

fun run_ops :: "('o \<Rightarrow> 's \<Rightarrow> 'r \<times> 's) \<Rightarrow> 'o list \<Rightarrow> 's \<Rightarrow> 'r list \<times> 's" where
  "run_ops step [] s = ([], s)"
| "run_ops step (op # ops) s =
     (let (r, s') = step op s; (rs, s'') = run_ops step ops s' in (r # rs, s''))"

locale simulation =
  fixes concrete :: "'o \<Rightarrow> 's \<Rightarrow> 'r \<times> 's" and abstract :: "'o \<Rightarrow> 'a \<Rightarrow> 'r \<times> 'a" and R :: "'s \<Rightarrow> 'a \<Rightarrow> bool"
  assumes step: "R s a \<Longrightarrow> rel_prod (=) R (concrete op s) (abstract op a)"
begin

lemma run: "R s a \<Longrightarrow> rel_prod (=) R (run_ops concrete ops s) (run_ops abstract ops a)"
proof (induction ops arbitrary: s a)
  case (Cons op ops)
  obtain r s' where f: "concrete op s = (r, s')" by fastforce
  obtain r' a' where g: "abstract op a = (r', a')" by fastforce
  have "r' = r" "R s' a'" using step [OF Cons.prems, of op] by (auto simp: f g)
  then show ?case using Cons.IH [of s' a'] by (auto simp: f g split: prod.splits)
qed simp

lemma same_outcomes: "R s a \<Longrightarrow> fst (run_ops concrete ops s) = fst (run_ops abstract ops a)"
  using run by (simp add: rel_prod_sel)

lemma related_after: "R s a \<Longrightarrow> R (snd (run_ops concrete ops s)) (snd (run_ops abstract ops a))"
  using run by (simp add: rel_prod_sel)

end

end
