(* ===== verification/Memory_Laws.thy ===== *)
theory Memory_Laws
  imports Customer360_Sharing Refinement
begin

text \<open>
  Sequences of calls on the two memory providers: what a product sees of its own claims, answers to repeated
  commands, and what a withdrawal leaves to read.
\<close>

section \<open>Repeated commands\<close>

text \<open>
  A provider whose every operation is an idempotent command: \<open>command\<close> gives, for an operation in a state, the key with the
  fingerprint and the body, or the error of the argument checks. Bodies leave the records alone.
\<close>

locale command_provider =
  fixes step :: "'o \<Rightarrow> 's \<Rightarrow> memory_result result \<times> 's"
    and command :: "'o \<Rightarrow> 's \<Rightarrow> ((idem_key \<times> string) \<times> ('s \<Rightarrow> memory_result result \<times> 's)) result"
    and records :: "'s \<Rightarrow> idem_records"
    and store :: "idem_records \<Rightarrow> 's \<Rightarrow> 's"
  assumes as_command: "step op st = checked_args (command op st) st (\<lambda>(kf, body). as_command records kf body store st)"
    and body_keeps: "command op st = Return (kf, body) \<Longrightarrow> records (snd (body st)) = records st"
    and stored: "records (store x st) = x"
begin

lemma step_command: "command op st = Return (kf, body) \<Longrightarrow> step op st = as_command records kf body store st"
  by (simp add: as_command)

lemma record_kept:
  assumes k: "dict_get (records st) k = Some x"
  shows "dict_get (records (snd (step op st))) k = Some x"
proof (cases "command op st")
  case (Inr y)
  obtain kf body where y: "y = (kf, body)" by (rule prod.exhaust)
  obtain r st' where b: "body st = (r, st')" by (rule prod.exhaust)
  have same: "records st' = records st" using body_keeps [of op st kf body] Inr y b by simp
  have step: "step op st = as_command records kf body store st" using step_command Inr y by simp
  show ?thesis
  proof (cases "dict_get (records st) (fst kf)")
    case None
    then show ?thesis using k same by (cases r) (auto simp: step as_command_def memory_replay_def memory_remember_def b stored)
  next
    case (Some v)
    then show ?thesis using k by (cases v) (simp add: step as_command_def memory_replay_def)
  qed
qed (simp add: as_command k)

lemma record_kept_run: "dict_get (records st) k = Some x \<Longrightarrow> dict_get (records (snd (run_ops step ops st))) k = Some x"
proof (induction ops arbitrary: st)
  case (Cons op ops)
  from Cons.IH [OF record_kept [OF Cons.prems, of op]] show ?case by (simp add: case_prod_beta Let_def)
qed simp

lemma record_written:
  assumes "command op st = Return (kf, body)" "step op st = (Return r, st')"
  shows "dict_get (records st') (fst kf) = Some (snd kf, r)"
  using assms(2) body_keeps [OF assms(1)] unfolding step_command [OF assms(1)]
  by (auto simp: as_command_def memory_replay_def memory_remember_def stored
      split: option.splits sum.splits prod.splits if_splits)

text \<open>
  When an operation has returned, one with the same key and fingerprint is answered the same, whatever happened since, and leaves
  the state as it is.
\<close>

lemma replayed:
  assumes first: "step op st = (Return r, st')" and c: "command op st = Return (kf, body)"
    and again: "command op' (snd (run_ops step ops st')) = Return (kf, body')"
  shows "step op' (snd (run_ops step ops st')) = (Return r, snd (run_ops step ops st'))"
proof -
  have "dict_get (records (snd (run_ops step ops st'))) (fst kf) = Some (snd kf, r)"
    by (rule record_kept_run [OF record_written [OF c first]])
  then show ?thesis unfolding step_command [OF again] by (simp add: as_command_def memory_replay_def)
qed

text \<open>A key that was used for one command is refused for another.\<close>

lemma reuse_refused:
  assumes first: "step op st = (Return r, st')" and c: "command op st = Return (kf, body)"
    and other: "command op' (snd (run_ops step ops st')) = Return ((fst kf, fp), body')" and differs: "fp \<noteq> snd kf"
  shows "step op' (snd (run_ops step ops st')) =
    (memory_error IDEMPOTENCY_CONFLICT ''an idempotency key was reused with a different command''
       [(''operation'', [fst (snd (snd (fst kf)))])], snd (run_ops step ops st'))"
proof -
  have "dict_get (records (snd (run_ops step ops st'))) (fst kf) = Some (snd kf, r)"
    by (rule record_kept_run [OF record_written [OF c first]])
  then show ?thesis
    unfolding step_command [OF other] using differs by (simp add: as_command_def memory_replay_def)
qed

end

definition with_body ::
    "('a \<times> idem_key \<times> string) result \<Rightarrow> ('a \<Rightarrow> 's \<Rightarrow> memory_result result \<times> 's) \<Rightarrow>
     ((idem_key \<times> string) \<times> ('s \<Rightarrow> memory_result result \<times> 's)) result" where
  "with_body r body = result_bind r (\<lambda>(args, kf). Return (kf, body args))"

lemma with_body_checked:
  "checked_args (with_body r body) st (\<lambda>(kf, b). as_command records kf b store st) =
   checked_args r st (\<lambda>(args, kf). as_command records kf (body args) store st)"
  by (cases r) (auto simp: with_body_def)

lemma with_body_Return: "with_body r body = Return (kf, b) \<Longrightarrow> \<exists>args. r = Return (args, kf) \<and> b = body args"
  by (cases r) (auto simp: with_body_def)

fun profile_body ::
    "(string \<Rightarrow> string) \<Rightarrow> (nat \<Rightarrow> string) \<Rightarrow> profile_op \<Rightarrow> ProfileStore \<Rightarrow>
     ((idem_key \<times> string) \<times> (ProfileStore \<Rightarrow> memory_result result \<times> ProfileStore)) result" where
  "profile_body sha ids (AssertOp s subject predicate v source_ref key now) st =
     with_body (assert_args sha s subject predicate v source_ref key) (\<lambda>args. assert_body ids s args now)"
| "profile_body sha ids (RetractOp s claim_id reason key now) st =
     with_body (retract_args sha s claim_id reason key) (\<lambda>args. retract_body s args now)"

lemma assert_body_records: "pf_idempotency (snd (assert_body ids s args now st)) = pf_idempotency st"
  by (cases args; cases "SpaceRef_private s") (simp_all add: assert_body_def store_claim_def Let_def)

lemma retract_body_records: "pf_idempotency (snd (retract_body s args now st)) = pf_idempotency st"
  by (cases "find_claim s (fst args) st") (simp_all add: retract_body_def Let_def)

interpretation private_store: command_provider "profile_step sha ids" "profile_body sha ids" pf_idempotency profile_remember for sha ids
proof unfold_locales
  fix op st
  show "profile_step sha ids op st =
      checked_args (profile_body sha ids op st) st (\<lambda>(kf, body). as_command pf_idempotency kf body profile_remember st)"
    by (cases op) (simp_all only: profile_step.simps profile_body.simps with_body_checked assert_claim_def retract_claim_def)
next
  fix op st kf body
  assume "profile_body sha ids op st = Return (kf, body)"
  then show "pf_idempotency (snd (body st)) = pf_idempotency st"
    by (cases op) (auto dest!: with_body_Return simp: assert_body_records retract_body_records)
qed (simp add: profile_remember_def)

fun customer_body ::
    "(string \<Rightarrow> string) \<Rightarrow> (nat \<Rightarrow> string) \<Rightarrow> customer_op \<Rightarrow> Customer360 \<Rightarrow>
     ((idem_key \<times> string) \<times> (Customer360 \<Rightarrow> memory_result result \<times> Customer360)) result" where
  "customer_body sha ids (AliasOp s product subject entity expected key now) st =
     with_body (alias_args sha s product subject entity expected key) (\<lambda>args. alias_body s args now)"
| "customer_body sha ids (PolicyOp s inp key clock) st = with_body (policy_args sha s inp key) (\<lambda>args. policy_body s args clock)"
| "customer_body sha ids (DisablePublishingOp s expected key w clock) st =
     with_body (policy_args sha s
       (policy_again (get_policy s st) False (sg_consume_enabled (get_policy s st)) expected w) key) (\<lambda>args. policy_body s args clock)"
| "customer_body sha ids (DisableConsumptionOp s expected key clock) st =
     with_body (policy_args sha s
       (policy_again (get_policy s st) (sg_publish_enabled (get_policy s st)) False expected False) key) (\<lambda>args. policy_body s args clock)"
| "customer_body sha ids (ProposeOp s claim_id key source now) st =
     with_body (propose_args sha s claim_id key) (\<lambda>_. propose_commit ids s source now)"
| "customer_body sha ids (CurateOp s i action reason expected key now) st =
     with_body (curate_args sha s i action reason expected key) (\<lambda>args. curate_body ids s args now)"
| "customer_body sha ids (WithdrawOp s claim_id reason key source now) st =
     with_body (withdraw_args sha s claim_id reason key) (\<lambda>args. withdraw_body s args source now)"

lemma bump_records: "cu_idempotency (snd (bump_entities t es st)) = cu_idempotency st"
  by (induction t es st rule: bump_entities.induct) (simp_all add: Let_def case_prod_beta)

lemma withdraw_loop_records:
  "withdraw_loop hit reason now ics w = Return w' \<Longrightarrow> cu_idempotency (wd_state w') = cu_idempotency (wd_state w)"
proof (induction hit reason now ics w rule: withdraw_loop.induct)
  case (2 hit reason now ic rest w)
  show ?case
  proof (cases "withdraw_candidate reason now ic w")
    case (Inr v)
    then have "cu_idempotency (wd_state v) = cu_idempotency (wd_state w)"
      by (auto simp: withdraw_candidate_def retract_shared_def Let_def split: option.splits if_splits)
    then show ?thesis using 2 Inr by (auto split: if_splits)
  qed (use 2 in \<open>auto split: if_splits\<close>)
qed simp

lemma policy_records: "cu_idempotency (snd (policy_body s args clock st)) = cu_idempotency st"
  by (cases args) (auto simp: policy_body_def withdraw_product_def invalidate_pending_def Let_def bump_records
      dest!: withdraw_loop_records split: sum.split prod.split)

lemma withdraw_records: "cu_idempotency (snd (withdraw_body s args source now st)) = cu_idempotency st"
proof (cases "withdraw_loop (from_source s (fst args)) (snd args) now (cu_candidates st) (start_withdrawal st)")
  case (Inr w)
  then show ?thesis
    using withdraw_loop_records [OF Inr] by (cases source) (simp_all add: withdraw_body_def case_prod_beta bump_records)
qed (cases source; simp add: withdraw_body_def)

lemma curate_records: "cu_idempotency (snd (curate_body ids s args now st)) = cu_idempotency st"
proof -
  have rec: "cu_idempotency (snd (record_decision ids s args c shared now st')) = cu_idempotency st'" for c shared st'
    by (subst record_decision_state) simp
  have "cu_idempotency (snd (curate_commit ids s args c now st)) = cu_idempotency st" for c
    by (cases "SpaceRef_customer360 (sc_tenant_id c)") (simp_all add: curate_commit_def Let_def rec store_shared_def)
  then show ?thesis by (cases args) (simp add: curate_body_def split: option.split)
qed

lemma propose_records: "cu_idempotency (snd (propose_commit ids s source now st)) = cu_idempotency st"
  by (simp add: propose_commit_def propose_body_def Let_def split: sum.split option.split)

lemma alias_records: "cu_idempotency (snd (alias_body s args now st)) = cu_idempotency st"
  by (simp add: alias_body_def Let_def split: prod.split)

lemmas body_records = policy_records withdraw_records curate_records propose_records alias_records

interpretation shared_store: command_provider "customer_step sha ids" "customer_body sha ids" cu_idempotency customer_remember for sha ids
proof unfold_locales
  fix op st
  show "customer_step sha ids op st =
      checked_args (customer_body sha ids op st) st (\<lambda>(kf, body). as_command cu_idempotency kf body customer_remember st)"
    by (cases op) (simp_all only: customer_step.simps customer_body.simps with_body_checked bind_entity_alias_def configure_policy_def
        disable_publishing_def disable_consumption_def propose_share_def curate_def withdraw_source_def Let_def)
next
  fix op st kf body
  assume "customer_body sha ids op st = Return (kf, body)"
  then show "cu_idempotency (snd (body st)) = cu_idempotency st"
    by (cases op) (auto dest!: with_body_Return simp: body_records)
qed (simp add: customer_remember_def)

text \<open>
  The same command given again: the arguments and the key are those of the first call, what the provider reads from its
  surroundings, the clock and the answer of the private provider, may be different. \<open>disable_publishing\<close> and \<open>disable_consumption\<close> are not
  commands of their own: they read the arguments of \<open>configure_policy\<close> from the policy of the moment.
\<close>

fun profile_retry :: "profile_op \<Rightarrow> profile_op \<Rightarrow> bool" where
  "profile_retry (AssertOp s subject predicate v source_ref key now) op \<longleftrightarrow>
     (\<exists>now'. op = AssertOp s subject predicate v source_ref key now')"
| "profile_retry (RetractOp s claim_id reason key now) op \<longleftrightarrow> (\<exists>now'. op = RetractOp s claim_id reason key now')"

fun customer_retry :: "customer_op \<Rightarrow> customer_op \<Rightarrow> bool" where
  "customer_retry (AliasOp s product subject entity expected key now) op \<longleftrightarrow>
     (\<exists>now'. op = AliasOp s product subject entity expected key now')"
| "customer_retry (PolicyOp s inp key clock) op \<longleftrightarrow> (\<exists>clock'. op = PolicyOp s inp key clock')"
| "customer_retry (ProposeOp s claim_id key source now) op \<longleftrightarrow> (\<exists>source' now'. op = ProposeOp s claim_id key source' now')"
| "customer_retry (CurateOp s i action reason expected key now) op \<longleftrightarrow>
     (\<exists>now'. op = CurateOp s i action reason expected key now')"
| "customer_retry (WithdrawOp s claim_id reason key source now) op \<longleftrightarrow>
     (\<exists>source' now'. op = WithdrawOp s claim_id reason key source' now')"
| "customer_retry (DisablePublishingOp s expected key w clock) op \<longleftrightarrow> False"
| "customer_retry (DisableConsumptionOp s expected key clock) op \<longleftrightarrow> False"

lemma with_body_again: "with_body r body = Return (kf, b) \<Longrightarrow> \<exists>b'. with_body r body' = Return (kf, b')"
  by (cases r) (auto simp: with_body_def)

text \<open>Neither the key nor the fingerprint of a command depends on the surroundings or the state.\<close>

lemma profile_retry_command:
  "profile_retry op op' \<Longrightarrow> profile_body sha ids op st = Return (kf, body) \<Longrightarrow> \<exists>body'. profile_body sha ids op' st' = Return (kf, body')"
  by (cases op) (auto intro: with_body_again)

lemma customer_retry_command:
  "customer_retry op op' \<Longrightarrow> customer_body sha ids op st = Return (kf, body) \<Longrightarrow> \<exists>body'. customer_body sha ids op' st' = Return (kf, body')"
  by (cases op) (auto intro: with_body_again)

lemma returned_command:
  assumes "checked_args r st f = (Return x, st')"
  shows "\<exists>y. r = Return y"
  using assms by (cases r) auto

section \<open>Sequences of calls\<close>

lemma profile_run_ok:
  "inj ids \<Longrightarrow> profile_ok ids st \<Longrightarrow> profile_ok ids (snd (run_ops (profile_step sha ids) ops st))"
proof (induction ops arbitrary: st)
  case (Cons op ops)
  then show ?case using profile_step_effect [OF Cons.prems] by (simp add: case_prod_beta Let_def)
qed simp

lemma profile_run_foreign:
  assumes "inj ids" "profile_ok ids st" "list_all (\<lambda>op. foreign s (profile_scope op)) ops"
  shows "sees_same s st (snd (run_ops (profile_step sha ids) ops st))"
  using assms(2,3)
proof (induction ops arbitrary: st)
  case (Cons op ops)
  from profile_step_effect [OF assms(1) Cons.prems(1), of sha op s] Cons.prems(2)
  have "profile_ok ids (snd (profile_step sha ids op st))" "sees_same s st (snd (profile_step sha ids op st))" by auto
  then show ?case using Cons.IH Cons.prems(2) sees_same_trans by (auto simp: case_prod_beta Let_def)
qed simp

lemma run_ops_append: "snd (run_ops step (xs @ ys) s) = snd (run_ops step ys (snd (run_ops step xs s)))"
  by (induction xs arbitrary: s) (simp_all add: case_prod_beta Let_def)

lemma valid_scope: "valid_call op \<Longrightarrow> py_strip (scope_tenant (customer_scope op)) \<noteq> []"
  using valid_tenant by (simp add: valid_call_def)

lemma customer_run_good:
  assumes "inj ids" "customer_ok ids st" "list_all valid_call ops"
  shows "good_step ids st (snd (run_ops (customer_step sha ids) ops st))"
  using assms(2,3)
proof (induction ops arbitrary: st)
  case (Cons op ops)
  have one: "good_step ids st (snd (customer_step sha ids op st))"
    using step_good [OF assms(1) Cons.prems(1)] valid_scope Cons.prems(2) by simp
  then have "customer_ok ids (snd (customer_step sha ids op st))" by (simp add: good_step_def)
  from good_step_trans [OF one Cons.IH [OF this]] Cons.prems(2) show ?case by (simp add: case_prod_beta Let_def)
qed (simp add: good_step_refl)

lemma reach_run:
  assumes "customer_reach sha ids log st" "list_all valid_call ops"
  shows "customer_reach sha ids (log @ zip ops (fst (run_ops (customer_step sha ids) ops st)))
    (snd (run_ops (customer_step sha ids) ops st))"
  using assms
proof (induction ops arbitrary: log st)
  case (Cons op ops)
  obtain r st' where step: "customer_step sha ids op st = (r, st')" by (rule prod.exhaust)
  have "customer_reach sha ids (log @ [(op, r)]) st'"
    by (rule reach_call [OF Cons.prems(1) _ step]) (use Cons.prems(2) in simp)
  from Cons.IH [OF this] Cons.prems(2) show ?case by (simp add: step case_prod_beta Let_def)
qed simp

section \<open>What a withdrawal leaves\<close>

text \<open>No selected claim of the tenant goes back to a candidate that was hit.\<close>

lemma read_member:
  assumes ok: "customer_ok ids st" and read: "read_shared s entity st = Return claims" and v: "v \<in> set claims"
  obtains e where "memory_text entity ''entity_id'' = Return e" "SHARED_READ \<in> rs_roles s"
    "v \<in> set (entity_view st (scope_tenant s, e))" "readable (current_policy st (scope_tenant s) (scope_product s)) s v"
proof -
  obtain e where e: "memory_text entity ''entity_id'' = Return e"
    using read by (cases "memory_text entity ''entity_id''") (auto simp: read_shared_def memory_require_def split: if_splits)
  have "SHARED_READ \<in> rs_roles s"
    using read by (auto simp: read_shared_def memory_require_def split: if_splits)
  moreover have "v \<in> set (filter (readable (current_policy st (scope_tenant s) (scope_product s)) s) (entity_view st (scope_tenant s, e)))"
    using read v e by (auto simp: read_shared_view [OF ok] memory_require_def Let_def split: if_splits)
  ultimately show thesis using that e by simp
qed

lemma withdrawn_invisible:
  assumes ok: "customer_ok ids st" and loop: "\<And>i. dict_get (cu_candidates st) i = map_option (withdrawn hit now) (dict_get cands i)"
    and hits: "\<And>c x y. hit (c\<lparr>sc_status := x, sc_decided_at := y\<rparr>) = hit c"
    and v: "v \<in> set (entity_view st k)"
  obtains c where "agrees v c" "sc_tenant_id c = fst k" "\<not> hit c"
proof -
  from view_member [OF ok v] obtain i c where c: "dict_get (cu_candidates st) i = Some c" "agrees v c" "sc_status c = CAND_ACCEPTED" "entity_of v = k"
    by metis
  then obtain c' where "c = withdrawn hit now c'" using loop [of i] by auto
  then have "\<not> hit c" using c(3) hits by (auto simp: withdrawn_def split: if_splits)
  moreover have "sc_tenant_id c = fst k" using c(2,4) by (auto simp: agrees_def entity_of_def)
  ultimately show thesis using that c(2) by blast
qed

end
