(* ===== verification/Memory_Properties.thy ===== *)
theory Memory_Properties
  imports Memory_Laws
begin

text \<open>
  The properties of the memory providers, over arbitrary sequences of calls.
\<close>

section \<open>An example\<close>

text \<open>
  The product \<open>a\<close> publishes the plan of a customer to \<open>b\<close>, which consumes it; a curator of \<open>a\<close> accepts the claim.
\<close>

definition member_scope :: "string \<Rightarrow> RequestScope" where
  "member_scope p = \<lparr>rs_path = product_path (Some ''t'') (Some p),
     rs_principal_id = ''user'', rs_channel_id = ''cli'',
     rs_roles = {PRIVATE_READ, PRIVATE_WRITE, SHARE_PROPOSE, SHARED_READ, SHARING_ADMIN, ENTITY_ADMIN, CURATOR},
     rs_purpose = ''demo'', rs_request_id = ''r'', rs_correlation_id = ''c'', rs_session_owner_id = None\<rparr>"

definition member_id :: "nat \<Rightarrow> string" where
  "member_id n = replicate (Suc n) CHR ''i''"

definition constant_sha :: "string \<Rightarrow> string" where
  "constant_sha text = ''digest''"

definition profile_demo_ops :: "profile_op list" where
  "profile_demo_ops = [AssertOp (member_scope ''a'') ''u'' ''plan'' (Some (JStr ''gold'')) ''crm'' ''k1'' 1]"

definition profile_demo :: ProfileStore where
  "profile_demo = snd (run_ops (profile_step constant_sha member_id) profile_demo_ops empty_profile)"

definition directory_demo :: "nat ProfileDirectory \<times> (nat \<Rightarrow> ProfileStore)" where
  "directory_demo = ([((''t'', ''a''), 0)], \<lambda>_. profile_demo)"

definition policy_demo :: "(string \<times> string list) list option \<Rightarrow> (string \<times> string list) list option \<Rightarrow> int \<Rightarrow> policy_input" where
  "policy_demo publish consume revision =
     \<lparr>pi_publish_enabled = publish \<noteq> None, pi_consume_enabled = consume \<noteq> None,
      pi_publish_predicates = (if publish = None then [] else [''plan'']), pi_consume_predicates = (if consume = None then [] else [''plan'']),
      pi_publish_to_products = (case publish of None \<Rightarrow> [] | Some rules \<Rightarrow> map fst rules),
      pi_consume_from_products = (case consume of None \<Rightarrow> [] | Some rules \<Rightarrow> map fst rules),
      pi_expected_revision = revision, pi_withdraw_existing = False, pi_publish_rules = publish, pi_consume_rules = consume\<rparr>"

definition sharing_demo_ops :: "customer_op list" where
  "sharing_demo_ops =
     [AliasOp (member_scope ''a'') ''a'' ''u'' ''e'' 0 ''k1'' 2,
      PolicyOp (member_scope ''a'') (policy_demo (Some [(''b'', [''plan''])]) None 0) ''k2'' int,
      PolicyOp (member_scope ''b'') (policy_demo None (Some [(''a'', [''plan''])]) 0) ''k3'' int,
      ProposeOp (member_scope ''a'') ''i'' ''k4'' (resolved_claim directory_demo (member_scope ''a'') ''i'') 5,
      CurateOp (member_scope ''a'') ''i'' ''accept'' ''checked'' 0 ''k5'' 6]"

definition sharing_demo :: Customer360 where
  "sharing_demo = snd (run_ops (customer_step constant_sha member_id) sharing_demo_ops empty_customer)"

lemma member_id_inj: "inj member_id"
  by (rule injI) (metis member_id_def length_replicate nat.inject)

lemma sharing_demo_valid: "list_all valid_call sharing_demo_ops"
proof -
  have "valid_request (member_scope p)" if "p \<in> {''a'', ''b''}" for p
    using that by (auto; code_simp)
  then show ?thesis by (auto simp del: split_paired_Ex simp: sharing_demo_ops_def valid_call_def)
qed

definition sharing_demo_log :: history where
  "sharing_demo_log = zip sharing_demo_ops (fst (run_ops (customer_step constant_sha member_id) sharing_demo_ops empty_customer))"

lemma sharing_demo_reach: "customer_reach constant_sha member_id sharing_demo_log sharing_demo"
  using reach_run [OF reach_start sharing_demo_valid, of constant_sha member_id] by (simp add: sharing_demo_def sharing_demo_log_def)

definition sharing_demo_claim :: SharedClaim where
  "sharing_demo_claim = \<lparr>sh_claim_id = ''ii'',
     sh_space = \<lparr>sr_tenant_id = ''t'', sr_kind = CUSTOMER360_SHARED, sr_owner_product_id = None\<rparr>, sh_entity_id = ''e'',
     sh_predicate = ''plan'', sh_value = JStr ''gold'', sh_audience_product_ids = {''b''},
     sh_provenance = [\<lparr>pv_source_product_id = ''a'', pv_source_claim_id = ''i'', pv_source_claim_version = 1, pv_source_ref = ''crm'',
       pv_candidate_id = ''i'', pv_policy_revision = 1\<rparr>],
     sh_status = SHARED_SELECTED, sh_created_at = 6, sh_retracted_at = None, sh_retraction_reason = []\<rparr>"

lemma sharing_demo_read: "read_shared (member_scope ''b'') ''e'' sharing_demo = Return [sharing_demo_claim]"
  by code_simp

lemma pair_of_fst: "fst x = a \<Longrightarrow> x = (a, snd x)"
  by (cases x) simp

section \<open>Private claims\<close>

text \<open>
  C24. Private claims are isolated. Whatever calls other products or other tenants make on a private store, at any point of its
  history, what a product reads of its own claims, by id or by subject, stays exactly the same; a claim of
  another product is never answered.
\<close>

theorem private_claims_isolated:
  assumes inj: "inj ids" and others: "list_all (\<lambda>op. foreign s (profile_scope op)) ops"
    and st: "st = snd (run_ops (profile_step sha ids) before empty_profile)"
    and st': "st' = snd (run_ops (profile_step sha ids) ops st)"
  shows "get_claim s i st' = get_claim s i st \<and> list_claims s subject b st' = list_claims s subject b st \<and>
    (\<forall>c. get_claim s i st' = Return c \<longrightarrow> owns_claim s c)"
proof -
  have ok: "profile_ok ids st" unfolding st by (rule profile_run_ok [OF inj profile_ok_empty])
  have same: "sees_same s st st'" unfolding st' by (rule profile_run_foreign [OF inj ok others])
  have "get_claim s i st' = get_claim s i st" using sees_same_find [OF same] by (simp add: get_claim_def)
  then show ?thesis using sees_same_list [OF ok same] provider.own by blast
qed

theorem private_claims_isolated_witness:
  "fst (run_ops (profile_step constant_sha member_id) [RetractOp (member_scope ''b'') ''i'' ''mine'' ''k9'' 3] profile_demo) =
     [memory_error NOT_FOUND ''private claim not found'' []] \<and>
   list_claims (member_scope ''a'') ''u'' False
     (snd (run_ops (profile_step constant_sha member_id) [RetractOp (member_scope ''b'') ''i'' ''mine'' ''k9'' 3] profile_demo)) =
   list_claims (member_scope ''a'') ''u'' False profile_demo"
proof
  have "list_all (\<lambda>op. foreign (member_scope ''a'') (profile_scope op)) [RetractOp (member_scope ''b'') ''i'' ''mine'' ''k9'' 3]"
    by code_simp
  from private_claims_isolated [OF member_id_inj this profile_demo_def refl]
  show "list_claims (member_scope ''a'') ''u'' False
     (snd (run_ops (profile_step constant_sha member_id) [RetractOp (member_scope ''b'') ''i'' ''mine'' ''k9'' 3] profile_demo)) =
   list_claims (member_scope ''a'') ''u'' False profile_demo" by blast
qed code_simp

section \<open>Shared claims\<close>

text \<open>
  C23. A shared claim has its chain of authority. Whatever was called before, a claim that \<open>read_shared\<close> answers belongs to the tenant and
  the entity that were asked for, names the reader's product in its audience and is allowed by the reader's current policy; and the
  history holds, for its candidate, the producer's policy that set this audience, by a sharing administrator of the producing product,
  the proposal of the producer's own asserted claim with this predicate and value, and the acceptance by a curator of the tenant.
\<close>

theorem shared_claim_accounted:
  assumes inj: "inj ids" and reach: "customer_reach sha ids log st"
    and read: "read_shared s entity st = Return claims" and v: "v \<in> set claims"
  shows "SHARED_READ \<in> rs_roles s \<and> sr_tenant_id (sh_space v) = scope_tenant s \<and>
    memory_text entity ''entity_id'' = Return (sh_entity_id v) \<and> scope_product s \<in> sh_audience_product_ids v \<and>
    (\<exists>c. agrees v c \<and> authorised log c \<and> accepted log c \<and>
       can_consume_from (current_policy st (scope_tenant s) (scope_product s)) (sc_source_product_id c) (sc_predicate c))"
proof -
  have ok: "customer_ok ids st" by (rule reach_ok [OF inj reach])
  obtain e where e: "memory_text entity ''entity_id'' = Return e" "SHARED_READ \<in> rs_roles s"
      "v \<in> set (entity_view st (scope_tenant s, e))" "readable (current_policy st (scope_tenant s) (scope_product s)) s v"
    by (rule read_member [OF ok read v])
  obtain i c where c: "dict_get (cu_shared_by_candidate st) i = Some (sh_claim_id v)" "dict_get (cu_candidates st) i = Some c"
      "agrees v c" "entity_of v = (scope_tenant s, e)"
    using view_member [OF ok e(3)] by metis
  have "authorised log c" "accepted log c"
    using reach_accounted [OF inj reach] c(1,2) unfolding accounted_for_def by blast+
  moreover have "can_consume_from (current_policy st (scope_tenant s) (scope_product s)) (sc_source_product_id c) (sc_predicate c)"
    "scope_product s \<in> sh_audience_product_ids v"
    using e(4) c(3) by (simp_all add: readable_def agrees_def provenance_of_def)
  ultimately show ?thesis using e(1,2) c(3,4) by (auto simp: entity_of_def)
qed

theorem shared_claim_accounted_witness:
  "\<exists>c. agrees sharing_demo_claim c \<and> authorised sharing_demo_log c \<and> accepted sharing_demo_log c"
  using shared_claim_accounted [OF member_id_inj sharing_demo_reach sharing_demo_read, of sharing_demo_claim] by auto

text \<open>
  C25. A withdrawal takes effect at once. When \<open>withdraw_source\<close> is called under a key that was not used and returns, no reader
  of the tenant, for no entity and under no policy, is answered a claim that goes back to the withdrawn source.
\<close>

theorem withdrawn_not_visible:
  assumes inj: "inj ids" and reach: "customer_reach sha ids log st"
    and args: "withdraw_args sha s i reason key = Return ((claim_id, why), k, fp)" and fresh: "dict_get (cu_idempotency st) k = None"
    and step: "withdraw_source sha s i reason key source now st = (Return r, st')"
    and read: "read_shared reader entity st' = Return claims" and tenant: "scope_tenant reader = scope_tenant s"
  shows "list_all (\<lambda>v. list_all (\<lambda>pv. (pv_source_product_id pv, pv_source_claim_id pv) \<noteq> (scope_product s, claim_id)) (sh_provenance v)) claims"
proof -
  have ok: "customer_ok ids st" by (rule reach_ok [OF inj reach])
  let ?hit = "from_source s claim_id"
  obtain w where w: "withdraw_loop ?hit why now (cu_candidates st) (start_withdrawal st) = Return w" "customer_ok ids (wd_state w)"
      "\<And>i. dict_get (cu_candidates (wd_state w)) i = map_option (withdrawn ?hit now) (dict_get (cu_candidates st) i)"
    using withdraw_loop_all [OF ok, of ?hit "scope_tenant s"] by (metis from_source_def)
  let ?b = "snd (bump_entities (scope_tenant s) (sorted_list_of_set (wd_touched w)) (wd_state w))"
  obtain recs where st': "st' = customer_remember recs ?b"
    using step fresh w(1) by (cases source)
      (auto simp: withdraw_source_def args as_command_def memory_replay_def withdraw_body_def case_prod_beta split: prod.splits)
  obtain revs where b: "?b = (wd_state w)\<lparr>cu_entity_revisions := revs\<rparr>" using bump_entities_effect by blast
  have ok': "customer_ok ids st'" using w(2) by (simp add: st' b)
  have cands: "dict_get (cu_candidates st') i = map_option (withdrawn ?hit now) (dict_get (cu_candidates st) i)" for i
    using w(3) by (simp add: st' b customer_remember_def)
  have "list_all (\<lambda>pv. (pv_source_product_id pv, pv_source_claim_id pv) \<noteq> (scope_product s, claim_id)) (sh_provenance v)"
    if v: "v \<in> set claims" for v
  proof -
    obtain e where "v \<in> set (entity_view st' (scope_tenant reader, e))" using read_member [OF ok' read v] by metis
    from withdrawn_invisible [OF ok' cands _ this] obtain c where "agrees v c" "sc_tenant_id c = scope_tenant reader" "\<not> ?hit c"
      by (auto simp: from_source_def)
    then show ?thesis using tenant by (auto simp: agrees_def from_source_def provenance_of_def)
  qed
  then show ?thesis by (simp add: list_all_iff)
qed

theorem withdrawn_not_visible_witness:
  "let st = snd (withdraw_source constant_sha (member_scope ''a'') ''i'' ''left'' ''k6''
       (resolved_claim directory_demo (member_scope ''a'') ''i'') 7 sharing_demo) in
   read_shared (member_scope ''b'') ''e'' sharing_demo = Return [sharing_demo_claim] \<and>
   (\<exists>claims. read_shared (member_scope ''b'') ''e'' st = Return claims \<and> sharing_demo_claim \<notin> set claims)"
proof -
  let ?call = "withdraw_source constant_sha (member_scope ''a'') ''i'' ''left'' ''k6'' (resolved_claim directory_demo (member_scope ''a'') ''i'') 7 sharing_demo"
  have args: "withdraw_args constant_sha (member_scope ''a'') ''i'' ''left'' ''k6'' =
      Return ((''i'', ''left''), (''t'', ''a'', ''customer360.withdraw_source'', ''k6''), ''digest'')" by code_simp
  have fresh: "dict_get (cu_idempotency sharing_demo) (''t'', ''a'', ''customer360.withdraw_source'', ''k6'') = None" by code_simp
  have "\<not> isl (fst ?call)" by code_simp
  then obtain r where step: "?call = (Return r, snd ?call)" by (metis prod.collapse sum.collapse(2))
  have "\<not> isl (read_shared (member_scope ''b'') ''e'' (snd ?call))" by code_simp
  then obtain claims where read: "read_shared (member_scope ''b'') ''e'' (snd ?call) = Return claims" by (metis sum.collapse(2))
  have "scope_tenant (member_scope ''b'') = scope_tenant (member_scope ''a'')" by code_simp
  from withdrawn_not_visible [OF member_id_inj sharing_demo_reach args fresh step read this] have "sharing_demo_claim \<notin> set claims"
    by (auto simp: list_all_iff sharing_demo_claim_def member_scope_def scope_product_def rs_product_id_def)
  then show ?thesis using read sharing_demo_read by (auto simp: Let_def)
qed

text \<open>
  C26. Revisions detect every change. Over any calls, the revision of an entity never decreases; and as long as neither it nor the
  revision of the reader's policy has changed, \<open>read_shared\<close> answers the reader the same, so what was read under these
  two revisions may be kept.
\<close>

theorem read_stable_under_revisions:
  assumes inj: "inj ids" and reach: "customer_reach sha ids log st" and calls: "list_all valid_call ops"
    and st': "st' = snd (run_ops (customer_step sha ids) ops st)"
  shows "revision_of st k \<le> revision_of st' k \<and>
    (entity_revision s entity st' = entity_revision s entity st \<longrightarrow> sg_revision (get_policy s st') = sg_revision (get_policy s st) \<longrightarrow>
      read_shared s entity st' = read_shared s entity st)"
proof -
  have ok: "customer_ok ids st" by (rule reach_ok [OF inj reach])
  have good: "good_step ids st st'" unfolding st' by (rule customer_run_good [OF inj ok calls])
  then have ok': "customer_ok ids st'" and grows: "policy_grows st st'" "view_grows st st'" by (simp_all add: good_step_def grows_def)
  have mono: "revision_of st k \<le> revision_of st' k" using grows(2) unfolding view_grows_def by blast
  have "read_shared s entity st' = read_shared s entity st"
    if rev: "entity_revision s entity st' = entity_revision s entity st" and pol: "sg_revision (get_policy s st') = sg_revision (get_policy s st)"
  proof (cases "SHARED_READ \<in> rs_roles s \<and> (\<exists>e. memory_text entity ''entity_id'' = Return e)")
    case True
    have p: "current_policy st' (scope_tenant s) (scope_product s) = current_policy st (scope_tenant s) (scope_product s)"
      using grows(1) pol unfolding policy_grows_def get_policy_def by metis
    obtain e where e: "memory_text entity ''entity_id'' = Return e" and role: "SHARED_READ \<in> rs_roles s" using True by blast
    have "revision_of st' (scope_tenant s, e) = revision_of st (scope_tenant s, e)"
      using rev role e by (simp add: entity_revision_def memory_require_any_def)
    then have "entity_view st' (scope_tenant s, e) = entity_view st (scope_tenant s, e)"
      using grows(2) unfolding view_grows_def by metis
    then show ?thesis unfolding read_shared_view [OF ok] read_shared_view [OF ok'] using e p by (simp add: Let_def)
  next
    case False
    then show ?thesis by (cases "memory_text entity ''entity_id''") (auto simp: read_shared_def memory_require_def)
  qed
  then show ?thesis using mono by blast
qed

theorem read_stable_under_revisions_witness:
  "read_shared (member_scope ''b'') ''e'' (snd (run_ops (customer_step constant_sha member_id)
     [AliasOp (member_scope ''a'') ''a'' ''v'' ''e'' 0 ''k7'' 8] sharing_demo)) = Return [sharing_demo_claim]"
proof -
  let ?ops = "[AliasOp (member_scope ''a'') ''a'' ''v'' ''e'' 0 ''k7'' 8]"
  let ?st = "snd (run_ops (customer_step constant_sha member_id) ?ops sharing_demo)"
  have "valid_request (member_scope ''a'')" by code_simp
  then have "list_all valid_call ?ops" by (simp add: valid_call_def)
  from read_stable_under_revisions [OF member_id_inj sharing_demo_reach this refl]
  have "entity_revision (member_scope ''b'') ''e'' ?st = entity_revision (member_scope ''b'') ''e'' sharing_demo \<Longrightarrow>
      sg_revision (get_policy (member_scope ''b'') ?st) = sg_revision (get_policy (member_scope ''b'') sharing_demo) \<Longrightarrow>
      read_shared (member_scope ''b'') ''e'' ?st = read_shared (member_scope ''b'') ''e'' sharing_demo" by blast
  moreover have "entity_revision (member_scope ''b'') ''e'' ?st = entity_revision (member_scope ''b'') ''e'' sharing_demo" by code_simp
  moreover have "sg_revision (get_policy (member_scope ''b'') ?st) = sg_revision (get_policy (member_scope ''b'') sharing_demo)" by code_simp
  ultimately show ?thesis using sharing_demo_read by simp
qed

section \<open>Commands\<close>

text \<open>
  C27. Commands are idempotent. When a command of either provider that has returned is given again with its key and its arguments, after any
  other calls, at any time and whatever the private provider now says of the source claim, it returns the recorded answer and
  changes nothing. \<open>disable_publishing\<close> and \<open>disable_consumption\<close> are not covered: they read their arguments from the policy of the
  moment.
\<close>

theorem memory_command_replayed:
  "(\<forall>st' st'' ps. profile_step sha ids p st = (Return r, st') \<longrightarrow> profile_retry p p' \<longrightarrow>
      st'' = snd (run_ops (profile_step sha ids) ps st') \<longrightarrow> profile_step sha ids p' st'' = (Return r, st'')) \<and>
   (\<forall>cst' cst'' cs. customer_step sha ids c cst = (Return r, cst') \<longrightarrow> customer_retry c c' \<longrightarrow>
      cst'' = snd (run_ops (customer_step sha ids) cs cst') \<longrightarrow> customer_step sha ids c' cst'' = (Return r, cst''))"
proof (intro conjI allI impI)
  fix st' st'' ps
  assume first: "profile_step sha ids p st = (Return r, st')" and retry: "profile_retry p p'"
    and last: "st'' = snd (run_ops (profile_step sha ids) ps st')"
  obtain kf body where c: "profile_body sha ids p st = Return (kf, body)"
    using returned_command [OF first [unfolded private_store.as_command]] by (metis surj_pair)
  then show "profile_step sha ids p' st'' = (Return r, st'')"
    unfolding last using private_store.replayed [OF first] profile_retry_command [OF retry c] by blast
next
  fix cst' cst'' cs
  assume first: "customer_step sha ids c cst = (Return r, cst')" and retry: "customer_retry c c'"
    and last: "cst'' = snd (run_ops (customer_step sha ids) cs cst')"
  obtain kf body where b: "customer_body sha ids c cst = Return (kf, body)"
    using returned_command [OF first [unfolded shared_store.as_command]] by (metis surj_pair)
  then show "customer_step sha ids c' cst'' = (Return r, cst'')"
    unfolding last using shared_store.replayed [OF first] customer_retry_command [OF retry b] by blast
qed

theorem memory_command_replayed_witness:
  "let op = AliasOp (member_scope ''a'') ''a'' ''u'' ''e'' 0 ''k1'' 2;
       later = snd (run_ops (customer_step constant_sha member_id) [AliasOp (member_scope ''a'') ''a'' ''u'' ''f'' 1 ''k2'' 3]
         (snd (customer_step constant_sha member_id op empty_customer))) in
   \<exists>r. fst (customer_step constant_sha member_id op empty_customer) = Return r \<and>
     customer_step constant_sha member_id (AliasOp (member_scope ''a'') ''a'' ''u'' ''e'' 0 ''k1'' 4) later = (Return r, later)"
proof -
  let ?op = "AliasOp (member_scope ''a'') ''a'' ''u'' ''e'' 0 ''k1'' 2"
  let ?again = "AliasOp (member_scope ''a'') ''a'' ''u'' ''e'' 0 ''k1'' 4"
  let ?call = "customer_step constant_sha member_id ?op empty_customer"
  have "\<not> isl (fst ?call)" by code_simp
  then obtain r where r: "fst ?call = Return r" using sum.collapse(2) by metis
  then have step: "?call = (Return r, snd ?call)" by (rule pair_of_fst)
  let ?later = "snd (run_ops (customer_step constant_sha member_id) [AliasOp (member_scope ''a'') ''a'' ''u'' ''f'' 1 ''k2'' 3] (snd ?call))"
  have "customer_retry ?op ?again" by simp
  from memory_command_replayed [THEN conjunct2, rule_format, OF step this refl]
  have "customer_step constant_sha member_id ?again ?later = (Return r, ?later)" .
  with r show ?thesis unfolding Let_def by blast
qed

section \<open>The kill switch\<close>

text \<open>
  Two entries of \<open>publish_rules\<close> may name one product, spelled with and without surrounding blanks. \<open>configure_policy\<close> stores
  a rule for each; \<open>disable_publishing\<close> passes the rules on as a dict, in which the last one wins, together with the
  flattened predicates of all of them, and the comparison of the two refuses the call: publishing cannot be disabled.
\<close>

definition twice_named :: policy_input where
  "twice_named = (policy_demo (Some [(''b'', [''plan''])]) None 0)
     \<lparr>pi_publish_predicates := [''plan'', ''tier''], pi_publish_rules := Some [(''b'', [''plan'']), ('' b'', [''tier''])]\<rparr>"

lemma disable_fails_on_repeated_peer:
  "let st = snd (configure_policy constant_sha (member_scope ''a'') twice_named ''k1'' int empty_customer) in
   sg_revision (get_policy (member_scope ''a'') st) = 1 \<and>
   disable_publishing constant_sha (member_scope ''a'') 1 ''k2'' True int st =
     (memory_error INVALID_ARGUMENT ''publish_rules must match the flattened publish allowlists''
        [(''argument'', [''publish_rules''])], st)"
  by code_simp

end
