(* ===== verification/Execution_Models.thy ===== *)
theory Execution_Models
  imports Scopes Json_Model
begin

text \<open>
  \<^verbatim>\<open>src/suiteharness/execution/models.py\<close>: the data of the execution boundary. Each pydantic
  model is a record; its field and model validators are a function into \<open>result\<close> that
  returns the record unchanged or raises (pydantic's \<open>ValidationError\<close> is a \<open>ValueError\<close>). A
  \<open>datetime\<close> argument is either naive or aware with its offset; a stored timestamp is the
  UTC instant. Durations are integers, in microseconds.
\<close>

section \<open>Timestamps, names and digests\<close>

datatype datetime = Naive int | Aware (local_time: int) (utc_offset: int)

type_synonym instant = int
type_synonym duration = int

definition utc :: "datetime \<Rightarrow> string \<Rightarrow> instant result" where
  "utc value label =
     (case value of
        Naive _ \<Rightarrow> Raise (ValueError (label @ '' must be timezone-aware''))
      | Aware t off \<Rightarrow> Return (t - off))"

definition NAME :: "string \<Rightarrow> bool" where
  [guard_defs]: "NAME s \<longleftrightarrow> name_pattern s"

definition ORIGIN :: "string \<Rightarrow> bool" where
  [guard_defs]: "ORIGIN s \<longleftrightarrow> head_then (\<lambda>c. is_alnum c \<or> c \<in> set ''._:/-'') 511 s"

definition VERSION :: "string \<Rightarrow> bool" where
  [guard_defs]: "VERSION s \<longleftrightarrow> head_then (\<lambda>c. is_alnum c \<or> c \<in> set ''._+-'') 63 s"

definition SHA256 :: "string \<Rightarrow> bool" where
  [guard_defs]: "SHA256 s \<longleftrightarrow> length s = 64 \<and>
     list_all (\<lambda>c. is_digit c \<or> (CHR ''a'' \<le> c \<and> c \<le> CHR ''f'')) s"

definition check_name :: "string \<Rightarrow> string \<Rightarrow> string result" where
  "check_name value label =
     (if NAME value then Return value else Raise (ValueError (''invalid '' @ label)))"

definition check_id :: "string \<Rightarrow> string \<Rightarrow> string result" where
  "check_id value label =
     (if ID_PATTERN value then Return value else Raise (ValueError (''invalid '' @ label)))"

text \<open>\<open>hashlib.sha256(...).hexdigest()\<close> is a parameter \<open>sha\<close> of every definition that hashes.\<close>

definition arguments_digest :: "(string \<Rightarrow> string) \<Rightarrow> json \<Rightarrow> string result" where
  "arguments_digest sha args = result_bind (canonical_json args) (\<lambda>bytes. Return (sha bytes))"

section \<open>Enumerations\<close>

datatype ToolEffect = READ | WRITE | DESTRUCTIVE | EXTERNAL

datatype RunStatus =
  RUN_SUCCEEDED | RUN_FAILED | RUN_BUDGET_EXCEEDED | RUN_TIMED_OUT | RUN_CANCELLED

datatype ToolCallStatus = CALL_SUCCEEDED | CALL_DENIED | CALL_FAILED | CALL_BUDGET_EXCEEDED

datatype ToolAuthorization = DEFAULT | ALLOW | REQUIRE_APPROVAL | DENY

datatype FailureCode =
    INVALID_SCOPE | RUN_CONFLICT | GRANT_NOT_FOUND | GRANT_SCOPE_MISMATCH | GRANT_EXPIRED
  | TOOL_NOT_FOUND | TOOL_NOT_GRANTED | CAPABILITY_DENIED | POLICY_DENIED | READ_ONLY_DENIED
  | APPROVAL_REQUIRED | APPROVAL_INVALID | TOOL_INPUT_INVALID | RUN_INPUT_TOO_LARGE
  | TOOL_ARGUMENTS_TOO_LARGE | TOOL_RESULT_TOO_LARGE | FINAL_OUTPUT_TOO_LARGE
  | WORKFLOW_STATE_TOO_LARGE | DUPLICATE_CALL_ID | INVALID_TOOL_RESULT | TOOL_ERROR
  | WORKFLOW_ERROR | PROMPT_ERROR | REFLECTION_ERROR | BUDGET_POLICY_EXCEEDED
  | ITERATION_BUDGET_EXCEEDED | TOOL_BUDGET_EXCEEDED | TIMED_OUT | CANCELLED | INTERNAL_ERROR

datatype WorkflowDecisionKind = FINAL | TOOLS

datatype AuditEventType =
  RUN_STARTED | AGENT_DELEGATED | STRATEGY_DECISION | TOOL_INTENT | TOOL_DENIED | TOOL_STARTED
  | TOOL_FINISHED | RUN_FINISHED

section \<open>Tool identities and specifications\<close>

record ToolIdentity =
  ti_namespace :: string
  ti_name :: string
  ti_origin :: string
  ti_version :: string

definition ToolIdentity_validate :: "ToolIdentity \<Rightarrow> ToolIdentity result" where
  "ToolIdentity_validate i =
     result_bind (check_name (ti_namespace i) ''namespace'') (\<lambda>_.
     result_bind (check_name (ti_name i) ''name'') (\<lambda>_.
       if \<not> ORIGIN (ti_origin i) then Raise (ValueError ''invalid tool origin'')
       else if \<not> VERSION (ti_version i) then Raise (ValueError ''invalid tool version'')
       else Return i))"

definition canonical_id :: "(string \<Rightarrow> string) \<Rightarrow> ToolIdentity \<Rightarrow> string result" where
  "canonical_id sha i =
     result_bind (canonical_json (JObj [(''name'', JStr (ti_name i)),
         (''namespace'', JStr (ti_namespace i)), (''origin'', JStr (ti_origin i)),
         (''version'', JStr (ti_version i))]))
       (\<lambda>payload. Return (''tool:sha256:'' @ sha payload))"

fun kind_value :: "ScopeKind \<Rightarrow> string" where
  "kind_value ROOT = ''root''"
| "kind_value TENANT = ''tenant''"
| "kind_value PRODUCT = ''product''"
| "kind_value AGENT = ''agent''"

text \<open>An f-string renders a missing identifier as the text \<open>None\<close>.\<close>

definition fstr :: "string option \<Rightarrow> string" where
  "fstr v = (case v of None \<Rightarrow> ''None'' | Some s \<Rightarrow> s)"

definition ToolIdentity_scoped :: "ScopePath \<Rightarrow> string \<Rightarrow> string \<Rightarrow> ToolIdentity result" where
  "ToolIdentity_scoped scope name version =
     (case (case sp_kind scope of
              ROOT \<Rightarrow> Some ''scope:root''
            | TENANT \<Rightarrow> Some (''scope:tenant:'' @ fstr (sp_tenant_id scope))
            | PRODUCT \<Rightarrow> Some (''scope:product:'' @ fstr (sp_tenant_id scope) @ '':'' @
                                fstr (sp_product_id scope))
            | AGENT \<Rightarrow> None) of
        None \<Rightarrow> Raise (ValueError ''tool identities require root, tenant, or product scope'')
      | Some origin \<Rightarrow>
          ToolIdentity_validate \<lparr>ti_namespace = kind_value (sp_kind scope), ti_name = name,
                                 ti_origin = origin, ti_version = version\<rparr>)"

record ToolSpec =
  ts_name :: string
  ts_description :: string
  ts_effects :: "ToolEffect set"
  ts_required_capabilities :: "string set"
  ts_input_schema :: json

definition ToolSpec_validate :: "ToolSpec \<Rightarrow> ToolSpec result" where
  "ToolSpec_validate s =
     result_bind (check_name (ts_name s) ''tool name'') (\<lambda>_.
       if \<exists>c \<in> ts_required_capabilities s. \<not> NAME c then Raise (ValueError ''invalid capability'')
       else result_bind (canonical_json (ts_input_schema s)) (\<lambda>_.
         if ts_effects s = {} then Raise (ValueError ''a tool must declare at least one effect'')
         else if ts_effects s \<inter> {READ, WRITE} = {}
         then Raise (ValueError ''a tool must declare exactly one of read or write'')
         else if DESTRUCTIVE \<in> ts_effects s \<and> WRITE \<notin> ts_effects s
         then Raise (ValueError ''destructive tools must also declare the write effect'')
         else if READ \<in> ts_effects s \<and> WRITE \<in> ts_effects s
         then Raise (ValueError ''read and write effects are mutually exclusive'')
         else Return s))"

definition is_read :: "ToolSpec \<Rightarrow> bool" where
  "is_read s \<longleftrightarrow> READ \<in> ts_effects s \<and> WRITE \<notin> ts_effects s"

section \<open>Budgets, grants and approvals\<close>

record ExecutionBudget =
  eb_max_iterations :: int
  eb_max_tool_calls :: int
  eb_max_parallel_calls :: int
  eb_timeout :: duration

definition second :: duration where
  "second = 1000000"

definition ExecutionBudget_validate :: "ExecutionBudget \<Rightarrow> ExecutionBudget result" where
  "ExecutionBudget_validate b =
     (if 1 \<le> eb_max_iterations b \<and> eb_max_iterations b \<le> 10000 \<and>
         0 \<le> eb_max_tool_calls b \<and> eb_max_tool_calls b \<le> 100000 \<and>
         1 \<le> eb_max_parallel_calls b \<and> eb_max_parallel_calls b \<le> 1024 \<and>
         0 < eb_timeout b \<and> eb_timeout b \<le> 86400 * second
      then Return b else Raise (ValueError ''execution budget out of range''))"

record CapabilityGrant =
  cg_grant_id :: string
  cg_tenant_id :: string
  cg_product_id :: string
  cg_tool_identities :: "ToolIdentity set"
  cg_capabilities :: "string set"
  cg_principal_id :: "string option"
  cg_issued_at :: instant
  cg_expires_at :: instant

definition opt_id_ok :: "string option \<Rightarrow> bool" where
  [guard_defs]: "opt_id_ok v \<longleftrightarrow> (case v of None \<Rightarrow> True | Some s \<Rightarrow> ID_PATTERN s)"

definition CapabilityGrant_validate :: "CapabilityGrant \<Rightarrow> CapabilityGrant result" where
  "CapabilityGrant_validate g =
     result_bind (check_id (cg_grant_id g) ''grant_id'') (\<lambda>_.
     result_bind (check_id (cg_tenant_id g) ''tenant_id'') (\<lambda>_.
     result_bind (check_id (cg_product_id g) ''product_id'') (\<lambda>_.
       if \<exists>c \<in> cg_capabilities g. \<not> NAME c then Raise (ValueError ''invalid capabilities'')
       else if \<not> opt_id_ok (cg_principal_id g) then Raise (ValueError ''invalid principal_id'')
       else if cg_expires_at g \<le> cg_issued_at g
       then Raise (ValueError ''grant expires_at must be after issued_at'')
       else Return g)))"

record ApprovalTarget =
  at_scope :: ScopePath
  at_principal_id :: string
  at_run_id :: string
  at_call_id :: string
  at_tool_identity :: ToolIdentity
  at_arguments_digest :: string

definition ApprovalTarget_validate :: "ApprovalTarget \<Rightarrow> ApprovalTarget result" where
  "ApprovalTarget_validate t =
     (if sp_kind (at_scope t) \<notin> {PRODUCT, AGENT}
      then Raise (ValueError ''approval target must use a product or agent scope'')
      else
     result_bind (check_id (at_principal_id t) ''principal_id'') (\<lambda>_.
     result_bind (check_id (at_run_id t) ''run_id'') (\<lambda>_.
     result_bind (check_id (at_call_id t) ''call_id'') (\<lambda>_.
       if \<not> SHA256 (at_arguments_digest t)
       then Raise (ValueError ''arguments_digest must be a lowercase SHA-256 hex digest'')
       else Return t))))"

text \<open>\<open>single_use\<close> has the one value \<open>True\<close> (\<open>Literal[True]\<close>) and is left out of the record.\<close>

record ApprovalBinding =
  ab_target :: ApprovalTarget
  ab_approved_by :: string
  ab_issued_at :: instant
  ab_expires_at :: instant

definition ApprovalBinding_validate :: "ApprovalBinding \<Rightarrow> ApprovalBinding result" where
  "ApprovalBinding_validate b =
     result_bind (check_id (ab_approved_by b) ''approved_by'') (\<lambda>_.
       if ab_expires_at b \<le> ab_issued_at b
       then Raise (ValueError ''approval expires_at must be after issued_at'')
       else Return b)"

record ApprovalCredential =
  ac_token :: string
  ac_binding :: ApprovalBinding

definition ApprovalCredential_validate :: "ApprovalCredential \<Rightarrow> ApprovalCredential result" where
  "ApprovalCredential_validate c =
     (if py_len (ac_token c) < 32 then Raise (ValueError ''token should have at least 32 characters'')
      else Return c)"

section \<open>Intents, failures, observations and decisions\<close>

record ToolIntent =
  tin_call_id :: string
  tin_tool_name :: string
  tin_arguments :: json
  tin_approval_token :: "string option"

definition ToolIntent_validate :: "ToolIntent \<Rightarrow> ToolIntent result" where
  "ToolIntent_validate i =
     result_bind (check_id (tin_call_id i) ''call_id'') (\<lambda>_.
     result_bind (check_name (tin_tool_name i) ''tool_name'') (\<lambda>_.
     result_bind (canonical_json (tin_arguments i)) (\<lambda>_. Return i)))"

record RunFailure =
  rf_code :: FailureCode
  rf_message :: string
  rf_retryable :: bool
  rf_iteration :: "int option"
  rf_call_id :: "string option"
  rf_tool_name :: "string option"

definition run_failure :: "FailureCode \<Rightarrow> string \<Rightarrow> int option \<Rightarrow> RunFailure" where
  "run_failure code message iteration =
     \<lparr>rf_code = code, rf_message = message, rf_retryable = False, rf_iteration = iteration,
      rf_call_id = None, rf_tool_name = None\<rparr>"

record ToolObservation =
  to_call_id :: string
  to_tool_name :: string
  to_tool_identity :: "ToolIdentity option"
  to_arguments :: "json option"
  to_status :: ToolCallStatus
  to_result :: json
  to_failure :: "RunFailure option"
  to_started_at :: instant
  to_finished_at :: instant

definition ToolObservation_validate :: "ToolObservation \<Rightarrow> ToolObservation result" where
  "ToolObservation_validate t =
     (if (case to_arguments t of None \<Rightarrow> False | Some a \<Rightarrow> has_non_finite a)
      then Raise (ValueError ''JSON values must not contain NaN or infinity'')
      else result_bind (canonical_json (to_result t)) (\<lambda>_.
        if to_finished_at t < to_started_at t
        then Raise (ValueError ''finished_at must not precede started_at'')
        else if to_status t = CALL_SUCCEEDED \<and> to_failure t \<noteq> None
        then Raise (ValueError ''successful tool observations cannot carry a failure'')
        else if to_status t \<noteq> CALL_SUCCEEDED \<and> to_failure t = None
        then Raise (ValueError ''unsuccessful tool observations require a failure'')
        else Return (t\<lparr>to_arguments := map_option detach (to_arguments t)\<rparr>)))"

record PromptMessage =
  pm_role :: string
  pm_content :: string

record PromptEnvelope =
  pe_messages :: "PromptMessage list"
  pe_metadata :: "(string \<times> json) list"

record ConversationMessage =
  cm_role :: string
  cm_content :: json
  cm_principal_id :: "string option"
  cm_occurred_at :: instant

definition ConversationMessage_validate :: "ConversationMessage \<Rightarrow> ConversationMessage result" where
  "ConversationMessage_validate m =
     (if cm_role m \<notin> {''user'', ''assistant''} then Raise (ValueError ''invalid role'')
      else result_bind (canonical_json (cm_content m)) (\<lambda>_.
        if \<not> opt_id_ok (cm_principal_id m)
        then Raise (ValueError ''invalid conversation principal_id'')
        else if cm_role m = ''user'' \<and> cm_principal_id m = None
        then Raise (ValueError ''a user conversation message requires a trusted principal_id'')
        else if cm_role m = ''assistant'' \<and> cm_principal_id m \<noteq> None
        then Raise (ValueError ''an assistant conversation message cannot claim a principal_id'')
        else Return m))"

record ConversationContext =
  cc_messages :: "ConversationMessage list"
  cc_truncated :: bool
  cc_working_summary :: string
  cc_long_term_context :: string
  cc_memory_degraded :: bool

record WorkflowFrame =
  wf_iteration :: int
  wf_observations :: "ToolObservation list"
  wf_available_tools :: "ToolSpec list"
  wf_workflow_state :: json
  wf_tool_calls_used :: int
  wf_elapsed :: duration

record WorkflowDecision =
  wd_kind :: WorkflowDecisionKind
  wd_intents :: "ToolIntent list"
  wd_output :: json
  wd_workflow_state :: json

definition WorkflowDecision_validate :: "WorkflowDecision \<Rightarrow> WorkflowDecision result" where
  "WorkflowDecision_validate d =
     result_bind (canonical_json (wd_output d)) (\<lambda>_.
     result_bind (canonical_json (wd_workflow_state d)) (\<lambda>_.
       if wd_kind d = TOOLS \<and> wd_intents d = []
       then Raise (ValueError ''a tools decision requires at least one intent'')
       else if wd_kind d = FINAL \<and> wd_intents d \<noteq> []
       then Raise (ValueError ''a final decision cannot contain tool intents'')
       else Return d))"

definition WorkflowDecision_final :: "json \<Rightarrow> json \<Rightarrow> WorkflowDecision result" where
  "WorkflowDecision_final output state =
     WorkflowDecision_validate
       \<lparr>wd_kind = FINAL, wd_intents = [], wd_output = output, wd_workflow_state = state\<rparr>"

definition WorkflowDecision_tools :: "ToolIntent list \<Rightarrow> json \<Rightarrow> WorkflowDecision result" where
  "WorkflowDecision_tools intents state =
     WorkflowDecision_validate
       \<lparr>wd_kind = TOOLS, wd_intents = intents, wd_output = JNull, wd_workflow_state = state\<rparr>"

section \<open>Requests, results and audit events\<close>

record RunResumeState =
  rr_source_run_id :: string
  rr_workflow_state :: json
  rr_observations :: "ToolObservation list"
  rr_iterations_used :: int
  rr_tool_calls_used :: int
  rr_call_ids :: "string list"
  rr_prompt_digest :: string
  rr_route_key :: string

definition RunResumeState_validate :: "RunResumeState \<Rightarrow> RunResumeState result" where
  "RunResumeState_validate r =
     result_bind (check_id (rr_source_run_id r) ''source_run_id'') (\<lambda>_.
     result_bind (canonical_json (rr_workflow_state r)) (\<lambda>_.
       if length (rr_observations r) \<le> 1024 \<and> 0 \<le> rr_iterations_used r \<and>
          rr_iterations_used r \<le> 10000 \<and> 0 \<le> rr_tool_calls_used r \<and>
          rr_tool_calls_used r \<le> 100000 \<and> length (rr_call_ids r) \<le> 1024 \<and>
          SHA256 (rr_prompt_digest r) \<and> 1 \<le> py_len (rr_route_key r) \<and>
          py_len (rr_route_key r) \<le> 4096
       then Return r else Raise (ValueError ''resume state out of range'')))"

record RunRequest =
  rq_run_id :: string
  rq_scope :: RequestScope
  rq_grant_id :: string
  rq_input :: json
  rq_conversation :: ConversationContext
  rq_read_only :: bool
  rq_budget :: ExecutionBudget
  rq_resume :: "RunResumeState option"

definition RunRequest_validate :: "RunRequest \<Rightarrow> RunRequest result" where
  "RunRequest_validate r =
     result_bind (check_id (rq_run_id r) ''run_id'') (\<lambda>_.
     result_bind (check_id (rq_grant_id r) ''grant_id'') (\<lambda>_.
     result_bind (canonical_json (rq_input r)) (\<lambda>_.
       if sp_kind (rs_path (rq_scope r)) \<notin> {PRODUCT, AGENT}
       then Raise (ValueError ''run request must use a product or agent RequestScope'')
       else Return r)))"

record RunResult =
  rres_run_id :: string
  rres_status :: RunStatus
  rres_output :: json
  rres_failure :: "RunFailure option"
  rres_observations :: "ToolObservation list"
  rres_iterations_used :: int
  rres_tool_calls_used :: int
  rres_started_at :: instant
  rres_finished_at :: instant

definition RunResult_validate :: "RunResult \<Rightarrow> RunResult result" where
  "RunResult_validate r =
     result_bind (canonical_json (rres_output r)) (\<lambda>_.
       if rres_iterations_used r < 0 \<or> rres_tool_calls_used r < 0
       then Raise (ValueError ''counters must not be negative'')
       else if rres_finished_at r < rres_started_at r
       then Raise (ValueError ''finished_at must not precede started_at'')
       else if rres_status r = RUN_SUCCEEDED \<and> rres_failure r \<noteq> None
       then Raise (ValueError ''successful runs cannot carry a failure'')
       else if rres_status r \<noteq> RUN_SUCCEEDED \<and> rres_failure r = None
       then Raise (ValueError ''unsuccessful runs require a failure'')
       else Return r)"

record AuditEvent =
  ae_event_type :: AuditEventType
  ae_occurred_at :: instant
  ae_tenant_id :: string
  ae_product_id :: string
  ae_principal_id :: string
  ae_request_id :: string
  ae_correlation_id :: string
  ae_purpose :: string
  ae_run_id :: string
  ae_channel_id :: string
  ae_call_id :: "string option"
  ae_tool_name :: "string option"
  ae_tool_identity :: "ToolIdentity option"
  ae_data :: "(string \<times> json) list"

definition AuditEvent_validate :: "AuditEvent \<Rightarrow> AuditEvent result" where
  "AuditEvent_validate e =
     (if \<not> (ID_PATTERN (ae_tenant_id e) \<and> ID_PATTERN (ae_product_id e) \<and>
             ID_PATTERN (ae_principal_id e) \<and> ID_PATTERN (ae_run_id e) \<and> ID_PATTERN (ae_channel_id e))
      then Raise (ValueError ''invalid identifier'')
      else if (ae_request_id e \<noteq> [] \<and> \<not> ID_PATTERN (ae_request_id e)) \<or>
              (ae_correlation_id e \<noteq> [] \<and> \<not> ID_PATTERN (ae_correlation_id e))
      then Raise (ValueError ''invalid identifier'')
      else if py_strip (ae_purpose e) = [] then Raise (ValueError ''purpose must not be empty'')
      else if \<not> opt_id_ok (ae_call_id e) then Raise (ValueError ''invalid call_id'')
      else if (case ae_tool_name e of None \<Rightarrow> False | Some n \<Rightarrow> \<not> NAME n)
      then Raise (ValueError ''invalid tool_name'')
      else result_bind (canonical_json (JObj (ae_data e))) (\<lambda>_.
        case ae_tool_identity e of
          None \<Rightarrow> Return e
        | Some i \<Rightarrow>
            if ae_tool_name e = None
            then Raise (ValueError ''tool_name is required when tool_identity is present'')
            else if ae_tool_name e \<noteq> Some (ti_name i)
            then Raise (ValueError ''tool_name must match tool_identity.name'')
            else Return e))"

section \<open>Facts about the validators\<close>

lemma check_name_Inr [simp]: "check_name v l = Inr s \<longleftrightarrow> s = v \<and> NAME v"
  by (auto simp: check_name_def)

lemma check_id_Inr [simp]: "check_id v l = Inr s \<longleftrightarrow> s = v \<and> ID_PATTERN v"
  by (auto simp: check_id_def)

lemma canonical_json_Inr [simp]: "canonical_json v = Inr s \<longleftrightarrow> s = dumps v \<and> \<not> has_non_finite v"
  by (auto simp: canonical_json_def)

lemma ToolIdentity_validate_Inr [simp]:
  "ToolIdentity_validate i = Inr j \<longleftrightarrow> j = i \<and> NAME (ti_namespace i) \<and> NAME (ti_name i) \<and>
     ORIGIN (ti_origin i) \<and> VERSION (ti_version i)"
  by (auto simp: ToolIdentity_validate_def)

lemma ToolIdentity_scoped_Inr:
  "ToolIdentity_scoped scope name version = Inr i \<Longrightarrow>
     ti_namespace i = kind_value (sp_kind scope) \<and> ti_name i = name \<and> ti_version i = version \<and>
     sp_kind scope \<noteq> AGENT"
  by (auto simp: ToolIdentity_scoped_def split: ScopeKind.splits)

lemma ToolSpec_validate_Inr:
  "ToolSpec_validate s = Inr s' \<longleftrightarrow> s' = s \<and> NAME (ts_name s) \<and>
     (\<forall>c \<in> ts_required_capabilities s. NAME c) \<and> \<not> has_non_finite (ts_input_schema s) \<and>
     (READ \<in> ts_effects s) = (WRITE \<notin> ts_effects s) \<and>
     (DESTRUCTIVE \<in> ts_effects s \<longrightarrow> WRITE \<in> ts_effects s)"
  by (auto simp: ToolSpec_validate_def)

lemma valid_spec_destructive_not_read:
  "ToolSpec_validate s = Inr s' \<Longrightarrow> DESTRUCTIVE \<in> ts_effects s \<Longrightarrow> \<not> is_read s"
  by (auto simp: ToolSpec_validate_Inr is_read_def)

lemma CapabilityGrant_validate_Inr:
  "CapabilityGrant_validate g = Inr g' \<longleftrightarrow> g' = g \<and> ID_PATTERN (cg_grant_id g) \<and>
     ID_PATTERN (cg_tenant_id g) \<and> ID_PATTERN (cg_product_id g) \<and>
     (\<forall>c \<in> cg_capabilities g. NAME c) \<and> opt_id_ok (cg_principal_id g) \<and>
     cg_issued_at g < cg_expires_at g"
  by (auto simp: CapabilityGrant_validate_def)

lemma ApprovalBinding_validate_Inr:
  "ApprovalBinding_validate b = Inr b' \<longleftrightarrow> b' = b \<and> ID_PATTERN (ab_approved_by b) \<and>
     ab_issued_at b < ab_expires_at b"
  by (auto simp: ApprovalBinding_validate_def)

end
