(* ===== verification/Effect_Scope.thy ===== *)
theory Effect_Scope
  imports Prelude "HOL-Library.Sublist"
begin

text \<open>
  \<^verbatim>\<open>src/suiteharness/runtime/effects.py\<close>: an \<open>EffectScope\<close> owns a stack of disposers and unwinds
  it once. A disposer is an opaque value of type \<open>'d\<close>; running one is a parameter
  \<open>run\<close> that changes the outside world \<open>'w\<close> and completes, raises, or raises one of
  \<open>KeyboardInterrupt\<close> and \<open>SystemExit\<close>. \<open>close\<close> is written in its three parts (the decision
  under the lock, the unwinding loop, the \<open>finally\<close> block), composed sequentially by
  \<open>EffectScope_close\<close> and interleaved between any number of callers, and with concurrent
  registrations, by \<open>close_step\<close>.
\<close>

section \<open>Data\<close>

datatype EffectScopeState = OPEN | CLOSING | CLOSED

record 'd OwnedEffect =
  oe_label :: string
  oe_dispose :: 'd

record 'e EffectFailure =
  ef_label :: string
  ef_error :: 'e

datatype 'e outcome = Completed | Raised 'e | Fatal 'e

record ('d, 'e) EffectScope =
  es_name :: string
  es_state :: EffectScopeState
  es_effects :: "'d OwnedEffect list"
  es_cleanup_error :: "'e EffectFailure list option"

datatype 'e close_result = CloseOk | CleanupError "'e EffectFailure list" | Propagated 'e

section \<open>Operations\<close>

definition EffectScope_init :: "string \<Rightarrow> ('d, 'e) EffectScope result" where
  "EffectScope_init name =
     (if py_strip name = [] then Raise (ValueError ''effect scope name must not be empty'')
      else Return \<lparr>es_name = py_strip name, es_state = OPEN, es_effects = [],
                   es_cleanup_error = None\<rparr>)"

definition EffectScope_callback ::
    "('d, 'e) EffectScope \<Rightarrow> string \<Rightarrow> 'd \<Rightarrow> ('d, 'e) EffectScope result" where
  "EffectScope_callback s label dispose =
     (if py_strip label = [] then Raise (ValueError ''effect label must not be empty'')
      else if es_state s \<noteq> OPEN then Raise (EffectScopeClosedError ''cannot add effect'')
      else Return (s\<lparr>es_effects := es_effects s @
                       [\<lparr>oe_label = py_strip label, oe_dispose = dispose\<rparr>]\<rparr>))"

text \<open>
  \<open>enter\<close>: the scope is checked, the resource is entered (an await, after which the scope may
  have changed), and its exit is registered; when that registration raises, the exit runs at
  once. The result says whether the exit ran.
\<close>

definition EffectScope_enter ::
    "('d, 'e) EffectScope \<Rightarrow> ('d, 'e) EffectScope \<Rightarrow> string \<Rightarrow> 'v \<Rightarrow> 'd \<Rightarrow>
     ('v \<times> ('d, 'e) EffectScope) result \<times> bool" where
  "EffectScope_enter before after label v exit_resource =
     (if es_state before \<noteq> OPEN
      then (Raise (EffectScopeClosedError ''cannot enter effect''), False)
      else case EffectScope_callback after label exit_resource of
             Inl e \<Rightarrow> (Raise e, True)
           | Inr s \<Rightarrow> (Return (v, s), False))"

text \<open>\<open>child\<close>: the new scope and the parent that owns its shutdown.\<close>

definition EffectScope_child ::
    "(('d, 'e) EffectScope \<Rightarrow> 'd) \<Rightarrow> ('d, 'e) EffectScope \<Rightarrow> string \<Rightarrow>
     (('d, 'e) EffectScope \<times> ('d, 'e) EffectScope) result" where
  "EffectScope_child close_method s name =
     result_bind (EffectScope_init name) (\<lambda>child.
     result_bind (EffectScope_callback s (''scope:'' @ es_name child) (close_method child)) (\<lambda>s'.
       Return (child, s')))"

text \<open>The decision under \<open>_close_lock\<close>.\<close>

datatype 'd close_role = AlreadyClosed | WaitForOwner | Unwind "'d OwnedEffect list"

definition close_begin :: "('d, 'e) EffectScope \<Rightarrow> 'd close_role \<times> ('d, 'e) EffectScope" where
  "close_begin s =
     (case es_state s of
        CLOSED \<Rightarrow> (AlreadyClosed, s)
      | CLOSING \<Rightarrow> (WaitForOwner, s)
      | OPEN \<Rightarrow> (Unwind (rev (es_effects s)), s\<lparr>es_state := CLOSING, es_effects := []\<rparr>))"

text \<open>One turn of the unwinding loop, and the loop.\<close>

definition record_failure ::
    "'d OwnedEffect \<Rightarrow> 'e outcome \<Rightarrow> 'e EffectFailure list \<Rightarrow> 'e EffectFailure list" where
  "record_failure eff out failures =
     (case out of
        Raised e \<Rightarrow> failures @ [\<lparr>ef_label = oe_label eff, ef_error = e\<rparr>]
      | _ \<Rightarrow> failures)"

fun unwind ::
    "('d \<Rightarrow> 'w \<Rightarrow> 'e outcome \<times> 'w) \<Rightarrow> 'd OwnedEffect list \<Rightarrow> 'e EffectFailure list \<Rightarrow> 'w \<Rightarrow>
     'e EffectFailure list \<times> 'e option \<times> 'w" where
  "unwind run [] failures w = (failures, None, w)"
| "unwind run (eff # effs) failures w =
     (case run (oe_dispose eff) w of
        (Fatal e, w') \<Rightarrow> (failures, Some e, w')
      | (out, w') \<Rightarrow> unwind run effs (record_failure eff out failures) w')"

text \<open>The \<open>finally\<close> block.\<close>

definition close_end :: "('d, 'e) EffectScope \<Rightarrow> 'e EffectFailure list \<Rightarrow> ('d, 'e) EffectScope" where
  "close_end s failures =
     s\<lparr>es_state := CLOSED,
       es_cleanup_error := (if failures \<noteq> [] then Some failures else es_cleanup_error s)\<rparr>"

definition cleanup_result :: "('d, 'e) EffectScope \<Rightarrow> 'e close_result" where
  "cleanup_result s = (case es_cleanup_error s of None \<Rightarrow> CloseOk | Some fs \<Rightarrow> CleanupError fs)"

text \<open>
  A call of \<open>close\<close> that no other call overlaps. A caller that has to wait for the owner
  returns what the owner leaves, so on its own it has no result (\<open>None\<close>).
\<close>

definition EffectScope_close ::
    "('d \<Rightarrow> 'w \<Rightarrow> 'e outcome \<times> 'w) \<Rightarrow> ('d, 'e) EffectScope \<Rightarrow> 'w \<Rightarrow>
     ('e close_result option \<times> ('d, 'e) EffectScope \<times> 'w)" where
  "EffectScope_close run s w =
     (case close_begin s of
        (AlreadyClosed, s') \<Rightarrow> (Some (cleanup_result s'), s', w)
      | (WaitForOwner, s') \<Rightarrow> (None, s', w)
      | (Unwind effs, s') \<Rightarrow>
          (case unwind run effs [] w of
             (failures, fatal, w') \<Rightarrow>
               (let closed = close_end s' failures in
                case fatal of
                  Some e \<Rightarrow> (Some (Propagated e), closed, w')
                | None \<Rightarrow> (Some (cleanup_result closed), closed, w'))))"

section \<open>Concurrent callers\<close>

datatype ('d, 'e) closer =
    Outside
  | Owner "'d OwnedEffect list" "'e EffectFailure list"
  | Waiting
  | Returned "'e close_result"

text \<open>
  For the statements, \<open>cs_registered\<close> records the effects that callers have registered, from the arguments of their calls,
  and \<open>cs_ran\<close> the disposers that have been run, with their outcomes.
\<close>

record ('d, 'e) close_system =
  cs_scope :: "('d, 'e) EffectScope"
  cs_closers :: "nat \<Rightarrow> ('d, 'e) closer"
  cs_registered :: "'d OwnedEffect list"
  cs_ran :: "('d OwnedEffect \<times> 'e outcome) list"

definition set_closer ::
    "nat \<Rightarrow> ('d, 'e) closer \<Rightarrow> ('d, 'e) close_system \<Rightarrow> ('d, 'e) close_system" where
  "set_closer i c s = s\<lparr>cs_closers := (cs_closers s)(i := c)\<rparr>"

inductive close_step :: "('d, 'e) close_system \<Rightarrow> ('d, 'e) close_system \<Rightarrow> bool" where
  register: "EffectScope_callback (cs_scope s) label d = Inr sc \<Longrightarrow>
     close_step s (s\<lparr>cs_scope := sc,
       cs_registered := cs_registered s @ [\<lparr>oe_label = py_strip label, oe_dispose = d\<rparr>]\<rparr>)"
| begin_closed: "cs_closers s i = Outside \<Longrightarrow> close_begin (cs_scope s) = (AlreadyClosed, sc) \<Longrightarrow>
     close_step s (set_closer i (Returned (cleanup_result sc)) (s\<lparr>cs_scope := sc\<rparr>))"
| begin_wait: "cs_closers s i = Outside \<Longrightarrow> close_begin (cs_scope s) = (WaitForOwner, sc) \<Longrightarrow>
     close_step s (set_closer i Waiting (s\<lparr>cs_scope := sc\<rparr>))"
| begin_unwind: "cs_closers s i = Outside \<Longrightarrow> close_begin (cs_scope s) = (Unwind effs, sc) \<Longrightarrow>
     close_step s (set_closer i (Owner effs []) (s\<lparr>cs_scope := sc\<rparr>))"
| dispose: "cs_closers s i = Owner (eff # effs) fs \<Longrightarrow> \<forall>e. out \<noteq> Fatal e \<Longrightarrow>
     close_step s (set_closer i (Owner effs (record_failure eff out fs)) (s\<lparr>cs_ran := cs_ran s @ [(eff, out)]\<rparr>))"
| dispose_fatal: "cs_closers s i = Owner (eff # effs) fs \<Longrightarrow>
     close_step s (set_closer i (Returned (Propagated e))
       (s\<lparr>cs_ran := cs_ran s @ [(eff, Fatal e)], cs_scope := close_end (cs_scope s) fs\<rparr>))"
| finish: "cs_closers s i = Owner [] fs \<Longrightarrow>
     close_step s (set_closer i (Returned (cleanup_result (close_end (cs_scope s) fs)))
       (s\<lparr>cs_scope := close_end (cs_scope s) fs\<rparr>))"
| wake: "cs_closers s i = Waiting \<Longrightarrow> es_state (cs_scope s) = CLOSED \<Longrightarrow>
     close_step s (set_closer i (Returned (cleanup_result (cs_scope s))) s)"

definition close_init :: "('d, 'e) EffectScope \<Rightarrow> ('d, 'e) close_system" where
  "close_init sc = \<lparr>cs_scope = sc, cs_closers = (\<lambda>_. Outside), cs_registered = [], cs_ran = []\<rparr>"

inductive close_reachable ::
    "('d, 'e) EffectScope \<Rightarrow> ('d, 'e) close_system \<Rightarrow> bool" for sc where
  reach_init: "close_reachable sc (close_init sc)"
| reach_step: "close_reachable sc s \<Longrightarrow> close_step s t \<Longrightarrow> close_reachable sc t"

section \<open>Sequential closing\<close>

lemma callback_Inr:
  "EffectScope_callback s label d = Inr s' \<longleftrightarrow>
     py_strip label \<noteq> [] \<and> es_state s = OPEN \<and>
     s' = s\<lparr>es_effects := es_effects s @ [\<lparr>oe_label = py_strip label, oe_dispose = d\<rparr>]\<rparr>"
  by (auto simp: EffectScope_callback_def)

text \<open>Running every disposer in turn, whatever the others did: the specification of the loop.\<close>

definition run_all :: "('d \<Rightarrow> 'w \<Rightarrow> 'e outcome \<times> 'w) \<Rightarrow> 'd OwnedEffect list \<Rightarrow> 'w \<Rightarrow> 'w" where
  "run_all run effs w = fold (\<lambda>eff w. snd (run (oe_dispose eff) w)) effs w"

fun failures_of ::
    "('d \<Rightarrow> 'w \<Rightarrow> 'e outcome \<times> 'w) \<Rightarrow> 'd OwnedEffect list \<Rightarrow> 'w \<Rightarrow> 'e EffectFailure list" where
  "failures_of run [] w = []"
| "failures_of run (eff # effs) w =
     record_failure eff (fst (run (oe_dispose eff) w)) [] @
     failures_of run effs (snd (run (oe_dispose eff) w))"

definition never_fatal :: "('d \<Rightarrow> 'w \<Rightarrow> 'e outcome \<times> 'w) \<Rightarrow> bool" where
  "never_fatal run \<longleftrightarrow> (\<forall>d w e. fst (run d w) \<noteq> Fatal e)"

lemma record_failure_append: "record_failure eff out fs = fs @ record_failure eff out []"
  by (simp add: record_failure_def split: outcome.split)

lemma unwind_spec:
  "never_fatal run \<Longrightarrow>
     unwind run effs fs w = (fs @ failures_of run effs w, None, run_all run effs w)"
proof (induction effs arbitrary: fs w)
  case Nil
  then show ?case by (simp add: run_all_def)
next
  case (Cons eff effs)
  obtain out w' where ow: "run (oe_dispose eff) w = (out, w')" by fastforce
  then have "fst (run (oe_dispose eff) w) = out" by simp
  with Cons.prems have "\<And>e. out \<noteq> Fatal e" by (auto simp: never_fatal_def)
  then have "unwind run (eff # effs) fs w = unwind run effs (record_failure eff out fs) w'"
    using ow by (simp split: outcome.split)
  also have "\<dots> = (record_failure eff out fs @ failures_of run effs w', None, run_all run effs w')"
    by (rule Cons.IH [OF Cons.prems])
  finally show ?case
    using ow by (subst (asm) record_failure_append) (simp add: run_all_def)
qed

lemma close_open_spec:
  assumes "never_fatal run" and "es_state s = OPEN" and "es_cleanup_error s = None"
  defines "effs \<equiv> rev (es_effects s)"
  shows "EffectScope_close run s w =
     (Some (if failures_of run effs w = [] then CloseOk else CleanupError (failures_of run effs w)),
      s\<lparr>es_state := CLOSED, es_effects := [],
        es_cleanup_error := (if failures_of run effs w = [] then None else Some (failures_of run effs w))\<rparr>,
      run_all run effs w)"
  using assms(2,3)
  by (simp add: EffectScope_close_def close_begin_def unwind_spec [OF assms(1)] close_end_def
      cleanup_result_def Let_def effs_def)

lemma close_closed:
  "es_state s = CLOSED \<Longrightarrow> EffectScope_close run s w = (Some (cleanup_result s), s, w)"
  by (simp add: EffectScope_close_def close_begin_def)

lemma close_state:
  "EffectScope_close run s w = (r, s', w') \<Longrightarrow> es_state s \<noteq> CLOSING \<Longrightarrow> es_state s' = CLOSED"
  by (cases "es_state s")
     (auto simp: EffectScope_close_def close_begin_def close_end_def Let_def
           split: prod.splits option.splits)

section \<open>Interleaved closing\<close>

text \<open>What the disposers that have been run make a caller of \<open>close\<close> see: every failure, in order.\<close>

definition failed_effects :: "('d OwnedEffect \<times> 'e outcome) list \<Rightarrow> 'e EffectFailure list" where
  "failed_effects runs = [\<lparr>ef_label = oe_label eff, ef_error = e\<rparr>. (eff, Raised e) \<leftarrow> runs]"

definition close_report :: "('d OwnedEffect \<times> 'e outcome) list \<Rightarrow> 'e close_result" where
  "close_report runs = (if failed_effects runs = [] then CloseOk else CleanupError (failed_effects runs))"

definition fatal_in :: "('d OwnedEffect \<times> 'e outcome) list \<Rightarrow> 'e \<Rightarrow> bool" where
  "fatal_in runs e \<longleftrightarrow> Fatal e \<in> snd ` set runs"

lemma failed_effects_simps [simp]:
  "failed_effects [] = []"
  "failed_effects (runs @ [(eff, out)]) = record_failure eff out (failed_effects runs)"
  by (simp_all add: failed_effects_def record_failure_def split: outcome.split)

lemma fatal_in_simps [simp]:
  "\<not> fatal_in [] e" "fatal_in (runs @ [(eff, out)]) e \<longleftrightarrow> out = Fatal e \<or> fatal_in runs e"
  by (auto simp: fatal_in_def)

text \<open>
  The invariant: before the first closer the scope holds what was registered and nothing ran; while one closes, exactly one
  caller owns what is left of the reversed effects; afterwards nobody does, what ran is an initial part of them, all of
  them unless an exception was fatal, and everyone has been told the same.
\<close>

definition owns :: "('d, 'e) closer \<Rightarrow> bool" where
  "owns c \<longleftrightarrow> (case c of Owner _ _ \<Rightarrow> True | _ \<Rightarrow> False)"

definition told :: "('d OwnedEffect \<times> 'e outcome) list \<Rightarrow> ('d, 'e) closer \<Rightarrow> bool" where
  "told runs c \<longleftrightarrow> (\<forall>r. c = Returned r \<longrightarrow> r = close_report runs \<or> (\<exists>e. r = Propagated e \<and> fatal_in runs e))"

definition close_inv :: "('d, 'e) close_system \<Rightarrow> bool" where
  "close_inv s \<longleftrightarrow>
     (case es_state (cs_scope s) of
        OPEN \<Rightarrow> cs_ran s = [] \<and> es_effects (cs_scope s) = cs_registered s \<and>
                es_cleanup_error (cs_scope s) = None \<and> (\<forall>i. cs_closers s i = Outside)
      | CLOSING \<Rightarrow> (\<exists>i effs. cs_closers s i = Owner effs (failed_effects (cs_ran s)) \<and>
                     map fst (cs_ran s) @ effs = rev (cs_registered s) \<and> (\<forall>e. \<not> fatal_in (cs_ran s) e) \<and>
                     es_cleanup_error (cs_scope s) = None \<and>
                     (\<forall>j. j \<noteq> i \<longrightarrow> cs_closers s j = Outside \<or> cs_closers s j = Waiting))
      | CLOSED \<Rightarrow> prefix (map fst (cs_ran s)) (rev (cs_registered s)) \<and>
                  ((\<forall>e. \<not> fatal_in (cs_ran s) e) \<longrightarrow> map fst (cs_ran s) = rev (cs_registered s)) \<and>
                  cleanup_result (cs_scope s) = close_report (cs_ran s) \<and>
                  (\<forall>i. \<not> owns (cs_closers s i) \<and> told (cs_ran s) (cs_closers s i)))"

lemma close_inv_closingI:
  assumes "es_state (cs_scope s) = CLOSING" and "cs_closers s i = Owner effs (failed_effects (cs_ran s))"
    and "map fst (cs_ran s) @ effs = rev (cs_registered s)" and "\<And>e. \<not> fatal_in (cs_ran s) e"
    and "es_cleanup_error (cs_scope s) = None"
    and "\<And>j. j \<noteq> i \<Longrightarrow> cs_closers s j = Outside \<or> cs_closers s j = Waiting"
  shows "close_inv s"
  using assms by (auto simp: close_inv_def)

lemma close_inv_owner:
  assumes "close_inv s" and "cs_closers s i = Owner effs fs"
  shows "es_state (cs_scope s) = CLOSING" and "map fst (cs_ran s) @ effs = rev (cs_registered s)"
    and "fs = failed_effects (cs_ran s)" and "\<And>e. \<not> fatal_in (cs_ran s) e"
    and "es_cleanup_error (cs_scope s) = None"
    and "\<And>j. j \<noteq> i \<Longrightarrow> cs_closers s j = Outside \<or> cs_closers s j = Waiting"
proof -
  show st: "es_state (cs_scope s) = CLOSING"
  proof (cases "es_state (cs_scope s)")
    case CLOSED
    with assms(1) have "\<not> owns (cs_closers s i)" by (simp add: close_inv_def)
    with assms(2) show ?thesis by (simp add: owns_def)
  qed (use assms in \<open>auto simp: close_inv_def\<close>)
  with assms(1) obtain k effs' where k: "cs_closers s k = Owner effs' (failed_effects (cs_ran s))"
    "map fst (cs_ran s) @ effs' = rev (cs_registered s)" "\<forall>e. \<not> fatal_in (cs_ran s) e"
    "es_cleanup_error (cs_scope s) = None"
    "\<forall>j. j \<noteq> k \<longrightarrow> cs_closers s j = Outside \<or> cs_closers s j = Waiting"
    by (auto simp: close_inv_def)
  with assms(2) have "k = i" by (cases "k = i") auto
  with k assms(2) show "map fst (cs_ran s) @ effs = rev (cs_registered s)" "fs = failed_effects (cs_ran s)"
    "\<And>e. \<not> fatal_in (cs_ran s) e" "es_cleanup_error (cs_scope s) = None"
    "\<And>j. j \<noteq> i \<Longrightarrow> cs_closers s j = Outside \<or> cs_closers s j = Waiting" by auto
qed

lemma close_inv_init: "EffectScope_init name = Inr sc \<Longrightarrow> close_inv (close_init sc)"
  by (auto simp: close_inv_def close_init_def EffectScope_init_def split: if_splits)

text \<open>A caller that comes or wakes after the scope is closed changes nothing but its own return.\<close>

lemma close_inv_late_return:
  assumes "close_inv s" and "es_state (cs_scope s) = CLOSED"
  shows "close_inv (set_closer i (Returned (cleanup_result (cs_scope s))) s)"
  using assms by (auto simp: close_inv_def set_closer_def owns_def told_def)

text \<open>The owner returns: the scope is closed with the failures so far.\<close>

lemma close_inv_owner_returns:
  assumes "close_inv s" and "cs_closers s i = Owner effs fs" and "es_state (cs_scope t) = CLOSED"
    and "cs_registered t = cs_registered s" and "prefix (map fst (cs_ran t)) (rev (cs_registered s))"
    and "(\<forall>e. \<not> fatal_in (cs_ran t) e) \<Longrightarrow> map fst (cs_ran t) = rev (cs_registered s)"
    and "cleanup_result (cs_scope t) = close_report (cs_ran t)"
    and "cs_closers t = (cs_closers s)(i := Returned r)" and "told (cs_ran t) (Returned r)"
  shows "close_inv t"
proof -
  have "\<not> owns (cs_closers t j) \<and> told (cs_ran t) (cs_closers t j)" for j
    using close_inv_owner(6) [OF assms(1,2), of j] assms(8,9) by (cases "j = i") (auto simp: owns_def told_def)
  with assms(3-7) show ?thesis by (simp add: close_inv_def)
qed

lemma cleanup_result_close_end:
  "es_cleanup_error s = None \<Longrightarrow> cleanup_result (close_end s (failed_effects runs)) = close_report runs"
  by (simp add: cleanup_result_def close_end_def close_report_def)

lemma close_step_inv: "close_step s t \<Longrightarrow> close_inv s \<Longrightarrow> close_inv t"
proof (induction rule: close_step.induct)
  case (register s label d sc)
  then show ?case by (auto simp: callback_Inr close_inv_def)
next
  case (begin_closed s i sc)
  then have "es_state (cs_scope s) = CLOSED" and "sc = cs_scope s"
    by (auto simp: close_begin_def split: EffectScopeState.splits)
  with begin_closed show ?case using close_inv_late_return [of s i] by simp
next
  case (begin_wait s i sc)
  then have st: "es_state (cs_scope s) = CLOSING" and sc: "sc = cs_scope s"
    by (auto simp: close_begin_def split: EffectScopeState.splits)
  then obtain k effs where k: "cs_closers s k = Owner effs (failed_effects (cs_ran s))"
    using begin_wait.prems by (auto simp: close_inv_def)
  note owner = close_inv_owner [OF begin_wait.prems k]
  from k have "k \<noteq> i" using begin_wait.hyps(1) by auto
  show ?case
    by (rule close_inv_closingI [where i = k and effs = effs])
       (use sc k owner \<open>k \<noteq> i\<close> in \<open>auto simp: set_closer_def\<close>)
next
  case (begin_unwind s i effs sc)
  then have "es_state (cs_scope s) = OPEN"
    and sc: "sc = (cs_scope s)\<lparr>es_state := CLOSING, es_effects := []\<rparr>" "effs = rev (es_effects (cs_scope s))"
    by (auto simp: close_begin_def split: EffectScopeState.splits)
  with begin_unwind.prems show ?case by (auto simp: close_inv_def set_closer_def)
next
  case (dispose s i eff effs fs out)
  note owner = close_inv_owner [OF dispose.prems dispose.hyps(1)]
  show ?case
    by (rule close_inv_closingI [where i = i and effs = effs])
       (use owner dispose.hyps(2) in \<open>auto simp: set_closer_def\<close>)
next
  case (dispose_fatal s i eff effs fs e)
  note owner = close_inv_owner [OF dispose_fatal.prems dispose_fatal.hyps(1)]
  have same: "failed_effects (cs_ran s @ [(eff, Fatal e)]) = failed_effects (cs_ran s)" by (simp add: record_failure_def)
  show ?case
    by (rule close_inv_owner_returns [OF dispose_fatal.prems dispose_fatal.hyps(1), where r = "Propagated e"])
       (use owner(1,3,5) same cleanup_result_close_end [of "cs_scope s" "cs_ran s @ [(eff, Fatal e)]"] in
         \<open>auto simp: set_closer_def close_end_def told_def owner(2) [symmetric]\<close>)
next
  case (finish s i fs)
  note owner = close_inv_owner [OF finish.prems finish.hyps(1)]
  show ?case
    by (rule close_inv_owner_returns [OF finish.prems finish.hyps(1)])
       (use owner(2,3,5) cleanup_result_close_end [of "cs_scope s" "cs_ran s"] in
         \<open>auto simp: set_closer_def told_def close_end_def\<close>)
next
  case (wake s i)
  then show ?case by (simp add: close_inv_late_return)
qed

lemma close_reachable_inv:
  assumes "close_reachable sc s" and "EffectScope_init name = Inr sc"
  shows "close_inv s"
  using assms by (induction rule: close_reachable.induct) (auto intro: close_inv_init close_step_inv)

section \<open>Properties\<close>

definition sample_effects :: "(string, string) EffectScope" where
  "sample_effects = \<lparr>es_name = ''request'', es_state = OPEN, es_effects =
     [\<lparr>oe_label = ''db'', oe_dispose = ''close db''\<rparr>, \<lparr>oe_label = ''tmp'', oe_dispose = ''rm tmp''\<rparr>],
     es_cleanup_error = None\<rparr>"

text \<open>A disposer that logs its name; removing the temporary file fails.\<close>

definition sample_run :: "string \<Rightarrow> string list \<Rightarrow> string outcome \<times> string list" where
  "sample_run d w = ((if d = ''rm tmp'' then Raised ''busy'' else Completed), w @ [d])"

text \<open>
  Closing an open scope runs every registered disposer once, the last registered first, even
  after some have failed, and reports exactly the failures; a second close runs nothing and
  reports the same.
\<close>

theorem close_runs_all_last_first:
  assumes "never_fatal run" and "es_state s = OPEN" and "es_cleanup_error s = None"
    and "EffectScope_close run s w = (result, s', w')"
  shows "w' = run_all run (rev (es_effects s)) w \<and>
     result = Some (if failures_of run (rev (es_effects s)) w = [] then CloseOk
                    else CleanupError (failures_of run (rev (es_effects s)) w)) \<and>
     es_state s' = CLOSED \<and> EffectScope_close run s' w' = (result, s', w')"
  using assms close_open_spec [OF assms(1-3), of w] close_closed [of s' run w']
  by (auto simp: cleanup_result_def split: if_splits)

theorem close_runs_all_last_first_witness:
  "snd (snd (EffectScope_close sample_run sample_effects [])) = [''rm tmp'', ''close db'']"
proof -
  obtain r s' w' where c: "EffectScope_close sample_run sample_effects [] = (r, s', w')" by (metis prod.collapse)
  have "never_fatal sample_run" "es_state sample_effects = OPEN" "es_cleanup_error sample_effects = None"
    by (simp_all add: never_fatal_def sample_run_def sample_effects_def)
  from close_runs_all_last_first [OF this c] c show ?thesis
    by (simp add: run_all_def sample_effects_def sample_run_def)
qed

text \<open>
  C16. However many tasks close a scope at the same time, and register effects until then, at most one of them runs disposers;
  what has been run is always an initial part of the registered effects, the last registered first, so no disposer runs
  twice or out of order; once the scope is closed all of them have been run unless one raised a fatal exception;
  and every caller that returns reports exactly the failures of those that ran, or is the one that passes on the fatal exception.
\<close>

theorem concurrent_close_runs_once:
  assumes "EffectScope_init name = Inr sc" and "close_reachable sc s"
  shows "prefix (map fst (cs_ran s)) (rev (cs_registered s)) \<and>
     (\<forall>i j. owns (cs_closers s i) \<and> owns (cs_closers s j) \<longrightarrow> i = j) \<and>
     (es_state (cs_scope s) = CLOSED \<and> (\<forall>e. \<not> fatal_in (cs_ran s) e) \<longrightarrow> map fst (cs_ran s) = rev (cs_registered s)) \<and>
     (\<forall>i r. cs_closers s i = Returned r \<longrightarrow>
        r = close_report (cs_ran s) \<or> (\<exists>e. r = Propagated e \<and> fatal_in (cs_ran s) e))"
proof -
  have inv: "close_inv s" using assms(2,1) by (rule close_reachable_inv)
  show ?thesis
  proof (cases "es_state (cs_scope s)")
    case CLOSING
    with inv obtain i effs fs where i: "cs_closers s i = Owner effs fs" by (auto simp: close_inv_def)
    note owner = close_inv_owner [OF inv i]
    have "j = i" if "owns (cs_closers s j)" for j
      using owner(6) [of j] that by (cases "j = i") (auto simp: owns_def)
    moreover have "prefix (map fst (cs_ran s)) (rev (cs_registered s))" using owner(2) [symmetric] by (rule prefixI)
    moreover have "cs_closers s j \<noteq> Returned r" for j r using i owner(6) [of j] by (cases "j = i") auto
    ultimately show ?thesis using CLOSING by auto
  qed (use inv in \<open>auto simp: close_inv_def owns_def told_def\<close>)
qed

theorem concurrent_close_runs_once_witness:
  "\<exists>sc s. EffectScope_init ''request'' = Inr sc \<and> close_reachable sc s \<and> es_state (cs_scope s) = CLOSED \<and>
     map fst (cs_ran s) = [\<lparr>oe_label = ''db'', oe_dispose = ''close db''\<rparr>] \<and>
     cs_closers s 0 = Returned (CleanupError [\<lparr>ef_label = ''db'', ef_error = ''busy''\<rparr>])"
proof -
  let ?sc = "\<lparr>es_name = ''request'', es_state = OPEN, es_effects = [], es_cleanup_error = None\<rparr> :: (string, string) EffectScope"
  let ?eff = "\<lparr>oe_label = ''db'', oe_dispose = ''close db''\<rparr>"
  let ?s1 = "(close_init ?sc)\<lparr>cs_scope := ?sc\<lparr>es_effects := [?eff]\<rparr>, cs_registered := [?eff]\<rparr>"
  let ?s2 = "set_closer 0 (Owner [?eff] []) (?s1\<lparr>cs_scope := ?sc\<lparr>es_state := CLOSING\<rparr>\<rparr>)"
  let ?s3 = "set_closer 0 (Owner [] [\<lparr>ef_label = ''db'', ef_error = ''busy''\<rparr>]) (?s2\<lparr>cs_ran := [(?eff, Raised ''busy'')]\<rparr>)"
  let ?s4 = "set_closer 0 (Returned (cleanup_result (close_end (cs_scope ?s3) [\<lparr>ef_label = ''db'', ef_error = ''busy''\<rparr>])))
    (?s3\<lparr>cs_scope := close_end (cs_scope ?s3) [\<lparr>ef_label = ''db'', ef_error = ''busy''\<rparr>]\<rparr>)"
  have init: "EffectScope_init ''request'' = Inr ?sc" by code_simp
  have strip: "py_strip ''db'' = ''db''" by code_simp
  have step1: "close_step (close_init ?sc) ?s1"
    using close_step.register [of "close_init ?sc" "''db''" "''close db''" "?sc\<lparr>es_effects := [?eff]\<rparr>"]
    by (simp add: callback_Inr close_init_def strip)
  have step2: "close_step ?s1 ?s2"
    using close_step.begin_unwind [of ?s1 0 "[?eff]" "?sc\<lparr>es_state := CLOSING\<rparr>"]
    by (simp add: close_begin_def close_init_def)
  have step3: "close_step ?s2 ?s3"
    using close_step.dispose [of ?s2 0 ?eff "[]" "[]" "Raised ''busy''"]
    by (simp add: record_failure_def set_closer_def close_init_def)
  have step4: "close_step ?s3 ?s4"
    by (rule close_step.finish) (simp add: set_closer_def)
  note reach = reach_step [OF reach_step [OF reach_step [OF reach_step [OF reach_init step1] step2] step3] step4]
  have closed: "es_state (cs_scope ?s4) = CLOSED" "cs_registered ?s4 = [?eff]" "\<And>e. \<not> fatal_in (cs_ran ?s4) e"
    "cs_closers ?s4 0 = Returned (CleanupError [\<lparr>ef_label = ''db'', ef_error = ''busy''\<rparr>])"
    by (simp_all add: close_end_def set_closer_def close_init_def fatal_in_def cleanup_result_def)
  with concurrent_close_runs_once [OF init reach] have runs: "map fst (cs_ran ?s4) = [?eff]" by simp
  show ?thesis by (intro exI conjI) (rule init reach closed(1,4) runs)+
qed

end
