(* ===== verification/Tool_Registry.thy ===== *)
theory Tool_Registry
  imports Execution_Models Effect_Scope
begin

text \<open>
  \<^verbatim>\<open>src/suiteharness/execution/in_memory.py\<close>, \<open>InMemoryToolRegistry\<close> and its ownership handles.
  The lock makes every operation atomic, so an operation is a function on the registry's state.
  A handler is an opaque value. The third-party JSON Schema package is a parameter:
  \<open>check_schema\<close> is \<open>Draft202012Validator.check_schema\<close>; the validator kept with a tool is
  determined by the schema of the kept specification. \<open>secrets.token_urlsafe\<close> is the argument
  \<open>token\<close>. Object identity of the registry and of handles is the number \<open>tr_self\<close> and the
  handle's own record.
\<close>

section \<open>State\<close>

record 'h RegisteredTool =
  rt_registration_scope :: ScopePath
  rt_identity :: ToolIdentity
  rt_spec :: ToolSpec
  rt_handler :: 'h

record 'h RegisteredEntry =
  ren_item :: "'h RegisteredTool"
  ren_registration_id :: string
  ren_protected :: bool

record 'h InMemoryToolRegistry =
  tr_self :: nat
  tr_items :: "(ScopePath \<times> string, 'h RegisteredEntry) dict"
  tr_protected_names :: "(string, string) dict"

record ToolRegistrationHandle =
  th_registry :: nat
  th_scope :: ScopePath
  th_tool_name :: string
  th_registration_id :: string
  th_identity :: ToolIdentity
  th_closed :: bool

definition PROTECTED_NAMESPACES :: "string set" where
  "PROTECTED_NAMESPACES = {''suiteharness'', ''framework''}"

definition empty_registry :: "nat \<Rightarrow> 'h InMemoryToolRegistry" where
  "empty_registry self = \<lparr>tr_self = self, tr_items = [], tr_protected_names = []\<rparr>"

section \<open>Operations\<close>

definition registration_id :: "string \<Rightarrow> string" where
  "registration_id token = ''registration-'' @ token"

definition registry_register_at ::
    "(json \<Rightarrow> bool) \<Rightarrow> ('h \<Rightarrow> bool) \<Rightarrow> string \<Rightarrow> 'h InMemoryToolRegistry \<Rightarrow> ScopePath \<Rightarrow> ToolSpec \<Rightarrow>
     'h \<Rightarrow> ToolIdentity \<Rightarrow> bool \<Rightarrow> ('h InMemoryToolRegistry \<times> ToolRegistrationHandle) result" where
  "registry_register_at check_schema callable token reg scope spec handler identity protected =
     (if sp_kind scope \<notin> {ROOT, TENANT, PRODUCT}
      then Raise (ValueError ''tools may only be registered at root, tenant, or product scope'')
      else if ti_name identity \<noteq> ts_name spec
      then Raise (ValueError ''tool identity name must match the model-facing tool name'')
      else if \<not> protected \<and> ti_namespace identity \<in> PROTECTED_NAMESPACES
      then Raise (ValueError ''reserved framework namespaces require protected registration'')
      else if \<not> callable handler then Raise (TypeError ''tool handler must be callable'')
      else result_bind (reject_remote_references (ts_input_schema spec)) (\<lambda>_.
        if \<not> check_schema (ts_input_schema spec) then Raise (SchemaError ''invalid schema'')
        else let item = \<lparr>rt_registration_scope = scope, rt_identity = identity, rt_spec = spec,
                         rt_handler = handler\<rparr>;
                 rid = registration_id token;
                 key = (scope, ts_name spec)
             in if sp_kind scope \<noteq> ROOT \<and> dict_get (tr_protected_names reg) (ts_name spec) \<noteq> None
                then Raise (ValueError ''protected root tool cannot be shadowed'')
                else if protected \<and>
                  list_ex (\<lambda>(s, n). n = ts_name spec \<and> sp_kind s \<noteq> ROOT) (dict_keys (tr_items reg))
                then Raise (ValueError ''cannot protect root tool while a shadow exists'')
                else if dict_get (tr_items reg) key \<noteq> None
                then Raise (ValueError ''tool is already registered at this scope'')
                else if list_ex (\<lambda>e. rt_identity (ren_item e) = identity) (dict_values (tr_items reg))
                then Raise (ValueError ''tool identity is already registered'')
                else Return
                  (reg\<lparr>tr_items := dict_set key \<lparr>ren_item = item, ren_registration_id = rid,
                                                  ren_protected = protected\<rparr> (tr_items reg),
                       tr_protected_names :=
                         (if protected then dict_set (ts_name spec) rid (tr_protected_names reg)
                          else tr_protected_names reg)\<rparr>,
                   \<lparr>th_registry = tr_self reg, th_scope = scope, th_tool_name = ts_name spec,
                    th_registration_id = rid, th_identity = identity, th_closed = False\<rparr>)))"

definition registry_register ::
    "(json \<Rightarrow> bool) \<Rightarrow> ('h \<Rightarrow> bool) \<Rightarrow> string \<Rightarrow> 'h InMemoryToolRegistry \<Rightarrow> ScopePath \<Rightarrow> ToolSpec \<Rightarrow>
     'h \<Rightarrow> ('h InMemoryToolRegistry \<times> ToolRegistrationHandle) result" where
  "registry_register check_schema callable token reg scope spec handler =
     result_bind (ToolIdentity_scoped scope (ts_name spec) ''1'') (\<lambda>identity.
       registry_register_at check_schema callable token reg scope spec handler identity False)"

definition registry_register_protected ::
    "(json \<Rightarrow> bool) \<Rightarrow> ('h \<Rightarrow> bool) \<Rightarrow> string \<Rightarrow> 'h InMemoryToolRegistry \<Rightarrow> ToolSpec \<Rightarrow> 'h \<Rightarrow>
     ToolIdentity option \<Rightarrow> ('h InMemoryToolRegistry \<times> ToolRegistrationHandle) result" where
  "registry_register_protected check_schema callable token reg spec handler identity =
     result_bind
       (case identity of
          Some i \<Rightarrow> Return i
        | None \<Rightarrow> ToolIdentity_validate \<lparr>ti_namespace = ''suiteharness'', ti_name = ts_name spec,
                    ti_origin = ''suiteharness.framework'', ti_version = ''1''\<rparr>)
       (\<lambda>i. if ti_namespace i \<notin> PROTECTED_NAMESPACES
            then Raise (ValueError ''protected tools must use a reserved framework namespace'')
            else registry_register_at check_schema callable token reg root_path spec handler i True)"

definition registry_unregister ::
    "'h InMemoryToolRegistry \<Rightarrow> ScopePath \<Rightarrow> string \<Rightarrow> ToolRegistrationHandle \<Rightarrow>
     bool \<times> 'h InMemoryToolRegistry \<times> ToolRegistrationHandle" where
  "registry_unregister reg scope tool_name owner =
     (if th_registry owner \<noteq> tr_self reg then (False, reg, owner)
      else if th_scope owner \<noteq> scope \<or> th_tool_name owner \<noteq> tool_name then (False, reg, owner)
      else case dict_get (tr_items reg) (scope, tool_name) of
             None \<Rightarrow> (False, reg, owner)
           | Some current \<Rightarrow>
               if ren_registration_id current \<noteq> th_registration_id owner then (False, reg, owner)
               else (True,
                     reg\<lparr>tr_items := dict_pop (scope, tool_name) (tr_items reg),
                         tr_protected_names :=
                           (if ren_protected current \<and>
                               dict_get (tr_protected_names reg) tool_name =
                                 Some (ren_registration_id current)
                            then dict_pop tool_name (tr_protected_names reg)
                            else tr_protected_names reg)\<rparr>,
                     owner\<lparr>th_closed := True\<rparr>))"

definition handle_close ::
    "'h InMemoryToolRegistry \<Rightarrow> ToolRegistrationHandle \<Rightarrow>
     'h InMemoryToolRegistry \<times> ToolRegistrationHandle" where
  "handle_close reg h =
     (if th_closed h then (reg, h)
      else case registry_unregister reg (th_scope h) (th_tool_name h) h of (_, reg', h') \<Rightarrow> (reg', h'))"

text \<open>
  \<open>register_owned\<close>: the close of the new handle becomes an effect of the scope; when the scope
  refuses the effect, the registration is closed again and the exception goes on.
\<close>

definition registry_register_owned ::
    "(json \<Rightarrow> bool) \<Rightarrow> ('h \<Rightarrow> bool) \<Rightarrow> (ToolRegistrationHandle \<Rightarrow> 'd) \<Rightarrow> string \<Rightarrow>
     'h InMemoryToolRegistry \<Rightarrow> ScopePath \<Rightarrow> ('d, 'e) EffectScope \<Rightarrow> ToolSpec \<Rightarrow> 'h \<Rightarrow>
     (ToolRegistrationHandle \<times> ('d, 'e) EffectScope) result \<times> 'h InMemoryToolRegistry" where
  "registry_register_owned check_schema callable close_method token reg scope effects spec handler =
     (case registry_register check_schema callable token reg scope spec handler of
        Inl e \<Rightarrow> (Raise e, reg)
      | Inr (reg', h) \<Rightarrow>
          (case EffectScope_callback effects
                  (''tool-registration:'' @ kind_value (sp_kind scope) @ '':'' @ ts_name spec)
                  (close_method h) of
             Inr effects' \<Rightarrow> (Return (h, effects'), reg')
           | Inl e \<Rightarrow> (Raise e, fst (handle_close reg' h))))"

fun first_registered ::
    "(ScopePath \<times> string, 'h RegisteredEntry) dict \<Rightarrow> string \<Rightarrow> ScopePath list \<Rightarrow>
     'h RegisteredTool option" where
  "first_registered items name [] = None"
| "first_registered items name (c # cs) =
     (case dict_get items (c, name) of
        Some e \<Rightarrow> Some (ren_item e)
      | None \<Rightarrow> first_registered items name cs)"

definition registry_resolve ::
    "'h InMemoryToolRegistry \<Rightarrow> RequestScope \<Rightarrow> string \<Rightarrow> 'h RegisteredTool option" where
  "registry_resolve reg scope tool_name =
     first_registered (tr_items reg) tool_name (registration_candidates scope)"

section \<open>Reachable registries\<close>

inductive registry_step :: "'h InMemoryToolRegistry \<Rightarrow> 'h InMemoryToolRegistry \<Rightarrow> bool" where
  step_register: "registry_register cs cl tok reg scope spec h = Inr (reg', hnd) \<Longrightarrow>
     registry_step reg reg'"
| step_protected: "registry_register_protected cs cl tok reg spec h i = Inr (reg', hnd) \<Longrightarrow>
     registry_step reg reg'"
| step_unregister: "registry_unregister reg scope name owner = (b, reg', owner') \<Longrightarrow>
     registry_step reg reg'"

inductive registry_reachable :: "'h InMemoryToolRegistry \<Rightarrow> bool" where
  registry_start: "registry_reachable (empty_registry self)"
| registry_next: "registry_reachable reg \<Longrightarrow> registry_step reg reg' \<Longrightarrow> registry_reachable reg'"

section \<open>The invariant\<close>

definition entry_ok :: "ScopePath \<times> string \<Rightarrow> 'h RegisteredEntry \<Rightarrow> bool" where
  "entry_ok k e \<longleftrightarrow>
     rt_registration_scope (ren_item e) = fst k \<and> ts_name (rt_spec (ren_item e)) = snd k \<and>
     ti_name (rt_identity (ren_item e)) = snd k \<and> sp_kind (fst k) \<noteq> AGENT \<and>
     (ren_protected e \<longrightarrow> fst k = root_path) \<and>
     (ti_namespace (rt_identity (ren_item e)) \<in> PROTECTED_NAMESPACES) = ren_protected e"

definition entries_ok :: "(ScopePath \<times> string \<rightharpoonup> 'h RegisteredEntry) \<Rightarrow> bool" where
  "entries_ok m \<longleftrightarrow> (\<forall>k e. m k = Some e \<longrightarrow> entry_ok k e)"

definition identities_unique :: "(ScopePath \<times> string \<rightharpoonup> 'h RegisteredEntry) \<Rightarrow> bool" where
  "identities_unique m \<longleftrightarrow> (\<forall>k k' e e'. m k = Some e \<longrightarrow> m k' = Some e' \<longrightarrow>
     rt_identity (ren_item e) = rt_identity (ren_item e') \<longrightarrow> k = k')"

definition protected_agree ::
    "(ScopePath \<times> string \<rightharpoonup> 'h RegisteredEntry) \<Rightarrow> (string \<rightharpoonup> string) \<Rightarrow> bool" where
  "protected_agree m p \<longleftrightarrow> (\<forall>n rid. p n = Some rid \<longleftrightarrow>
     (\<exists>e. m (root_path, n) = Some e \<and> ren_protected e \<and> ren_registration_id e = rid))"

definition unshadowed ::
    "(ScopePath \<times> string \<rightharpoonup> 'h RegisteredEntry) \<Rightarrow> (string \<rightharpoonup> string) \<Rightarrow> bool" where
  "unshadowed m p \<longleftrightarrow> (\<forall>sc n. p n \<noteq> None \<longrightarrow> sp_kind sc \<noteq> ROOT \<longrightarrow> m (sc, n) = None)"

definition registry_inv :: "'h InMemoryToolRegistry \<Rightarrow> bool" where
  "registry_inv reg \<longleftrightarrow>
     dict_ok (tr_items reg) \<and> dict_ok (tr_protected_names reg) \<and>
     entries_ok (dict_get (tr_items reg)) \<and> identities_unique (dict_get (tr_items reg)) \<and>
     protected_agree (dict_get (tr_items reg)) (dict_get (tr_protected_names reg)) \<and>
     unshadowed (dict_get (tr_items reg)) (dict_get (tr_protected_names reg))"

lemmas registry_inv_parts =
  entries_ok_def identities_unique_def protected_agree_def unshadowed_def

lemma registry_inv_empty: "registry_inv (empty_registry self)"
  by (simp add: registry_inv_def empty_registry_def registry_inv_parts)

text \<open>What a successful registration checked and did.\<close>

lemma register_at_Inr:
  assumes "registry_register_at cs cl tok reg scope spec h i prot = Inr (reg', hnd)"
  shows "reg' = reg\<lparr>tr_items := dict_set (scope, ts_name spec)
             \<lparr>ren_item = \<lparr>rt_registration_scope = scope, rt_identity = i, rt_spec = spec, rt_handler = h\<rparr>,
              ren_registration_id = registration_id tok, ren_protected = prot\<rparr> (tr_items reg),
           tr_protected_names := (if prot then dict_set (ts_name spec) (registration_id tok)
             (tr_protected_names reg) else tr_protected_names reg)\<rparr>"
    and "dict_get (tr_items reg) (scope, ts_name spec) = None"
    and "\<not> list_ex (\<lambda>e. rt_identity (ren_item e) = i) (dict_values (tr_items reg))"
    and "sp_kind scope = ROOT \<or> dict_get (tr_protected_names reg) (ts_name spec) = None"
    and "prot \<Longrightarrow> \<not> list_ex (\<lambda>(s, n). n = ts_name spec \<and> sp_kind s \<noteq> ROOT) (dict_keys (tr_items reg))"
    and "sp_kind scope \<noteq> AGENT" and "ti_name i = ts_name spec"
    and "\<not> prot \<Longrightarrow> ti_namespace i \<notin> PROTECTED_NAMESPACES"
    and "hnd = \<lparr>th_registry = tr_self reg, th_scope = scope, th_tool_name = ts_name spec,
               th_registration_id = registration_id tok, th_identity = i, th_closed = False\<rparr>"
  using assms unfolding registry_register_at_def Let_def
  by (auto split: if_split_asm)

lemma no_identity:
  "\<not> list_ex (\<lambda>e. rt_identity (ren_item e) = i) (dict_values items) \<Longrightarrow> dict_get items k = Some e \<Longrightarrow>
     rt_identity (ren_item e) \<noteq> i"
  by (auto simp: list_ex_iff dest!: map_of_SomeD)

lemma no_shadow:
  "\<not> list_ex (\<lambda>(s, n). n = name \<and> sp_kind s \<noteq> ROOT) (dict_keys items) \<Longrightarrow> sp_kind sc \<noteq> ROOT \<Longrightarrow>
     dict_get items (sc, name) = None"
  by (auto simp: list_ex_iff map_of_eq_None_iff)

lemma register_at_inv:
  assumes inv: "registry_inv reg"
    and reg': "registry_register_at cs cl tok reg scope spec h i prot = Inr (reg', hnd)"
    and prot: "prot \<Longrightarrow> scope = root_path \<and> ti_namespace i \<in> PROTECTED_NAMESPACES"
  shows "registry_inv reg'"
proof -
  note facts = register_at_Inr [OF reg']
  let ?m = "dict_get (tr_items reg)" and ?p = "dict_get (tr_protected_names reg)"
  let ?k = "(scope, ts_name spec)"
  define e where "e = \<lparr>ren_item = \<lparr>rt_registration_scope = scope, rt_identity = i, rt_spec = spec,
    rt_handler = h\<rparr>, ren_registration_id = registration_id tok, ren_protected = prot\<rparr>"
  define p' where "p' = (if prot then ?p(ts_name spec \<mapsto> registration_id tok) else ?p)"
  have maps: "dict_get (tr_items reg') = ?m(?k \<mapsto> e)" "dict_get (tr_protected_names reg') = p'"
    by (simp_all add: facts(1) e_def p'_def)
  have e: "ren_protected e = prot" "ren_registration_id e = registration_id tok"
    "rt_identity (ren_item e) = i"
    by (simp_all add: e_def)
  have "entry_ok ?k e" using facts(6-8) prot by (auto simp: entry_ok_def e_def)
  then have "entries_ok (?m(?k \<mapsto> e))"
    using inv by (simp add: registry_inv_def entries_ok_def)
  moreover have "identities_unique (?m(?k \<mapsto> e))"
    using inv no_identity [OF facts(3)] e(3)
    unfolding registry_inv_def identities_unique_def by (metis fun_upd_other fun_upd_same option.inject)
  moreover have "protected_agree (?m(?k \<mapsto> e)) p'"
    using inv facts(2) prot e(1,2)
    by (cases prot) (auto simp: registry_inv_def protected_agree_def p'_def)
  moreover have "unshadowed (?m(?k \<mapsto> e)) p'"
    using inv facts(4) no_shadow [OF facts(5)] prot
    by (cases prot) (auto simp: registry_inv_def unshadowed_def p'_def)
  moreover have "dict_ok (tr_items reg')" and "dict_ok (tr_protected_names reg')"
    using inv by (auto simp: facts(1) registry_inv_def)
  ultimately show ?thesis by (simp add: registry_inv_def maps)
qed

lemma register_inv:
  assumes "registry_inv reg" and "registry_register cs cl tok reg scope spec h = Inr (reg', hnd)"
  shows "registry_inv reg'"
proof -
  obtain i where "registry_register_at cs cl tok reg scope spec h i False = Inr (reg', hnd)"
    using assms(2) unfolding registry_register_def result_bind_eq_Inr by blast
  from register_at_inv [OF assms(1) this] show ?thesis by simp
qed

lemma register_protected_Inr:
  assumes "registry_register_protected cs cl tok reg spec h i = Inr (reg', hnd)"
  obtains j where "registry_register_at cs cl tok reg root_path spec h j True = Inr (reg', hnd)"
    and "ti_namespace j \<in> PROTECTED_NAMESPACES"
  using assms unfolding registry_register_protected_def result_bind_eq_Inr
  by (metis Inl_Inr_False)

lemma register_protected_inv:
  assumes "registry_inv reg" and "registry_register_protected cs cl tok reg spec h i = Inr (reg', hnd)"
  shows "registry_inv reg'"
proof -
  obtain j where j: "registry_register_at cs cl tok reg root_path spec h j True = Inr (reg', hnd)"
    "ti_namespace j \<in> PROTECTED_NAMESPACES"
    using register_protected_Inr [OF assms(2)] by blast
  from register_at_inv [OF assms(1) j(1)] j(2) show ?thesis by simp
qed

lemma unregister_cases:
  assumes "registry_unregister reg scope name owner = (b, reg', owner')"
  obtains (refused) "\<not> b" and "reg' = reg" and "owner' = owner"
  | (removed) e where "b" and "dict_get (tr_items reg) (scope, name) = Some e"
      and "ren_registration_id e = th_registration_id owner" and "th_registry owner = tr_self reg"
      and "th_scope owner = scope" and "th_tool_name owner = name"
      and "reg' = reg\<lparr>tr_items := dict_pop (scope, name) (tr_items reg),
         tr_protected_names :=
           (if ren_protected e \<and> dict_get (tr_protected_names reg) name = Some (ren_registration_id e)
            then dict_pop name (tr_protected_names reg) else tr_protected_names reg)\<rparr>"
      and "owner' = owner\<lparr>th_closed := True\<rparr>"
proof (cases b)
  case True
  then show thesis
    using assms removed unfolding registry_unregister_def
    by (simp split: if_split_asm option.split_asm)
next
  case False
  then show thesis
    using assms refused unfolding registry_unregister_def
    by (simp split: if_split_asm option.split_asm)
qed

lemma unregister_inv:
  assumes inv: "registry_inv reg" and "registry_unregister reg scope name owner = (b, reg', owner')"
  shows "registry_inv reg'"
  using assms(2)
proof (cases rule: unregister_cases)
  case refused
  with inv show ?thesis by simp
next
  case (removed e)
  let ?m = "dict_get (tr_items reg)" and ?p = "dict_get (tr_protected_names reg)"
  define p' where "p' = (if ren_protected e \<and> ?p name = Some (ren_registration_id e)
                         then ?p(name := None) else ?p)"
  have maps: "dict_get (tr_items reg') = ?m((scope, name) := None)"
    "dict_get (tr_protected_names reg') = p'"
    by (simp_all add: removed(7) p'_def)
  have ok: "entry_ok (scope, name) e" using inv removed(2) by (simp add: registry_inv_def entries_ok_def)
  have agree: "?p n = Some rid \<longleftrightarrow>
      (\<exists>e. ?m (root_path, n) = Some e \<and> ren_protected e \<and> ren_registration_id e = rid)" for n rid
    using inv by (simp add: registry_inv_def protected_agree_def)
  have "protected_agree (?m((scope, name) := None)) p'"
  proof (cases "ren_protected e")
    case True
    then have "scope = root_path" using ok by (simp add: entry_ok_def)
    with True removed(2) agree have "?p name = Some (ren_registration_id e)" by blast
    with True \<open>scope = root_path\<close> agree show ?thesis
      by (auto simp: protected_agree_def p'_def)
  next
    case False
    with removed(2) agree show ?thesis by (auto simp: protected_agree_def p'_def)
  qed
  moreover have "entries_ok (?m((scope, name) := None))" "identities_unique (?m((scope, name) := None))"
    using inv by (simp_all add: registry_inv_def entries_ok_def identities_unique_def)
  moreover have "unshadowed (?m((scope, name) := None)) p'"
    using inv by (auto simp: registry_inv_def unshadowed_def p'_def)
  moreover have "dict_ok (tr_items reg')" and "dict_ok (tr_protected_names reg')"
    using inv by (auto simp: removed(7) registry_inv_def)
  ultimately show ?thesis by (simp add: registry_inv_def maps)
qed

lemma registry_step_inv: "registry_step reg reg' \<Longrightarrow> registry_inv reg \<Longrightarrow> registry_inv reg'"
  by (induction rule: registry_step.induct)
     (blast intro: register_inv register_protected_inv unregister_inv)+

lemma registry_reachable_inv: "registry_reachable reg \<Longrightarrow> registry_inv reg"
  by (induction rule: registry_reachable.induct)
     (blast intro: registry_inv_empty registry_step_inv)+

section \<open>Resolution\<close>

lemma first_registered_Some:
  "first_registered items n cs = Some t \<Longrightarrow>
     \<exists>c e. c \<in> set cs \<and> dict_get items (c, n) = Some e \<and> t = ren_item e"
  by (induction cs) (auto split: option.splits)

lemma resolve_Some:
  assumes "registry_resolve reg scope n = Some t" and "registry_inv reg"
  obtains e where "rt_registration_scope t \<in> set (registration_candidates scope)"
    and "dict_get (tr_items reg) (rt_registration_scope t, n) = Some e" and "t = ren_item e"
    and "ti_name (rt_identity t) = n" and "ts_name (rt_spec t) = n"
proof -
  obtain c e where c: "c \<in> set (registration_candidates scope)"
    "dict_get (tr_items reg) (c, n) = Some e" "t = ren_item e"
    using first_registered_Some assms(1) unfolding registry_resolve_def by blast
  with assms(2) have "entry_ok (c, n) e" by (simp add: registry_inv_def entries_ok_def)
  then have "rt_registration_scope t = c" "ti_name (rt_identity t) = n" "ts_name (rt_spec t) = n"
    using c(3) by (simp_all add: entry_ok_def)
  with c show ?thesis by (intro that) auto
qed

lemma resolve_protected:
  assumes "registry_inv reg" and "valid_request scope"
    and "dict_get (tr_protected_names reg) n = Some rid"
  shows "\<exists>e. dict_get (tr_items reg) (root_path, n) = Some e \<and> ren_protected e \<and>
           ren_registration_id e = rid \<and> registry_resolve reg scope n = Some (ren_item e)"
proof -
  obtain e where e: "dict_get (tr_items reg) (root_path, n) = Some e" "ren_protected e"
    "ren_registration_id e = rid"
    using assms(1,3) by (auto simp: registry_inv_def protected_agree_def)
  have none: "dict_get (tr_items reg) (sc, n) = None" if "sp_kind sc \<noteq> ROOT" for sc
    using assms(1,3) that by (auto simp: registry_inv_def unshadowed_def)
  have "registry_resolve reg scope n = Some (ren_item e)"
    using e(1) by (simp add: registry_resolve_def registration_candidates_eq [OF assms(2)] none)
  with e show ?thesis by blast
qed

section \<open>The contract of a tool registry\<close>

text \<open>
  What the runner relies on of a registry in a state that satisfies its invariant: a tool found
  under a name carries that name in its identity and its specification, and is registered at one
  of the scopes visible from the request.
\<close>

locale tool_source =
  fixes ok :: "'s \<Rightarrow> bool"
    and lookup :: "'s \<Rightarrow> RequestScope \<Rightarrow> string \<Rightarrow> 'h RegisteredTool option"
  assumes lookup_named: "ok s \<Longrightarrow> lookup s sc n = Some r \<Longrightarrow>
      ti_name (rt_identity r) = n \<and> ts_name (rt_spec r) = n"
    and lookup_visible: "ok s \<Longrightarrow> lookup s sc n = Some r \<Longrightarrow>
      rt_registration_scope r \<in> set (registration_candidates sc)"

interpretation in_memory_tools: tool_source registry_inv registry_resolve
  by unfold_locales (auto elim: resolve_Some)

section \<open>Properties\<close>

definition sample_spec :: ToolSpec where
  "sample_spec = \<lparr>ts_name = ''look'', ts_description = '''', ts_effects = {READ}, ts_required_capabilities = {},
     ts_input_schema = JObj []\<rparr>"

definition sample_registry :: "unit InMemoryToolRegistry" where
  "sample_registry =
     (case registry_register_protected (\<lambda>_. True) (\<lambda>_. True) ''k'' (empty_registry 0) sample_spec () None of
        Inr (reg, _) \<Rightarrow> reg | Inl _ \<Rightarrow> empty_registry 0)"

definition sample_scope :: RequestScope where
  "sample_scope = \<lparr>rs_path = product_path (Some ''acme'') (Some ''shop''), rs_principal_id = ''alice'',
     rs_channel_id = ''web'', rs_roles = {}, rs_purpose = ''test'', rs_request_id = ''r1'',
     rs_correlation_id = ''c1'', rs_session_owner_id = None\<rparr>"

lemma sample_registry_reachable: "registry_reachable sample_registry"
  by (auto simp: sample_registry_def intro: registry_reachable.intros step_protected split: sum.splits)

text \<open>
  A protected framework tool cannot be shadowed: in every reachable registry a name with a
  protected registration resolves to that registration, at the root, for every valid request.
\<close>

theorem protected_tool_not_shadowed:
  assumes "registry_reachable reg" and "valid_request scope"
    and "dict_get (tr_protected_names reg) n = Some rid"
  shows "\<exists>e. dict_get (tr_items reg) (root_path, n) = Some e \<and> ren_protected e \<and>
           ren_registration_id e = rid \<and> registry_resolve reg scope n = Some (ren_item e)"
  using registry_reachable_inv [OF assms(1)] assms(2,3) by (rule resolve_protected)

theorem protected_tool_not_shadowed_witness:
  "\<exists>e. dict_get (tr_items sample_registry) (root_path, ''look'') = Some e \<and> ren_protected e \<and>
      registry_resolve sample_registry sample_scope ''look'' = Some (ren_item e)"
proof -
  have "dict_get (tr_protected_names sample_registry) ''look'' = Some ''registration-k''" by code_simp
  moreover have "valid_request sample_scope" by code_simp
  ultimately show ?thesis using protected_tool_not_shadowed [OF sample_registry_reachable] by blast
qed

text \<open>
  In every reachable registry no two registrations share an identity, a registration carries
  the name and scope it is stored under, and the reserved namespaces belong to protected
  registrations at the root only: an identity in a grant denotes one tool.
\<close>

theorem identities_denote_one_tool:
  assumes "registry_reachable reg"
    and "dict_get (tr_items reg) k = Some e" and "dict_get (tr_items reg) k' = Some e'"
    and "rt_identity (ren_item e) = rt_identity (ren_item e')"
  shows "k = k' \<and> k = (rt_registration_scope (ren_item e), ti_name (rt_identity (ren_item e))) \<and>
     (ti_namespace (rt_identity (ren_item e)) \<in> PROTECTED_NAMESPACES \<longrightarrow> ren_protected e \<and> fst k = root_path)"
proof -
  have inv: "registry_inv reg" using assms(1) by (rule registry_reachable_inv)
  then have "k = k'"
    using assms(2-4) by (cases k; cases k') (auto simp: registry_inv_def identities_unique_def)
  moreover have "entry_ok k e" using inv assms(2) by (cases k) (simp add: registry_inv_def entries_ok_def)
  ultimately show ?thesis by (auto simp: entry_ok_def intro: prod_eqI)
qed

theorem identities_denote_one_tool_witness:
  "\<exists>e. dict_get (tr_items sample_registry) (root_path, ''look'') = Some e \<and> ren_protected e \<and>
      ti_name (rt_identity (ren_item e)) = ''look''"
proof -
  have "map_option (\<lambda>e. ti_namespace (rt_identity (ren_item e)))
      (dict_get (tr_items sample_registry) (root_path, ''look'')) = Some ''suiteharness''" by code_simp
  then obtain e where e: "dict_get (tr_items sample_registry) (root_path, ''look'') = Some e"
    and ns: "ti_namespace (rt_identity (ren_item e)) = ''suiteharness''" by auto
  from identities_denote_one_tool [OF sample_registry_reachable e e] e ns show ?thesis
    by (auto simp: PROTECTED_NAMESPACES_def)
qed

text \<open>
  A handle removes its own registration and nothing else; a handle of another registry, scope
  or name, or one whose registration was replaced, removes nothing.
\<close>

theorem unregister_own_only:
  "case registry_unregister reg scope name owner of (removed, reg', owner') \<Rightarrow>
     (\<forall>k. dict_get (tr_items reg') k =
        (if removed \<and> k = (scope, name) then None else dict_get (tr_items reg) k)) \<and>
     (removed \<longleftrightarrow> th_registry owner = tr_self reg \<and> th_scope owner = scope \<and> th_tool_name owner = name \<and>
        (\<exists>e. dict_get (tr_items reg) (scope, name) = Some e \<and> ren_registration_id e = th_registration_id owner))"
  by (auto simp: registry_unregister_def split: option.splits)

end
