(* ===== verification/Run_Programs.thy ===== *)
theory Run_Programs
  imports Tool_Registry
begin

text \<open>
  The coroutines of the execution runner. An \<open>async\<close> method of
  \<^verbatim>\<open>src/suiteharness/execution/runner.py\<close> is a program: a tree that asks its surroundings one
  question at a time (a clock reading, a registry lookup, an awaited call of the authority, the
  approval store, the journal, a handler or a strategy) and goes on with the answer. Nothing is
  fixed about who answers, so whatever other tasks do while the program is suspended is covered:
  their effect is visible only through later answers. An awaited call may also answer with an
  exception, \<open>CancelledError\<close> included.

  \<open>drive\<close> runs a program against a deterministic surrounding, \<open>guarantee\<close> is the rely and
  guarantee triple the properties are proved with.
\<close>

section \<open>Questions and answers\<close>

datatype rexn =
    CancelledError
  | HandlerDeniedError
  | JsonSchemaValidationError
  | ValueOrTypeError
  | OtherException

type_synonym 'a answered = "rexn + 'a"

record ToolCallContext =
  tc_scope :: RequestScope
  tc_run_id :: string
  tc_call_id :: string
  tc_tool_identity :: ToolIdentity
  tc_tool :: ToolSpec
  tc_remaining :: duration
  tc_grant_id :: "string option"
  tc_read_only :: bool

datatype stream_item =
    StreamDecision WorkflowDecision
  | StreamEvent string string "(string \<times> json) list"
  | StreamOther

datatype 'h ask =
    Now
  | Monotonic
  | ResolveTool RequestScope string
  | ResolveGrant string
  | Append AuditEvent
  | Publish string string json
  | Validate "'h RegisteredTool" json
  | Evaluate RunRequest ToolIdentity ToolSpec json
  | Consume string ApprovalTarget
  | RequestApproval RunRequest ApprovalTarget ToolSpec json
  | CallHandler "'h RegisteredTool" ToolCallContext json
  | PutResult RequestScope string string
  | TakeIterationAsk
  | TakeToolSlotsAsk int
  | Render RunRequest WorkflowFrame
  | ResumeKey RunRequest WorkflowFrame "PromptEnvelope option"
  | Workflow RunRequest WorkflowFrame "PromptEnvelope option"
  | Reflect RunRequest WorkflowFrame WorkflowDecision
  | ExecuteBatch "(ToolIntent \<times> bool) list" int

text \<open>
  \<open>AJson (Inr None)\<close> is a handler's value that is not JSON, \<open>AAuth (Inr None)\<close>, \<open>APrompt (Inr None)\<close>
  and \<open>ADecision (Inr None)\<close> are values of the wrong class.
\<close>

datatype 'h answer =
    ATime int
  | ATool "'h RegisteredTool option"
  | AGrant "CapabilityGrant option answered"
  | AUnit "unit answered"
  | AAuth "ToolAuthorization option answered"
  | ABinding "ApprovalBinding option answered"
  | AJson "json option answered"
  | AReference "json answered"
  | AFlag bool
  | ACount int
  | APrompt "PromptEnvelope option answered"
  | AKey "string option answered"
  | AStream "stream_item list" "rexn option"
  | ADecision "WorkflowDecision option answered"
  | AObservations "ToolObservation list answered"

type_synonym 'h exchange = "'h ask \<times> 'h answer"

fun answers :: "'h ask \<Rightarrow> 'h answer \<Rightarrow> bool" where
  "answers Now a = (case a of ATime _ \<Rightarrow> True | _ \<Rightarrow> False)"
| "answers Monotonic a = (case a of ATime _ \<Rightarrow> True | _ \<Rightarrow> False)"
| "answers (ResolveTool _ _) a = (case a of ATool _ \<Rightarrow> True | _ \<Rightarrow> False)"
| "answers (ResolveGrant _) a = (case a of AGrant _ \<Rightarrow> True | _ \<Rightarrow> False)"
| "answers (Append _) a = (case a of AUnit _ \<Rightarrow> True | _ \<Rightarrow> False)"
| "answers (Publish _ _ _) a = (case a of AUnit _ \<Rightarrow> True | _ \<Rightarrow> False)"
| "answers (Validate _ _) a = (case a of AUnit _ \<Rightarrow> True | _ \<Rightarrow> False)"
| "answers (Evaluate _ _ _ _) a = (case a of AAuth _ \<Rightarrow> True | _ \<Rightarrow> False)"
| "answers (Consume _ _) a = (case a of ABinding _ \<Rightarrow> True | _ \<Rightarrow> False)"
| "answers (RequestApproval _ _ _ _) a = (case a of ABinding _ \<Rightarrow> True | _ \<Rightarrow> False)"
| "answers (CallHandler _ _ _) a = (case a of AJson _ \<Rightarrow> True | _ \<Rightarrow> False)"
| "answers (PutResult _ _ _) a = (case a of AReference _ \<Rightarrow> True | _ \<Rightarrow> False)"
| "answers TakeIterationAsk a = (case a of AFlag _ \<Rightarrow> True | _ \<Rightarrow> False)"
| "answers (TakeToolSlotsAsk _) a = (case a of ACount _ \<Rightarrow> True | _ \<Rightarrow> False)"
| "answers (Render _ _) a = (case a of APrompt _ \<Rightarrow> True | _ \<Rightarrow> False)"
| "answers (ResumeKey _ _ _) a = (case a of AKey _ \<Rightarrow> True | _ \<Rightarrow> False)"
| "answers (Workflow _ _ _) a = (case a of AStream _ _ \<Rightarrow> True | _ \<Rightarrow> False)"
| "answers (Reflect _ _ _) a = (case a of ADecision _ \<Rightarrow> True | _ \<Rightarrow> False)"
| "answers (ExecuteBatch _ _) a = (case a of AObservations _ \<Rightarrow> True | _ \<Rightarrow> False)"

section \<open>Programs\<close>

datatype ('h, 'r) prog =
    Ret 'r
  | Throw rexn
  | Ask "'h ask" "'h answer \<Rightarrow> ('h, 'r) prog"

primrec prog_bind :: "('h, 'a) prog \<Rightarrow> ('a \<Rightarrow> ('h, 'b) prog) \<Rightarrow> ('h, 'b) prog" where
  "prog_bind (Ret x) f = f x"
| "prog_bind (Throw e) f = Throw e"
| "prog_bind (Ask q k) f = Ask q (\<lambda>a. prog_bind (k a) f)"

primrec try_except :: "('h, 'a) prog \<Rightarrow> (rexn \<Rightarrow> ('h, 'a) prog) \<Rightarrow> ('h, 'a) prog" where
  "try_except (Ret x) f = Ret x"
| "try_except (Throw e) f = f e"
| "try_except (Ask q k) f = Ask q (\<lambda>a. try_except (k a) f)"

text \<open>\<open>except Exception\<close> does not catch \<open>CancelledError\<close>.\<close>

definition except_Exception :: "('h, 'a) prog \<Rightarrow> ('h, 'a) prog \<Rightarrow> ('h, 'a) prog" where
  "except_Exception p q = try_except p (\<lambda>e. if e = CancelledError then Throw e else q)"

definition lift_answered :: "'a answered \<Rightarrow> ('h, 'a) prog" where
  "lift_answered r = (case r of Inl e \<Rightarrow> Throw e | Inr x \<Rightarrow> Ret x)"

text \<open>A pydantic model that does not validate raises \<open>ValidationError\<close>, a \<open>ValueError\<close>.\<close>

definition lift_result :: "'a result \<Rightarrow> ('h, 'a) prog" where
  "lift_result r = (case r of Inl e \<Rightarrow> Throw ValueOrTypeError | Inr x \<Rightarrow> Ret x)"

definition ask_time :: "'h ask \<Rightarrow> ('h, int) prog" where
  "ask_time q = Ask q (\<lambda>a. case a of ATime t \<Rightarrow> Ret t | _ \<Rightarrow> Throw OtherException)"

definition ask_tool :: "RequestScope \<Rightarrow> string \<Rightarrow> ('h, 'h RegisteredTool option) prog" where
  "ask_tool sc name = Ask (ResolveTool sc name) (\<lambda>a. case a of ATool t \<Rightarrow> Ret t | _ \<Rightarrow> Throw OtherException)"

definition ask_grant :: "string \<Rightarrow> ('h, CapabilityGrant option) prog" where
  "ask_grant g = Ask (ResolveGrant g) (\<lambda>a. case a of AGrant r \<Rightarrow> lift_answered r | _ \<Rightarrow> Throw OtherException)"

definition ask_unit :: "'h ask \<Rightarrow> ('h, unit) prog" where
  "ask_unit q = Ask q (\<lambda>a. case a of AUnit r \<Rightarrow> lift_answered r | _ \<Rightarrow> Throw OtherException)"

definition ask_auth :: "RunRequest \<Rightarrow> ToolIdentity \<Rightarrow> ToolSpec \<Rightarrow> json \<Rightarrow> ('h, ToolAuthorization option) prog" where
  "ask_auth rq i spec args =
     Ask (Evaluate rq i spec args) (\<lambda>a. case a of AAuth r \<Rightarrow> lift_answered r | _ \<Rightarrow> Throw OtherException)"

definition ask_binding :: "'h ask \<Rightarrow> ('h, ApprovalBinding option) prog" where
  "ask_binding q = Ask q (\<lambda>a. case a of ABinding r \<Rightarrow> lift_answered r | _ \<Rightarrow> Throw OtherException)"

definition ask_json :: "'h ask \<Rightarrow> ('h, json option) prog" where
  "ask_json q = Ask q (\<lambda>a. case a of AJson r \<Rightarrow> lift_answered r | _ \<Rightarrow> Throw OtherException)"

definition ask_reference :: "'h ask \<Rightarrow> ('h, json) prog" where
  "ask_reference q = Ask q (\<lambda>a. case a of AReference r \<Rightarrow> lift_answered r | _ \<Rightarrow> Throw OtherException)"

definition ask_flag :: "'h ask \<Rightarrow> ('h, bool) prog" where
  "ask_flag q = Ask q (\<lambda>a. case a of AFlag b \<Rightarrow> Ret b | _ \<Rightarrow> Throw OtherException)"

definition ask_count :: "'h ask \<Rightarrow> ('h, int) prog" where
  "ask_count q = Ask q (\<lambda>a. case a of ACount n \<Rightarrow> Ret n | _ \<Rightarrow> Throw OtherException)"

definition ask_prompt :: "'h ask \<Rightarrow> ('h, PromptEnvelope option) prog" where
  "ask_prompt q = Ask q (\<lambda>a. case a of APrompt r \<Rightarrow> lift_answered r | _ \<Rightarrow> Throw OtherException)"

definition ask_key :: "'h ask \<Rightarrow> ('h, string option) prog" where
  "ask_key q = Ask q (\<lambda>a. case a of AKey r \<Rightarrow> lift_answered r | _ \<Rightarrow> Throw OtherException)"

definition ask_stream :: "'h ask \<Rightarrow> ('h, stream_item list \<times> rexn option) prog" where
  "ask_stream q = Ask q (\<lambda>a. case a of AStream items e \<Rightarrow> Ret (items, e) | _ \<Rightarrow> Throw OtherException)"

definition ask_decision :: "'h ask \<Rightarrow> ('h, WorkflowDecision option) prog" where
  "ask_decision q = Ask q (\<lambda>a. case a of ADecision r \<Rightarrow> lift_answered r | _ \<Rightarrow> Throw OtherException)"

definition ask_observations :: "'h ask \<Rightarrow> ('h, ToolObservation list) prog" where
  "ask_observations q = Ask q (\<lambda>a. case a of AObservations r \<Rightarrow> lift_answered r | _ \<Rightarrow> Throw OtherException)"

text \<open>A \<open>for\<close> loop that collects one value per element.\<close>

fun for_each :: "'a list \<Rightarrow> ('a \<Rightarrow> ('h, 'b) prog) \<Rightarrow> ('h, 'b list) prog" where
  "for_each [] f = Ret []"
| "for_each (x # xs) f = prog_bind (f x) (\<lambda>y. prog_bind (for_each xs f) (\<lambda>ys. Ret (y # ys)))"

section \<open>Running a program\<close>

text \<open>
  A surrounding answers from the questions and answers so far. Every sequence of well-typed
  answers is given by some surrounding.
\<close>

type_synonym 'h surrounding = "'h exchange list \<Rightarrow> 'h ask \<Rightarrow> 'h answer"

primrec drive :: "'h surrounding \<Rightarrow> ('h, 'r) prog \<Rightarrow> 'h exchange list \<Rightarrow> 'r answered \<times> 'h exchange list" where
  "drive env (Ret x) h = (Inr x, h)"
| "drive env (Throw e) h = (Inl e, h)"
| "drive env (Ask q k) h = (drive env (k (env h q)) (h @ [(q, env h q)]))"

named_theorems drive_simps

lemma drive_bind [drive_simps]:
  "drive env (prog_bind p f) h =
     (case drive env p h of (r, h') \<Rightarrow> (case r of Inl e \<Rightarrow> (Inl e, h') | Inr x \<Rightarrow> drive env (f x) h'))"
  by (induction p arbitrary: h) simp_all

lemma drive_try [drive_simps]:
  "drive env (try_except p f) h =
     (case drive env p h of (r, h') \<Rightarrow> (case r of Inl e \<Rightarrow> drive env (f e) h' | Inr x \<Rightarrow> (Inr x, h')))"
  by (induction p arbitrary: h) simp_all

lemma drive_Let [drive_simps]: "drive env (Let x f) h = drive env (f x) h"
  by simp

lemma drive_if [drive_simps]: "drive env (if b then p else q) h = (if b then drive env p h else drive env q h)"
  by simp

lemma drive_cong: "p = p' \<Longrightarrow> drive env p h = drive env p' h"
  by simp

definition well_typed :: "'h surrounding \<Rightarrow> bool" where
  "well_typed env \<longleftrightarrow> (\<forall>h q. answers q (env h q))"

section \<open>Guarantees\<close>

text \<open>
  \<open>guarantee R G Q E h p\<close>: run after the history \<open>h\<close> in a surrounding whose every answer is well
  typed and satisfies \<open>R\<close>, the program asks a question \<open>q\<close> after history \<open>h'\<close> only when \<open>G h' q\<close>,
  returns \<open>x\<close> only in a history with \<open>Q x\<close> and raises \<open>e\<close> only in one with \<open>E e\<close>.
\<close>

primrec guarantee ::
    "('h exchange list \<Rightarrow> 'h ask \<Rightarrow> 'h answer \<Rightarrow> bool) \<Rightarrow> ('h exchange list \<Rightarrow> 'h ask \<Rightarrow> bool) \<Rightarrow>
     ('r \<Rightarrow> 'h exchange list \<Rightarrow> bool) \<Rightarrow> (rexn \<Rightarrow> 'h exchange list \<Rightarrow> bool) \<Rightarrow>
     'h exchange list \<Rightarrow> ('h, 'r) prog \<Rightarrow> bool" where
  "guarantee R G Q E h (Ret x) = Q x h"
| "guarantee R G Q E h (Throw e) = E e h"
| "guarantee R G Q E h (Ask q k) =
     (G h q \<and> (\<forall>a. answers q a \<longrightarrow> R h q a \<longrightarrow> guarantee R G Q E (h @ [(q, a)]) (k a)))"

lemma guarantee_bind [simp]:
  "guarantee R G Q E h (prog_bind p f) = guarantee R G (\<lambda>x h'. guarantee R G Q E h' (f x)) E h p"
  by (induction p arbitrary: h) simp_all

lemma guarantee_try [simp]:
  "guarantee R G Q E h (try_except p f) = guarantee R G Q (\<lambda>e h'. guarantee R G Q E h' (f e)) h p"
  by (induction p arbitrary: h) simp_all

lemma guarantee_mono:
  assumes "guarantee R G Q E h p"
    and "\<And>x h'. Q x h' \<Longrightarrow> Q' x h'" and "\<And>e h'. E e h' \<Longrightarrow> E' e h'"
  shows "guarantee R G Q' E' h p"
  using assms by (induction p arbitrary: h) auto

lemma guarantee_except [simp]:
  "guarantee R G Q E h (except_Exception p q) =
     guarantee R G Q (\<lambda>e h'. if e = CancelledError then E e h' else guarantee R G Q E h' q) h p"
  by (simp add: except_Exception_def if_distrib [of "guarantee R G Q E _"] cong: if_cong)

lemma guarantee_lift_answered [simp]:
  "guarantee R G Q E h (lift_answered r) = (case r of Inl e \<Rightarrow> E e h | Inr x \<Rightarrow> Q x h)"
  by (simp add: lift_answered_def split: sum.split)

lemma guarantee_lift_result [simp]:
  "guarantee R G Q E h (lift_result r) = (case r of Inl e \<Rightarrow> E ValueOrTypeError h | Inr x \<Rightarrow> Q x h)"
  by (simp add: lift_result_def split: sum.split)

lemma all_answers [simp]:
  "(\<forall>a. (case a of ATime x \<Rightarrow> True | _ \<Rightarrow> False) \<longrightarrow> P a) = (\<forall>x. P (ATime x))"
  "(\<forall>a. (case a of ATool x \<Rightarrow> True | _ \<Rightarrow> False) \<longrightarrow> P a) = (\<forall>x. P (ATool x))"
  "(\<forall>a. (case a of AGrant x \<Rightarrow> True | _ \<Rightarrow> False) \<longrightarrow> P a) = (\<forall>x. P (AGrant x))"
  "(\<forall>a. (case a of AUnit x \<Rightarrow> True | _ \<Rightarrow> False) \<longrightarrow> P a) = (\<forall>x. P (AUnit x))"
  "(\<forall>a. (case a of AAuth x \<Rightarrow> True | _ \<Rightarrow> False) \<longrightarrow> P a) = (\<forall>x. P (AAuth x))"
  "(\<forall>a. (case a of ABinding x \<Rightarrow> True | _ \<Rightarrow> False) \<longrightarrow> P a) = (\<forall>x. P (ABinding x))"
  "(\<forall>a. (case a of AJson x \<Rightarrow> True | _ \<Rightarrow> False) \<longrightarrow> P a) = (\<forall>x. P (AJson x))"
  "(\<forall>a. (case a of AReference x \<Rightarrow> True | _ \<Rightarrow> False) \<longrightarrow> P a) = (\<forall>x. P (AReference x))"
  "(\<forall>a. (case a of AFlag b \<Rightarrow> True | _ \<Rightarrow> False) \<longrightarrow> P a) = (\<forall>b. P (AFlag b))"
  "(\<forall>a. (case a of ACount n \<Rightarrow> True | _ \<Rightarrow> False) \<longrightarrow> P a) = (\<forall>n. P (ACount n))"
  "(\<forall>a. (case a of APrompt x \<Rightarrow> True | _ \<Rightarrow> False) \<longrightarrow> P a) = (\<forall>x. P (APrompt x))"
  "(\<forall>a. (case a of AKey x \<Rightarrow> True | _ \<Rightarrow> False) \<longrightarrow> P a) = (\<forall>x. P (AKey x))"
  "(\<forall>a. (case a of AStream x y \<Rightarrow> True | _ \<Rightarrow> False) \<longrightarrow> P a) = (\<forall>x y. P (AStream x y))"
  "(\<forall>a. (case a of ADecision x \<Rightarrow> True | _ \<Rightarrow> False) \<longrightarrow> P a) = (\<forall>x. P (ADecision x))"
  "(\<forall>a. (case a of AObservations x \<Rightarrow> True | _ \<Rightarrow> False) \<longrightarrow> P a) = (\<forall>x. P (AObservations x))"
  by (rule iffI; (intro allI impI | simp split: answer.splits); simp split: answer.splits)+

lemmas ask_defs = ask_time_def ask_tool_def ask_grant_def ask_unit_def ask_auth_def ask_binding_def
  ask_json_def ask_reference_def ask_flag_def ask_count_def ask_prompt_def ask_key_def ask_stream_def
  ask_decision_def ask_observations_def

text \<open>
  What a guarantee means for a run in which the surrounding kept \<open>R\<close>: every question asked was
  allowed when it was asked, and the outcome satisfies the postcondition.
\<close>

fun along ::
    "('h exchange list \<Rightarrow> 'h ask \<Rightarrow> 'h answer \<Rightarrow> bool) \<Rightarrow> 'h exchange list \<Rightarrow> 'h exchange list \<Rightarrow> bool" where
  "along R h [] = True"
| "along R h ((q, a) # es) = (R h q a \<and> along R (h @ [(q, a)]) es)"

lemma along_trivial [simp]: "along (\<lambda>_ _ _. True) h es"
  by (induction es arbitrary: h) auto

lemma along_at: "along R h (es1 @ (q, a) # es2) \<Longrightarrow> R (h @ es1) q a"
  by (induction es1 arbitrary: h) fastforce+

lemma along_member: "along R h es \<Longrightarrow> (q, a) \<in> set es \<Longrightarrow> \<exists>h'. R h' q a"
  by (induction R h es rule: along.induct) auto

lemma drive_extends: "drive env p h = (r, h') \<Longrightarrow> \<exists>es. h' = h @ es"
  by (induction p arbitrary: h) fastforce+

lemma drive_Ask:
  assumes "drive env (Ask q k) h = (r, h @ es)"
  obtains es' where "es = (q, env h q) # es'"
    and "drive env (k (env h q)) (h @ [(q, env h q)]) = (r, (h @ [(q, env h q)]) @ es')"
proof -
  have step: "drive env (k (env h q)) (h @ [(q, env h q)]) = (r, h @ es)" using assms by simp
  then obtain es' where "h @ es = (h @ [(q, env h q)]) @ es'" using drive_extends by blast
  with step that show thesis by auto
qed

lemma guarantee_drive:
  assumes "guarantee R G Q E h p" and "well_typed env" and "drive env p h = (r, h @ es)" and "along R h es"
  shows "case r of Inl e \<Rightarrow> E e (h @ es) | Inr x \<Rightarrow> Q x (h @ es)"
  using assms
proof (induction p arbitrary: h es)
  case (Ask q k)
  from Ask.prems(3) obtain es' where es': "es = (q, env h q) # es'"
    "drive env (k (env h q)) (h @ [(q, env h q)]) = (r, (h @ [(q, env h q)]) @ es')"
    by (rule drive_Ask)
  with Ask.prems have "guarantee R G Q E (h @ [(q, env h q)]) (k (env h q))"
    by (simp add: well_typed_def)
  from Ask.IH [OF _ this Ask.prems(2) es'(2)] Ask.prems(4) es'(1) show ?case by (cases r) simp_all
qed auto

lemma guarantee_asked:
  assumes "guarantee R G Q E h p" and "well_typed env" and "drive env p h = (r, h @ es)" and "along R h es"
    and "es = es1 @ (q, a) # es2"
  shows "G (h @ es1) q"
  using assms
proof (induction p arbitrary: h es es1)
  case (Ask q' k)
  let ?a = "env h q'"
  from Ask.prems(3) obtain es' where es': "es = (q', ?a) # es'"
    "drive env (k ?a) (h @ [(q', ?a)]) = (r, (h @ [(q', ?a)]) @ es')" by (rule drive_Ask)
  show ?case
  proof (cases es1)
    case Nil
    with Ask.prems es' show ?thesis by simp
  next
    case (Cons e es1')
    with es' Ask.prems(5) have split: "es' = es1' @ (q, a) # es2" and e: "e = (q', ?a)" by auto
    have "guarantee R G Q E (h @ [(q', ?a)]) (k ?a)"
      using Ask.prems(1,2,4) es'(1) by (simp add: well_typed_def)
    from Ask.IH [OF _ this Ask.prems(2) es'(2) _ split] Ask.prems(4) es'(1)
    have "G ((h @ [(q', ?a)]) @ es1') q" by simp
    with Cons e show ?thesis by simp
  qed
qed simp_all

end
