(* ===== verification/Runner.thy ===== *)
theory Runner
  imports Run_Programs
begin

text \<open>
  \<^verbatim>\<open>src/suiteharness/execution/runner.py\<close>, the guards and the execution of one tool call. Each
  method of \<open>ExecutionRunner\<close> that awaits or reads a clock is a program of
  \<^theory_text>\<open>Run_Programs\<close>, in the order of its statements: every guard, early return and audit event of
  the source is there. The replaceable collaborators (registry, authority, approval store,
  journal, policy, handlers) are the questions of the program. Arguments and results are values,
  so a handler cannot change what the runner holds.
\<close>

section \<open>Policy and configuration\<close>

record ExecutionPolicy =
  ep_approval_effects :: "ToolEffect set"
  ep_max_run_input_bytes :: int
  ep_max_tool_argument_bytes :: int
  ep_max_tool_result_bytes :: int
  ep_max_final_output_bytes :: int
  ep_max_workflow_state_bytes :: int
  ep_max_iterations :: int
  ep_max_tool_calls :: int
  ep_max_parallel_calls :: int
  ep_max_timeout :: duration

definition default_policy :: ExecutionPolicy where
  "default_policy = \<lparr>ep_approval_effects = {WRITE, DESTRUCTIVE, EXTERNAL},
     ep_max_run_input_bytes = 256 * 1024, ep_max_tool_argument_bytes = 256 * 1024,
     ep_max_tool_result_bytes = 1024 * 1024, ep_max_final_output_bytes = 1024 * 1024,
     ep_max_workflow_state_bytes = 256 * 1024, ep_max_iterations = 16, ep_max_tool_calls = 32,
     ep_max_parallel_calls = 4, ep_max_timeout = 120 * second\<rparr>"

definition in_range :: "string \<Rightarrow> int \<Rightarrow> int \<Rightarrow> unit result" where
  "in_range name maximum v =
     (if v < 1 \<or> maximum < v
      then Raise (ValueError (name @ '' must be between 1 and '' @ show_int maximum)) else Return ())"

definition MB :: int where "MB = 1024 * 1024"

definition ExecutionPolicy_post_init :: "ExecutionPolicy \<Rightarrow> ExecutionPolicy result" where
  "ExecutionPolicy_post_init p =
     (let p' = p\<lparr>ep_approval_effects := ep_approval_effects p \<union> {DESTRUCTIVE}\<rparr> in
      result_bind (in_range ''max_run_input_bytes'' (8 * MB) (ep_max_run_input_bytes p)) (\<lambda>_.
      result_bind (in_range ''max_tool_argument_bytes'' (8 * MB) (ep_max_tool_argument_bytes p)) (\<lambda>_.
      result_bind (in_range ''max_tool_result_bytes'' (32 * MB) (ep_max_tool_result_bytes p)) (\<lambda>_.
      result_bind (in_range ''max_final_output_bytes'' (32 * MB) (ep_max_final_output_bytes p)) (\<lambda>_.
      result_bind (in_range ''max_workflow_state_bytes'' (8 * MB) (ep_max_workflow_state_bytes p)) (\<lambda>_.
      result_bind (in_range ''max_iterations'' 10000 (ep_max_iterations p)) (\<lambda>_.
      result_bind (in_range ''max_tool_calls'' 100000 (ep_max_tool_calls p)) (\<lambda>_.
      result_bind (in_range ''max_parallel_calls'' 1024 (ep_max_parallel_calls p)) (\<lambda>_.
        if ep_max_timeout p \<le> 0 \<or> 86400 * second < ep_max_timeout p
        then Raise (ValueError ''max_timeout_seconds must be between 0 and 86400'')
        else Return p')))))))))"

definition requires_approval :: "ExecutionPolicy \<Rightarrow> ToolSpec \<Rightarrow> bool" where
  "requires_approval p spec \<longleftrightarrow> ts_effects spec \<inter> ep_approval_effects p \<noteq> {}"

text \<open>
  What the constructor of \<open>ExecutionRunner\<close> was given: the policy, and which of the optional
  collaborators are present. \<open>rc_sha\<close> is \<open>sha256(...).hexdigest()\<close> and \<open>rc_time\<close> the form in which
  pydantic dumps a timestamp.
\<close>

record RunnerConfig =
  rc_policy :: ExecutionPolicy
  rc_authorization_policy :: bool
  rc_interactive_approvals :: bool
  rc_tool_results :: bool
  rc_sha :: "string \<Rightarrow> string"
  rc_time :: "instant \<Rightarrow> json"

section \<open>Values of enumerations\<close>

fun code_value :: "FailureCode \<Rightarrow> string" where
  "code_value INVALID_SCOPE = ''invalid_scope''"
| "code_value RUN_CONFLICT = ''run_conflict''"
| "code_value GRANT_NOT_FOUND = ''grant_not_found''"
| "code_value GRANT_SCOPE_MISMATCH = ''grant_scope_mismatch''"
| "code_value GRANT_EXPIRED = ''grant_expired''"
| "code_value TOOL_NOT_FOUND = ''tool_not_found''"
| "code_value TOOL_NOT_GRANTED = ''tool_not_granted''"
| "code_value CAPABILITY_DENIED = ''capability_denied''"
| "code_value POLICY_DENIED = ''policy_denied''"
| "code_value READ_ONLY_DENIED = ''read_only_denied''"
| "code_value APPROVAL_REQUIRED = ''approval_required''"
| "code_value APPROVAL_INVALID = ''approval_invalid''"
| "code_value TOOL_INPUT_INVALID = ''tool_input_invalid''"
| "code_value RUN_INPUT_TOO_LARGE = ''run_input_too_large''"
| "code_value TOOL_ARGUMENTS_TOO_LARGE = ''tool_arguments_too_large''"
| "code_value TOOL_RESULT_TOO_LARGE = ''tool_result_too_large''"
| "code_value FINAL_OUTPUT_TOO_LARGE = ''final_output_too_large''"
| "code_value WORKFLOW_STATE_TOO_LARGE = ''workflow_state_too_large''"
| "code_value DUPLICATE_CALL_ID = ''duplicate_call_id''"
| "code_value INVALID_TOOL_RESULT = ''invalid_tool_result''"
| "code_value TOOL_ERROR = ''tool_error''"
| "code_value WORKFLOW_ERROR = ''workflow_error''"
| "code_value PROMPT_ERROR = ''prompt_error''"
| "code_value REFLECTION_ERROR = ''reflection_error''"
| "code_value BUDGET_POLICY_EXCEEDED = ''budget_policy_exceeded''"
| "code_value ITERATION_BUDGET_EXCEEDED = ''iteration_budget_exceeded''"
| "code_value TOOL_BUDGET_EXCEEDED = ''tool_budget_exceeded''"
| "code_value TIMED_OUT = ''timed_out''"
| "code_value CANCELLED = ''cancelled''"
| "code_value INTERNAL_ERROR = ''internal_error''"

fun effect_value :: "ToolEffect \<Rightarrow> string" where
  "effect_value READ = ''read''"
| "effect_value WRITE = ''write''"
| "effect_value DESTRUCTIVE = ''destructive''"
| "effect_value EXTERNAL = ''external''"

fun call_status_value :: "ToolCallStatus \<Rightarrow> string" where
  "call_status_value CALL_SUCCEEDED = ''succeeded''"
| "call_status_value CALL_DENIED = ''denied''"
| "call_status_value CALL_FAILED = ''failed''"
| "call_status_value CALL_BUDGET_EXCEEDED = ''budget_exceeded''"

section \<open>Audit events and observations\<close>

text \<open>
  \<open>emit\<close> (\<open>_emit\<close>). A request scope of a run has a tenant and a product, so the optional
  identifiers of the path are there.
\<close>

definition emit ::
    "RunRequest \<Rightarrow> AuditEventType \<Rightarrow> string option \<Rightarrow> string option \<Rightarrow> ToolIdentity option \<Rightarrow>
     (string \<times> json) list \<Rightarrow> ('h, unit) prog" where
  "emit rq ty call_id tool_name tool_identity data =
     prog_bind (ask_time Now) (\<lambda>t.
     prog_bind (lift_result (AuditEvent_validate
       \<lparr>ae_event_type = ty, ae_occurred_at = t,
        ae_tenant_id = the (rs_tenant_id (rq_scope rq)),
        ae_product_id = the (rs_product_id (rq_scope rq)),
        ae_principal_id = rs_principal_id (rq_scope rq),
        ae_request_id = rs_request_id (rq_scope rq),
        ae_correlation_id = rs_correlation_id (rq_scope rq),
        ae_purpose = rs_purpose (rq_scope rq), ae_run_id = rq_run_id rq,
        ae_channel_id = rs_channel_id (rq_scope rq), ae_call_id = call_id,
        ae_tool_name = tool_name, ae_tool_identity = tool_identity, ae_data = data\<rparr>)) (\<lambda>ev.
     ask_unit (Append ev)))"

definition call_failure :: "ToolIntent \<Rightarrow> int \<Rightarrow> FailureCode \<Rightarrow> string \<Rightarrow> RunFailure" where
  "call_failure intent iteration code message =
     \<lparr>rf_code = code, rf_message = message, rf_retryable = False, rf_iteration = Some iteration,
      rf_call_id = Some (tin_call_id intent), rf_tool_name = Some (tin_tool_name intent)\<rparr>"

text \<open>The observation of a call that did not succeed; its end is read from the clock.\<close>

definition failed_observation ::
    "ToolIntent \<Rightarrow> ToolCallStatus \<Rightarrow> RunFailure \<Rightarrow> instant \<Rightarrow> ('h, ToolObservation) prog" where
  "failed_observation intent status failure started_at =
     prog_bind (ask_time Now) (\<lambda>finished_at.
     lift_result (ToolObservation_validate
       \<lparr>to_call_id = tin_call_id intent, to_tool_name = tin_tool_name intent, to_tool_identity = None,
        to_arguments = None, to_status = status, to_result = JNull, to_failure = Some failure,
        to_started_at = started_at, to_finished_at = finished_at\<rparr>))"

definition deny ::
    "RunRequest \<Rightarrow> ToolIntent \<Rightarrow> int \<Rightarrow> instant \<Rightarrow> FailureCode \<Rightarrow> string \<Rightarrow> ToolIdentity option \<Rightarrow>
     ('h, ToolObservation) prog" where
  "deny rq intent iteration started_at code message tool_identity =
     prog_bind (emit rq TOOL_DENIED (Some (tin_call_id intent)) (Some (tin_tool_name intent)) tool_identity
       [(''code'', JStr (code_value code))]) (\<lambda>_.
     failed_observation intent CALL_DENIED (call_failure intent iteration code message) started_at)"

definition tool_failure ::
    "RunRequest \<Rightarrow> ToolIntent \<Rightarrow> int \<Rightarrow> instant \<Rightarrow> FailureCode \<Rightarrow> string \<Rightarrow> ToolIdentity \<Rightarrow>
     ('h, ToolObservation) prog" where
  "tool_failure rq intent iteration started_at code message tool_identity =
     prog_bind (emit rq TOOL_FINISHED (Some (tin_call_id intent)) (Some (tin_tool_name intent))
       (Some tool_identity)
       [(''status'', JStr (call_status_value CALL_FAILED)), (''code'', JStr (code_value code))]) (\<lambda>_.
     failed_observation intent CALL_FAILED (call_failure intent iteration code message) started_at)"

definition budget_observation :: "RunRequest \<Rightarrow> ToolIntent \<Rightarrow> int \<Rightarrow> ('h, ToolObservation) prog" where
  "budget_observation rq intent iteration =
     prog_bind (ask_time Now) (\<lambda>started_at.
     prog_bind (ask_tool (rq_scope rq) (tin_tool_name intent)) (\<lambda>registered.
     prog_bind (emit rq TOOL_DENIED (Some (tin_call_id intent)) (Some (tin_tool_name intent))
       (map_option rt_identity registered) [(''code'', JStr (code_value TOOL_BUDGET_EXCEEDED))]) (\<lambda>_.
     failed_observation intent CALL_BUDGET_EXCEEDED
       (call_failure intent iteration TOOL_BUDGET_EXCEEDED
          ''tool call was not started because the budget was exhausted'') started_at)))"

section \<open>Grants and registrations\<close>

definition grant_failure :: "FailureCode \<Rightarrow> string \<Rightarrow> RunFailure" where
  "grant_failure code message = run_failure code message None"

text \<open>\<open>_grant\<close>: \<open>Inl\<close> the failure, \<open>Inr\<close> the grant.\<close>

definition grant_of :: "RunRequest \<Rightarrow> ('h, RunFailure + CapabilityGrant) prog" where
  "grant_of rq =
     prog_bind (except_Exception (prog_bind (ask_grant (rq_grant_id rq)) (\<lambda>g. Ret (Some g))) (Ret None)) (\<lambda>r.
     case r of
       None \<Rightarrow> Ret (Inl (grant_failure INTERNAL_ERROR ''capability authority failed''))
     | Some None \<Rightarrow> Ret (Inl (grant_failure GRANT_NOT_FOUND ''capability grant was not found or was revoked''))
     | Some (Some grant) \<Rightarrow>
         if Some (cg_tenant_id grant) \<noteq> rs_tenant_id (rq_scope rq) \<or>
            Some (cg_product_id grant) \<noteq> rs_product_id (rq_scope rq) \<or>
            (cg_principal_id grant \<noteq> None \<and> cg_principal_id grant \<noteq> Some (rs_principal_id (rq_scope rq)))
         then Ret (Inl (grant_failure GRANT_SCOPE_MISMATCH
                ''capability grant does not match the authenticated request scope''))
         else prog_bind (ask_time Now) (\<lambda>now.
           if cg_expires_at grant \<le> now
           then Ret (Inl (grant_failure GRANT_EXPIRED ''capability grant has expired''))
           else Ret (Inr grant)))"

text \<open>\<open>_RESUMABLE_TOOLS\<close>: the family and the effects of each built-in read tool.\<close>

definition RESUMABLE_TOOLS :: "(string, string \<times> ToolEffect set) dict" where
  "RESUMABLE_TOOLS =
     [(''suiteharness.fs.list'', ''fs'', {READ}), (''suiteharness.fs.read'', ''fs'', {READ}),
      (''suiteharness.fs.glob'', ''fs'', {READ}), (''suiteharness.fs.grep'', ''fs'', {READ}),
      (''suiteharness.web.search'', ''web'', {READ, EXTERNAL}),
      (''suiteharness.web.fetch'', ''web'', {READ, EXTERNAL})]"

definition trusted_registration :: "string \<Rightarrow> 'h RegisteredTool option \<Rightarrow> bool" where
  "trusted_registration name registered =
     (case (dict_get RESUMABLE_TOOLS name, registered) of
        (Some (family, effects), Some r) \<Rightarrow>
          rt_registration_scope r = root_path \<and>
          rt_identity r = \<lparr>ti_namespace = ''suiteharness'', ti_name = name,
            ti_origin = ''suiteharness.builtin.'' @ family, ti_version = ''1''\<rparr> \<and>
          ts_effects (rt_spec r) = effects
      | _ \<Rightarrow> False)"

definition safe_registration :: "RunRequest \<Rightarrow> string \<Rightarrow> ('h, bool) prog" where
  "safe_registration rq name =
     prog_bind (ask_tool (rq_scope rq) name) (\<lambda>registered. Ret (trusted_registration name registered))"

definition opt_contains_credentials :: "json option \<Rightarrow> bool" where
  "opt_contains_credentials v = (case v of None \<Rightarrow> False | Some j \<Rightarrow> contains_run_credentials j)"

definition safe_observation :: "RunRequest \<Rightarrow> ToolObservation \<Rightarrow> ('h, bool) prog" where
  "safe_observation rq ob =
     (if to_status ob \<noteq> CALL_SUCCEEDED then Ret False
      else prog_bind (safe_registration rq (to_tool_name ob)) (\<lambda>ok.
        if \<not> ok then Ret False
        else prog_bind (ask_tool (rq_scope rq) (to_tool_name ob)) (\<lambda>registered.
          Ret (case registered of
                 None \<Rightarrow> False
               | Some r \<Rightarrow> to_tool_identity ob = Some (rt_identity r) \<and>
                            \<not> contains_run_credentials (to_result ob) \<and>
                            \<not> opt_contains_credentials (to_arguments ob)))))"

text \<open>\<open>_visible_tools\<close>: the loop over the sorted names of the grant.\<close>

definition visible_tool :: "RunRequest \<Rightarrow> CapabilityGrant \<Rightarrow> string \<Rightarrow> ('h, ToolSpec option) prog" where
  "visible_tool rq grant name =
     prog_bind (ask_tool (rq_scope rq) name) (\<lambda>item.
     case item of
       None \<Rightarrow> Ret None
     | Some r \<Rightarrow>
         if rt_identity r \<notin> cg_tool_identities grant then Ret None
         else if ts_required_capabilities (rt_spec r) - cg_capabilities grant \<noteq> {} then Ret None
         else if rq_read_only rq \<and> \<not> is_read (rt_spec r) then Ret None
         else if rq_resume rq \<noteq> None
         then prog_bind (safe_registration rq name) (\<lambda>ok. Ret (if ok then Some (rt_spec r) else None))
         else Ret (Some (rt_spec r)))"

definition visible_tools :: "RunRequest \<Rightarrow> CapabilityGrant \<Rightarrow> ('h, ToolSpec list) prog" where
  "visible_tools rq grant =
     prog_bind (for_each (sorted_list_of_set (ti_name ` cg_tool_identities grant)) (visible_tool rq grant))
       (\<lambda>vs. Ret (List.map_filter id vs))"

section \<open>One tool call\<close>

definition approval_matches :: "ApprovalTarget \<Rightarrow> ApprovalBinding \<Rightarrow> ('h, bool) prog" where
  "approval_matches expected binding =
     prog_bind (ask_time Now) (\<lambda>now.
       Ret (ab_target binding = expected \<and> ab_issued_at binding \<le> now \<and> now < ab_expires_at binding))"

text \<open>The early return of a refused call.\<close>

definition refuse ::
    "RunRequest \<Rightarrow> ToolIntent \<Rightarrow> int \<Rightarrow> instant \<Rightarrow> ToolIdentity option \<Rightarrow> FailureCode \<Rightarrow> string \<Rightarrow>
     ('h, ToolObservation + 'a) prog" where
  "refuse rq intent iteration started_at tool_identity code message =
     prog_bind (deny rq intent iteration started_at code message tool_identity) (\<lambda>ob. Ret (Inl ob))"

text \<open>
  \<open>check_call\<close>: \<open>_execute_intent\<close> from the size limit to the resume guard. \<open>Inl\<close> is the observation
  of an early return.
\<close>

definition check_call ::
    "RunnerConfig \<Rightarrow> RunRequest \<Rightarrow> ToolIntent \<Rightarrow> int \<Rightarrow> instant \<Rightarrow> bool \<Rightarrow> string \<Rightarrow>
     'h RegisteredTool option \<Rightarrow> ('h, ToolObservation + ('h RegisteredTool \<times> CapabilityGrant)) prog" where
  "check_call cfg rq intent iteration started_at duplicate payload registered =
     (let no = (\<lambda>i. refuse rq intent iteration started_at i);
          tool_identity = map_option rt_identity registered in
      if ep_max_tool_argument_bytes (rc_policy cfg) < int (length payload)
      then no tool_identity TOOL_ARGUMENTS_TOO_LARGE ''tool arguments exceed the configured byte limit''
      else if duplicate
      then no tool_identity DUPLICATE_CALL_ID ''call_id was already used in this run''
      else prog_bind (grant_of rq) (\<lambda>g.
        case g of
          Inl failure \<Rightarrow> no tool_identity (rf_code failure) (rf_message failure)
        | Inr grant \<Rightarrow>
            (case registered of
               None \<Rightarrow> no tool_identity TOOL_NOT_GRANTED ''tool is unavailable for this grant''
             | Some r \<Rightarrow>
                 if rt_identity r \<notin> cg_tool_identities grant
                 then no tool_identity TOOL_NOT_GRANTED ''tool is unavailable for this grant''
                 else if ts_required_capabilities (rt_spec r) - cg_capabilities grant \<noteq> {}
                 then no (Some (rt_identity r)) CAPABILITY_DENIED
                        ''tool requires capabilities not present in the product grant''
                 else if rq_read_only rq \<and> \<not> is_read (rt_spec r)
                 then no (Some (rt_identity r)) READ_ONLY_DENIED
                        ''non-read tool is blocked for a read-only run''
                 else if rq_resume rq \<noteq> None
                 then prog_bind (safe_registration rq (tin_tool_name intent)) (\<lambda>ok.
                   if ok then Ret (Inr (r, grant))
                   else no (Some (rt_identity r)) POLICY_DENIED
                          ''only trusted read tools are available during resume'')
                 else Ret (Inr (r, grant)))))"

definition approval_target :: "RunRequest \<Rightarrow> ToolIntent \<Rightarrow> 'h RegisteredTool \<Rightarrow> string \<Rightarrow> ApprovalTarget" where
  "approval_target rq intent r digest =
     \<lparr>at_scope = rs_path (rq_scope rq), at_principal_id = rs_principal_id (rq_scope rq),
      at_run_id = rq_run_id rq, at_call_id = tin_call_id intent, at_tool_identity = rt_identity r,
      at_arguments_digest = digest\<rparr>"

text \<open>
  The \<open>try\<close> block that obtains the approval. A failure to record the refusal inside the block
  is caught by the block like any other exception.
\<close>

definition obtain_approval ::
    "RunnerConfig \<Rightarrow> RunRequest \<Rightarrow> ToolIntent \<Rightarrow> int \<Rightarrow> instant \<Rightarrow> 'h RegisteredTool \<Rightarrow> json \<Rightarrow>
     ApprovalTarget \<Rightarrow> ('h, ToolObservation + ApprovalBinding option) prog" where
  "obtain_approval cfg rq intent iteration started_at r args expected =
     except_Exception
       (case tin_approval_token intent of
          Some token \<Rightarrow> prog_bind (ask_binding (Consume token expected)) (\<lambda>b. Ret (Inr b))
        | None \<Rightarrow>
            if rc_interactive_approvals cfg
            then prog_bind (ask_binding (RequestApproval rq expected (rt_spec r) args)) (\<lambda>b. Ret (Inr b))
            else refuse rq intent iteration started_at (Some (rt_identity r)) APPROVAL_REQUIRED
                   ''this tool call requires a call-scoped approval'')
       (Ret (Inr None))"

text \<open>\<open>evaluate_policy\<close>: the call of the channel policy; an exception or a wrong value denies.\<close>

definition evaluate_policy ::
    "RunnerConfig \<Rightarrow> RunRequest \<Rightarrow> 'h RegisteredTool \<Rightarrow> json \<Rightarrow> ('h, ToolAuthorization) prog" where
  "evaluate_policy cfg rq r args =
     (if \<not> rc_authorization_policy cfg then Ret DEFAULT
      else except_Exception
        (prog_bind (ask_auth rq (rt_identity r) (rt_spec r) args) (\<lambda>v.
           Ret (case v of None \<Rightarrow> DENY | Some au \<Rightarrow> au)))
        (Ret DENY))"

definition needs_approval :: "RunnerConfig \<Rightarrow> ToolSpec \<Rightarrow> ToolAuthorization \<Rightarrow> bool" where
  "needs_approval cfg spec au \<longleftrightarrow> DESTRUCTIVE \<in> ts_effects spec \<or> au = REQUIRE_APPROVAL \<or>
     (au = DEFAULT \<and> requires_approval (rc_policy cfg) spec)"

text \<open>
  \<open>approve_call\<close>: the block under \<open>if requires_approval\<close>. \<open>Inr\<close> carries the approver.
\<close>

definition approve_call ::
    "RunnerConfig \<Rightarrow> RunRequest \<Rightarrow> ToolIntent \<Rightarrow> int \<Rightarrow> instant \<Rightarrow> 'h RegisteredTool \<Rightarrow> json \<Rightarrow> string \<Rightarrow>
     ('h, ToolObservation + string) prog" where
  "approve_call cfg rq intent iteration started_at r args digest =
     (let invalid = refuse rq intent iteration started_at (Some (rt_identity r)) APPROVAL_INVALID
            ''approval is expired, reused, or bound to a different call'' in
      prog_bind (lift_result (ApprovalTarget_validate (approval_target rq intent r digest))) (\<lambda>expected.
      prog_bind (obtain_approval cfg rq intent iteration started_at r args expected) (\<lambda>got.
      case got of
        Inl ob \<Rightarrow> Ret (Inl ob)
      | Inr None \<Rightarrow> invalid
      | Inr (Some binding) \<Rightarrow>
          prog_bind (approval_matches expected binding) (\<lambda>ok.
            if ok then Ret (Inr (ab_approved_by binding)) else invalid))))"

text \<open>What follows the answer of the channel policy.\<close>

definition settle_call ::
    "RunnerConfig \<Rightarrow> RunRequest \<Rightarrow> ToolIntent \<Rightarrow> int \<Rightarrow> instant \<Rightarrow> 'h RegisteredTool \<Rightarrow> json \<Rightarrow> string \<Rightarrow>
     ToolAuthorization \<Rightarrow> ('h, ToolObservation + string option) prog" where
  "settle_call cfg rq intent iteration started_at r args digest au =
     (if au = DENY
      then refuse rq intent iteration started_at (Some (rt_identity r)) POLICY_DENIED
             ''the trusted channel policy denied this tool call''
      else if \<not> needs_approval cfg (rt_spec r) au then Ret (Inr None)
      else prog_bind (approve_call cfg rq intent iteration started_at r args digest) (\<lambda>got.
        Ret (case got of Inl ob \<Rightarrow> Inl ob | Inr approver \<Rightarrow> Inr (Some approver))))"

text \<open>
  \<open>authorize_call\<close>: the input schema, the channel policy and the approval. \<open>Inr\<close> carries the
  approver, if there is one.
\<close>

definition authorize_call ::
    "RunnerConfig \<Rightarrow> RunRequest \<Rightarrow> ToolIntent \<Rightarrow> int \<Rightarrow> instant \<Rightarrow> 'h RegisteredTool \<Rightarrow> json \<Rightarrow> string \<Rightarrow>
     ('h, ToolObservation + string option) prog" where
  "authorize_call cfg rq intent iteration started_at r args digest =
     prog_bind (try_except (prog_bind (ask_unit (Validate r args)) (\<lambda>_. Ret True))
       (\<lambda>e. if e = JsonSchemaValidationError then Ret False else Throw e)) (\<lambda>valid.
     if \<not> valid
     then refuse rq intent iteration started_at (Some (rt_identity r)) TOOL_INPUT_INVALID
            ''tool arguments do not match the declared input schema''
     else prog_bind (evaluate_policy cfg rq r args)
            (settle_call cfg rq intent iteration started_at r args digest))"

definition preview :: "string \<Rightarrow> string" where
  "preview payload = utf8_ignore 1024 (take 1024 payload)"

definition result_reader :: "CapabilityGrant \<Rightarrow> 'h RegisteredTool option \<Rightarrow> bool" where
  "result_reader grant reader =
     (case reader of
        None \<Rightarrow> False
      | Some r \<Rightarrow> rt_identity r \<in> cg_tool_identities grant \<and>
          ti_namespace (rt_identity r) = ''suiteharness'' \<and>
          ti_origin (rt_identity r) = ''suiteharness.builtin.result'')"

text \<open>The \<open>try\<close> block around the handler: \<open>Inr\<close> is the result with its canonical bytes.\<close>

definition call_handler ::
    "RunRequest \<Rightarrow> ToolIntent \<Rightarrow> int \<Rightarrow> instant \<Rightarrow> 'h RegisteredTool \<Rightarrow> ToolCallContext \<Rightarrow> json \<Rightarrow>
     ('h, ToolObservation + (json \<times> string)) prog" where
  "call_handler rq intent iteration started_at r context args =
     try_except
       (prog_bind (ask_json (CallHandler r context args)) (\<lambda>raw.
          case raw of
            None \<Rightarrow> Throw ValueOrTypeError
          | Some v \<Rightarrow> prog_bind (lift_result (canonical_json v)) (\<lambda>payload. Ret (Inr (v, payload)))))
       (\<lambda>e. if e = CancelledError then Throw e
            else if e = HandlerDeniedError
            then refuse rq intent iteration started_at (Some (rt_identity r)) POLICY_DENIED
                   ''trusted tool handler denied this call''
            else if e = ValueOrTypeError
            then prog_bind (tool_failure rq intent iteration started_at INVALID_TOOL_RESULT
                   ''tool returned a non-JSON value'' (rt_identity r)) (\<lambda>ob. Ret (Inl ob))
            else prog_bind (tool_failure rq intent iteration started_at TOOL_ERROR
                   ''tool handler failed'' (rt_identity r)) (\<lambda>ob. Ret (Inl ob)))"

text \<open>\<open>store_result\<close>: a long result is replaced by a reference and a preview.\<close>

definition store_result ::
    "RunnerConfig \<Rightarrow> RunRequest \<Rightarrow> ToolIntent \<Rightarrow> int \<Rightarrow> instant \<Rightarrow> 'h RegisteredTool \<Rightarrow> CapabilityGrant \<Rightarrow>
     json \<times> string \<Rightarrow> ('h, ToolObservation + json) prog" where
  "store_result cfg rq intent iteration started_at r grant res =
     (case res of (v, payload) \<Rightarrow>
     prog_bind (ask_tool (rq_scope rq) ''suiteharness.result.read'') (\<lambda>reader.
     if rc_tool_results cfg \<and> result_reader grant reader \<and>
        tin_tool_name intent \<noteq> ''suiteharness.result.read'' \<and> 16 * 1024 < length payload
     then prog_bind (except_Exception
            (prog_bind (ask_reference (PutResult (rq_scope rq) (rq_run_id rq) payload)) (\<lambda>j. Ret (Some j)))
            (Ret None)) (\<lambda>reference.
          case reference of
            None \<Rightarrow> prog_bind (tool_failure rq intent iteration started_at TOOL_ERROR
                      ''tool result storage unavailable'' (rt_identity r)) (\<lambda>ob. Ret (Inl ob))
          | Some j \<Rightarrow> Ret (Inr (JObj [(''result_reference'', j), (''preview'', JStr (preview payload)),
                                     (''truncated'', JBool True)])))
     else Ret (Inr (detach v))))"

text \<open>\<open>invoke\<close>: \<open>_execute_intent\<close> from the \<open>TOOL_STARTED\<close> event to its end.\<close>

definition invoke ::
    "RunnerConfig \<Rightarrow> RunRequest \<Rightarrow> ToolIntent \<Rightarrow> int \<Rightarrow> instant \<Rightarrow> int \<Rightarrow> 'h RegisteredTool \<Rightarrow>
     CapabilityGrant \<Rightarrow> json \<Rightarrow> string option \<Rightarrow> ('h, ToolObservation) prog" where
  "invoke cfg rq intent iteration started_at started_monotonic r grant args approved_by =
     prog_bind (emit rq TOOL_STARTED (Some (tin_call_id intent)) (Some (tin_tool_name intent))
       (Some (rt_identity r))
       ((''effects'', JList (map JStr (sorted_list_of_set (effect_value ` ts_effects (rt_spec r))))) #
        (case approved_by of None \<Rightarrow> [] | Some by' \<Rightarrow> [(''approved_by'', JStr by')]))) (\<lambda>_.
     prog_bind (ask_unit (Publish ''tool_started'' []
       (JObj [(''call_id'', JStr (tin_call_id intent)), (''tool_name'', JStr (tin_tool_name intent))]))) (\<lambda>_.
     prog_bind (ask_time Monotonic) (\<lambda>mono.
     prog_bind (call_handler rq intent iteration started_at r
       \<lparr>tc_scope = rq_scope rq, tc_run_id = rq_run_id rq, tc_call_id = tin_call_id intent,
        tc_tool_identity = rt_identity r, tc_tool = rt_spec r,
        tc_remaining = max 0 (eb_timeout (rq_budget rq) - (mono - started_monotonic)),
        tc_grant_id = Some (rq_grant_id rq), tc_read_only = rq_read_only rq\<rparr> args) (\<lambda>got.
     case got of
       Inl ob \<Rightarrow> Ret ob
     | Inr res \<Rightarrow>
         if ep_max_tool_result_bytes (rc_policy cfg) < int (length (snd res))
         then tool_failure rq intent iteration started_at TOOL_RESULT_TOO_LARGE
                ''tool result exceeds the configured byte limit'' (rt_identity r)
         else prog_bind (store_result cfg rq intent iteration started_at r grant res) (\<lambda>kept.
           case kept of
             Inl ob \<Rightarrow> Ret ob
           | Inr result \<Rightarrow>
               prog_bind (ask_time Now) (\<lambda>finished_at.
               prog_bind (emit rq TOOL_FINISHED (Some (tin_call_id intent)) (Some (tin_tool_name intent))
                 (Some (rt_identity r)) [(''status'', JStr (call_status_value CALL_SUCCEEDED))]) (\<lambda>_.
               prog_bind (safe_registration rq (tin_tool_name intent)) (\<lambda>safe.
               lift_result (ToolObservation_validate
                 \<lparr>to_call_id = tin_call_id intent, to_tool_name = tin_tool_name intent,
                  to_tool_identity = Some (rt_identity r),
                  to_arguments = (if safe \<and> \<not> contains_run_credentials args then Some (detach args) else None),
                  to_status = CALL_SUCCEEDED, to_result = result, to_failure = None,
                  to_started_at = started_at, to_finished_at = finished_at\<rparr>)))))))))"

definition execute_intent ::
    "RunnerConfig \<Rightarrow> RunRequest \<Rightarrow> ToolIntent \<Rightarrow> int \<Rightarrow> int \<Rightarrow> bool \<Rightarrow> ('h, ToolObservation) prog" where
  "execute_intent cfg rq intent iteration started_monotonic duplicate =
     prog_bind (ask_time Now) (\<lambda>started_at.
     prog_bind (lift_result (canonical_json (tin_arguments intent))) (\<lambda>_.
     let args = detach (tin_arguments intent) in
     prog_bind (lift_result (canonical_json args)) (\<lambda>payload.
     prog_bind (lift_result (arguments_digest (rc_sha cfg) args)) (\<lambda>digest.
     prog_bind (ask_tool (rq_scope rq) (tin_tool_name intent)) (\<lambda>registered.
     prog_bind (emit rq TOOL_INTENT (Some (tin_call_id intent)) (Some (tin_tool_name intent))
       (map_option rt_identity registered) [(''arguments_digest'', JStr digest)]) (\<lambda>_.
     prog_bind (check_call cfg rq intent iteration started_at duplicate payload registered) (\<lambda>checked.
     case checked of
       Inl ob \<Rightarrow> Ret ob
     | Inr (r, grant) \<Rightarrow>
         prog_bind (authorize_call cfg rq intent iteration started_at r args digest) (\<lambda>authorized.
         case authorized of
           Inl ob \<Rightarrow> Ret ob
         | Inr approved_by \<Rightarrow>
             invoke cfg rq intent iteration started_at started_monotonic r grant args approved_by))))))))"

end
