(* ===== verification/Runner_Safety.thy ===== *)
theory Runner_Safety
  imports Runner
begin

text \<open>
  What the runner guarantees of one tool call, whatever the surroundings answer: a handler is
  called only after every guard of \<open>_execute_intent\<close> has been passed on answers that are in the
  history, at most once, and the audit journal sees the call in the right order.
\<close>

section \<open>History facts\<close>

definition handler_question :: "'h ask \<Rightarrow> bool" where
  "handler_question q \<longleftrightarrow> (case q of CallHandler _ _ _ \<Rightarrow> True | _ \<Rightarrow> False)"

lemma handler_question_simps [simp]:
  "handler_question (CallHandler r c a)" "\<not> handler_question Now" "\<not> handler_question Monotonic"
  "\<not> handler_question (ResolveTool s n)" "\<not> handler_question (ResolveGrant g)"
  "\<not> handler_question (Append ev)" "\<not> handler_question (Publish k t d)"
  "\<not> handler_question (Validate r v)" "\<not> handler_question (Evaluate rq i sp v)"
  "\<not> handler_question (Consume tok tgt)" "\<not> handler_question (RequestApproval rq tgt sp v)"
  "\<not> handler_question (PutResult s n p)"
  by (simp_all add: handler_question_def)

definition no_handler_call :: "'h exchange list \<Rightarrow> bool" where
  "no_handler_call h \<longleftrightarrow> (\<forall>e \<in> set h. \<not> handler_question (fst e))"

lemma no_handler_call_simps [simp]:
  "no_handler_call []" "no_handler_call (h @ h') \<longleftrightarrow> no_handler_call h \<and> no_handler_call h'"
  "no_handler_call (e # h) \<longleftrightarrow> \<not> handler_question (fst e) \<and> no_handler_call h"
  by (auto simp: no_handler_call_def)

abbreviation quiet :: "'h exchange list \<Rightarrow> 'h ask \<Rightarrow> bool" where
  "quiet \<equiv> \<lambda>h q. \<not> handler_question q"

lemma guarantee_frame:
  assumes "guarantee R quiet Q E h p"
  shows "guarantee R quiet (\<lambda>x h'. Q x h' \<and> set h \<subseteq> set h' \<and> (no_handler_call h \<longrightarrow> no_handler_call h')) E h p"
  using assms
proof (induction p arbitrary: h)
  case (Ask q k)
  have "guarantee R quiet (\<lambda>x h'. Q x h' \<and> set h \<subseteq> set h' \<and> (no_handler_call h \<longrightarrow> no_handler_call h')) E
          (h @ [(q, a)]) (k a)"
    if "answers q a" "R h q a" for a
  proof (rule guarantee_mono)
    show "guarantee R quiet (\<lambda>x h'. Q x h' \<and> set (h @ [(q, a)]) \<subseteq> set h' \<and>
            (no_handler_call (h @ [(q, a)]) \<longrightarrow> no_handler_call h')) E (h @ [(q, a)]) (k a)"
      using Ask.prems that by (intro Ask.IH) auto
  qed (use Ask.prems in auto)
  with Ask.prems show ?case by simp
qed simp_all

lemma guarantee_weaken_G:
  assumes "guarantee R G Q E h p" and "\<And>h q. G h q \<Longrightarrow> G' h q"
  shows "guarantee R G' Q E h p"
  using assms by (induction p arbitrary: h) auto

lemma guarantee_bindI:
  assumes "guarantee R G P E h p" and "\<And>x h'. P x h' \<Longrightarrow> guarantee R G Q E h' (f x)"
  shows "guarantee R G Q E h (prog_bind p f)"
  using guarantee_mono [OF assms(1), where Q' = "\<lambda>x h'. guarantee R G Q E h' (f x)"] assms(2) by simp

section \<open>Programs that call no handler\<close>

lemmas outcome_defs = deny_def tool_failure_def failed_observation_def emit_def

lemma quiet_emit:
  assumes "\<And>h'. Q () h'" and "\<And>e h'. E e h'"
  shows "guarantee R quiet Q E h (emit rq ty c n i d)"
  using assms by (auto simp: emit_def ask_defs split: sum.splits)

lemma quiet_deny:
  assumes "\<And>ob h'. Q ob h'" and "\<And>e h'. E e h'"
  shows "guarantee R quiet Q E h (deny rq intent it sa code msg i)"
  using assms by (auto simp: deny_def failed_observation_def ask_defs intro!: quiet_emit split: sum.splits)

lemma quiet_refuse:
  assumes "\<And>ob h'. Q (Inl ob) h'" and "\<And>e h'. E e h'"
  shows "guarantee R quiet Q E h (refuse rq intent it sa i code msg)"
  using assms by (auto simp: refuse_def intro!: quiet_deny)

lemma quiet_tool_failure:
  assumes "\<And>ob h'. Q ob h'" and "\<And>e h'. E e h'"
  shows "guarantee R quiet Q E h (tool_failure rq intent it sa code msg i)"
  using assms by (auto simp: tool_failure_def failed_observation_def ask_defs intro!: quiet_emit split: sum.splits)

section \<open>The guards\<close>

text \<open>The grant that was resolved for the request and found current and in scope.\<close>

definition grant_confirmed :: "RunRequest \<Rightarrow> CapabilityGrant \<Rightarrow> 'h exchange list \<Rightarrow> bool" where
  "grant_confirmed rq grant h \<longleftrightarrow>
     (ResolveGrant (rq_grant_id rq), AGrant (Inr (Some grant))) \<in> set h \<and>
     rs_tenant_id (rq_scope rq) = Some (cg_tenant_id grant) \<and>
     rs_product_id (rq_scope rq) = Some (cg_product_id grant) \<and>
     (cg_principal_id grant = None \<or> cg_principal_id grant = Some (rs_principal_id (rq_scope rq))) \<and>
     (\<exists>t. (Now, ATime t) \<in> set h \<and> t < cg_expires_at grant)"

definition call_checked ::
    "RunRequest \<Rightarrow> ToolIntent \<Rightarrow> 'h RegisteredTool \<Rightarrow> CapabilityGrant \<Rightarrow> 'h exchange list \<Rightarrow> bool" where
  "call_checked rq intent r grant h \<longleftrightarrow>
     grant_confirmed rq grant h \<and> rt_identity r \<in> cg_tool_identities grant \<and>
     ts_required_capabilities (rt_spec r) \<subseteq> cg_capabilities grant \<and>
     (rq_read_only rq \<longrightarrow> is_read (rt_spec r)) \<and>
     (rq_resume rq \<noteq> None \<longrightarrow> (\<exists>r'. (ResolveTool (rq_scope rq) (tin_tool_name intent), ATool r') \<in> set h \<and>
                                  trusted_registration (tin_tool_name intent) r'))"

text \<open>A single-use approval of exactly this call, current when it was checked.\<close>

definition approval_question :: "RunRequest \<Rightarrow> ToolIntent \<Rightarrow> ApprovalTarget \<Rightarrow> 'h ask \<Rightarrow> bool" where
  "approval_question rq intent target q \<longleftrightarrow>
     (case tin_approval_token intent of
        Some token \<Rightarrow> q = Consume token target
      | None \<Rightarrow> \<exists>spec args. q = RequestApproval rq target spec args)"

definition approval_confirmed ::
    "RunRequest \<Rightarrow> ToolIntent \<Rightarrow> ApprovalTarget \<Rightarrow> string \<Rightarrow> 'h exchange list \<Rightarrow> bool" where
  "approval_confirmed rq intent target approver h \<longleftrightarrow>
     (\<exists>q binding t. (q, ABinding (Inr (Some binding))) \<in> set h \<and>
        approval_question rq intent target q \<and>
        ab_target binding = target \<and> ab_approved_by binding = approver \<and>
        (Now, ATime t) \<in> set h \<and> ab_issued_at binding \<le> t \<and> t < ab_expires_at binding)"

definition policy_answer :: "RunnerConfig \<Rightarrow> RunRequest \<Rightarrow> 'h RegisteredTool \<Rightarrow> json \<Rightarrow> ToolAuthorization \<Rightarrow>
    'h exchange list \<Rightarrow> bool" where
  "policy_answer cfg rq r args au h \<longleftrightarrow>
     (if rc_authorization_policy cfg
      then (Evaluate rq (rt_identity r) (rt_spec r) args, AAuth (Inr (Some au))) \<in> set h
      else au = DEFAULT)"

definition call_authorized ::
    "RunnerConfig \<Rightarrow> RunRequest \<Rightarrow> ToolIntent \<Rightarrow> 'h RegisteredTool \<Rightarrow> json \<Rightarrow> string \<Rightarrow> string option \<Rightarrow>
     'h exchange list \<Rightarrow> bool" where
  "call_authorized cfg rq intent r args digest approver h \<longleftrightarrow>
     (Validate r args, AUnit (Inr ())) \<in> set h \<and>
     (\<exists>au. policy_answer cfg rq r args au h \<and> au \<noteq> DENY \<and>
        (case approver of
           None \<Rightarrow> \<not> needs_approval cfg (rt_spec r) au
         | Some by' \<Rightarrow> needs_approval cfg (rt_spec r) au \<and>
             approval_confirmed rq intent (approval_target rq intent r digest) by' h))"

lemma confirmed_mono:
  assumes "set h \<subseteq> set h'"
  shows grant_confirmed_mono: "grant_confirmed rq grant h \<Longrightarrow> grant_confirmed rq grant h'"
    and call_checked_mono: "call_checked rq intent r grant h \<Longrightarrow> call_checked rq intent r grant h'"
    and approval_confirmed_mono:
      "approval_confirmed rq intent target by' h \<Longrightarrow> approval_confirmed rq intent target by' h'"
    and policy_answer_mono: "policy_answer cfg rq r args au h \<Longrightarrow> policy_answer cfg rq r args au h'"
    and call_authorized_mono: "call_authorized cfg rq intent r args digest ap h \<Longrightarrow>
      call_authorized cfg rq intent r args digest ap h'"
proof -
  show grant: "grant_confirmed rq grant h \<Longrightarrow> grant_confirmed rq grant h'"
    using assms by (auto simp: grant_confirmed_def)
  then show "call_checked rq intent r grant h \<Longrightarrow> call_checked rq intent r grant h'"
    using assms unfolding call_checked_def by blast
  show approval: "approval_confirmed rq intent target by' h \<Longrightarrow> approval_confirmed rq intent target by' h'"
    for target by' using assms unfolding approval_confirmed_def by (elim exE conjE) (intro exI conjI, auto)
  show policy: "policy_answer cfg rq r args au h \<Longrightarrow> policy_answer cfg rq r args au h'" for au
    using assms by (auto simp: policy_answer_def split: if_splits)
  show "call_authorized cfg rq intent r args digest ap h \<Longrightarrow> call_authorized cfg rq intent r args digest ap h'"
    using assms approval policy unfolding call_authorized_def
    by (cases ap) (simp; blast)+
qed

lemma grant_of_guarantee:
  "guarantee R quiet (\<lambda>g h'. case g of Inl _ \<Rightarrow> True | Inr grant \<Rightarrow> grant_confirmed rq grant h')
     (\<lambda>_ _. True) h (grant_of rq)"
  by (auto simp: grant_of_def ask_defs grant_confirmed_def split: sum.splits option.splits)

lemma check_call_guarantee:
  "guarantee R quiet (\<lambda>c h'. case c of Inl _ \<Rightarrow> True
       | Inr (r, grant) \<Rightarrow> registered = Some r \<and> \<not> duplicate \<and>
           int (length payload) \<le> ep_max_tool_argument_bytes (rc_policy cfg) \<and> call_checked rq intent r grant h')
     (\<lambda>_ _. True) h (check_call cfg rq intent it sa duplicate payload registered)"
proof (cases "ep_max_tool_argument_bytes (rc_policy cfg) < int (length payload) \<or> duplicate")
  case True
  then show ?thesis by (auto simp: check_call_def Let_def intro!: quiet_refuse)
next
  case False
  have confirmed: "grant_confirmed rq grant h' \<Longrightarrow> grant_confirmed rq grant (h' @ es)" for grant h' es
    by (rule grant_confirmed_mono) auto
  from False show ?thesis
    by (auto simp: check_call_def Let_def safe_registration_def ask_defs call_checked_def
          simp del: guarantee_bind
          intro!: guarantee_bindI [OF grant_of_guarantee] quiet_refuse
          intro: confirmed split: sum.splits option.splits)
qed

lemma evaluate_policy_guarantee:
  "guarantee R quiet (\<lambda>au h'. au \<noteq> DENY \<longrightarrow> policy_answer cfg rq r args au h') (\<lambda>_ _. True) h
     (evaluate_policy cfg rq r args)"
  by (auto simp: evaluate_policy_def ask_defs policy_answer_def split: sum.splits option.splits)

lemma approve_call_guarantee:
  "guarantee R quiet (\<lambda>got h'. case got of Inl _ \<Rightarrow> True
       | Inr by' \<Rightarrow> approval_confirmed rq intent (approval_target rq intent r digest) by' h')
     (\<lambda>_ _. True) h (approve_call cfg rq intent it sa r args digest)"
proof -
  have target: "ApprovalTarget_validate t = Inr t' \<Longrightarrow> t' = t" for t t'
    by (auto simp: ApprovalTarget_validate_def split: if_splits)
  show ?thesis
    by (auto simp: approve_call_def obtain_approval_def approval_matches_def approval_confirmed_def
          approval_question_def ask_defs Let_def dest!: target intro!: quiet_refuse split: sum.splits option.splits)
qed

lemma settle_call_guarantee:
  assumes valid: "(Validate r args, AUnit (Inr ())) \<in> set h"
    and policy: "au \<noteq> DENY \<longrightarrow> policy_answer cfg rq r args au h"
  shows "guarantee R quiet (\<lambda>got h'. case got of Inl _ \<Rightarrow> True
       | Inr ap \<Rightarrow> call_authorized cfg rq intent r args digest ap h') (\<lambda>_ _. True) h
     (settle_call cfg rq intent it sa r args digest au)"
proof (cases "au = DENY \<or> \<not> needs_approval cfg (rt_spec r) au")
  case True
  with assms show ?thesis by (auto simp: settle_call_def call_authorized_def intro!: quiet_refuse)
next
  case False
  have "case (case got of Inl ob \<Rightarrow> Inl ob | Inr approver \<Rightarrow> Inr (Some approver)) of Inl _ \<Rightarrow> True
       | Inr ap \<Rightarrow> call_authorized cfg rq intent r args digest ap h2"
    if "set h \<subseteq> set h2" and "case got of Inl _ \<Rightarrow> True
       | Inr by' \<Rightarrow> approval_confirmed rq intent (approval_target rq intent r digest) by' h2" for got h2
  proof -
    have "policy_answer cfg rq r args au h2" using policy_answer_mono [OF that(1)] policy False by blast
    with that valid False show ?thesis by (auto simp: call_authorized_def split: sum.splits)
  qed
  with False show ?thesis
    by (auto simp: settle_call_def intro!: guarantee_mono [OF guarantee_frame [OF approve_call_guarantee]])
qed

lemma authorize_call_guarantee:
  "guarantee R quiet (\<lambda>got h'. case got of Inl _ \<Rightarrow> True
       | Inr ap \<Rightarrow> call_authorized cfg rq intent r args digest ap h') (\<lambda>_ _. True) h
     (authorize_call cfg rq intent it sa r args digest)"
proof -
  let ?valid = "\<lambda>h. (Validate r args, AUnit (Inr ())) \<in> set h"
  have evaluated: "guarantee R quiet (\<lambda>au h'. ?valid h' \<and> (au \<noteq> DENY \<longrightarrow> policy_answer cfg rq r args au h'))
     (\<lambda>_ _. True) h1 (evaluate_policy cfg rq r args)" if "?valid h1" for h1
    by (rule guarantee_mono [OF guarantee_frame [OF evaluate_policy_guarantee]]) (use that in auto)
  have validated: "guarantee R quiet (\<lambda>valid h'. valid \<longrightarrow> ?valid h') (\<lambda>_ _. True) h
     (try_except (prog_bind (ask_unit (Validate r args)) (\<lambda>_. Ret True))
        (\<lambda>e. if e = JsonSchemaValidationError then Ret False else Throw e))"
    by (auto simp: ask_defs split: sum.splits)
  show ?thesis
    unfolding authorize_call_def
    by (rule guarantee_bindI [OF validated])
       (auto simp del: guarantee_bind intro!: quiet_refuse guarantee_bindI [OF evaluated] settle_call_guarantee)
qed

section \<open>The handler is called only when authorised\<close>

text \<open>
  The conditions for calling the handler of the registration \<open>r\<close>, as facts of the history: the
  resolved registration, a current grant for it, the accepted input, the channel policy, the
  approval where one is needed, and the recorded \<open>TOOL_STARTED\<close> event; and no handler was called
  for this intent before.
\<close>

definition handler_authorised ::
    "RunnerConfig \<Rightarrow> RunRequest \<Rightarrow> ToolIntent \<Rightarrow> bool \<Rightarrow> 'h exchange list \<Rightarrow> 'h RegisteredTool \<Rightarrow>
     ToolCallContext \<Rightarrow> json \<Rightarrow> bool" where
  "handler_authorised cfg rq intent duplicate h r context args \<longleftrightarrow>
     \<not> duplicate \<and> args = detach (tin_arguments intent) \<and>
     int (length (dumps args)) \<le> ep_max_tool_argument_bytes (rc_policy cfg) \<and>
     (ResolveTool (rq_scope rq) (tin_tool_name intent), ATool (Some r)) \<in> set h \<and>
     (\<exists>grant. call_checked rq intent r grant h) \<and>
     (\<exists>approver. call_authorized cfg rq intent r args (rc_sha cfg (dumps args)) approver h) \<and>
     (\<exists>ev. (Append ev, AUnit (Inr ())) \<in> set h \<and> ae_event_type ev = TOOL_STARTED \<and>
        ae_call_id ev = Some (tin_call_id intent) \<and> ae_tool_identity ev = Some (rt_identity r)) \<and>
     tc_scope context = rq_scope rq \<and> tc_call_id context = tin_call_id intent \<and>
     tc_tool_identity context = rt_identity r \<and> no_handler_call h"

definition guarded ::
    "RunnerConfig \<Rightarrow> RunRequest \<Rightarrow> ToolIntent \<Rightarrow> bool \<Rightarrow> 'h exchange list \<Rightarrow> 'h ask \<Rightarrow> bool" where
  "guarded cfg rq intent duplicate h q \<longleftrightarrow>
     (case q of CallHandler r context args \<Rightarrow> handler_authorised cfg rq intent duplicate h r context args
      | _ \<Rightarrow> True)"

lemma guarded_quiet: "\<not> handler_question q \<Longrightarrow> guarded cfg rq intent duplicate h q"
  by (cases q) (simp_all add: guarded_def)

lemma guarded_CallHandler:
  "guarded cfg rq intent duplicate h (CallHandler r ctx args) \<longleftrightarrow>
     handler_authorised cfg rq intent duplicate h r ctx args"
  by (simp add: guarded_def)

lemma guarded_of_quiet:
  "guarantee R quiet Q E h p \<Longrightarrow> guarantee R (guarded cfg rq intent duplicate) Q E h p"
  by (erule guarantee_weaken_G) (rule guarded_quiet)

lemma AuditEvent_validate_same: "AuditEvent_validate e = Inr e' \<Longrightarrow> e' = e"
  by (auto simp: AuditEvent_validate_def split: if_splits option.splits)

lemma emit_guarantee:
  "guarantee R quiet (\<lambda>_ h'. \<exists>ev. (Append ev, AUnit (Inr ())) \<in> set h' \<and> ae_event_type ev = ty \<and>
       ae_call_id ev = c \<and> ae_tool_identity ev = i) (\<lambda>_ _. True) h (emit rq ty c n i d)"
proof -
  have "\<exists>ev. ev = e' \<and> ae_event_type ev = ae_event_type e \<and> ae_call_id ev = ae_call_id e \<and>
      ae_tool_identity ev = ae_tool_identity e" if "AuditEvent_validate e = Inr e'" for e e'
    using AuditEvent_validate_same [OF that] by blast
  note fields = this
  show ?thesis
    by (auto simp: emit_def ask_defs split: sum.splits dest!: fields)
qed

lemma call_handler_guarantee:
  assumes "handler_authorised cfg rq intent duplicate h r context args"
  shows "guarantee R (guarded cfg rq intent duplicate) (\<lambda>_ _. True) (\<lambda>_ _. True) h
     (call_handler rq intent it sa r context args)"
  using assms
  by (auto simp: call_handler_def ask_defs guarded_CallHandler
        intro!: guarded_of_quiet [OF quiet_refuse] guarded_of_quiet [OF quiet_tool_failure]
        split: sum.splits option.splits)

lemma quiet_store_result:
  "guarantee R quiet (\<lambda>_ _. True) (\<lambda>_ _. True) h (store_result cfg rq intent it sa r grant res)"
  by (auto simp: store_result_def ask_defs intro!: quiet_tool_failure split: sum.splits option.splits prod.splits)

lemma quiet_safe_registration:
  "(\<And>ok h'. Q ok h') \<Longrightarrow> guarantee R quiet Q E h (safe_registration rq name)"
  by (simp add: safe_registration_def ask_defs)

lemma invoke_guarantee:
  assumes "\<not> duplicate" and "args = detach (tin_arguments intent)"
    and "int (length (dumps args)) \<le> ep_max_tool_argument_bytes (rc_policy cfg)"
    and resolved: "(ResolveTool (rq_scope rq) (tin_tool_name intent), ATool (Some r)) \<in> set h"
    and checked: "call_checked rq intent r grant h"
    and authorized: "call_authorized cfg rq intent r args (rc_sha cfg (dumps args)) approver h"
    and "no_handler_call h"
  shows "guarantee R (guarded cfg rq intent duplicate) (\<lambda>_ _. True) (\<lambda>_ _. True) h
     (invoke cfg rq intent it sa sm r grant args approver)"
proof -
  let ?started = "\<lambda>h. \<exists>ev. (Append ev, AUnit (Inr ())) \<in> set h \<and> ae_event_type ev = TOOL_STARTED \<and>
         ae_call_id ev = Some (tin_call_id intent) \<and> ae_tool_identity ev = Some (rt_identity r)"
  let ?ready = "\<lambda>h'. set h \<subseteq> set h' \<and> no_handler_call h' \<and> ?started h'"
  have authorised: "handler_authorised cfg rq intent duplicate h1 r
      \<lparr>tc_scope = rq_scope rq, tc_run_id = rq_run_id rq, tc_call_id = tin_call_id intent,
       tc_tool_identity = rt_identity r, tc_tool = rt_spec r, tc_remaining = left,
       tc_grant_id = gid, tc_read_only = ro\<rparr> args" if "?ready h1" for h1 left gid ro
    using call_checked_mono [OF _ checked, of h1] call_authorized_mono [OF _ authorized, of h1] that assms
    unfolding handler_authorised_def by auto
  have emitted: "guarantee R quiet (\<lambda>_. ?ready) (\<lambda>_ _. True) h
     (emit rq TOOL_STARTED (Some (tin_call_id intent)) n (Some (rt_identity r)) d)" for n d
    by (rule guarantee_mono [OF guarantee_frame [OF emit_guarantee]]) (use \<open>no_handler_call h\<close> in auto)
  have published: "guarantee R quiet (\<lambda>_. ?ready) (\<lambda>_ _. True) h1 (ask_unit (Publish k t d))"
    if "?ready h1" for h1 k t d
    using that by (auto simp: ask_defs split: sum.splits)
  have timed: "guarantee R quiet (\<lambda>_. ?ready) (\<lambda>_ _. True) h1 (ask_time Monotonic)" if "?ready h1" for h1
    using that by (auto simp: ask_defs)
  show ?thesis
    unfolding invoke_def
    by (rule guarantee_bindI [OF guarded_of_quiet [OF emitted]],
        rule guarantee_bindI [OF guarded_of_quiet [OF published]], assumption,
        rule guarantee_bindI [OF guarded_of_quiet [OF timed]], assumption,
        rule guarantee_bindI [OF call_handler_guarantee [OF authorised]], assumption)
       (auto simp: ask_defs simp del: guarantee_bind split: sum.split
          intro!: guarded_of_quiet [OF quiet_tool_failure] guarantee_bindI [OF guarded_of_quiet [OF quiet_store_result]]
            guarantee_bindI [OF guarded_of_quiet [OF quiet_emit [where Q = "\<lambda>_ _. True"]]]
            guarantee_bindI [OF guarded_of_quiet [OF quiet_safe_registration [where Q = "\<lambda>_ _. True"]]]
            guarded_quiet)
qed

lemma guarantee_bind_lift:
  "guarantee R G Q E h (prog_bind (lift_result r) f) =
     (case r of Inl _ \<Rightarrow> E ValueOrTypeError h | Inr x \<Rightarrow> guarantee R G Q E h (f x))"
  by (simp split: sum.split)

lemma execute_intent_guarantee:
  "guarantee R (guarded cfg rq intent duplicate) (\<lambda>_ _. True) (\<lambda>_ _. True) []
     (execute_intent cfg rq intent it sm duplicate)"
proof -
  let ?args = "detach (tin_arguments intent)"
  let ?resolved = "\<lambda>reg h. (ResolveTool (rq_scope rq) (tin_tool_name intent), ATool reg) \<in> set h \<and> no_handler_call h"
  have authorize: "guarantee R (guarded cfg rq intent d) (\<lambda>got h'. case got of Inl _ \<Rightarrow> True
       | Inr ap \<Rightarrow> call_authorized cfg rq intent r ?args digest ap h' \<and> ?resolved (Some r) h' \<and>
           call_checked rq intent r grant h') (\<lambda>_ _. True) h1
     (authorize_call cfg rq intent it sa r ?args digest)"
    if "?resolved (Some r) h1" "call_checked rq intent r grant h1" for h1 sa r grant digest d
    by (rule guarded_of_quiet, rule guarantee_mono [OF guarantee_frame [OF authorize_call_guarantee]])
       (use that call_checked_mono in \<open>auto split: sum.splits\<close>)
  have check: "guarantee R (guarded cfg rq intent duplicate) (\<lambda>c h'. case c of Inl _ \<Rightarrow> True
       | Inr (r, grant) \<Rightarrow> \<not> duplicate \<and> int (length payload) \<le> ep_max_tool_argument_bytes (rc_policy cfg) \<and>
           call_checked rq intent r grant h' \<and> ?resolved (Some r) h') (\<lambda>_ _. True) h1
     (check_call cfg rq intent it sa duplicate payload reg)" if "?resolved reg h1" for h1 sa payload reg
    by (rule guarded_of_quiet, rule guarantee_mono [OF guarantee_frame [OF check_call_guarantee]])
       (use that in \<open>auto split: sum.splits\<close>)
  have intent: "guarantee R (guarded cfg rq intent duplicate) (\<lambda>_. ?resolved reg) (\<lambda>_ _. True) h1
     (emit rq TOOL_INTENT c n i d)" if "?resolved reg h1" for h1 c n i d reg
    by (rule guarded_of_quiet, rule guarantee_mono [OF guarantee_frame [OF quiet_emit [where Q = "\<lambda>_ _. True"]]])
       (use that in auto)
  have finish: "guarantee R (guarded cfg rq intent duplicate) (\<lambda>_ _. True) (\<lambda>_ _. True) h1
     (case checked of Inl ob \<Rightarrow> Ret ob
     | Inr (r, grant) \<Rightarrow>
         prog_bind (authorize_call cfg rq intent it sa r ?args (rc_sha cfg (dumps ?args))) (\<lambda>authorized.
         case authorized of Inl ob \<Rightarrow> Ret ob
         | Inr approved_by \<Rightarrow> invoke cfg rq intent it sa sm r grant ?args approved_by))"
    if "case checked of Inl _ \<Rightarrow> True
       | Inr (r, grant) \<Rightarrow> \<not> duplicate \<and> int (length (dumps ?args)) \<le> ep_max_tool_argument_bytes (rc_policy cfg) \<and>
           call_checked rq intent r grant h1 \<and> ?resolved (Some r) h1" for checked h1 sa
    using that
    by (auto simp del: guarantee_bind intro!: guarantee_bindI [OF authorize] invoke_guarantee
          split: sum.splits)
  show ?thesis
    unfolding execute_intent_def Let_def
    by (auto simp: ask_defs guarantee_bind_lift arguments_digest_def guarded_quiet simp del: guarantee_bind
          intro!: guarantee_bindI [OF intent] guarantee_bindI [OF check] finish split: sum.split)
qed

end
