(* ===== verification/Runner_Audit.thy ===== *)
theory Runner_Audit
  imports Runner_Safety
begin

text \<open>
  The audit trail and the observation of one tool call: every call that returns has recorded its
  intent and then either one refusal, or its start followed by its end, and the observation says
  which.
\<close>

section \<open>The recorded events of a history\<close>

fun recorded :: "'h exchange \<Rightarrow> AuditEvent list" where
  "recorded (Append ev, AUnit (Inr u)) = [ev]"
| "recorded _ = []"

definition audit_events :: "'h exchange list \<Rightarrow> AuditEvent list" where
  "audit_events h = concat (map recorded h)"

lemma audit_events_simps [simp]:
  "audit_events [] = []" "audit_events (h @ h') = audit_events h @ audit_events h'"
  "audit_events (e # h) = recorded e @ audit_events h"
  by (simp_all add: audit_events_def)

text \<open>The event of a call, up to the time of the record.\<close>

definition call_event :: "RunRequest \<Rightarrow> ToolIntent \<Rightarrow> AuditEventType \<Rightarrow> ToolIdentity option \<Rightarrow> (string \<times> json) list \<Rightarrow> AuditEvent \<Rightarrow> bool" where
  "call_event rq intent ty identity data ev \<longleftrightarrow>
     ev = \<lparr>ae_event_type = ty, ae_occurred_at = ae_occurred_at ev,
       ae_tenant_id = the (rs_tenant_id (rq_scope rq)), ae_product_id = the (rs_product_id (rq_scope rq)),
       ae_principal_id = rs_principal_id (rq_scope rq), ae_request_id = rs_request_id (rq_scope rq),
       ae_correlation_id = rs_correlation_id (rq_scope rq), ae_purpose = rs_purpose (rq_scope rq), ae_run_id = rq_run_id rq,
       ae_channel_id = rs_channel_id (rq_scope rq), ae_call_id = Some (tin_call_id intent),
       ae_tool_name = Some (tin_tool_name intent), ae_tool_identity = identity, ae_data = data\<rparr>"

text \<open>The clock does not run backwards within the call.\<close>

definition clock_rely :: "'h exchange list \<Rightarrow> 'h ask \<Rightarrow> 'h answer \<Rightarrow> bool" where
  "clock_rely h q a \<longleftrightarrow> (\<forall>t t'. q = Now \<longrightarrow> a = ATime t \<longrightarrow> (Now, ATime t') \<in> set h \<longrightarrow> t' \<le> t)"

definition silent :: "'h exchange list \<Rightarrow> 'h ask \<Rightarrow> bool" where
  "silent h q \<longleftrightarrow> (case q of Append _ \<Rightarrow> False | _ \<Rightarrow> True)"

abbreviation anything :: "'h exchange list \<Rightarrow> 'h ask \<Rightarrow> bool" where
  "anything \<equiv> \<lambda>_ _. True"

abbreviation same_trail :: "'h exchange list \<Rightarrow> 'h exchange list \<Rightarrow> bool" where
  "same_trail h h' \<equiv> audit_events h' = audit_events h \<and> set h \<subseteq> set h'"

lemma recorded_silent: "silent h q \<Longrightarrow> recorded (q, a) = []"
  by (cases q) (auto simp: silent_def)

lemma silent_frame:
  "guarantee R silent (\<lambda>_ _. True) (\<lambda>_ _. True) h p \<Longrightarrow>
     guarantee R anything (\<lambda>_. same_trail h) (\<lambda>_. same_trail h) h p"
proof (induction p arbitrary: h)
  case (Ask q k)
  have "guarantee R anything (\<lambda>_. same_trail h) (\<lambda>_. same_trail h) (h @ [(q, a)]) (k a)"
    if "answers q a" "R h q a" for a
  proof (rule guarantee_mono)
    show "guarantee R anything (\<lambda>_. same_trail (h @ [(q, a)])) (\<lambda>_. same_trail (h @ [(q, a)])) (h @ [(q, a)]) (k a)"
      using Ask.prems that by (intro Ask.IH) auto
  qed (use Ask.prems recorded_silent in auto)
  then show ?case by simp
qed simp_all

lemma silent_simps [simp]:
  "silent h Now" "silent h Monotonic" "silent h (ResolveTool s n)" "silent h (ResolveGrant g)"
  "silent h (Publish k t d)" "silent h (Validate r v)" "silent h (Evaluate rq i sp v)"
  "silent h (Consume tok tgt)" "silent h (RequestApproval rq tgt sp v)" "silent h (PutResult s n p)"
  "silent h (CallHandler r c v)"
  by (simp_all add: silent_def)

section \<open>Refusals and failures\<close>

definition observed :: "ToolIntent \<Rightarrow> instant \<Rightarrow> ToolObservation \<Rightarrow> bool" where
  "observed intent sa ob \<longleftrightarrow> to_call_id ob = tin_call_id intent \<and> to_tool_name ob = tin_tool_name intent \<and>
     to_started_at ob = sa \<and> sa \<le> to_finished_at ob \<and>
     (to_failure ob = None \<longleftrightarrow> to_status ob = CALL_SUCCEEDED)"

text \<open>
  The last event of a call agrees with its observation: a refusal or a failed end carries the code of the observed failure, the end of
  a successful call the identity of the tool.
\<close>

definition closes :: "RunRequest \<Rightarrow> ToolIntent \<Rightarrow> ToolIdentity option \<Rightarrow> ToolObservation \<Rightarrow> AuditEvent \<Rightarrow> bool" where
  "closes rq intent identity ob ev \<longleftrightarrow>
     (case to_status ob of
        CALL_DENIED \<Rightarrow> (\<exists>f. to_failure ob = Some f \<and> call_event rq intent TOOL_DENIED identity [(''code'', JStr (code_value (rf_code f)))] ev)
      | CALL_FAILED \<Rightarrow> (\<exists>f. to_failure ob = Some f \<and>
          call_event rq intent TOOL_FINISHED identity [(''status'', JStr ''failed''), (''code'', JStr (code_value (rf_code f)))] ev)
      | CALL_SUCCEEDED \<Rightarrow> to_tool_identity ob = identity \<and>
          call_event rq intent TOOL_FINISHED identity [(''status'', JStr ''succeeded'')] ev
      | CALL_BUDGET_EXCEEDED \<Rightarrow> False)"

abbreviation ended ::
    "RunRequest \<Rightarrow> ToolIntent \<Rightarrow> instant \<Rightarrow> ToolIdentity option \<Rightarrow> AuditEvent list \<Rightarrow> ToolObservation \<Rightarrow> 'h exchange list \<Rightarrow> bool" where
  "ended rq intent sa identity trail ob h' \<equiv>
     observed intent sa ob \<and> (\<exists>ev. audit_events h' = trail @ [ev] \<and> closes rq intent identity ob ev)"

lemma emit_trail:
  "guarantee R anything (\<lambda>_ h'. (\<exists>ev. audit_events h' = audit_events h @ [ev] \<and> call_event rq intent ty i d ev) \<and> set h \<subseteq> set h')
     (\<lambda>_. same_trail h) h (emit rq ty (Some (tin_call_id intent)) (Some (tin_tool_name intent)) i d)"
  by (auto simp: emit_def ask_defs call_event_def dest!: AuditEvent_validate_same split: sum.splits)

lemma failed_observation_trail:
  assumes "(Now, ATime sa) \<in> set h" and "status \<noteq> CALL_SUCCEEDED"
  shows "guarantee clock_rely anything
     (\<lambda>ob h'. same_trail h h' \<and> observed intent sa ob \<and> to_status ob = status \<and> to_failure ob = Some f)
     (\<lambda>_ _. False) h (failed_observation intent status f sa)"
  using assms
  by (auto simp: failed_observation_def ask_defs clock_rely_def ToolObservation_validate_def observed_def
        canonical_json_def split: sum.splits)

lemma deny_trail:
  assumes "(Now, ATime sa) \<in> set h"
  shows "guarantee clock_rely anything
     (\<lambda>ob h'. ended rq intent sa i (audit_events h) ob h' \<and> to_status ob = CALL_DENIED)
     (\<lambda>_. same_trail h) h (deny rq intent it sa code msg i)"
  unfolding deny_def
  by (rule guarantee_bindI [OF emit_trail])
     (rule guarantee_mono [OF failed_observation_trail], use assms in \<open>auto simp: closes_def call_failure_def\<close>)

lemma refuse_trail:
  assumes "(Now, ATime sa) \<in> set h"
  shows "guarantee clock_rely anything
     (\<lambda>got h'. \<exists>ob. got = Inl ob \<and> ended rq intent sa i (audit_events h) ob h' \<and> to_status ob = CALL_DENIED)
     (\<lambda>_. same_trail h) h (refuse rq intent it sa i code msg)"
  unfolding refuse_def
  by (rule guarantee_bindI [OF deny_trail [OF assms]]) simp

lemma tool_failure_trail:
  assumes "(Now, ATime sa) \<in> set h"
  shows "guarantee clock_rely anything (ended rq intent sa (Some i) (audit_events h))
     (\<lambda>_ _. True) h (tool_failure rq intent it sa code msg i)"
  unfolding tool_failure_def
  by (rule guarantee_bindI [OF guarantee_mono [OF emit_trail]], assumption, simp)
     (rule guarantee_mono [OF failed_observation_trail], use assms in \<open>auto simp: closes_def call_failure_def\<close>)

section \<open>The phases\<close>

text \<open>A phase either ends the call with one recorded refusal or leaves the trail as it was.\<close>

definition refused_or_passed ::
    "RunRequest \<Rightarrow> ToolIntent \<Rightarrow> instant \<Rightarrow> ToolIdentity option \<Rightarrow> ('a \<Rightarrow> bool) \<Rightarrow> 'h exchange list \<Rightarrow> ToolObservation + 'a \<Rightarrow>
     'h exchange list \<Rightarrow> bool" where
  "refused_or_passed rq intent sa identity P h got h' \<longleftrightarrow>
     (case got of
        Inl ob \<Rightarrow> ended rq intent sa identity (audit_events h) ob h' \<and> to_status ob = CALL_DENIED
      | Inr x \<Rightarrow> P x \<and> same_trail h h')"

abbreviation any_result :: "'a \<Rightarrow> bool" where
  "any_result \<equiv> \<lambda>_. True"

lemma refused_or_passed_simps [simp]:
  "refused_or_passed rq intent sa identity P h (Inr x) h' \<longleftrightarrow> P x \<and> same_trail h h'"
  "refused_or_passed rq intent sa identity P h (Inl ob) h' \<longleftrightarrow>
     ended rq intent sa identity (audit_events h) ob h' \<and> to_status ob = CALL_DENIED"
  by (simp_all add: refused_or_passed_def)

lemma refuse_phase:
  assumes "same_trail h0 h" and "(Now, ATime sa) \<in> set h0"
  shows "guarantee clock_rely anything (refused_or_passed rq intent sa i P h0) (\<lambda>_ _. True) h
     (refuse rq intent it sa i code msg)"
proof -
  have "(Now, ATime sa) \<in> set h" using assms by auto
  from refuse_trail [OF this] show ?thesis by (rule guarantee_mono) (use assms(1) in auto)
qed

lemma silent_phase:
  assumes "guarantee R silent (\<lambda>_ _. True) (\<lambda>_ _. True) h p" and "same_trail h0 h"
  shows "guarantee R anything (\<lambda>_. same_trail h0) (\<lambda>_ _. True) h p"
  using silent_frame [OF assms(1)] by (rule guarantee_mono) (use assms(2) in auto)

lemma silent_grant_of: "guarantee R silent (\<lambda>_ _. True) (\<lambda>_ _. True) h (grant_of rq)"
  by (auto simp: grant_of_def ask_defs split: sum.splits option.splits)

lemma silent_safe_registration: "guarantee R silent (\<lambda>_ _. True) (\<lambda>_ _. True) h (safe_registration rq name)"
  by (simp add: safe_registration_def ask_defs)

lemma silent_evaluate_policy: "guarantee R silent (\<lambda>_ _. True) (\<lambda>_ _. True) h (evaluate_policy cfg rq r args)"
  by (auto simp: evaluate_policy_def ask_defs split: sum.splits option.splits)

lemma check_call_trail:
  assumes "(Now, ATime sa) \<in> set h"
  shows "guarantee clock_rely anything
     (refused_or_passed rq intent sa (map_option rt_identity registered) (\<lambda>(r, g). registered = Some r) h) (\<lambda>_ _. True) h
     (check_call cfg rq intent it sa duplicate payload registered)"
proof -
  have no: "same_trail h h' \<Longrightarrow> guarantee clock_rely anything (refused_or_passed rq intent sa i P h) (\<lambda>_ _. True) h'
     (refuse rq intent it sa i code msg)" for h' i code msg P
    by (rule refuse_phase) (use assms in auto)
  show ?thesis
    unfolding check_call_def Let_def
    by (auto simp del: guarantee_bind
          intro!: no guarantee_bindI [OF silent_phase [OF silent_grant_of]]
            guarantee_bindI [OF silent_phase [OF silent_safe_registration]]
          split: sum.split option.split)
qed

lemma approve_call_trail:
  assumes "(Now, ATime sa) \<in> set h"
  shows "guarantee clock_rely anything (refused_or_passed rq intent sa (Some (rt_identity r)) any_result h) (\<lambda>_ _. True) h
     (approve_call cfg rq intent it sa r args digest)"
proof -
  let ?i = "Some (rt_identity r)"
  have no: "same_trail h h' \<Longrightarrow> guarantee clock_rely anything (refused_or_passed rq intent sa ?i P h) (\<lambda>_ _. True) h'
     (refuse rq intent it sa ?i code msg)" for h' code msg P
    by (rule refuse_phase) (use assms in auto)
  have obtained: "guarantee clock_rely anything (refused_or_passed rq intent sa ?i any_result h) (\<lambda>_ _. True) h
      (obtain_approval cfg rq intent it sa r args expected)" for expected
    by (auto simp: obtain_approval_def ask_defs intro!: guarantee_mono [OF refuse_trail [OF assms]]
          split: sum.splits option.splits)
  have finish: "guarantee clock_rely anything (refused_or_passed rq intent sa ?i any_result h) (\<lambda>_ _. True) h'
     (case got of Inl ob \<Rightarrow> Ret (Inl ob)
      | Inr None \<Rightarrow> refuse rq intent it sa ?i code msg
      | Inr (Some binding) \<Rightarrow>
          prog_bind (approval_matches expected binding) (\<lambda>ok.
            if ok then Ret (Inr (ab_approved_by binding)) else refuse rq intent it sa ?i code msg))"
    if "refused_or_passed rq intent sa ?i any_result h got h'" for got h' code msg expected
    using that by (auto simp: approval_matches_def ask_defs intro!: no split: sum.split option.split)
  show ?thesis
    unfolding approve_call_def Let_def
    by (auto simp del: guarantee_bind simp: guarantee_bind_lift split: sum.split
          intro!: guarantee_bindI [OF obtained] finish)
qed

lemma settle_call_trail:
  assumes "(Now, ATime sa) \<in> set h"
  shows "guarantee clock_rely anything (refused_or_passed rq intent sa (Some (rt_identity r)) any_result h) (\<lambda>_ _. True) h
     (settle_call cfg rq intent it sa r args digest au)"
  unfolding settle_call_def
  by (simp add: refuse_phase assms, intro impI guarantee_mono [OF approve_call_trail [OF assms]])
     (auto split: sum.split)

lemma refused_or_passed_trans:
  "same_trail h h1 \<Longrightarrow> refused_or_passed rq intent sa i P h1 got h2 \<Longrightarrow> refused_or_passed rq intent sa i P h got h2"
  by (cases got) auto

lemma authorize_call_trail:
  assumes "(Now, ATime sa) \<in> set h"
  shows "guarantee clock_rely anything (refused_or_passed rq intent sa (Some (rt_identity r)) any_result h) (\<lambda>_ _. True) h
     (authorize_call cfg rq intent it sa r args digest)"
proof -
  have validated: "guarantee clock_rely silent (\<lambda>_ _. True) (\<lambda>_ _. True) h
     (try_except (prog_bind (ask_unit (Validate r args)) (\<lambda>_. Ret True))
       (\<lambda>e. if e = JsonSchemaValidationError then Ret False else Throw e))"
    by (auto simp: ask_defs split: sum.splits)
  have settled: "guarantee clock_rely anything (refused_or_passed rq intent sa (Some (rt_identity r)) any_result h) (\<lambda>_ _. True) h1
     (settle_call cfg rq intent it sa r args digest au)" if "same_trail h h1" for h1 au
  proof -
    have "(Now, ATime sa) \<in> set h1" using that assms by auto
    from settle_call_trail [OF this] show ?thesis
      by (rule guarantee_mono) (use refused_or_passed_trans [OF that] in auto)
  qed
  show ?thesis
    unfolding authorize_call_def
    by (rule guarantee_bindI [OF silent_phase [OF validated]])
       (use settled assms in \<open>auto simp del: guarantee_bind
          intro!: refuse_phase guarantee_bindI [OF silent_phase [OF silent_evaluate_policy]]\<close>)
qed

section \<open>The whole call\<close>

definition ended_or_going ::
    "RunRequest \<Rightarrow> ToolIntent \<Rightarrow> instant \<Rightarrow> ToolIdentity option \<Rightarrow> 'h exchange list \<Rightarrow> ToolObservation + 'a \<Rightarrow> 'h exchange list \<Rightarrow> bool" where
  "ended_or_going rq intent sa i h got h' \<longleftrightarrow>
     (case got of Inl ob \<Rightarrow> ended rq intent sa i (audit_events h) ob h' | Inr _ \<Rightarrow> same_trail h h')"

lemma ended_or_going_simps [simp]:
  "ended_or_going rq intent sa i h (Inl ob) h' \<longleftrightarrow> ended rq intent sa i (audit_events h) ob h'"
  "ended_or_going rq intent sa i h (Inr x) h' \<longleftrightarrow> same_trail h h'"
  by (simp_all add: ended_or_going_def)

lemma refuse_ended:
  assumes "(Now, ATime sa) \<in> set h" and "audit_events h = audit_events h0"
  shows "guarantee clock_rely anything (ended_or_going rq intent sa i h0) (\<lambda>_ _. True) h
     (refuse rq intent it sa i code msg)"
  by (rule guarantee_mono [OF refuse_trail [OF assms(1)]]) (use assms(2) in auto)

lemma tool_failure_ended:
  assumes "(Now, ATime sa) \<in> set h" and "audit_events h = trail"
  shows "guarantee clock_rely anything (ended rq intent sa (Some i) trail) (\<lambda>_ _. True) h
     (tool_failure rq intent it sa code msg i)"
  by (rule guarantee_mono [OF tool_failure_trail [OF assms(1)]]) (use assms(2) in auto)

lemma call_handler_trail:
  assumes "(Now, ATime sa) \<in> set h"
  shows "guarantee clock_rely anything (ended_or_going rq intent sa (Some (rt_identity r)) h) (\<lambda>_ _. True) h
     (call_handler rq intent it sa r ctx args)"
  using assms
  by (auto simp: call_handler_def ask_defs intro!: refuse_ended tool_failure_ended split: sum.splits option.splits)

lemma store_result_trail:
  assumes "(Now, ATime sa) \<in> set h"
  shows "guarantee clock_rely anything (ended_or_going rq intent sa (Some (rt_identity r)) h) (\<lambda>_ _. True) h
     (store_result cfg rq intent it sa r grant res)"
  using assms
  by (auto simp: store_result_def ask_defs intro!: tool_failure_ended split: sum.splits option.splits prod.splits)

text \<open>The end of a successful call.\<close>

lemma success_trail:
  assumes "(Now, ATime sa) \<in> set h" and "audit_events h = trail"
  shows "guarantee clock_rely anything (ended rq intent sa (Some i) trail) (\<lambda>_ _. True) h
     (prog_bind (ask_time Now) (\<lambda>finished_at.
      prog_bind (emit rq TOOL_FINISHED (Some (tin_call_id intent)) (Some (tin_tool_name intent)) (Some i)
        [(''status'', JStr ''succeeded'')]) (\<lambda>_.
      prog_bind (safe_registration rq name) (\<lambda>safe.
      lift_result (ToolObservation_validate
        \<lparr>to_call_id = tin_call_id intent, to_tool_name = tin_tool_name intent, to_tool_identity = Some i,
         to_arguments = f safe, to_status = CALL_SUCCEEDED, to_result = result, to_failure = None,
         to_started_at = sa, to_finished_at = finished_at\<rparr>)))))"
proof -
  let ?finished = "\<lambda>h'. \<exists>ev. audit_events h' = trail @ [ev] \<and>
      call_event rq intent TOOL_FINISHED (Some i) [(''status'', JStr ''succeeded'')] ev"
  have last: "guarantee clock_rely anything (ended rq intent sa (Some i) trail) (\<lambda>_ _. True) h1
     (prog_bind (safe_registration rq name) (\<lambda>safe.
      lift_result (ToolObservation_validate
        \<lparr>to_call_id = tin_call_id intent, to_tool_name = tin_tool_name intent, to_tool_identity = Some i,
         to_arguments = f safe, to_status = CALL_SUCCEEDED, to_result = result, to_failure = None,
         to_started_at = sa, to_finished_at = t\<rparr>)))"
    if "?finished h1" for h1 t
    using that
    by (auto simp: safe_registration_def ask_defs ToolObservation_validate_def closes_def observed_def
          split: sum.splits if_splits)
  have finished: "guarantee clock_rely anything (\<lambda>_. ?finished) (\<lambda>_ _. True) h1
     (emit rq TOOL_FINISHED (Some (tin_call_id intent)) (Some (tin_tool_name intent)) (Some i)
        [(''status'', JStr ''succeeded'')])" if "audit_events h1 = trail" for h1
    by (rule guarantee_mono [OF emit_trail]) (use that in auto)
  show ?thesis
    by (auto simp: ask_defs assms(2) simp del: guarantee_bind intro!: guarantee_bindI [OF finished] last)
qed

text \<open>The event that the handler is about to be called, with the effects of the tool and who approved the call.\<close>

definition starts :: "RunRequest \<Rightarrow> ToolIntent \<Rightarrow> 'h RegisteredTool \<Rightarrow> string option \<Rightarrow> AuditEvent \<Rightarrow> bool" where
  "starts rq intent r approver ev \<longleftrightarrow>
     call_event rq intent TOOL_STARTED (Some (rt_identity r))
       ((''effects'', JList (map JStr (sorted_list_of_set (effect_value ` ts_effects (rt_spec r))))) #
        (case approver of None \<Rightarrow> [] | Some by' \<Rightarrow> [(''approved_by'', JStr by')])) ev"

definition invoked :: "RunRequest \<Rightarrow> ToolIntent \<Rightarrow> 'h RegisteredTool \<Rightarrow> string option \<Rightarrow> AuditEvent list \<Rightarrow> ToolObservation \<Rightarrow> 'h exchange list \<Rightarrow> bool" where
  "invoked rq intent r approver trail ob h' \<longleftrightarrow>
     (\<exists>started ev. starts rq intent r approver started \<and> audit_events h' = trail @ [started, ev] \<and>
        closes rq intent (Some (rt_identity r)) ob ev)"

lemma invoke_trail:
  assumes "(Now, ATime sa) \<in> set h"
  shows "guarantee clock_rely anything (\<lambda>ob h'. observed intent sa ob \<and> invoked rq intent r approver (audit_events h) ob h')
     (\<lambda>_ _. True) h (invoke cfg rq intent it sa sm r grant args approver)"
proof -
  let ?start = "(''effects'', JList (map JStr (sorted_list_of_set (effect_value ` ts_effects (rt_spec r))))) #
        (case approver of None \<Rightarrow> [] | Some by' \<Rightarrow> [(''approved_by'', JStr by')])"
  let ?going = "\<lambda>h'. (\<exists>ev. starts rq intent r approver ev \<and> audit_events h' = audit_events h @ [ev]) \<and> (Now, ATime sa) \<in> set h'"
  let ?Q = "\<lambda>ob h'. observed intent sa ob \<and> invoked rq intent r approver (audit_events h) ob h'"
  have started: "guarantee clock_rely anything (\<lambda>_. ?going) (\<lambda>_ _. True) h
     (emit rq TOOL_STARTED (Some (tin_call_id intent)) (Some (tin_tool_name intent)) (Some (rt_identity r)) ?start)"
    by (rule guarantee_mono [OF emit_trail]) (use assms in \<open>auto simp: starts_def\<close>)
  have published: "guarantee clock_rely anything (\<lambda>_. ?going) (\<lambda>_ _. True) h1 (ask_unit (Publish k t d))"
    if "?going h1" for h1 k t d
    using that by (auto simp: ask_defs split: sum.splits)
  have timed: "guarantee clock_rely anything (\<lambda>_. ?going) (\<lambda>_ _. True) h1 (ask_time Monotonic)"
    if "?going h1" for h1
    using that by (auto simp: ask_defs)
  have handled: "guarantee clock_rely anything (\<lambda>got h'. case got of Inl ob \<Rightarrow> ?Q ob h' | Inr _ \<Rightarrow> ?going h') (\<lambda>_ _. True) h1
     (call_handler rq intent it sa r ctx args)" if "?going h1" for h1 ctx
    by (rule guarantee_mono [OF call_handler_trail]) (use that in \<open>auto simp: invoked_def split: sum.splits\<close>)
  have stored: "guarantee clock_rely anything (\<lambda>got h'. case got of Inl ob \<Rightarrow> ?Q ob h' | Inr _ \<Rightarrow> ?going h') (\<lambda>_ _. True) h1
     (store_result cfg rq intent it sa r grant res)" if "?going h1" for h1 res
    by (rule guarantee_mono [OF store_result_trail]) (use that in \<open>auto simp: invoked_def split: sum.splits\<close>)
  have failed: "guarantee clock_rely anything ?Q (\<lambda>_ _. True) h1 (tool_failure rq intent it sa code msg (rt_identity r))"
    if "?going h1" for h1 code msg
    by (rule guarantee_mono [OF tool_failure_ended [OF _ refl]]) (use that in \<open>auto simp: invoked_def\<close>)
  have succeeded: "guarantee clock_rely anything ?Q (\<lambda>_ _. True) h1 p"
    if "?going h1" "guarantee clock_rely anything (ended rq intent sa (Some (rt_identity r)) (audit_events h1)) (\<lambda>_ _. True) h1 p" for h1 p
    by (rule guarantee_mono [OF that(2)]) (use that(1) in \<open>auto simp: invoked_def\<close>)
  show ?thesis
    unfolding invoke_def
    by (rule guarantee_bindI [OF started], rule guarantee_bindI [OF published], assumption,
        rule guarantee_bindI [OF timed], assumption, rule guarantee_bindI [OF handled], assumption)
       (auto simp del: guarantee_bind intro!: failed guarantee_bindI [OF stored] succeeded [OF _ success_trail [OF _ refl]] split: sum.splits)
qed

text \<open>
  The trail that goes with an observation: the intent with the digest of the arguments, then the refusal, or the start and
  what closes the call; all of them about the same call and the same tool.
\<close>

definition intends :: "RunnerConfig \<Rightarrow> RunRequest \<Rightarrow> ToolIntent \<Rightarrow> ToolIdentity option \<Rightarrow> AuditEvent \<Rightarrow> bool" where
  "intends cfg rq intent identity ev \<longleftrightarrow>
     (\<exists>digest. arguments_digest (rc_sha cfg) (detach (tin_arguments intent)) = Return digest \<and>
        call_event rq intent TOOL_INTENT identity [(''arguments_digest'', JStr digest)] ev)"

definition call_settled :: "RunnerConfig \<Rightarrow> RunRequest \<Rightarrow> ToolIntent \<Rightarrow> ToolObservation \<Rightarrow> 'h exchange list \<Rightarrow> bool" where
  "call_settled cfg rq intent ob h \<longleftrightarrow>
     observed intent (to_started_at ob) ob \<and>
     (\<exists>first identity ev. intends cfg rq intent identity first \<and> closes rq intent identity ob ev \<and>
        (audit_events h = [first, ev] \<and> to_status ob = CALL_DENIED \<or>
         (\<exists>(r :: 'h RegisteredTool) approver started. identity = Some (rt_identity r) \<and> starts rq intent r approver started \<and>
            audit_events h = [first, started, ev])))"

lemma execute_intent_trail:
  "guarantee clock_rely anything (call_settled cfg rq intent) (\<lambda>_ _. True) [] (execute_intent cfg rq intent it sm duplicate)"
proof -
  let ?Q = "call_settled cfg rq intent"
  let ?going = "\<lambda>i sa h'. (\<exists>first. intends cfg rq intent i first \<and> audit_events h' = [first]) \<and> (Now, ATime sa) \<in> set h'"
  have intent: "guarantee clock_rely anything (\<lambda>_. ?going i sa) (\<lambda>_ _. True) h1
      (emit rq TOOL_INTENT (Some (tin_call_id intent)) (Some (tin_tool_name intent)) i [(''arguments_digest'', JStr digest)])"
    if "audit_events h1 = []" "(Now, ATime sa) \<in> set h1"
      "arguments_digest (rc_sha cfg) (detach (tin_arguments intent)) = Return digest" for h1 sa i digest
    by (rule guarantee_mono [OF emit_trail]) (use that in \<open>auto simp: intends_def\<close>)
  have passed: "guarantee clock_rely anything (\<lambda>got h'. case got of Inl ob \<Rightarrow> ?Q ob h' | Inr x \<Rightarrow> P x \<and> ?going i sa h')
      (\<lambda>_ _. True) h1 p"
    if "guarantee clock_rely anything (refused_or_passed rq intent sa i P h1) (\<lambda>_ _. True) h1 p" "?going i sa h1" for i sa P h1 p
    by (rule guarantee_mono [OF that(1)])
       (use that(2) in \<open>(auto simp: call_settled_def observed_def split: sum.splits; blast)\<close>)
  have invoked: "guarantee clock_rely anything ?Q (\<lambda>_ _. True) h1
      (invoke cfg rq intent it sa sm r grant args approver)"
    if going: "?going (Some (rt_identity r)) sa h1" for sa h1 and r :: "'b RegisteredTool" and grant args approver
  proof (rule guarantee_mono [OF invoke_trail])
    obtain first where first: "intends cfg rq intent (Some (rt_identity r)) first" "audit_events h1 = [first]" using going by blast
    fix ob h'
    assume ob: "observed intent sa ob \<and> invoked rq intent r approver (audit_events h1) ob h'"
    then have "observed intent (to_started_at ob) ob" by (simp add: observed_def)
    with ob first show "?Q ob h'" unfolding call_settled_def invoked_def by fastforce
  qed (use going in auto)
  have checked: "guarantee clock_rely anything (\<lambda>got h'. case got of
        Inl ob \<Rightarrow> ?Q ob h' | Inr (r, g) \<Rightarrow> ?going (Some (rt_identity r)) sa h')
      (\<lambda>_ _. True) h1 (check_call cfg rq intent it sa duplicate payload reg)" if "?going (map_option rt_identity reg) sa h1" for sa h1 payload reg
    by (rule guarantee_mono [OF passed [OF check_call_trail that]]) (use that in \<open>auto split: sum.splits\<close>)
  have authorized: "guarantee clock_rely anything (\<lambda>got h'. case got of
        Inl ob \<Rightarrow> ?Q ob h' | Inr _ \<Rightarrow> ?going (Some (rt_identity r)) sa h')
      (\<lambda>_ _. True) h1 (authorize_call cfg rq intent it sa r args digest)" if "?going (Some (rt_identity r)) sa h1" for sa h1 r args digest
    by (rule guarantee_mono [OF passed [OF authorize_call_trail that]]) (use that in \<open>auto split: sum.splits\<close>)
  show ?thesis
    unfolding execute_intent_def Let_def
    by (auto simp: ask_defs guarantee_bind_lift simp del: guarantee_bind
          intro!: guarantee_bindI [OF intent] guarantee_bindI [OF checked] guarantee_bindI [OF authorized] invoked
          split: sum.split)
qed

end
