(* ===== verification/Batch.thy ===== *)
theory Batch
  imports Runner_Audit
begin

text \<open>
  \<open>_execute_batch\<close> of \<^verbatim>\<open>src/suiteharness/execution/runner.py\<close>: the calls of one decision run as tasks
  under a semaphore of \<open>max_parallel_calls\<close> permits. A state of the batch is the list of its tasks,
  each with the questions it has asked so far; a step lets one task take a permit, ask one
  question and go on with the answer, or end. Any schedule of the event loop is a sequence of
  steps. When a task has failed, or the run is cancelled or out of time, the tasks are cancelled:
  one that waits for a permit ends at once, a running one is answered with \<open>CancelledError\<close>, which
  is one of the possible answers.
\<close>

section \<open>Tasks and steps\<close>

text \<open>The body of a task: the call, then the event that it has completed.\<close>

definition execute_task ::
    "RunnerConfig \<Rightarrow> RunRequest \<Rightarrow> int \<Rightarrow> int \<Rightarrow> ToolIntent \<times> bool \<Rightarrow> ('h, ToolObservation) prog" where
  "execute_task cfg rq iteration started_monotonic call =
     (case call of (intent, duplicate) \<Rightarrow>
      prog_bind (execute_intent cfg rq intent iteration started_monotonic duplicate) (\<lambda>ob.
      prog_bind (ask_unit (Publish ''tool_completed'' []
        (JObj [(''call_id'', JStr (tin_call_id intent)), (''tool_name'', JStr (tin_tool_name intent)),
               (''status'', JStr (call_status_value (to_status ob)))]))) (\<lambda>_. Ret ob)))"

datatype 'h task =
    Queued "('h, ToolObservation) prog"
  | Active "('h, ToolObservation) prog"
  | Finished "ToolObservation answered"

type_synonym 'h batch = "('h task \<times> 'h exchange list) list"

definition is_active :: "'h task \<Rightarrow> bool" where
  "is_active t = (case t of Active _ \<Rightarrow> True | _ \<Rightarrow> False)"

definition is_queued :: "'h task \<Rightarrow> bool" where
  "is_queued t = (case t of Queued _ \<Rightarrow> True | _ \<Rightarrow> False)"

definition active_count :: "'h batch \<Rightarrow> nat" where
  "active_count b = length (filter (\<lambda>(t, h). is_active t) b)"

definition start_batch ::
    "RunnerConfig \<Rightarrow> RunRequest \<Rightarrow> int \<Rightarrow> int \<Rightarrow> (ToolIntent \<times> bool) list \<Rightarrow> 'h batch" where
  "start_batch cfg rq iteration started_monotonic calls =
     map (\<lambda>call. (Queued (execute_task cfg rq iteration started_monotonic call), [])) calls"

text \<open>The permits of the semaphore go to the waiting tasks in the order of their creation.\<close>

inductive batch_step :: "int \<Rightarrow> 'h batch \<Rightarrow> 'h batch \<Rightarrow> bool" for limit where
  take_permit: "i < length b \<Longrightarrow> b ! i = (Queued p, h) \<Longrightarrow> (\<forall>j < i. \<not> is_queued (fst (b ! j))) \<Longrightarrow>
     int (active_count b) < limit \<Longrightarrow> batch_step limit b (b[i := (Active p, h)])"
| exchange: "i < length b \<Longrightarrow> b ! i = (Active (Ask q k), h) \<Longrightarrow> answers q a \<Longrightarrow>
     batch_step limit b (b[i := (Active (k a), h @ [(q, a)])])"
| task_returns: "i < length b \<Longrightarrow> b ! i = (Active (Ret ob), h) \<Longrightarrow>
     batch_step limit b (b[i := (Finished (Inr ob), h)])"
| task_raises: "i < length b \<Longrightarrow> b ! i = (Active (Throw e), h) \<Longrightarrow>
     batch_step limit b (b[i := (Finished (Inl e), h)])"
| cancel_queued: "i < length b \<Longrightarrow> b ! i = (Queued p, h) \<Longrightarrow>
     batch_step limit b (b[i := (Finished (Inl CancelledError), h)])"

inductive batch_reachable :: "int \<Rightarrow> 'h batch \<Rightarrow> 'h batch \<Rightarrow> bool" for limit b0 where
  batch_start: "batch_reachable limit b0 b0"
| batch_next: "batch_reachable limit b0 b \<Longrightarrow> batch_step limit b b' \<Longrightarrow> batch_reachable limit b0 b'"

text \<open>\<open>asyncio.gather\<close>: the observations in the order of the calls, once every task has returned.\<close>

fun gather :: "'h batch \<Rightarrow> ToolObservation list option" where
  "gather [] = Some []"
| "gather ((t, h) # b) =
     (case t of
        Finished (Inr ob) \<Rightarrow> map_option (\<lambda>obs. ob # obs) (gather b)
      | _ \<Rightarrow> None)"

section \<open>Invariants of every schedule\<close>

lemma active_count_update:
  assumes "i < length b"
  shows "active_count (b[i := (t', h')]) + (if is_active (fst (b ! i)) then 1 else 0) =
     active_count b + (if is_active t' then 1 else 0)"
  using assms
proof (induction b arbitrary: i)
  case (Cons x b)
  then show ?case
    by (cases i) (auto simp: active_count_def split: prod.splits)
qed simp

lemma active_update:
  assumes "i < length b" and "b ! i = (t, h)"
  shows "is_active t \<Longrightarrow> active_count (b[i := (t', h')]) \<le> active_count b"
    and "\<not> is_active t \<Longrightarrow> is_active t' \<Longrightarrow> active_count (b[i := (t', h')]) = Suc (active_count b)"
    and "\<not> is_active t \<Longrightarrow> \<not> is_active t' \<Longrightarrow> active_count (b[i := (t', h')]) = active_count b"
  using active_count_update [OF assms(1), of t' h'] assms(2) by (auto split: if_splits)

lemma batch_step_permits:
  assumes "batch_step limit b b'" and "int (active_count b) \<le> limit"
  shows "int (active_count b') \<le> limit"
  using assms(1)
proof cases
  case (take_permit i p h)
  with active_update(2) [OF take_permit(2,3), of "Active p" h] assms(2) show ?thesis by (simp add: is_active_def)
next
  case (exchange i q k h a)
  with active_update(1) [OF exchange(2,3), of "Active (k a)" "h @ [(q, a)]"] assms(2)
  show ?thesis by (simp add: is_active_def)
next
  case (task_returns i ob h)
  with active_update(1) [OF task_returns(2,3), of "Finished (Inr ob)" h] assms(2)
  show ?thesis by (simp add: is_active_def)
next
  case (task_raises i e h)
  with active_update(1) [OF task_raises(2,3), of "Finished (Inl e)" h] assms(2)
  show ?thesis by (simp add: is_active_def)
next
  case (cancel_queued i p h)
  with active_update(3) [OF cancel_queued(2,3), of "Finished (Inl CancelledError)" h] assms(2)
  show ?thesis by (simp add: is_active_def)
qed

lemma active_count_start: "active_count (start_batch cfg rq it sm calls) = 0"
  by (induction calls) (auto simp: start_batch_def active_count_def is_active_def)

lemma batch_permits:
  "batch_reachable limit (start_batch cfg rq it sm calls) b \<Longrightarrow> 0 \<le> limit \<Longrightarrow> int (active_count b) \<le> limit"
  by (induction rule: batch_reachable.induct)
     (simp_all add: active_count_start batch_step_permits)

text \<open>
  A task that started as a guaranteed program keeps the guarantee: every question in its history
  was allowed when it was asked, and what it still has to run is guaranteed from here.
\<close>

definition asked_well :: "('h exchange list \<Rightarrow> 'h ask \<Rightarrow> bool) \<Rightarrow> 'h exchange list \<Rightarrow> bool" where
  "asked_well G h \<longleftrightarrow> (\<forall>h1 q a h2. h = h1 @ (q, a) # h2 \<longrightarrow> G h1 q)"

lemma asked_well_Nil [simp]: "asked_well G []"
  by (simp add: asked_well_def)

lemma asked_well_snoc: "asked_well G h \<Longrightarrow> G h q \<Longrightarrow> asked_well G (h @ [(q, a)])"
  unfolding asked_well_def
proof (intro allI impI)
  fix h1 q' a' h2
  assume all: "\<forall>h1 q a h2. h = h1 @ (q, a) # h2 \<longrightarrow> G h1 q" and now: "G h q"
    and eq: "h @ [(q, a)] = h1 @ (q', a') # h2"
  show "G h1 q'"
  proof (cases h2 rule: rev_exhaust)
    case Nil
    with eq now show ?thesis by simp
  next
    case (snoc ys y)
    with eq have "h = h1 @ (q', a') # ys" by (metis append_Cons append_assoc butlast_snoc)
    with all show ?thesis by blast
  qed
qed

fun task_guaranteed ::
    "('h exchange list \<Rightarrow> 'h ask \<Rightarrow> bool) \<Rightarrow> (ToolObservation \<Rightarrow> 'h exchange list \<Rightarrow> bool) \<Rightarrow>
     'h task \<times> 'h exchange list \<Rightarrow> bool" where
  "task_guaranteed G Q (Queued p, h) = (asked_well G h \<and> guarantee (\<lambda>_ _ _. True) G Q (\<lambda>_ _. True) h p)"
| "task_guaranteed G Q (Active p, h) = (asked_well G h \<and> guarantee (\<lambda>_ _ _. True) G Q (\<lambda>_ _. True) h p)"
| "task_guaranteed G Q (Finished r, h) = (asked_well G h \<and> (case r of Inl _ \<Rightarrow> True | Inr ob \<Rightarrow> Q ob h))"

lemma batch_step_guaranteed:
  assumes "batch_step limit b b'" and "list_all2 (\<lambda>c t. task_guaranteed (G c) (Q c) t) calls b"
  shows "list_all2 (\<lambda>c t. task_guaranteed (G c) (Q c) t) calls b'"
proof -
  have update: "list_all2 (\<lambda>c t. task_guaranteed (G c) (Q c) t) calls (b[i := t'])"
    if "i < length b" "task_guaranteed (G (calls ! i)) (Q (calls ! i)) (b ! i) \<Longrightarrow>
        task_guaranteed (G (calls ! i)) (Q (calls ! i)) t'" for i t'
    using assms(2) that by (auto simp: list_all2_conv_all_nth nth_list_update)
  from assms(1) show ?thesis
    by cases (auto intro!: update asked_well_snoc)
qed

lemma batch_reachable_guaranteed:
  assumes "batch_reachable limit b0 b" and "list_all2 (\<lambda>c t. task_guaranteed (G c) (Q c) t) calls b0"
  shows "list_all2 (\<lambda>c t. task_guaranteed (G c) (Q c) t) calls b"
  using assms by (induction rule: batch_reachable.induct) (blast intro: batch_step_guaranteed)+

lemma execute_task_guarantee:
  "guarantee (\<lambda>_ _ _. True) (guarded cfg rq intent duplicate) (\<lambda>_ _. True) (\<lambda>_ _. True) []
     (execute_task cfg rq it sm (intent, duplicate))"
  unfolding execute_task_def prod.case
  by (rule guarantee_bindI [OF execute_intent_guarantee])
     (auto simp: ask_defs guarded_quiet split: sum.splits)

lemma start_batch_guaranteed:
  "list_all2 (\<lambda>c t. task_guaranteed (guarded cfg rq (fst c) (snd c)) (\<lambda>_ _. True) t) calls
     (start_batch cfg rq it sm calls)"
  by (auto simp: start_batch_def list_all2_conv_all_nth execute_task_guarantee [where intent = "fst c"
        and duplicate = "snd c" for c, simplified])

lemma task_guaranteed_asked: "task_guaranteed G Q (t, h) \<Longrightarrow> asked_well G h"
  by (cases t) auto

lemma batch_call_guarded:
  assumes "batch_reachable limit (start_batch cfg rq it sm calls) b" and "i < length b"
    and "snd (b ! i) = es1 @ (q, a) # es2"
  shows "guarded cfg rq (fst (calls ! i)) (snd (calls ! i)) es1 q"
proof -
  have "list_all2 (\<lambda>c t. task_guaranteed (guarded cfg rq (fst c) (snd c)) (\<lambda>_ _. True) t) calls b"
    using assms(1) start_batch_guaranteed by (rule batch_reachable_guaranteed)
  then have "task_guaranteed (guarded cfg rq (fst (calls ! i)) (snd (calls ! i))) (\<lambda>_ _. True) (b ! i)"
    using assms(2) by (auto simp: list_all2_conv_all_nth)
  then have "asked_well (guarded cfg rq (fst (calls ! i)) (snd (calls ! i))) (snd (b ! i))"
    by (cases "b ! i") (auto dest: task_guaranteed_asked)
  then show ?thesis using assms(3) unfolding asked_well_def by blast
qed

section \<open>Progress\<close>

lemma answer_exists: "\<exists>a. answers q a"
  using all_answers [of "\<lambda>_. False"] by (cases q) simp_all

definition is_finished :: "'h task \<Rightarrow> bool" where
  "is_finished t = (case t of Finished _ \<Rightarrow> True | _ \<Rightarrow> False)"

text \<open>
  While a task is unfinished some task can go on, other than by being cancelled: a running one
  with its next question or its end, or the first in the queue with a free permit.
\<close>

lemma active_step:
  assumes "i < length b" and "b ! i = (Active p, h)"
  shows "\<exists>t'. batch_step limit b (b[i := t'])"
proof (cases p)
  case (Ask q k)
  with assms answer_exists [of q] show ?thesis by (blast intro: batch_step.exchange)
qed (use assms in \<open>blast intro: batch_step.task_returns batch_step.task_raises\<close>)+

lemma first_queued:
  assumes "i < length b" and "is_queued (fst (b ! i))"
  obtains j p h where "j < length b" and "b ! j = (Queued p, h)" and "\<forall>k < j. \<not> is_queued (fst (b ! k))"
proof -
  obtain j where j: "j < length b \<and> is_queued (fst (b ! j))"
    and least: "\<forall>k < j. \<not> (k < length b \<and> is_queued (fst (b ! k)))"
    using exists_least_iff [of "\<lambda>j. j < length b \<and> is_queued (fst (b ! j))"] assms by blast
  then obtain p h where "b ! j = (Queued p, h)"
    by (cases "b ! j") (auto simp: is_queued_def split: task.splits)
  with that j least show thesis by auto
qed

lemma batch_works:
  assumes "1 \<le> limit" and "i < length b" and "\<not> is_finished (fst (b ! i))"
  shows "\<exists>j t'. j < length b \<and> batch_step limit b (b[j := t']) \<and> (is_queued (fst (b ! j)) \<longrightarrow> is_active (fst t'))"
proof (cases "\<exists>j p h. j < length b \<and> b ! j = (Active p, h)")
  case True
  then show ?thesis using active_step by (fastforce simp: is_queued_def)
next
  case False
  then have none: "\<not> is_active (fst t)" if "t \<in> set b" for t
    using that by (cases t) (auto simp: in_set_conv_nth is_active_def split: task.splits)
  then have "\<not> is_active (fst (b ! i))" using assms(2) by simp
  then have "is_queued (fst (b ! i))"
    using assms(3) by (auto simp: is_active_def is_queued_def is_finished_def split: task.splits)
  with assms(2) obtain j p h where j: "j < length b" "b ! j = (Queued p, h)"
    "\<forall>k < j. \<not> is_queued (fst (b ! k))" by (rule first_queued)
  have "active_count b = 0" using none by (auto simp: active_count_def filter_empty_conv)
  with assms(1) batch_step.take_permit [OF j, of limit] j(1) show ?thesis
    by (intro exI [of _ j] exI [of _ "(Active p, h)"]) (simp add: is_active_def)
qed

end
