(* ===== verification/Runtime_Environment.thy ===== *)
theory Runtime_Environment
  imports Execution_Models
begin

text \<open>
  \<^verbatim>\<open>src/suiteharness/execution/environment.py\<close>: the server-generated context that is appended to a
  rendered prompt. Asia/Shanghai is eight hours ahead of UTC without daylight saving since 1991;
  the civil date is computed from the count of days, as \<open>datetime\<close> does. The Chinese text is given
  by the bytes of its UTF-8 encoding.
\<close>

section \<open>Dates\<close>

text \<open>
  The civil date of day \<open>z\<close> after 1970-01-01 in the proleptic Gregorian calendar: eras of 400
  years with the year starting in March, so that the leap day is the last of its year.
\<close>

definition civil_of_day :: "int \<Rightarrow> int \<times> int \<times> int" where
  "civil_of_day z =
     (let z' = z + 719468;
          era = z' div 146097;
          doe = z' mod 146097;
          yoe = (doe - doe div 1460 + doe div 36524 - doe div 146096) div 365;
          doy = doe - (365 * yoe + yoe div 4 - yoe div 100);
          mp = (5 * doy + 2) div 153;
          d = doy - (153 * mp + 2) div 5 + 1;
          m = (if mp < 10 then mp + 3 else mp - 9)
      in (yoe + era * 400 + (if m \<le> 2 then 1 else 0), m, d))"

definition local_time_of :: "instant \<Rightarrow> int" where
  "local_time_of t = t div second + 8 * 3600"

definition two_digits :: "int \<Rightarrow> string" where
  "two_digits n = (if n < 10 then CHR ''0'' # show_int n else show_int n)"

definition show_date :: "int \<Rightarrow> string" where
  "show_date local = (case civil_of_day (local div 86400) of
     (y, m, d) \<Rightarrow> show_int y @ CHR ''-'' # two_digits m @ CHR ''-'' # two_digits d)"

definition show_time :: "int \<Rightarrow> string" where
  "show_time local = (let s = local mod 86400 in
     two_digits (s div 3600) @ CHR '':'' # two_digits (s mod 3600 div 60) @ CHR '':'' # two_digits (s mod 60))"

text \<open>Monday is 0; 1970-01-01 was a Thursday.\<close>

definition weekday :: "int \<Rightarrow> int" where
  "weekday local = (local div 86400 + 3) mod 7"

section \<open>The text\<close>

definition utf8 :: "nat list \<Rightarrow> string" where
  "utf8 bs = map char_of bs"

definition environment_heading :: string where
  "environment_heading = utf8
     [35, 32, 229, 189, 147, 229, 137, 141, 232, 191, 144, 232, 161, 140, 231, 142, 175, 229,
     162, 131, 239, 188, 136, 230, 156, 141, 229, 138, 161, 229, 153, 168, 230, 143, 144, 228,
     190, 155, 239, 188, 137, 10, 45, 32, 229, 189, 147, 229, 137, 141, 230, 151, 165, 230, 156,
     159, 239, 188, 154]"

definition environment_time :: string where
  "environment_time = utf8
     [10, 45, 32, 229, 189, 147, 229, 137, 141, 230, 151, 182, 233, 151, 180, 239, 188, 154]"

definition environment_weekday :: string where
  "environment_weekday = utf8
     [10, 45, 32, 230, 152, 159, 230, 156, 159, 239, 188, 154]"

definition environment_zone :: string where
  "environment_zone = utf8
     [10, 45, 32, 230, 151, 182, 229, 140, 186, 239, 188, 154, 65, 115, 105, 97, 47, 83, 104, 97,
     110, 103, 104, 97, 105, 239, 188, 136, 229, 140, 151, 228, 186, 172, 230, 151, 182, 233,
     151, 180, 239, 188, 140, 85, 84, 67, 43, 48, 56, 58, 48, 48, 239, 188, 137, 10, 228, 187,
     138, 229, 164, 169, 227, 128, 129, 230, 152, 168, 229, 164, 169, 231, 173, 137, 231, 155,
     184, 229, 175, 185, 230, 151, 182, 233, 151, 180, 228, 187, 165, 230, 156, 172, 230, 172,
     161, 232, 175, 183, 230, 177, 130, 231, 154, 132, 230, 156, 141, 229, 138, 161, 229, 153,
     168, 230, 151, 182, 233, 151, 180, 228, 184, 186, 229, 135, 134, 239, 188, 140, 229, 142,
     134, 229, 143, 178, 229, 175, 185, 232, 175, 157, 228, 184, 173, 231, 154, 132, 230, 151,
     165, 230, 156, 159, 228, 184, 141, 230, 152, 175, 229, 189, 147, 229, 137, 141, 230, 151,
     165, 230, 156, 159, 227, 128, 130]"

definition WEEKDAYS :: "string list" where
  "WEEKDAYS = map utf8
     [[230, 152, 159, 230, 156, 159, 228, 184, 128],
      [230, 152, 159, 230, 156, 159, 228, 186, 140],
      [230, 152, 159, 230, 156, 159, 228, 184, 137],
      [230, 152, 159, 230, 156, 159, 229, 155, 155],
      [230, 152, 159, 230, 156, 159, 228, 186, 148],
      [230, 152, 159, 230, 156, 159, 229, 133, 173],
      [230, 152, 159, 230, 156, 159, 230, 151, 165]]"

definition environment_text :: "instant \<Rightarrow> string" where
  "environment_text t = (let local = local_time_of t in
     environment_heading @ show_date local @ environment_time @ show_time local @
     environment_weekday @ WEEKDAYS ! nat (weekday local) @ environment_zone)"

section \<open>Placing it in the prompt\<close>

text \<open>The index of the last message with the role \<open>system\<close>.\<close>

definition last_system :: "PromptMessage list \<Rightarrow> nat option" where
  "last_system ms =
     (case filter (\<lambda>i. pm_role (ms ! i) = ''system'') (rev [0..<length ms]) of
        [] \<Rightarrow> None | i # _ \<Rightarrow> Some i)"

definition with_runtime_environment :: "PromptEnvelope \<Rightarrow> instant \<Rightarrow> PromptEnvelope" where
  "with_runtime_environment prompt t =
     (let messages = pe_messages prompt; environment = environment_text t in
      prompt\<lparr>pe_messages :=
        (case last_system messages of
           None \<Rightarrow> \<lparr>pm_role = ''system'', pm_content = environment\<rparr> # messages
         | Some i \<Rightarrow> messages[i := (messages ! i)\<lparr>pm_content :=
             pm_content (messages ! i) @ [CHR 0x0A, CHR 0x0A] @ environment\<rparr>])\<rparr>)"

section \<open>Facts\<close>

lemma last_system_Some:
  assumes "last_system ms = Some i"
  shows "i < length ms" and "pm_role (ms ! i) = ''system''" and "\<And>j. i < j \<Longrightarrow> j < length ms \<Longrightarrow> pm_role (ms ! j) \<noteq> ''system''"
proof -
  obtain is' where f: "filter (\<lambda>i. pm_role (ms ! i) = ''system'') (rev [0..<length ms]) = i # is'"
    using assms by (auto simp: last_system_def split: list.splits)
  have "i \<in> set (filter (\<lambda>i. pm_role (ms ! i) = ''system'') (rev [0..<length ms]))" using f by simp
  then show i: "i < length ms" and "pm_role (ms ! i) = ''system''" by auto
  show "pm_role (ms ! j) \<noteq> ''system''" if "i < j" "j < length ms" for j
  proof
    assume "pm_role (ms ! j) = ''system''"
    with that(2) have "j \<in> set (i # is')" unfolding f [symmetric] by simp
    moreover have "sorted_wrt (\<ge>) (i # is')"
      unfolding f [symmetric] by (rule sorted_wrt_filter) (simp add: sorted_wrt_rev)
    ultimately show False using that(1) by auto
  qed
qed

lemma last_system_None: "last_system ms = None \<longleftrightarrow> (\<forall>m \<in> set ms. pm_role m \<noteq> ''system'')"
proof -
  have "last_system ms = None \<longleftrightarrow> filter (\<lambda>i. pm_role (ms ! i) = ''system'') (rev [0..<length ms]) = []"
    by (simp add: last_system_def split: list.split)
  then show ?thesis by (auto simp: filter_empty_conv all_set_conv_all_nth)
qed

text \<open>
  Exactly one message changes or is added: the roles of the others, their order and their text
  are kept, and the environment stands in the last system message.
\<close>

lemma runtime_environment_system:
  "\<exists>i < length (pe_messages (with_runtime_environment p t)).
     last_system (pe_messages (with_runtime_environment p t)) = Some i \<and>
     (\<exists>pre. pm_content (pe_messages (with_runtime_environment p t) ! i) = pre @ environment_text t)"
proof (cases "last_system (pe_messages p)")
  case None
  then have "filter (\<lambda>i. pm_role ((\<lparr>pm_role = ''system'', pm_content = e\<rparr> # pe_messages p) ! i) = ''system'')
      (rev [0..<Suc (length (pe_messages p))]) = [0]" for e
    by (auto simp: last_system_None upt_conv_Cons filter_empty_conv nth_Cons split: nat.splits
          simp del: upt_Suc)
  with None show ?thesis
    by (auto simp: with_runtime_environment_def last_system_def [of "_ # _"] Let_def simp del: upt_Suc)
next
  case (Some i)
  note i = last_system_Some [OF Some]
  define ms where "ms = pe_messages p"
  define new where "new = (ms ! i)\<lparr>pm_content := pm_content (ms ! i) @ [CHR 0x0A, CHR 0x0A] @ environment_text t\<rparr>"
  have roles: "pm_role (ms[i := new] ! j) = pm_role (ms ! j)" if "j < length ms" for j
    using that by (cases "j = i") (auto simp: new_def)
  have "last_system (ms[i := new]) = last_system ms"
  proof -
    have "filter (\<lambda>j. pm_role (ms[i := new] ! j) = ''system'') (rev [0..<length ms]) =
        filter (\<lambda>j. pm_role (ms ! j) = ''system'') (rev [0..<length ms])"
      by (rule filter_cong) (auto simp: roles)
    then show ?thesis by (simp add: last_system_def)
  qed
  then show ?thesis
    using Some i(1) by (auto simp: with_runtime_environment_def Let_def ms_def new_def)
qed

lemma environment_others:
  "filter (\<lambda>m. pm_role m \<noteq> ''system'') (pe_messages (with_runtime_environment p t)) =
     filter (\<lambda>m. pm_role m \<noteq> ''system'') (pe_messages p)"
  "pe_metadata (with_runtime_environment p t) = pe_metadata p"
proof -
  have "filter P (ms[i := m]) = filter P ms" if "i < length ms" "\<not> P (ms ! i)" "\<not> P m" for P ms i and m :: PromptMessage
    using that by (induction ms arbitrary: i) (auto split: nat.splits)
  then show "filter (\<lambda>m. pm_role m \<noteq> ''system'') (pe_messages (with_runtime_environment p t)) =
     filter (\<lambda>m. pm_role m \<noteq> ''system'') (pe_messages p)"
    by (auto simp: with_runtime_environment_def Let_def last_system_Some(1,2) split: option.splits)
qed (simp add: with_runtime_environment_def Let_def)

section \<open>Properties\<close>

text \<open>
  The runtime environment reaches the model: after \<open>with_runtime_environment\<close> the last system
  message of the prompt exists and ends with the environment text of the run's start, and the
  messages of other roles and the metadata are as they were.
\<close>

theorem environment_in_last_system_message:
  "(\<exists>i < length (pe_messages (with_runtime_environment p t)).
      last_system (pe_messages (with_runtime_environment p t)) = Some i \<and>
      (\<exists>pre. pm_content (pe_messages (with_runtime_environment p t) ! i) = pre @ environment_text t)) \<and>
   filter (\<lambda>m. pm_role m \<noteq> ''system'') (pe_messages (with_runtime_environment p t)) =
     filter (\<lambda>m. pm_role m \<noteq> ''system'') (pe_messages p) \<and>
   pe_metadata (with_runtime_environment p t) = pe_metadata p"
  using runtime_environment_system by (simp add: environment_others)

end
