(* ===== verification/Run_Loop.thy ===== *)
theory Run_Loop
  imports Runner Runtime_Environment
begin

text \<open>
  \<^verbatim>\<open>src/suiteharness/execution/runner.py\<close>, the run loop: \<open>_run_loop\<close> with the resume checks, the
  checkpoints, the calls of the product strategies and the accounting of iterations and tool
  calls, and the table of active runs of \<open>_run\<close> and \<open>cancel\<close>. The mutable \<open>_RunState\<close> is the
  record \<open>RunState\<close>, passed along; an early return of the loop is \<open>Inl\<close> its result.
\<close>

section \<open>State\<close>

record RunState =
  st_started_at :: instant
  st_started_monotonic :: int
  st_iterations_used :: int
  st_tool_calls_used :: int
  st_observations :: "ToolObservation list"
  st_call_ids :: "string set"

record Strategies =
  es_prompt :: bool
  es_reflection :: bool

record LoopState =
  ls_state :: RunState
  ls_workflow_state :: json
  ls_checkpoint_safe :: bool
  ls_checkpoint_pending :: "int option"

text \<open>Statements that may return early from the loop.\<close>

definition unless :: "('h, 'e + 'a) prog \<Rightarrow> ('a \<Rightarrow> ('h, 'e + 'b) prog) \<Rightarrow> ('h, 'e + 'b) prog" where
  "unless p f = prog_bind p (\<lambda>r. case r of Inl e \<Rightarrow> Ret (Inl e) | Inr x \<Rightarrow> f x)"

text \<open>\<open>try: x = await p; except Exception: ...\<close>: \<open>Inl\<close> when the exception was caught.\<close>

definition attempt :: "('h, 'a) prog \<Rightarrow> ('h, unit + 'a) prog" where
  "attempt p = except_Exception (prog_bind p (\<lambda>x. Ret (Inr x))) (Ret (Inl ()))"

section \<open>Results\<close>

fun run_status_value :: "RunStatus \<Rightarrow> string" where
  "run_status_value RUN_SUCCEEDED = ''succeeded''"
| "run_status_value RUN_FAILED = ''failed''"
| "run_status_value RUN_BUDGET_EXCEEDED = ''budget_exceeded''"
| "run_status_value RUN_TIMED_OUT = ''timed_out''"
| "run_status_value RUN_CANCELLED = ''cancelled''"

fun decision_kind_value :: "WorkflowDecisionKind \<Rightarrow> string" where
  "decision_kind_value FINAL = ''final''"
| "decision_kind_value TOOLS = ''tools''"

definition run_result ::
    "RunRequest \<Rightarrow> RunState \<Rightarrow> RunStatus \<Rightarrow> json \<Rightarrow> RunFailure option \<Rightarrow> ('h, RunResult) prog" where
  "run_result rq st status output failure =
     prog_bind (if output = JNull then Ret [] else lift_result (canonical_json output)) (\<lambda>_.
     prog_bind (ask_time Now) (\<lambda>finished_at.
     lift_result (RunResult_validate
       \<lparr>rres_run_id = rq_run_id rq, rres_status = status, rres_output = detach output,
        rres_failure = failure, rres_observations = st_observations st,
        rres_iterations_used = st_iterations_used st, rres_tool_calls_used = st_tool_calls_used st,
        rres_started_at = st_started_at st, rres_finished_at = finished_at\<rparr>)))"

definition finish :: "RunRequest \<Rightarrow> RunResult \<Rightarrow> ('h, RunResult) prog" where
  "finish rq result =
     prog_bind (emit rq RUN_FINISHED None None None
       ((''status'', JStr (run_status_value (rres_status result))) #
        (case rres_failure result of None \<Rightarrow> [] | Some f \<Rightarrow> [(''code'', JStr (code_value (rf_code f)))])))
       (\<lambda>_. Ret result)"

definition finish_with ::
    "RunRequest \<Rightarrow> RunState \<Rightarrow> RunStatus \<Rightarrow> json \<Rightarrow> RunFailure option \<Rightarrow> ('h, RunResult) prog" where
  "finish_with rq st status output failure =
     prog_bind (run_result rq st status output failure) (finish rq)"

definition strategy_failure ::
    "RunRequest \<Rightarrow> RunState \<Rightarrow> FailureCode \<Rightarrow> string \<Rightarrow> int \<Rightarrow> ('h, RunResult) prog" where
  "strategy_failure rq st code message iteration =
     finish_with rq st RUN_FAILED JNull (Some (run_failure code message (Some iteration)))"

definition stop ::
    "('h, RunResult) prog \<Rightarrow> ('h, RunResult + 'a) prog" where
  "stop p = prog_bind p (\<lambda>r. Ret (Inl r))"

definition joined :: "string list \<Rightarrow> string" where
  "joined xs = concat (map2 (\<lambda>i x. if i = 0 then x else '', '' @ x) [0..<length xs] xs)"

definition budget_policy_failure :: "ExecutionPolicy \<Rightarrow> RunRequest \<Rightarrow> RunFailure option" where
  "budget_policy_failure p rq =
     (let b = rq_budget rq;
          violations =
            (if ep_max_iterations p < eb_max_iterations b then [''max_iterations''] else []) @
            (if ep_max_tool_calls p < eb_max_tool_calls b then [''max_tool_calls''] else []) @
            (if ep_max_parallel_calls p < eb_max_parallel_calls b then [''max_parallel_calls''] else []) @
            (if ep_max_timeout p < eb_timeout b then [''timeout_seconds''] else [])
      in if violations = [] then None
         else Some (run_failure BUDGET_POLICY_EXCEEDED
                (''requested execution budget exceeds root policy ceiling: '' @ joined violations) None))"

section \<open>Serialised forms\<close>

text \<open>\<open>model_dump(mode='json')\<close> of the models a checkpoint and the prompt digest contain.\<close>

definition opt_str :: "string option \<Rightarrow> json" where
  "opt_str v = (case v of None \<Rightarrow> JNull | Some s \<Rightarrow> JStr s)"

definition dump_identity :: "ToolIdentity \<Rightarrow> json" where
  "dump_identity i = JObj [(''namespace'', JStr (ti_namespace i)), (''name'', JStr (ti_name i)),
     (''origin'', JStr (ti_origin i)), (''version'', JStr (ti_version i))]"

definition dump_failure :: "RunFailure \<Rightarrow> json" where
  "dump_failure f = JObj [(''code'', JStr (code_value (rf_code f))), (''message'', JStr (rf_message f)),
     (''retryable'', JBool (rf_retryable f)),
     (''iteration'', case rf_iteration f of None \<Rightarrow> JNull | Some i \<Rightarrow> JInt i),
     (''call_id'', opt_str (rf_call_id f)), (''tool_name'', opt_str (rf_tool_name f))]"

definition dump_observation :: "(instant \<Rightarrow> json) \<Rightarrow> ToolObservation \<Rightarrow> json" where
  "dump_observation tm ob = JObj [(''call_id'', JStr (to_call_id ob)), (''tool_name'', JStr (to_tool_name ob)),
     (''tool_identity'', case to_tool_identity ob of None \<Rightarrow> JNull | Some i \<Rightarrow> dump_identity i),
     (''arguments'', case to_arguments ob of None \<Rightarrow> JNull | Some a \<Rightarrow> a),
     (''status'', JStr (call_status_value (to_status ob))), (''result'', to_result ob),
     (''failure'', case to_failure ob of None \<Rightarrow> JNull | Some f \<Rightarrow> dump_failure f),
     (''started_at'', tm (to_started_at ob)), (''finished_at'', tm (to_finished_at ob))]"

definition dump_resume :: "(instant \<Rightarrow> json) \<Rightarrow> RunResumeState \<Rightarrow> json" where
  "dump_resume tm r = JObj [(''source_run_id'', JStr (rr_source_run_id r)),
     (''workflow_state'', rr_workflow_state r),
     (''observations'', JList (map (dump_observation tm) (rr_observations r))),
     (''iterations_used'', JInt (rr_iterations_used r)), (''tool_calls_used'', JInt (rr_tool_calls_used r)),
     (''call_ids'', JList (map JStr (rr_call_ids r))), (''prompt_digest'', JStr (rr_prompt_digest r)),
     (''route_key'', JStr (rr_route_key r))]"

definition dump_conversation :: "(instant \<Rightarrow> json) \<Rightarrow> ConversationContext \<Rightarrow> json" where
  "dump_conversation tm c = JObj [
     (''messages'', JList (map (\<lambda>m. JObj [(''role'', JStr (cm_role m)), (''content'', cm_content m),
        (''principal_id'', opt_str (cm_principal_id m)), (''occurred_at'', tm (cm_occurred_at m))]) (cc_messages c))),
     (''truncated'', JBool (cc_truncated c)), (''working_summary'', JStr (cc_working_summary c)),
     (''long_term_context'', JStr (cc_long_term_context c)), (''memory_degraded'', JBool (cc_memory_degraded c))]"

text \<open>\<open>_prompt_digest\<close> binds the rendered prompt without its \<open>run_id\<close>.\<close>

definition dump_prompt :: "PromptEnvelope \<Rightarrow> json" where
  "dump_prompt p = JObj [
     (''messages'', JList (map (\<lambda>m. JObj [(''role'', JStr (pm_role m)), (''content'', JStr (pm_content m))]) (pe_messages p))),
     (''metadata'', JObj (dict_pop ''run_id'' (pe_metadata p)))]"

definition prompt_digest :: "RunnerConfig \<Rightarrow> RunRequest \<Rightarrow> PromptEnvelope option \<Rightarrow> string result" where
  "prompt_digest cfg rq prompt =
     (let sc = rq_scope rq in
      result_bind (canonical_json (JObj [
        (''prompt'', case prompt of None \<Rightarrow> JNull | Some p \<Rightarrow> dump_prompt p),
        (''input'', rq_input rq), (''conversation'', dump_conversation (rc_time cfg) (rq_conversation rq)),
        (''identity'', JObj [
           (''tenant_id'', opt_str (rs_tenant_id sc)), (''product_id'', opt_str (rs_product_id sc)),
           (''agent_id'', opt_str (sp_agent_id (rs_path sc))),
           (''session_id'', opt_str (sp_session_id (rs_path sc))),
           (''principal_id'', JStr (rs_principal_id sc)),
           (''session_owner_id'', JStr (effective_session_owner_id sc)),
           (''channel_id'', JStr (rs_channel_id sc)),
           (''roles'', JList (map JStr (sorted_list_of_set (rs_roles sc))))])]))
        (\<lambda>bytes. Return (rc_sha cfg bytes)))"

section \<open>Resuming\<close>

definition checkpoint_limit :: "ExecutionPolicy \<Rightarrow> int" where
  "checkpoint_limit p = min (256 * 1024) (min (ep_max_workflow_state_bytes p) (ep_max_tool_result_bytes p))"

text \<open>
  The conditions of \<open>_valid_resume\<close> that look at the request and the checkpoint only; those before
  the checkpoint is serialised come first.
\<close>

definition resume_limits :: "RunRequest \<Rightarrow> RunResumeState \<Rightarrow> bool" where
  "resume_limits rq r \<longleftrightarrow>
     rq_read_only rq \<and> rq_run_id rq \<noteq> rr_source_run_id r \<and>
     rr_iterations_used r < eb_max_iterations (rq_budget rq) \<and>
     rr_tool_calls_used r \<le> eb_max_tool_calls (rq_budget rq)"

definition resume_shape :: "RunnerConfig \<Rightarrow> RunResumeState \<Rightarrow> bool" where
  "resume_shape cfg r \<longleftrightarrow>
     int (length (dumps (dump_resume (rc_time cfg) r))) \<le> checkpoint_limit (rc_policy cfg) \<and>
     \<not> contains_run_credentials (rr_workflow_state r) \<and>
     rr_tool_calls_used r = int (length (rr_observations r)) \<and>
     distinct (rr_call_ids r) \<and>
     set (rr_call_ids r) = to_call_id ` set (rr_observations r) \<and>
     length (rr_call_ids r) = length (rr_observations r) \<and>
     \<not> (rr_observations r \<noteq> [] \<and> (rr_iterations_used r = 0 \<or> rr_workflow_state r = JNull))"

definition WEB_TTL :: duration where "WEB_TTL = 300 * second"

text \<open>The loop body of \<open>_valid_resume\<close>; \<open>False\<close> is its early return.\<close>

definition resume_observation_ok ::
    "RunnerConfig \<Rightarrow> RunRequest \<Rightarrow> CapabilityGrant \<Rightarrow> instant \<Rightarrow> ToolObservation \<Rightarrow> ('h, bool) prog" where
  "resume_observation_ok cfg rq grant now ob =
     prog_bind (safe_observation rq ob) (\<lambda>safe.
     if \<not> safe then Ret False
     else if to_tool_name ob \<in> {''suiteharness.web.search'', ''suiteharness.web.fetch''} \<and>
             \<not> (0 \<le> now - to_finished_at ob \<and> now - to_finished_at ob < WEB_TTL) then Ret False
     else prog_bind (ask_tool (rq_scope rq) (to_tool_name ob)) (\<lambda>registered.
       case registered of
         None \<Rightarrow> Throw OtherException
       | Some r \<Rightarrow>
           if rt_identity r \<notin> cg_tool_identities grant \<or>
              ts_required_capabilities (rt_spec r) - cg_capabilities grant \<noteq> {} then Ret False
           else prog_bind
             (case to_arguments ob of
                None \<Rightarrow> Ret True
              | Some a \<Rightarrow>
                  prog_bind (lift_result (canonical_json a)) (\<lambda>payload.
                  if ep_max_tool_argument_bytes (rc_policy cfg) < int (length payload) then Ret False
                  else except_Exception (prog_bind (ask_unit (Validate r (detach a))) (\<lambda>_. Ret True)) (Ret False)))
             (\<lambda>valid.
              if \<not> valid then Ret False
              else prog_bind
                (if \<not> rc_authorization_policy cfg then Ret (Some (Some DEFAULT))
                 else case to_arguments ob of
                        None \<Rightarrow> Ret None
                      | Some a \<Rightarrow>
                          except_Exception (prog_bind (ask_auth rq (rt_identity r) (rt_spec r) (detach a))
                            (\<lambda>v. Ret (Some v))) (Ret None))
                (\<lambda>au. Ret (case au of
                    None \<Rightarrow> False
                  | Some None \<Rightarrow> False
                  | Some (Some v) \<Rightarrow> v \<notin> {DENY, REQUIRE_APPROVAL} \<and>
                      \<not> (v = DEFAULT \<and> requires_approval (rc_policy cfg) (rt_spec r)))))))"

fun all_prog :: "('a \<Rightarrow> ('h, bool) prog) \<Rightarrow> 'a list \<Rightarrow> ('h, bool) prog" where
  "all_prog p [] = Ret True"
| "all_prog p (x # xs) = prog_bind (p x) (\<lambda>ok. if ok then all_prog p xs else Ret False)"

definition valid_resume ::
    "RunnerConfig \<Rightarrow> RunRequest \<Rightarrow> CapabilityGrant \<Rightarrow> RunResumeState \<Rightarrow> ('h, bool) prog" where
  "valid_resume cfg rq grant r =
     (if \<not> resume_limits rq r then Ret False
      else prog_bind (lift_result (canonical_json (dump_resume (rc_time cfg) r))) (\<lambda>_.
        if \<not> resume_shape cfg r then Ret False
        else prog_bind (ask_time Now) (\<lambda>now.
          all_prog (resume_observation_ok cfg rq grant now) (rr_observations r))))"

text \<open>The loop that charges the inherited iterations to the aggregate budget.\<close>

fun charge_iterations :: "nat \<Rightarrow> ('h, bool) prog" where
  "charge_iterations 0 = Ret True"
| "charge_iterations (Suc n) =
     prog_bind (ask_flag TakeIterationAsk) (\<lambda>ok. if ok then charge_iterations n else Ret False)"

definition resume_run ::
    "RunnerConfig \<Rightarrow> RunRequest \<Rightarrow> CapabilityGrant \<Rightarrow> RunState \<Rightarrow> RunResumeState \<Rightarrow>
     ('h, RunResult + (RunState \<times> json)) prog" where
  "resume_run cfg rq grant st r =
     prog_bind (valid_resume cfg rq grant r) (\<lambda>valid.
     if \<not> valid
     then stop (strategy_failure rq st WORKFLOW_ERROR ''resume checkpoint is unsafe or no longer authorized'' 1)
     else let st' = st\<lparr>st_iterations_used := rr_iterations_used r, st_tool_calls_used := rr_tool_calls_used r,
                       st_observations := rr_observations r, st_call_ids := set (rr_call_ids r)\<rparr> in
       prog_bind (charge_iterations (nat (rr_iterations_used r))) (\<lambda>charged.
       if \<not> charged
       then stop (strategy_failure rq st' ITERATION_BUDGET_EXCEEDED ''resume exceeds aggregate iteration budget'' 1)
       else prog_bind (ask_count (TakeToolSlotsAsk (rr_tool_calls_used r))) (\<lambda>k.
         if k \<noteq> rr_tool_calls_used r
         then stop (strategy_failure rq st' TOOL_BUDGET_EXCEEDED ''resume exceeds aggregate tool budget'' 1)
         else Ret (Inr (st', rr_workflow_state r)))))"

section \<open>Checkpoints\<close>

definition checkpoint ::
    "RunnerConfig \<Rightarrow> RunRequest \<Rightarrow> RunState \<Rightarrow> json \<Rightarrow> string \<Rightarrow> string \<Rightarrow> int \<Rightarrow> ('h, unit) prog" where
  "checkpoint cfg rq st workflow_state digest route_key iterations_used =
     (if 1024 < length (st_observations st) \<or> 1024 < card (st_call_ids st) then Ret ()
      else if contains_run_credentials workflow_state then Ret ()
      else prog_bind (lift_result (RunResumeState_validate
        \<lparr>rr_source_run_id = rq_run_id rq, rr_workflow_state = workflow_state,
         rr_observations = st_observations st, rr_iterations_used = iterations_used,
         rr_tool_calls_used = st_tool_calls_used st,
         rr_call_ids = sorted_list_of_set (st_call_ids st), rr_prompt_digest = digest,
         rr_route_key = route_key\<rparr>)) (\<lambda>resume.
      let data = JObj [(''resume_state'', dump_resume (rc_time cfg) resume), (''input'', rq_input rq),
                       (''conversation'', dump_conversation (rc_time cfg) (rq_conversation rq))] in
      prog_bind (lift_result (canonical_json data)) (\<lambda>payload.
      if int (length payload) \<le> checkpoint_limit (rc_policy cfg)
      then ask_unit (Publish ''checkpoint'' [] data) else Ret ())))"

section \<open>One iteration\<close>

text \<open>The prompt strategy.\<close>

definition render_prompt ::
    "Strategies \<Rightarrow> RunRequest \<Rightarrow> RunState \<Rightarrow> WorkflowFrame \<Rightarrow> int \<Rightarrow>
     ('h, RunResult + PromptEnvelope option) prog" where
  "render_prompt strat rq st frame iteration =
     (if \<not> es_prompt strat then Ret (Inr None)
      else prog_bind (attempt (ask_prompt (Render rq frame))) (\<lambda>got.
        case got of
          Inl _ \<Rightarrow> stop (strategy_failure rq st PROMPT_ERROR ''prompt strategy failed'' iteration)
        | Inr None \<Rightarrow> stop (strategy_failure rq st PROMPT_ERROR
                       ''prompt strategy returned an invalid result'' iteration)
        | Inr (Some p) \<Rightarrow> Ret (Inr (Some p))))"

text \<open>The checkpoint of the first frame, or the one the last batch left pending.\<close>

definition due_checkpoint ::
    "RunnerConfig \<Rightarrow> RunRequest \<Rightarrow> LoopState \<Rightarrow> string \<Rightarrow> string option \<Rightarrow> int \<Rightarrow> ('h, unit) prog" where
  "due_checkpoint cfg rq ls digest key iteration =
     (if iteration = 1 \<and> rq_resume rq = None \<and> key \<noteq> None
      then checkpoint cfg rq (ls_state ls) (ls_workflow_state ls) digest (the key) 0
      else case (ls_checkpoint_pending ls, key) of
             (Some pending, Some k) \<Rightarrow>
               checkpoint cfg rq (ls_state ls) (ls_workflow_state ls) digest k pending
           | _ \<Rightarrow> Ret ())"

text \<open>The resume key of the workflow, the match with the checkpoint and the new checkpoint.\<close>

definition bind_route ::
    "RunnerConfig \<Rightarrow> RunRequest \<Rightarrow> LoopState \<Rightarrow> WorkflowFrame \<Rightarrow> PromptEnvelope option \<Rightarrow> int \<Rightarrow> int \<Rightarrow>
     ('h, RunResult + unit) prog" where
  "bind_route cfg rq ls frame prompt iteration first_iteration =
     prog_bind (lift_result (prompt_digest cfg rq prompt)) (\<lambda>digest.
     prog_bind (attempt (ask_key (ResumeKey rq frame prompt))) (\<lambda>got.
     case got of
       Inl _ \<Rightarrow> stop (strategy_failure rq (ls_state ls) WORKFLOW_ERROR
                  ''workflow resume compatibility check failed'' iteration)
     | Inr key \<Rightarrow>
         if (case rq_resume rq of None \<Rightarrow> False
             | Some r \<Rightarrow> iteration = first_iteration \<and>
                 (key = None \<or> key \<noteq> Some (rr_route_key r) \<or> digest \<noteq> rr_prompt_digest r))
         then stop (strategy_failure rq (ls_state ls) WORKFLOW_ERROR
                ''resume route or prompt no longer matches'' iteration)
         else prog_bind (due_checkpoint cfg rq ls digest key iteration) (\<lambda>_. Ret (Inr ()))))"

definition workflow_event_kinds :: "string set" where
  "workflow_event_kinds = {''delta'', ''status'', ''usage'', ''compact_started'', ''compact_completed''}"

text \<open>The loop over the stream of the workflow; the items come with the end or the exception of the stream.\<close>

fun consume_stream ::
    "stream_item list \<Rightarrow> rexn option \<Rightarrow> WorkflowDecision option \<Rightarrow> ('h, WorkflowDecision option) prog" where
  "consume_stream [] failure decision =
     (case failure of None \<Rightarrow> Ret decision | Some e \<Rightarrow> Throw e)"
| "consume_stream (item # items) failure decision =
     (if decision \<noteq> None then Throw ValueOrTypeError
      else case item of
             StreamDecision d \<Rightarrow> consume_stream items failure (Some d)
           | StreamEvent kind text data \<Rightarrow>
               if kind \<notin> workflow_event_kinds then Throw ValueOrTypeError
               else prog_bind (ask_unit (Publish kind text (JObj data)))
                      (\<lambda>_. consume_stream items failure decision)
           | StreamOther \<Rightarrow> Throw ValueOrTypeError)"

definition run_workflow ::
    "RunRequest \<Rightarrow> RunState \<Rightarrow> WorkflowFrame \<Rightarrow> PromptEnvelope option \<Rightarrow> int \<Rightarrow>
     ('h, RunResult + WorkflowDecision) prog" where
  "run_workflow rq st frame prompt iteration =
     prog_bind (attempt (prog_bind (ask_stream (Workflow rq frame prompt)) (\<lambda>(items, failure).
       consume_stream items failure None))) (\<lambda>got.
     case got of
       Inl _ \<Rightarrow> stop (strategy_failure rq st WORKFLOW_ERROR ''workflow strategy failed'' iteration)
     | Inr None \<Rightarrow> stop (strategy_failure rq st WORKFLOW_ERROR
                     ''workflow strategy returned an invalid decision'' iteration)
     | Inr (Some d) \<Rightarrow> Ret (Inr d))"

definition review ::
    "Strategies \<Rightarrow> RunRequest \<Rightarrow> RunState \<Rightarrow> WorkflowFrame \<Rightarrow> WorkflowDecision \<Rightarrow> int \<Rightarrow>
     ('h, RunResult + WorkflowDecision) prog" where
  "review strat rq st frame decision iteration =
     (if \<not> es_reflection strat then Ret (Inr decision)
      else prog_bind (attempt (ask_decision (Reflect rq frame decision))) (\<lambda>got.
        case got of
          Inl _ \<Rightarrow> stop (strategy_failure rq st REFLECTION_ERROR ''reflection strategy failed'' iteration)
        | Inr None \<Rightarrow> stop (strategy_failure rq st REFLECTION_ERROR
                       ''reflection strategy returned an invalid decision'' iteration)
        | Inr (Some d) \<Rightarrow> Ret (Inr d)))"

text \<open>The flags of calls whose id was used before, in this batch or earlier.\<close>

fun duplicate_flags :: "ToolIntent list \<Rightarrow> string set \<Rightarrow> bool list" where
  "duplicate_flags [] used = []"
| "duplicate_flags (i # is) used =
     (tin_call_id i \<in> used) # duplicate_flags is (insert (tin_call_id i) used)"

text \<open>
  A \<open>TOOLS\<close> decision: the batch of the permitted calls, the checkpoint flag and the refusal of
  the calls over the budget.
\<close>

definition charge_calls :: "RunState \<Rightarrow> ToolIntent list \<Rightarrow> RunState" where
  "charge_calls st permitted =
     st\<lparr>st_tool_calls_used := st_tool_calls_used st + int (length permitted),
        st_call_ids := st_call_ids st \<union> tin_call_id ` set permitted\<rparr>"

definition batch_is_safe ::
    "RunRequest \<Rightarrow> LoopState \<Rightarrow> ToolIntent list \<Rightarrow> ToolIntent list \<Rightarrow> ToolObservation list \<Rightarrow> ('h, bool) prog" where
  "batch_is_safe rq ls permitted overflow observations =
     (if \<not> ls_checkpoint_safe ls \<or> overflow \<noteq> [] then Ret False
      else prog_bind (all_prog (safe_observation rq) observations) (\<lambda>ok. Ret (ok \<and>
        \<not> (\<exists>i \<in> set permitted. tin_approval_token i \<noteq> None \<or> contains_run_credentials (tin_arguments i)))))"

definition refuse_overflow ::
    "RunRequest \<Rightarrow> RunState \<Rightarrow> ToolIntent list \<Rightarrow> int \<Rightarrow> ('h, RunResult) prog" where
  "refuse_overflow rq st overflow iteration =
     prog_bind (for_each overflow (\<lambda>i. budget_observation rq i iteration)) (\<lambda>refused.
     finish_with rq (st\<lparr>st_observations := st_observations st @ refused\<rparr>) RUN_BUDGET_EXCEEDED JNull
       (Some (run_failure TOOL_BUDGET_EXCEEDED
          ''workflow requested more tool calls than the remaining budget'' (Some iteration))))"

definition run_permitted ::
    "RunRequest \<Rightarrow> LoopState \<Rightarrow> ToolIntent list \<Rightarrow> ToolIntent list \<Rightarrow> json \<Rightarrow> int \<Rightarrow>
     ('h, RunResult + LoopState) prog" where
  "run_permitted rq ls permitted overflow workflow_state iteration =
     (let flags = duplicate_flags permitted (st_call_ids (ls_state ls));
          st = charge_calls (ls_state ls) permitted in
      prog_bind (if permitted = [] then Ret []
                 else ask_observations (ExecuteBatch (zip permitted flags) iteration)) (\<lambda>observations.
      let st' = st\<lparr>st_observations := st_observations st @ observations\<rparr> in
      prog_bind (batch_is_safe rq ls permitted overflow observations) (\<lambda>safe.
      if overflow = []
      then Ret (Inr (ls\<lparr>ls_state := st', ls_workflow_state := workflow_state, ls_checkpoint_safe := safe,
                       ls_checkpoint_pending := (if safe then Some iteration else None)\<rparr>))
      else stop (refuse_overflow rq st' overflow iteration))))"

definition run_tools ::
    "RunRequest \<Rightarrow> LoopState \<Rightarrow> WorkflowDecision \<Rightarrow> json \<Rightarrow> int \<Rightarrow> ('h, RunResult + LoopState) prog" where
  "run_tools rq ls decision workflow_state iteration =
     (let remaining = eb_max_tool_calls (rq_budget rq) - st_tool_calls_used (ls_state ls);
          intents = wd_intents decision in
      prog_bind (ask_count (TakeToolSlotsAsk (min (max remaining 0) (int (length intents))))) (\<lambda>permitted_count.
      run_permitted rq ls (take (nat permitted_count) intents) (drop (nat permitted_count) intents)
        workflow_state iteration))"

text \<open>What the loop does with a decision.\<close>

definition act_on_decision ::
    "RunnerConfig \<Rightarrow> RunRequest \<Rightarrow> LoopState \<Rightarrow> WorkflowDecision \<Rightarrow> int \<Rightarrow> ('h, RunResult + LoopState) prog" where
  "act_on_decision cfg rq ls decision iteration =
     prog_bind (emit rq STRATEGY_DECISION None None None
       [(''kind'', JStr (decision_kind_value (wd_kind decision))),
        (''intent_count'', JInt (int (length (wd_intents decision))))]) (\<lambda>_.
     prog_bind (lift_result (canonical_json (wd_workflow_state decision))) (\<lambda>state_payload.
     if ep_max_workflow_state_bytes (rc_policy cfg) < int (length state_payload)
     then stop (strategy_failure rq (ls_state ls) WORKFLOW_STATE_TOO_LARGE
            ''workflow state exceeds the configured byte limit'' iteration)
     else if wd_kind decision = FINAL
     then prog_bind (lift_result (canonical_json (wd_output decision))) (\<lambda>output_payload.
       if ep_max_final_output_bytes (rc_policy cfg) < int (length output_payload)
       then stop (strategy_failure rq (ls_state ls) FINAL_OUTPUT_TOO_LARGE
              ''final output exceeds the configured byte limit'' iteration)
       else stop (finish_with rq (ls_state ls) RUN_SUCCEEDED (wd_output decision) None))
     else run_tools rq ls decision (detach (wd_workflow_state decision)) iteration))"

text \<open>From the prompt to the decision and what follows it.\<close>

definition run_frame ::
    "RunnerConfig \<Rightarrow> Strategies \<Rightarrow> RunRequest \<Rightarrow> LoopState \<Rightarrow> WorkflowFrame \<Rightarrow> int \<Rightarrow> int \<Rightarrow>
     ('h, RunResult + LoopState) prog" where
  "run_frame cfg strat rq ls frame first_iteration iteration =
     unless (render_prompt strat rq (ls_state ls) frame iteration) (\<lambda>prompt.
     unless (bind_route cfg rq ls frame prompt iteration first_iteration) (\<lambda>_.
     unless (run_workflow rq (ls_state ls) frame
               (map_option (\<lambda>p. with_runtime_environment p (st_started_at (ls_state ls))) prompt) iteration) (\<lambda>decision.
     unless (review strat rq (ls_state ls) frame decision iteration) (\<lambda>reviewed.
     act_on_decision cfg rq (ls\<lparr>ls_checkpoint_pending := None\<rparr>) reviewed iteration))))"

text \<open>The grant is resolved again for every iteration, and the frame shows its visible tools.\<close>

definition open_frame ::
    "RunnerConfig \<Rightarrow> Strategies \<Rightarrow> RunRequest \<Rightarrow> LoopState \<Rightarrow> int \<Rightarrow> int \<Rightarrow> ('h, RunResult + LoopState) prog" where
  "open_frame cfg strat rq ls first_iteration iteration =
     (let st = ls_state ls in
      prog_bind (grant_of rq) (\<lambda>g.
      case g of
        Inl failure \<Rightarrow> stop (finish_with rq st RUN_FAILED JNull (Some failure))
      | Inr grant \<Rightarrow>
          prog_bind (visible_tools rq grant) (\<lambda>available.
          prog_bind (ask_time Monotonic) (\<lambda>mono.
          run_frame cfg strat rq ls
            \<lparr>wf_iteration = iteration, wf_observations = st_observations st,
             wf_available_tools = available, wf_workflow_state = ls_workflow_state ls,
             wf_tool_calls_used = st_tool_calls_used st,
             wf_elapsed = max 0 (mono - st_started_monotonic st)\<rparr> first_iteration iteration))))"

definition loop_body ::
    "RunnerConfig \<Rightarrow> Strategies \<Rightarrow> RunRequest \<Rightarrow> int \<Rightarrow> int \<Rightarrow> LoopState \<Rightarrow> ('h, RunResult + LoopState) prog" where
  "loop_body cfg strat rq first_iteration iteration ls =
     prog_bind (ask_flag TakeIterationAsk) (\<lambda>ok.
     if \<not> ok
     then stop (finish_with rq (ls_state ls) RUN_BUDGET_EXCEEDED JNull
            (Some (run_failure ITERATION_BUDGET_EXCEEDED
              ''parent and delegated runs exhausted their aggregate iteration budget'' (Some iteration))))
     else open_frame cfg strat rq (ls\<lparr>ls_state := (ls_state ls)\<lparr>st_iterations_used := iteration\<rparr>\<rparr>)
            first_iteration iteration)"

text \<open>\<open>for iteration in range(first_iteration, max_iterations + 1)\<close>, with the statement after it.\<close>

fun iterate ::
    "RunnerConfig \<Rightarrow> Strategies \<Rightarrow> RunRequest \<Rightarrow> int \<Rightarrow> nat \<Rightarrow> int \<Rightarrow> LoopState \<Rightarrow> ('h, RunResult) prog" where
  "iterate cfg strat rq first_iteration 0 iteration ls =
     finish_with rq (ls_state ls) RUN_BUDGET_EXCEEDED JNull
       (Some (run_failure ITERATION_BUDGET_EXCEEDED ''workflow did not finish within the iteration budget''
          (Some (eb_max_iterations (rq_budget rq)))))"
| "iterate cfg strat rq first_iteration (Suc n) iteration ls =
     prog_bind (loop_body cfg strat rq first_iteration iteration ls) (\<lambda>r.
     case r of Inl result \<Rightarrow> Ret result
     | Inr ls' \<Rightarrow> iterate cfg strat rq first_iteration n (iteration + 1) ls')"

text \<open>The resume branch and the loop.\<close>

definition start_loop ::
    "RunnerConfig \<Rightarrow> Strategies \<Rightarrow> RunRequest \<Rightarrow> RunState \<Rightarrow> CapabilityGrant \<Rightarrow> ('h, RunResult) prog" where
  "start_loop cfg strat rq st grant =
     prog_bind (case rq_resume rq of None \<Rightarrow> Ret (Inr (st, JNull)) | Some r \<Rightarrow> resume_run cfg rq grant st r) (\<lambda>start.
     case start of
       Inl result \<Rightarrow> Ret result
     | Inr (st', workflow_state) \<Rightarrow>
         let first = st_iterations_used st' + 1 in
         iterate cfg strat rq first (nat (eb_max_iterations (rq_budget rq) + 1 - first)) first
           \<lparr>ls_state = st', ls_workflow_state = workflow_state, ls_checkpoint_safe = True,
            ls_checkpoint_pending = None\<rparr>)"

definition run_loop :: "RunnerConfig \<Rightarrow> Strategies \<Rightarrow> RunRequest \<Rightarrow> RunState \<Rightarrow> ('h, RunResult) prog" where
  "run_loop cfg strat rq st =
     prog_bind (emit rq RUN_STARTED None None None []) (\<lambda>_.
     case budget_policy_failure (rc_policy cfg) rq of
       Some f \<Rightarrow> finish_with rq st RUN_BUDGET_EXCEEDED JNull (Some f)
     | None \<Rightarrow>
     prog_bind (lift_result (canonical_json (rq_input rq))) (\<lambda>input_payload.
     if ep_max_run_input_bytes (rc_policy cfg) < int (length input_payload)
     then finish_with rq st RUN_FAILED JNull
            (Some (run_failure RUN_INPUT_TOO_LARGE ''run input exceeds the configured byte limit'' None))
     else prog_bind (grant_of rq) (\<lambda>g.
       case g of
         Inl failure \<Rightarrow> finish_with rq st RUN_FAILED JNull (Some failure)
       | Inr grant \<Rightarrow> start_loop cfg strat rq st grant)))"

section \<open>The table of active runs\<close>

type_synonym run_key = "ScopePath \<times> string \<times> string"

definition run_key :: "RequestScope \<Rightarrow> string \<Rightarrow> run_key" where
  "run_key sc run_id = (rs_path sc, rs_principal_id sc, run_id)"

text \<open>The value of an entry is whether its cancel event is set.\<close>

type_synonym active_runs = "(run_key, bool) dict"

definition begin_run :: "RequestScope \<Rightarrow> string \<Rightarrow> active_runs \<Rightarrow> bool \<times> active_runs" where
  "begin_run sc run_id active =
     (let key = run_key sc run_id in
      if dict_get active key \<noteq> None then (False, active) else (True, dict_set key False active))"

definition end_run :: "RequestScope \<Rightarrow> string \<Rightarrow> active_runs \<Rightarrow> active_runs" where
  "end_run sc run_id active = dict_pop (run_key sc run_id) active"

definition cancel_run :: "RequestScope \<Rightarrow> string \<Rightarrow> active_runs \<Rightarrow> bool \<times> active_runs" where
  "cancel_run sc run_id active =
     (let key = run_key sc run_id in
      if dict_get active key = None then (False, active) else (True, dict_set key True active))"

section \<open>Properties\<close>

text \<open>
  The table of active runs: a run id is taken at most once at a time per scope and principal
  and can be used again when the run has ended; cancelling sets the flag of the run with exactly
  this scope, principal and id, and touches no other run.
\<close>

theorem active_runs_exclusive:
  "(case begin_run sc run_id active of (ok, active') \<Rightarrow>
      ok = (dict_get active (run_key sc run_id) = None) \<and>
      \<not> fst (begin_run sc run_id active') \<and> fst (begin_run sc run_id (end_run sc run_id active')) \<and>
      (\<forall>k. k \<noteq> run_key sc run_id \<longrightarrow> dict_get active' k = dict_get active k)) \<and>
   (case cancel_run sc' run_id' active of (found, active') \<Rightarrow>
      found = (dict_get active (run_key sc' run_id') \<noteq> None) \<and>
      (\<forall>k. dict_get active' k =
         (if found \<and> k = (rs_path sc', rs_principal_id sc', run_id') then Some True else dict_get active k)))"
  by (auto simp: begin_run_def cancel_run_def end_run_def run_key_def Let_def)

theorem active_runs_exclusive_witness:
  "fst (begin_run sample_scope ''run1'' []) \<and> \<not> fst (begin_run sample_scope ''run1'' [(run_key sample_scope ''run1'', False)])"
  using active_runs_exclusive [where sc = sample_scope and run_id = "''run1''" and active = "[]"]
    active_runs_exclusive [where sc = sample_scope and run_id = "''run1''"
        and active = "[(run_key sample_scope ''run1'', False)]"]
  by (simp add: begin_run_def Let_def)

end
