(* ===== verification/Run_Loop_Safety.thy ===== *)
theory Run_Loop_Safety
  imports Run_Loop Runner_Audit
begin

text \<open>
  What the run loop guarantees whatever the strategies decide: the budgets of the request bound
  the calls of the workflow and the tool calls, inherited work included; a call id that was used
  before is flagged; and a published checkpoint holds no reference or approval of the run.
\<close>

section \<open>The ledger of a history\<close>

fun batch_of :: "'h exchange \<Rightarrow> (ToolIntent \<times> bool) list" where
  "batch_of (ExecuteBatch b it, a) = b"
| "batch_of _ = []"

definition issued :: "'h exchange list \<Rightarrow> (ToolIntent \<times> bool) list" where
  "issued h = concat (map batch_of h)"

fun workflow_count :: "'h exchange \<Rightarrow> nat" where
  "workflow_count (Workflow rq f p, a) = 1"
| "workflow_count _ = 0"

definition workflows :: "'h exchange list \<Rightarrow> nat" where
  "workflows h = sum_list (map workflow_count h)"

lemma ledger_simps [simp]:
  "issued [] = []" "issued (h @ h') = issued h @ issued h'" "issued (e # h) = batch_of e @ issued h"
  "workflows [] = 0" "workflows (h @ h') = workflows h + workflows h'"
  "workflows (e # h) = workflow_count e + workflows h"
  by (simp_all add: issued_def workflows_def)

definition inert :: "'h exchange list \<Rightarrow> 'h ask \<Rightarrow> bool" where
  "inert h q \<longleftrightarrow> (case q of ExecuteBatch _ _ \<Rightarrow> False | Workflow _ _ _ \<Rightarrow> False
     | Publish kind _ _ \<Rightarrow> kind \<noteq> ''checkpoint'' | _ \<Rightarrow> True)"

lemma inert_simps [simp]:
  "inert h Now" "inert h Monotonic" "inert h (ResolveTool s n)" "inert h (ResolveGrant g)"
  "inert h (Append ev)" "inert h (Validate r v)" "inert h (Evaluate rq i sp v)"
  "inert h TakeIterationAsk" "inert h (TakeToolSlotsAsk m)" "inert h (Render rq f)"
  "inert h (ResumeKey rq f p)" "inert h (Reflect rq f d)"
  "inert h (Publish k t v) \<longleftrightarrow> k \<noteq> ''checkpoint''"
  by (simp_all add: inert_def)

text \<open>The ledger: the calls that were issued and the number of times the workflow was asked.\<close>

definition ledger :: "'h exchange list \<Rightarrow> (ToolIntent \<times> bool) list \<times> nat" where
  "ledger h = (issued h, workflows h)"

lemma inert_ledger: "inert h q \<Longrightarrow> ledger (h' @ [(q, a)]) = ledger h'"
  by (cases q) (auto simp: inert_def ledger_def)

lemma inert_frame:
  assumes "guarantee R inert Q E h p"
  shows "guarantee R inert (\<lambda>x h'. Q x h' \<and> ledger h' = ledger h) (\<lambda>e h'. E e h' \<and> ledger h' = ledger h) h p"
  using assms
proof (induction p arbitrary: h)
  case (Ask q k)
  have "guarantee R inert (\<lambda>x h'. Q x h' \<and> ledger h' = ledger h) (\<lambda>e h'. E e h' \<and> ledger h' = ledger h)
          (h @ [(q, a)]) (k a)"
    if "answers q a" "R h q a" for a
  proof (rule guarantee_mono)
    show "guarantee R inert (\<lambda>x h'. Q x h' \<and> ledger h' = ledger (h @ [(q, a)]))
            (\<lambda>e h'. E e h' \<and> ledger h' = ledger (h @ [(q, a)])) (h @ [(q, a)]) (k a)"
      using Ask.prems that by (intro Ask.IH) auto
  qed (use Ask.prems inert_ledger [of h q h a] in auto)
  with Ask.prems show ?case by simp
qed simp_all

section \<open>Programs that only finish or look\<close>

lemma inert_emit: "guarantee R inert (\<lambda>_ _. True) (\<lambda>_ _. True) h (emit rq ty c n i d)"
  by (auto simp: emit_def ask_defs split: sum.splits)

definition totals :: "RunState \<Rightarrow> RunResult \<Rightarrow> bool" where
  "totals st r \<longleftrightarrow> rres_tool_calls_used r = st_tool_calls_used st \<and>
     rres_iterations_used r = st_iterations_used st \<and> rres_observations r = st_observations st"

lemma RunResult_validate_same: "RunResult_validate r = Inr r' \<Longrightarrow> r' = r"
  by (auto simp: RunResult_validate_def split: if_splits)

lemma inert_finish_with:
  "guarantee R inert (\<lambda>r _. totals st r \<and> rres_status r = status) (\<lambda>_ _. True) h
     (finish_with rq st status output failure)"
  by (auto simp: finish_with_def run_result_def finish_def ask_defs totals_def
        intro!: guarantee_mono [OF inert_emit] dest!: RunResult_validate_same split: sum.splits)

lemma inert_strategy_failure:
  "guarantee R inert (\<lambda>r _. totals st r) (\<lambda>_ _. True) h (strategy_failure rq st code msg it)"
  unfolding strategy_failure_def by (rule guarantee_mono [OF inert_finish_with]) auto

lemma inert_stop:
  "guarantee R inert (\<lambda>r h'. Q (Inl r) h') E h p \<Longrightarrow> guarantee R inert Q E h (stop p)"
  by (simp add: stop_def)

lemma inert_grant_of: "guarantee R inert (\<lambda>_ _. True) (\<lambda>_ _. True) h (grant_of rq)"
  by (auto simp: grant_of_def ask_defs split: sum.splits option.splits)

lemma inert_safe_registration: "guarantee R inert (\<lambda>_ _. True) (\<lambda>_ _. True) h (safe_registration rq name)"
  by (simp add: safe_registration_def ask_defs)

lemma inert_for_each:
  "(\<And>x h. guarantee R inert (\<lambda>_ _. True) (\<lambda>_ _. True) h (f x)) \<Longrightarrow>
     guarantee R inert (\<lambda>_ _. True) (\<lambda>_ _. True) h (for_each xs f)"
  by (induction xs arbitrary: h) (auto intro!: guarantee_mono)

lemma inert_visible_tools: "guarantee R inert (\<lambda>_ _. True) (\<lambda>_ _. True) h (visible_tools rq grant)"
  unfolding visible_tools_def
  by (simp, rule inert_for_each)
     (auto simp: visible_tool_def safe_registration_def ask_defs split: option.splits)

lemma inert_budget_observation:
  "guarantee R inert (\<lambda>_ _. True) (\<lambda>_ _. True) h (budget_observation rq i it)"
  by (auto simp: budget_observation_def failed_observation_def ask_defs
        intro!: guarantee_mono [OF inert_emit] split: sum.splits)

text \<open>A clean observation: successful and without a reference or approval of the run.\<close>

definition clean_observation :: "ToolObservation \<Rightarrow> bool" where
  "clean_observation ob \<longleftrightarrow> to_status ob = CALL_SUCCEEDED \<and> \<not> contains_run_credentials (to_result ob) \<and>
     \<not> opt_contains_credentials (to_arguments ob)"

lemma inert_safe_observation:
  "guarantee R inert (\<lambda>ok _. ok \<longrightarrow> clean_observation ob) (\<lambda>_ _. True) h (safe_observation rq ob)"
  by (auto simp: safe_observation_def safe_registration_def ask_defs clean_observation_def split: option.splits)

lemma inert_all_prog:
  assumes "\<And>x h. guarantee R inert (\<lambda>ok _. ok \<longrightarrow> P x) (\<lambda>_ _. True) h (f x)"
  shows "guarantee R inert (\<lambda>ok _. ok \<longrightarrow> (\<forall>x \<in> set xs. P x)) (\<lambda>_ _. True) h (all_prog f xs)"
proof (induction xs arbitrary: h)
  case (Cons x xs)
  show ?case unfolding all_prog.simps
    by (rule guarantee_bindI [OF assms]) (auto intro!: guarantee_mono [OF Cons.IH])
qed simp

lemma inert_resume_observation_ok:
  "guarantee R inert (\<lambda>ok _. ok \<longrightarrow> clean_observation ob) (\<lambda>_ _. True) h
     (resume_observation_ok cfg rq grant now ob)"
  unfolding resume_observation_ok_def
  by (rule guarantee_bindI [OF inert_safe_observation])
     (auto simp: ask_defs split: option.splits sum.splits)

lemma inert_valid_resume:
  "guarantee R inert (\<lambda>ok _. ok \<longrightarrow> resume_limits rq r \<and> resume_shape cfg r \<and>
       (\<forall>ob \<in> set (rr_observations r). clean_observation ob)) (\<lambda>_ _. True) h
     (valid_resume cfg rq grant r)"
  unfolding valid_resume_def
  by (auto simp: ask_defs split: sum.splits
        intro!: guarantee_mono [OF inert_all_prog [OF inert_resume_observation_ok]])

section \<open>The guarantee of the loop\<close>

text \<open>What the loop relies on: the aggregate budget grants no more slots than were asked for.\<close>

definition slots_rely :: "'h exchange list \<Rightarrow> 'h ask \<Rightarrow> 'h answer \<Rightarrow> bool" where
  "slots_rely h q a \<longleftrightarrow>
     (\<forall>n k. q = TakeToolSlotsAsk n \<longrightarrow> a = ACount k \<longrightarrow> 0 \<le> n \<longrightarrow> 0 \<le> k \<and> k \<le> n)"

text \<open>
  A checkpoint is the resume state, and the input and the conversation as the request gave them; workflow state and
  observations of the resume state are clean.
\<close>

definition clean_checkpoint :: "RunnerConfig \<Rightarrow> RunRequest \<Rightarrow> json \<Rightarrow> bool" where
  "clean_checkpoint cfg rq v \<longleftrightarrow> (\<exists>r.
     v = JObj [(''resume_state'', dump_resume (rc_time cfg) r), (''input'', rq_input rq),
               (''conversation'', dump_conversation (rc_time cfg) (rq_conversation rq))] \<and>
     rr_source_run_id r = rq_run_id rq \<and> int (length (dumps v)) \<le> checkpoint_limit (rc_policy cfg) \<and>
     \<not> contains_run_credentials (rr_workflow_state r) \<and> (\<forall>ob \<in> set (rr_observations r). clean_observation ob))"

lemma clean_dump_observation:
  assumes "clean_observation ob" and "\<forall>t. \<not> contains_run_credentials (tm t)"
  shows "\<not> contains_run_credentials (dump_observation tm ob)"
  using assms
  by (auto simp: dump_observation_def clean_observation_def dump_identity_def dump_failure_def opt_str_def
        opt_contains_credentials_def run_credential_keys_def split: option.splits)

text \<open>No credential is anywhere in the serialised resume state.\<close>

lemma clean_dump_resume:
  assumes "\<forall>t. \<not> contains_run_credentials (tm t)" and "\<not> contains_run_credentials (rr_workflow_state r)"
    and "\<forall>ob \<in> set (rr_observations r). clean_observation ob"
  shows "\<not> contains_run_credentials (dump_resume tm r)"
  using assms clean_dump_observation
  by (auto simp: dump_resume_def run_credential_keys_def list_ex_iff)

text \<open>Inherited work: iterations, tool calls and call ids of the resumed run.\<close>

record inherited =
  in_iterations :: int
  in_calls :: int
  in_ids :: "string set"

definition inherited_of :: "RunRequest \<Rightarrow> inherited" where
  "inherited_of rq = (case rq_resume rq of
     None \<Rightarrow> \<lparr>in_iterations = 0, in_calls = 0, in_ids = {}\<rparr>
   | Some r \<Rightarrow> \<lparr>in_iterations = rr_iterations_used r, in_calls = rr_tool_calls_used r, in_ids = set (rr_call_ids r)\<rparr>)"

definition ids_of :: "(ToolIntent \<times> bool) list \<Rightarrow> string set" where
  "ids_of b = tin_call_id ` set (map fst b)"

definition accounted :: "RunnerConfig \<Rightarrow> RunRequest \<Rightarrow> 'h exchange list \<Rightarrow> 'h ask \<Rightarrow> bool" where
  "accounted cfg rq h q \<longleftrightarrow>
     (case q of
        ExecuteBatch b it \<Rightarrow>
          in_calls (inherited_of rq) + int (length (issued h) + length b) \<le> eb_max_tool_calls (rq_budget rq) \<and>
          map snd b = duplicate_flags (map fst b) (in_ids (inherited_of rq) \<union> ids_of (issued h))
      | Workflow _ _ _ \<Rightarrow>
          in_iterations (inherited_of rq) + int (workflows h) < eb_max_iterations (rq_budget rq)
      | Publish kind _ data \<Rightarrow> kind = ''checkpoint'' \<longrightarrow> clean_checkpoint cfg rq data
      | _ \<Rightarrow> True)"

lemma accounted_inert: "inert h q \<Longrightarrow> accounted cfg rq h q"
  by (cases q) (auto simp: inert_def accounted_def)

lemma accounted_of_inert_both:
  assumes "guarantee R inert Q E h p" and "ledger h = L"
  shows accounted_of_inert': "guarantee R (accounted cfg rq) (\<lambda>x h'. Q x h' \<and> ledger h' = L)
      (\<lambda>e h'. E e h' \<and> ledger h' = L) h p"
    and accounted_of_inert: "guarantee R (accounted cfg rq) (\<lambda>x h'. Q x h' \<and> ledger h' = L) E h p"
proof -
  from inert_frame [OF assms(1)] show both: "guarantee R (accounted cfg rq) (\<lambda>x h'. Q x h' \<and> ledger h' = L)
      (\<lambda>e h'. E e h' \<and> ledger h' = L) h p"
    unfolding assms(2) by (rule guarantee_weaken_G) (rule accounted_inert)
  show "guarantee R (accounted cfg rq) (\<lambda>x h'. Q x h' \<and> ledger h' = L) E h p"
    by (rule guarantee_mono [OF both]) auto
qed

text \<open>The ledger is \<open>L\<close>, and a result that ends the run carries the totals of \<open>st\<close>.\<close>

definition kept ::
    "RunState \<Rightarrow> (ToolIntent \<times> bool) list \<times> nat \<Rightarrow> RunResult + 'a \<Rightarrow> 'h exchange list \<Rightarrow> bool" where
  "kept st L got h \<longleftrightarrow> ledger h = L \<and> (case got of Inl r \<Rightarrow> totals st r | Inr _ \<Rightarrow> True)"

lemma kept_Inr [simp]: "kept st L (Inr x) h \<longleftrightarrow> ledger h = L"
  by (simp add: kept_def)

lemma stop_kept:
  assumes "guarantee R inert (\<lambda>r _. totals st r) (\<lambda>_ _. True) h p" and "ledger h = L"
  shows "guarantee R (accounted cfg rq) (kept st L) (\<lambda>_ _. True) h (stop p)"
  unfolding stop_def
  by (rule guarantee_bindI [OF accounted_of_inert [OF assms]]) (simp add: kept_def)

lemmas failure_kept = stop_kept [OF inert_strategy_failure]

lemma attempt_kept:
  assumes "guarantee R inert (\<lambda>_ _. True) (\<lambda>_ _. True) h p" and "ledger h = L"
  shows "guarantee R (accounted cfg rq) (\<lambda>_ h'. ledger h' = L) (\<lambda>_ _. True) h (attempt p)"
proof -
  have "guarantee R inert (\<lambda>_ _. True) (\<lambda>_ _. True) h (attempt p)"
    using assms(1) by (auto simp: attempt_def intro: guarantee_mono)
  from accounted_of_inert [OF this assms(2)] show ?thesis by simp
qed

lemma checkpoint_accounted:
  assumes "\<forall>ob \<in> set (st_observations st). clean_observation ob" and "ledger h = L"
  shows "guarantee R (accounted cfg rq) (\<lambda>_ h'. ledger h' = L) (\<lambda>_ _. True) h
     (checkpoint cfg rq st ws digest key it)"
proof -
  have same: "RunResumeState_validate r = Inr r' \<Longrightarrow> r' = r" for r r'
    by (auto simp: RunResumeState_validate_def split: if_splits)
  show ?thesis
    using assms
    by (auto simp: checkpoint_def Let_def ask_defs accounted_def clean_checkpoint_def ledger_def canonical_json_def
          dest!: same split: sum.splits if_splits)
qed

definition fresh_start :: "LoopState \<Rightarrow> int \<Rightarrow> int \<Rightarrow> bool" where
  "fresh_start ls first it \<longleftrightarrow> (it = 1 \<longrightarrow> it = first) \<and>
     (it = first \<or> ls_checkpoint_pending ls \<noteq> None \<longrightarrow> (\<forall>ob \<in> set (st_observations (ls_state ls)). clean_observation ob))"

lemma due_checkpoint_accounted:
  assumes "fresh_start ls first it" and "ledger h = L"
  shows "guarantee R (accounted cfg rq) (\<lambda>_ h'. ledger h' = L) (\<lambda>_ _. True) h
     (due_checkpoint cfg rq ls digest key it)"
  using assms unfolding fresh_start_def due_checkpoint_def
  by (auto intro!: checkpoint_accounted split: option.split)

lemma bind_route_accounted:
  assumes "fresh_start ls first it" and "ledger h = L"
  shows "guarantee R (accounted cfg rq) (kept (ls_state ls) L) (\<lambda>_ _. True) h
     (bind_route cfg rq ls frame prompt it first)"
proof -
  have keyed: "guarantee R inert (\<lambda>_ _. True) (\<lambda>_ _. True) h (ask_key (ResumeKey rq frame prompt))"
    by (auto simp: ask_defs split: sum.splits)
  show ?thesis
    unfolding bind_route_def
    using assms
    by (auto simp: guarantee_bind_lift simp del: guarantee_bind
          intro!: guarantee_bindI [OF attempt_kept [OF keyed]] guarantee_bindI [OF due_checkpoint_accounted]
            failure_kept split: sum.split)
qed

lemma render_prompt_accounted:
  assumes "ledger h = L"
  shows "guarantee R (accounted cfg rq) (kept st L) (\<lambda>_ _. True) h (render_prompt strat rq st frame it)"
proof -
  have asked: "guarantee R inert (\<lambda>_ _. True) (\<lambda>_ _. True) h (ask_prompt (Render rq frame))"
    by (auto simp: ask_defs split: sum.splits)
  show ?thesis
    unfolding render_prompt_def using assms
    by (auto simp del: guarantee_bind intro!: guarantee_bindI [OF attempt_kept [OF asked]] failure_kept
          split: sum.split option.split)
qed

lemma review_accounted:
  assumes "ledger h = L"
  shows "guarantee R (accounted cfg rq) (kept st L) (\<lambda>_ _. True) h (review strat rq st frame d it)"
proof -
  have asked: "guarantee R inert (\<lambda>_ _. True) (\<lambda>_ _. True) h (ask_decision (Reflect rq frame d))"
    by (auto simp: ask_defs split: sum.splits)
  show ?thesis
    unfolding review_def using assms
    by (auto simp del: guarantee_bind intro!: guarantee_bindI [OF attempt_kept [OF asked]] failure_kept
          split: sum.split option.split)
qed

lemma inert_consume_stream:
  "guarantee R inert (\<lambda>_ _. True) (\<lambda>_ _. True) h (consume_stream items failure d)"
proof (induction items arbitrary: h d)
  case (Cons item items)
  then show ?case
    by (auto simp: ask_defs workflow_event_kinds_def split: stream_item.splits sum.splits)
qed (auto split: option.splits)

lemma guarantee_attempt:
  "guarantee R G Q E h (attempt p) =
     guarantee R G (\<lambda>x. Q (Inr x)) (\<lambda>e h'. if e = CancelledError then E e h' else Q (Inl ()) h') h p"
  by (simp add: attempt_def)

lemma run_workflow_accounted:
  assumes room: "in_iterations (inherited_of rq) + int n < eb_max_iterations (rq_budget rq)"
    and ledger: "ledger h = (b, n)"
  shows "guarantee R (accounted cfg rq) (kept st (b, Suc n)) (\<lambda>_ _. True) h
     (run_workflow rq st frame prompt it)"
proof -
  have consumed: "guarantee R (accounted cfg rq) (\<lambda>_ h'. ledger h' = (b, Suc n)) (\<lambda>_ h'. ledger h' = (b, Suc n)) h'
     (consume_stream items failure None)" if "ledger h' = (b, Suc n)" for h' items failure
    using accounted_of_inert' [OF inert_consume_stream that] by simp
  have asked: "guarantee R (accounted cfg rq) (\<lambda>_ h'. ledger h' = (b, Suc n)) (\<lambda>_ _. True) h
    (attempt (prog_bind (ask_stream (Workflow rq frame prompt)) (\<lambda>(items, failure).
       consume_stream items failure None)))"
    using room ledger unfolding guarantee_attempt
    by (auto simp: ask_defs accounted_def ledger_def intro!: guarantee_mono [OF consumed])
  show ?thesis
    unfolding run_workflow_def
    by (auto simp del: guarantee_bind intro!: guarantee_bindI [OF asked] failure_kept
          split: sum.split option.split)
qed

section \<open>The invariant of the loop\<close>

definition loop_inv :: "RunRequest \<Rightarrow> LoopState \<Rightarrow> (ToolIntent \<times> bool) list \<Rightarrow> bool" where
  "loop_inv rq ls b \<longleftrightarrow>
     st_tool_calls_used (ls_state ls) = in_calls (inherited_of rq) + int (length b) \<and>
     st_tool_calls_used (ls_state ls) \<le> eb_max_tool_calls (rq_budget rq) \<and>
     st_call_ids (ls_state ls) = in_ids (inherited_of rq) \<union> ids_of b \<and>
     (ls_checkpoint_safe ls \<longrightarrow> (\<forall>ob \<in> set (st_observations (ls_state ls)). clean_observation ob)) \<and>
     (ls_checkpoint_pending ls \<noteq> None \<longrightarrow> ls_checkpoint_safe ls)"

text \<open>A result of the loop: its totals agree with the ledger and stay within the budget.\<close>

definition within_budget :: "RunRequest \<Rightarrow> RunResult \<Rightarrow> (ToolIntent \<times> bool) list \<Rightarrow> bool" where
  "within_budget rq r b \<longleftrightarrow>
     rres_tool_calls_used r = in_calls (inherited_of rq) + int (length b) \<and>
     rres_tool_calls_used r \<le> eb_max_tool_calls (rq_budget rq) \<and>
     rres_iterations_used r \<le> eb_max_iterations (rq_budget rq)"

definition stepped ::
    "RunRequest \<Rightarrow> int \<Rightarrow> nat \<Rightarrow> RunResult + LoopState \<Rightarrow> 'h exchange list \<Rightarrow> bool" where
  "stepped rq it n got h \<longleftrightarrow> workflows h \<le> n \<and>
     (case got of
        Inl r \<Rightarrow> within_budget rq r (issued h)
      | Inr ls \<Rightarrow> loop_inv rq ls (issued h) \<and> st_iterations_used (ls_state ls) = it)"

lemma totals_within_budget:
  assumes "totals (ls_state ls) r" and "loop_inv rq ls b"
    and "st_iterations_used (ls_state ls) \<le> eb_max_iterations (rq_budget rq)"
  shows "within_budget rq r b"
  using assms by (auto simp: totals_def within_budget_def loop_inv_def)

lemma length_duplicate_flags [simp]: "length (duplicate_flags xs used) = length xs"
  by (induction xs arbitrary: used) auto

lemma inert_batch_is_safe:
  "guarantee R inert (\<lambda>safe _. safe \<longrightarrow> ls_checkpoint_safe ls \<and> (\<forall>ob \<in> set obs. clean_observation ob))
     (\<lambda>_ _. True) h (batch_is_safe rq ls permitted overflow obs)"
  unfolding batch_is_safe_def
  by (auto intro!: guarantee_mono [OF inert_all_prog [OF inert_safe_observation]])

lemma inert_refuse_overflow:
  "guarantee R inert (\<lambda>r _. rres_tool_calls_used r = st_tool_calls_used st \<and>
       rres_iterations_used r = st_iterations_used st) (\<lambda>_ _. True) h (refuse_overflow rq st overflow it)"
  unfolding refuse_overflow_def
  by (rule guarantee_bindI [OF inert_for_each [OF inert_budget_observation]])
     (rule guarantee_mono [OF inert_finish_with], auto simp: totals_def)

lemma issued_batch:
  assumes inv: "loop_inv rq ls (issued h)"
    and fits: "st_tool_calls_used (ls_state ls) + int (length permitted) \<le> eb_max_tool_calls (rq_budget rq)"
  defines "flags \<equiv> duplicate_flags permitted (st_call_ids (ls_state ls))"
  shows "guarantee R (accounted cfg rq)
      (\<lambda>obs h'. workflows h' = workflows h \<and> issued h' = issued h @ zip permitted flags) (\<lambda>_ _. True) h
      (if permitted = [] then Ret [] else ask_observations (ExecuteBatch (zip permitted flags) it))"
  using inv fits
  by (auto simp: ask_defs accounted_def loop_inv_def ids_of_def flags_def split: sum.splits)

lemma charged_inv:
  assumes "loop_inv rq ls b"
    and "st_tool_calls_used (ls_state ls) + int (length permitted) \<le> eb_max_tool_calls (rq_budget rq)"
    and "length flags = length permitted"
    and "safe \<longrightarrow> ls_checkpoint_safe ls \<and> (\<forall>ob \<in> set obs. clean_observation ob)"
  shows "loop_inv rq (ls\<lparr>ls_state := (charge_calls (ls_state ls) permitted)
             \<lparr>st_observations := st_observations (charge_calls (ls_state ls) permitted) @ obs\<rparr>,
           ls_workflow_state := ws, ls_checkpoint_safe := safe,
           ls_checkpoint_pending := (if safe then Some it else None)\<rparr>) (b @ zip permitted flags)"
proof -
  have "ids_of (b @ zip permitted flags) = ids_of b \<union> tin_call_id ` set permitted"
    using assms(3) by (simp add: ids_of_def image_Un del: set_map)
  with assms show ?thesis by (auto simp: loop_inv_def charge_calls_def)
qed

lemma run_permitted_accounted:
  assumes inv: "loop_inv rq ls (issued h)"
    and fits: "st_tool_calls_used (ls_state ls) + int (length permitted) \<le> eb_max_tool_calls (rq_budget rq)"
    and it: "st_iterations_used (ls_state ls) = it" "it \<le> eb_max_iterations (rq_budget rq)"
  shows "guarantee R (accounted cfg rq) (stepped rq it (workflows h)) (\<lambda>_ _. True) h
     (run_permitted rq ls permitted overflow ws iteration)"
proof -
  let ?flags = "duplicate_flags permitted (st_call_ids (ls_state ls))"
  let ?st = "charge_calls (ls_state ls) permitted"
  let ?L = "(issued h @ zip permitted ?flags, workflows h)"
  have safe: "guarantee R (accounted cfg rq) (\<lambda>safe h'. (safe \<longrightarrow> ls_checkpoint_safe ls \<and>
      (\<forall>ob \<in> set obs. clean_observation ob)) \<and> ledger h' = ?L) (\<lambda>_ _. True) h1
      (batch_is_safe rq ls permitted overflow obs)" if "ledger h1 = ?L" for h1 obs
    by (rule accounted_of_inert [OF inert_batch_is_safe that])
  have refused: "guarantee R (accounted cfg rq) (stepped rq it (workflows h)) (\<lambda>_ _. True) h1
      (stop (refuse_overflow rq (?st\<lparr>st_observations := obs\<rparr>) overflow iteration))" if "ledger h1 = ?L" for h1 obs
    unfolding stop_def
    by (rule guarantee_bindI [OF accounted_of_inert [OF inert_refuse_overflow that]])
       (use inv fits it in \<open>auto simp: stepped_def within_budget_def charge_calls_def loop_inv_def ledger_def\<close>)
  have continued: "stepped rq it (workflows h) (Inr (ls\<lparr>ls_state := ?st\<lparr>st_observations := st_observations ?st @ obs\<rparr>,
           ls_workflow_state := ws, ls_checkpoint_safe := safe,
           ls_checkpoint_pending := (if safe then Some iteration else None)\<rparr>)) h1"
    if "ledger h1 = ?L" "safe \<longrightarrow> ls_checkpoint_safe ls \<and> (\<forall>ob \<in> set obs. clean_observation ob)" for h1 obs safe
    using charged_inv [OF inv fits _ that(2), of ?flags] that(1) it
    by (auto simp: stepped_def ledger_def charge_calls_def)
  show ?thesis
    unfolding run_permitted_def Let_def
  proof (rule guarantee_bindI [OF issued_batch [OF inv fits]], rule guarantee_bindI [OF safe])
    fix obs :: "ToolObservation list" and h1 :: "'a exchange list"
    assume "workflows h1 = workflows h \<and> issued h1 = issued h @ zip permitted ?flags"
    then show "ledger h1 = ?L" by (simp add: ledger_def)
  next
    fix obs safe and h2 :: "'a exchange list"
    assume "(safe \<longrightarrow> ls_checkpoint_safe ls \<and> (\<forall>ob \<in> set obs. clean_observation ob)) \<and> ledger h2 = ?L"
    then show "guarantee R (accounted cfg rq) (stepped rq it (workflows h)) (\<lambda>_ _. True) h2
      (if overflow = []
       then Ret (Inr (ls\<lparr>ls_state := ?st\<lparr>st_observations := st_observations ?st @ obs\<rparr>,
           ls_workflow_state := ws, ls_checkpoint_safe := safe,
           ls_checkpoint_pending := (if safe then Some iteration else None)\<rparr>))
       else stop (refuse_overflow rq (?st\<lparr>st_observations := st_observations ?st @ obs\<rparr>) overflow iteration))"
      using continued [of h2 safe obs] refused [of h2] by (cases "overflow = []") simp_all
  qed
qed

lemma run_tools_accounted:
  assumes inv: "loop_inv rq ls (issued h)"
    and it: "st_iterations_used (ls_state ls) = it" "it \<le> eb_max_iterations (rq_budget rq)"
  shows "guarantee slots_rely (accounted cfg rq) (stepped rq it (workflows h)) (\<lambda>_ _. True) h
     (run_tools rq ls decision ws iteration)"
proof -
  let ?remaining = "eb_max_tool_calls (rq_budget rq) - st_tool_calls_used (ls_state ls)"
  let ?n = "min (max ?remaining 0) (int (length (wd_intents decision)))"
  have "guarantee slots_rely (accounted cfg rq) (stepped rq it (workflows h)) (\<lambda>_ _. True)
      (h @ [(TakeToolSlotsAsk ?n, ACount k)])
      (run_permitted rq ls (take (nat k) (wd_intents decision)) (drop (nat k) (wd_intents decision)) ws iteration)"
    if "slots_rely h (TakeToolSlotsAsk ?n) (ACount k)" for k
  proof -
    have k: "0 \<le> k" "k \<le> ?n" using that by (auto simp: slots_rely_def)
    then have "st_tool_calls_used (ls_state ls) + int (length (take (nat k) (wd_intents decision)))
        \<le> eb_max_tool_calls (rq_budget rq)"
      using inv by (auto simp: loop_inv_def)
    from run_permitted_accounted [OF _ this it, of "h @ [(TakeToolSlotsAsk ?n, ACount k)]"] inv
    show ?thesis by simp
  qed
  then show ?thesis by (simp add: run_tools_def Let_def ask_defs accounted_inert)
qed

lemma stop_stepped:
  assumes "guarantee R inert (\<lambda>r _. totals (ls_state ls) r) (\<lambda>_ _. True) h p"
    and "loop_inv rq ls (issued h)" and "st_iterations_used (ls_state ls) \<le> eb_max_iterations (rq_budget rq)"
    and "workflows h \<le> n"
  shows "guarantee R (accounted cfg rq) (stepped rq it n) (\<lambda>_ _. True) h (stop p)"
  unfolding stop_def
  by (rule guarantee_bindI [OF accounted_of_inert [OF assms(1) refl]])
     (use assms in \<open>auto simp: stepped_def ledger_def intro: totals_within_budget\<close>)

lemmas failure_stepped = stop_stepped [OF inert_strategy_failure]

lemma inert_finish_totals:
  "guarantee R inert (\<lambda>r _. totals st r) (\<lambda>_ _. True) h (finish_with rq st status output failure)"
  by (rule guarantee_mono [OF inert_finish_with]) auto

lemmas finish_stepped = stop_stepped [OF inert_finish_totals]

lemma act_on_decision_accounted:
  assumes inv: "loop_inv rq ls (issued h)" and n: "workflows h \<le> n"
    and it: "st_iterations_used (ls_state ls) \<le> eb_max_iterations (rq_budget rq)"
  shows "guarantee slots_rely (accounted cfg rq) (stepped rq (st_iterations_used (ls_state ls)) n) (\<lambda>_ _. True) h
     (act_on_decision cfg rq ls decision iteration)"
proof -
  have tools: "guarantee slots_rely (accounted cfg rq) (stepped rq (st_iterations_used (ls_state ls)) n) (\<lambda>_ _. True) h1
      (run_tools rq ls decision ws iteration)" if "issued h1 = issued h" "workflows h1 = workflows h" for h1 ws
  proof -
    have "loop_inv rq ls (issued h1)" "workflows h1 \<le> n" using that inv n by auto
    from run_tools_accounted [OF this(1) refl it] show ?thesis
      by (rule guarantee_mono) (use \<open>workflows h1 \<le> n\<close> in \<open>auto simp: stepped_def\<close>)
  qed
  show ?thesis
    unfolding act_on_decision_def
    by (rule guarantee_bindI [OF accounted_of_inert [OF inert_emit refl]])
       (use inv n it in \<open>auto simp: guarantee_bind_lift ledger_def simp del: guarantee_bind
          intro!: tools failure_stepped finish_stepped split: sum.split\<close>)
qed

lemma unless_stepped:
  assumes "guarantee R (accounted cfg rq) (kept (ls_state ls) (b, m)) (\<lambda>_ _. True) h p"
    and "loop_inv rq ls b" and "st_iterations_used (ls_state ls) \<le> eb_max_iterations (rq_budget rq)" and "m \<le> n"
    and "\<And>x h'. ledger h' = (b, m) \<Longrightarrow> guarantee R (accounted cfg rq) (stepped rq it n) (\<lambda>_ _. True) h' (f x)"
  shows "guarantee R (accounted cfg rq) (stepped rq it n) (\<lambda>_ _. True) h (unless p f)"
  unfolding unless_def
proof (rule guarantee_bindI [OF assms(1)])
  fix got :: "RunResult + 'b" and h' :: "'a exchange list"
  assume k: "kept (ls_state ls) (b, m) got h'"
  show "guarantee R (accounted cfg rq) (stepped rq it n) (\<lambda>_ _. True) h'
      (case got of Inl e \<Rightarrow> Ret (Inl e) | Inr x \<Rightarrow> f x)"
  proof (cases got)
    case (Inl r)
    with k assms(2-4) show ?thesis
      by (auto simp: kept_def stepped_def ledger_def intro: totals_within_budget)
  qed (use k assms(5) in simp)
qed

lemma run_frame_accounted:
  assumes inv: "loop_inv rq ls b" and fresh: "fresh_start ls first it"
    and it: "st_iterations_used (ls_state ls) \<le> eb_max_iterations (rq_budget rq)"
    and room: "in_iterations (inherited_of rq) + int n < eb_max_iterations (rq_budget rq)"
    and h: "ledger h = (b, n)"
  shows "guarantee slots_rely (accounted cfg rq) (stepped rq (st_iterations_used (ls_state ls)) (Suc n)) (\<lambda>_ _. True) h
     (run_frame cfg strat rq ls frame first it)" (is "guarantee _ _ ?Q _ _ _")
proof -
  have decided: "guarantee slots_rely (accounted cfg rq) ?Q (\<lambda>_ _. True) h1
      (act_on_decision cfg rq (ls\<lparr>ls_checkpoint_pending := None\<rparr>) decision it)"
    if "ledger h1 = (b, Suc n)" for h1 decision
    using act_on_decision_accounted [of rq "ls\<lparr>ls_checkpoint_pending := None\<rparr>" h1 "Suc n" cfg decision it] inv it that
    by (auto simp: loop_inv_def ledger_def)
  have reviewed: "guarantee slots_rely (accounted cfg rq) ?Q (\<lambda>_ _. True) h1
      (unless (review strat rq (ls_state ls) frame decision it) (\<lambda>reviewed.
       act_on_decision cfg rq (ls\<lparr>ls_checkpoint_pending := None\<rparr>) reviewed it))"
    if "ledger h1 = (b, Suc n)" for h1 decision
    by (rule unless_stepped [OF review_accounted [OF that] inv it _ decided]) simp_all
  have worked: "guarantee slots_rely (accounted cfg rq) ?Q (\<lambda>_ _. True) h1
      (unless (run_workflow rq (ls_state ls) frame prompt it) (\<lambda>decision.
       unless (review strat rq (ls_state ls) frame decision it) (\<lambda>reviewed.
       act_on_decision cfg rq (ls\<lparr>ls_checkpoint_pending := None\<rparr>) reviewed it)))"
    if "ledger h1 = (b, n)" for h1 prompt
    by (rule unless_stepped [OF run_workflow_accounted [OF room that] inv it _ reviewed]) simp_all
  show ?thesis
    unfolding run_frame_def
    by (rule unless_stepped [OF render_prompt_accounted [OF h] inv it],
        simp, rule unless_stepped [OF bind_route_accounted [OF fresh] inv it _ worked]) simp_all
qed

lemma inert_accounted:
  assumes "guarantee R inert (\<lambda>_ _. True) (\<lambda>_ _. True) h p" and "ledger h = L"
  shows "guarantee R (accounted cfg rq) (\<lambda>_ h'. ledger h' = L) (\<lambda>_ _. True) h p"
  using accounted_of_inert [OF assms] by simp

lemma open_frame_accounted:
  assumes inv: "loop_inv rq ls b" and fresh: "fresh_start ls first it"
    and it: "st_iterations_used (ls_state ls) \<le> eb_max_iterations (rq_budget rq)"
    and room: "in_iterations (inherited_of rq) + int n < eb_max_iterations (rq_budget rq)"
    and h: "ledger h = (b, n)"
  shows "guarantee slots_rely (accounted cfg rq) (stepped rq (st_iterations_used (ls_state ls)) (Suc n)) (\<lambda>_ _. True) h
     (open_frame cfg strat rq ls first it)" (is "guarantee _ _ ?Q _ _ _")
proof -
  have timed: "guarantee slots_rely inert (\<lambda>_ _. True) (\<lambda>_ _. True) h1 (ask_time Monotonic)" for h1
    by (simp add: ask_defs)
  have continued: "guarantee slots_rely (accounted cfg rq) ?Q (\<lambda>_ _. True) h1
     (prog_bind (visible_tools rq grant) (\<lambda>available. prog_bind (ask_time Monotonic) (\<lambda>mono.
        run_frame cfg strat rq ls (frame available mono) first it)))" if "ledger h1 = (b, n)" for h1 grant frame
    using that inv fresh it room
    by (intro guarantee_bindI [OF inert_accounted [OF inert_visible_tools]]
          guarantee_bindI [OF inert_accounted [OF timed]] run_frame_accounted)
  have over: "guarantee slots_rely (accounted cfg rq) ?Q (\<lambda>_ _. True) h1
     (stop (finish_with rq (ls_state ls) status JNull f))" if "ledger h1 = (b, n)" for h1 status f
    by (rule finish_stepped) (use that inv it in \<open>auto simp: ledger_def\<close>)
  show ?thesis
    unfolding open_frame_def Let_def
    by (rule guarantee_bindI [OF inert_accounted [OF inert_grant_of h]])
       (auto simp del: guarantee_bind intro!: over continued split: sum.split)
qed

lemma loop_body_accounted:
  assumes inv: "loop_inv rq ls (issued h)" and fresh: "fresh_start ls first it"
    and start: "st_iterations_used (ls_state ls) \<le> eb_max_iterations (rq_budget rq)"
    and it: "it \<le> eb_max_iterations (rq_budget rq)"
    and room: "in_iterations (inherited_of rq) + int (workflows h) < eb_max_iterations (rq_budget rq)"
  shows "guarantee slots_rely (accounted cfg rq) (stepped rq it (Suc (workflows h))) (\<lambda>_ _. True) h
     (loop_body cfg strat rq first it ls)"
proof -
  let ?ls = "ls\<lparr>ls_state := (ls_state ls)\<lparr>st_iterations_used := it\<rparr>\<rparr>"
  have "loop_inv rq ?ls (issued h)" "fresh_start ?ls first it"
    using inv fresh by (auto simp: loop_inv_def fresh_start_def)
  then have opened: "guarantee slots_rely (accounted cfg rq) (stepped rq it (Suc (workflows h))) (\<lambda>_ _. True) h1
     (open_frame cfg strat rq ?ls first it)" if "ledger h1 = ledger h" for h1
    using open_frame_accounted [of rq ?ls "issued h" first it "workflows h" h1] it room that
    by (simp add: ledger_def)
  have flagged: "guarantee slots_rely inert (\<lambda>_ _. True) (\<lambda>_ _. True) h (ask_flag TakeIterationAsk)"
    by (simp add: ask_defs)
  show ?thesis
    unfolding loop_body_def
    by (rule guarantee_bindI [OF inert_accounted [OF flagged refl]])
       (use inv start opened in \<open>auto simp del: guarantee_bind simp: ledger_def intro!: finish_stepped\<close>)
qed

lemma iterate_accounted:
  assumes "loop_inv rq ls (issued h)" and "fresh_start ls first it" and "1 \<le> first" and "first \<le> it"
    and "st_iterations_used (ls_state ls) \<le> eb_max_iterations (rq_budget rq)"
    and "it + int n \<le> eb_max_iterations (rq_budget rq) + 1"
    and "in_iterations (inherited_of rq) + int (workflows h) < it"
  shows "guarantee slots_rely (accounted cfg rq) (\<lambda>r h'. within_budget rq r (issued h')) (\<lambda>_ _. True) h
     (iterate cfg strat rq first n it ls)"
  using assms
proof (induction n arbitrary: ls h it)
  case 0
  show ?case
    unfolding iterate.simps
    by (rule guarantee_mono [OF accounted_of_inert [OF inert_finish_totals refl]])
       (use 0 in \<open>auto simp: ledger_def intro: totals_within_budget\<close>)
next
  case (Suc n)
  have body: "guarantee slots_rely (accounted cfg rq) (stepped rq it (Suc (workflows h))) (\<lambda>_ _. True) h
     (loop_body cfg strat rq first it ls)"
    using Suc.prems by (intro loop_body_accounted) auto
  show ?case
    unfolding iterate.simps
  proof (rule guarantee_bindI [OF body])
    fix got and h' :: "'a exchange list"
    assume got: "stepped rq it (Suc (workflows h)) got h'"
    show "guarantee slots_rely (accounted cfg rq) (\<lambda>r h'. within_budget rq r (issued h')) (\<lambda>_ _. True) h'
       (case got of Inl result \<Rightarrow> Ret result | Inr ls' \<Rightarrow> iterate cfg strat rq first n (it + 1) ls')"
    proof (cases got)
      case (Inr ls')
      with got have ls': "loop_inv rq ls' (issued h')" "st_iterations_used (ls_state ls') = it"
        "workflows h' \<le> Suc (workflows h)" by (auto simp: stepped_def)
      then have "fresh_start ls' first (it + 1)"
        using Suc.prems(3,4) by (auto simp: fresh_start_def loop_inv_def)
      with ls' Suc.prems show ?thesis unfolding Inr sum.case by (intro Suc.IH) auto
    qed (use got in \<open>auto simp: stepped_def\<close>)
  qed
qed

section \<open>The whole run\<close>

definition initial_state :: "instant \<Rightarrow> int \<Rightarrow> RunState" where
  "initial_state started_at started_monotonic =
     \<lparr>st_started_at = started_at, st_started_monotonic = started_monotonic, st_iterations_used = 0,
      st_tool_calls_used = 0, st_observations = [], st_call_ids = {}\<rparr>"

text \<open>A request as pydantic admits it: a budget in range and a resume state in range.\<close>

definition request_in_range :: "RunRequest \<Rightarrow> bool" where
  "request_in_range rq \<longleftrightarrow> 1 \<le> eb_max_iterations (rq_budget rq) \<and> 0 \<le> eb_max_tool_calls (rq_budget rq) \<and>
     (\<forall>r. rq_resume rq = Some r \<longrightarrow> 0 \<le> rr_iterations_used r \<and> 0 \<le> rr_tool_calls_used r)"

lemma validated_request_in_range:
  assumes "ExecutionBudget_validate (rq_budget rq) = Inr b"
    and "\<And>r. rq_resume rq = Some r \<Longrightarrow> RunResumeState_validate r = Inr r"
  shows "request_in_range rq"
  using assms by (auto simp: request_in_range_def ExecutionBudget_validate_def RunResumeState_validate_def
      split: if_splits)

definition budget_respected :: "RunRequest \<Rightarrow> RunResult \<Rightarrow> 'h exchange list \<Rightarrow> bool" where
  "budget_respected rq r h \<longleftrightarrow>
     rres_tool_calls_used r \<le> eb_max_tool_calls (rq_budget rq) \<and>
     rres_iterations_used r \<le> eb_max_iterations (rq_budget rq) \<and>
     int (length (issued h)) \<le> rres_tool_calls_used r"

lemma inert_charge_iterations: "guarantee R inert (\<lambda>_ _. True) (\<lambda>_ _. True) h (charge_iterations n)"
  by (induction n arbitrary: h) (auto simp: ask_defs)

text \<open>Where the loop starts: without work of its own, with the inherited work accounted for.\<close>

definition started :: "RunRequest \<Rightarrow> RunResult + (RunState \<times> json) \<Rightarrow> bool" where
  "started rq got \<longleftrightarrow> (case got of
     Inl r \<Rightarrow> 0 \<le> rres_tool_calls_used r \<and> rres_tool_calls_used r \<le> eb_max_tool_calls (rq_budget rq) \<and>
       rres_iterations_used r \<le> eb_max_iterations (rq_budget rq)
   | Inr (st, ws) \<Rightarrow> st_iterations_used st = in_iterations (inherited_of rq) \<and>
       st_iterations_used st < eb_max_iterations (rq_budget rq) \<and>
       st_tool_calls_used st = in_calls (inherited_of rq) \<and>
       st_tool_calls_used st \<le> eb_max_tool_calls (rq_budget rq) \<and>
       st_call_ids st = in_ids (inherited_of rq) \<and> (\<forall>ob \<in> set (st_observations st). clean_observation ob))"

lemma started_Inl:
  "started rq (Inl r) \<longleftrightarrow> 0 \<le> rres_tool_calls_used r \<and> rres_tool_calls_used r \<le> eb_max_tool_calls (rq_budget rq) \<and>
     rres_iterations_used r \<le> eb_max_iterations (rq_budget rq)"
  by (simp add: started_def)

lemma started_Inr:
  "started rq (Inr (st, ws)) \<longleftrightarrow> st_iterations_used st = in_iterations (inherited_of rq) \<and>
     st_iterations_used st < eb_max_iterations (rq_budget rq) \<and>
     st_tool_calls_used st = in_calls (inherited_of rq) \<and>
     st_tool_calls_used st \<le> eb_max_tool_calls (rq_budget rq) \<and>
     st_call_ids st = in_ids (inherited_of rq) \<and> (\<forall>ob \<in> set (st_observations st). clean_observation ob)"
  by (simp add: started_def)

lemma inert_resume_run:
  assumes "request_in_range rq" and "rq_resume rq = Some r"
  shows "guarantee R inert (\<lambda>got _. started rq got) (\<lambda>_ _. True) h (resume_run cfg rq grant (initial_state t m) r)"
proof -
  have failed: "guarantee R inert (\<lambda>got _. started rq got) (\<lambda>_ _. True) h1 (stop (strategy_failure rq st code msg it))"
    if "0 \<le> st_tool_calls_used st" "st_tool_calls_used st \<le> eb_max_tool_calls (rq_budget rq)"
      "st_iterations_used st \<le> eb_max_iterations (rq_budget rq)" for h1 st code msg it
    by (rule inert_stop, rule guarantee_mono [OF inert_strategy_failure])
       (use that in \<open>auto simp: started_Inl totals_def\<close>)
  have range: "1 \<le> eb_max_iterations (rq_budget rq)" "0 \<le> eb_max_tool_calls (rq_budget rq)"
    "0 \<le> rr_iterations_used r" "0 \<le> rr_tool_calls_used r"
    using assms by (auto simp: request_in_range_def)
  have charged: "guarantee R inert (\<lambda>_ _. True) (\<lambda>_ _. True) h1 (charge_iterations n)" for h1 n
    by (rule inert_charge_iterations)
  show ?thesis
    unfolding resume_run_def Let_def
    by (rule guarantee_bindI [OF inert_valid_resume])
       (use range assms(2) in \<open>auto simp: initial_state_def resume_limits_def ask_defs started_Inr inherited_of_def
          simp del: guarantee_bind intro!: failed guarantee_bindI [OF charged]\<close>)
qed

lemma iterate_from_start:
  assumes "request_in_range rq" and "started rq (Inr (st, ws))" and "ledger h = ([], 0)"
  shows "guarantee slots_rely (accounted cfg rq) (budget_respected rq) (\<lambda>_ _. True) h
     (iterate cfg strat rq (st_iterations_used st + 1)
        (nat (eb_max_iterations (rq_budget rq) - st_iterations_used st)) (st_iterations_used st + 1)
        \<lparr>ls_state = st, ls_workflow_state = ws, ls_checkpoint_safe = True, ls_checkpoint_pending = None\<rparr>)"
  using assms
  by (intro guarantee_mono [OF iterate_accounted])
     (auto simp: started_Inr loop_inv_def fresh_start_def ledger_def within_budget_def budget_respected_def
        ids_of_def inherited_of_def request_in_range_def split: option.splits)

lemma start_loop_accounted:
  assumes range: "request_in_range rq" and h: "ledger h = ([], 0)"
  shows "guarantee slots_rely (accounted cfg rq) (budget_respected rq) (\<lambda>_ _. True) h
     (start_loop cfg strat rq (initial_state t m) grant)"
proof -
  have resumed: "guarantee slots_rely (accounted cfg rq) (\<lambda>got h'. started rq got \<and> ledger h' = ([], 0)) (\<lambda>_ _. True) h
     (case rq_resume rq of None \<Rightarrow> Ret (Inr (initial_state t m, JNull))
      | Some r \<Rightarrow> resume_run cfg rq grant (initial_state t m) r)"
  proof (cases "rq_resume rq")
    case None
    with h range show ?thesis
      by (auto simp: started_Inr initial_state_def inherited_of_def request_in_range_def)
  next
    case (Some r)
    from accounted_of_inert [OF inert_resume_run [OF range Some] h] Some show ?thesis by simp
  qed
  show ?thesis
    unfolding start_loop_def
    by (rule guarantee_bindI [OF resumed])
       (auto simp: Let_def started_Inl budget_respected_def ledger_def split: sum.split
          intro!: iterate_from_start [OF range])
qed

lemma run_loop_accounted:
  assumes range: "request_in_range rq"
  shows "guarantee slots_rely (accounted cfg rq) (budget_respected rq) (\<lambda>_ _. True) []
     (run_loop cfg strat rq (initial_state t m))"
proof -
  have ended: "guarantee slots_rely (accounted cfg rq) (budget_respected rq) (\<lambda>_ _. True) h1
     (finish_with rq (initial_state t m) status JNull f)" if "ledger h1 = ([], 0)" for h1 status f
    by (rule guarantee_mono [OF accounted_of_inert [OF inert_finish_totals that]])
       (use range in \<open>auto simp: budget_respected_def totals_def initial_state_def ledger_def request_in_range_def\<close>)
  show ?thesis
    unfolding run_loop_def
    by (rule guarantee_bindI [OF inert_accounted [OF inert_emit, where L = "([], 0)"]])
       (auto simp: guarantee_bind_lift simp del: guarantee_bind
          intro!: ended guarantee_bindI [OF inert_accounted [OF inert_grant_of]] start_loop_accounted [OF range]
          split: option.split sum.split, simp add: ledger_def)
qed

lemma duplicate_flags_nth:
  "i < length is \<Longrightarrow> duplicate_flags is used ! i \<longleftrightarrow> tin_call_id (is ! i) \<in> used \<union> tin_call_id ` set (take i is)"
  by (induction "is" used arbitrary: i rule: duplicate_flags.induct) (auto simp: nth_Cons' take_Cons' split: if_splits)

lemma accounted_batch:
  assumes "accounted cfg rq h (ExecuteBatch calls it)"
  shows "in_calls (inherited_of rq) + int (length (issued h) + length calls) \<le> eb_max_tool_calls (rq_budget rq) \<and>
     (\<forall>i < length calls. snd (calls ! i) \<longleftrightarrow> tin_call_id (fst (calls ! i)) \<in>
        in_ids (inherited_of rq) \<union> ids_of (issued h) \<union> ids_of (take i calls))"
proof -
  let ?used = "in_ids (inherited_of rq) \<union> ids_of (issued h)"
  have flags: "map snd calls = duplicate_flags (map fst calls) ?used"
    using assms by (simp add: accounted_def)
  have "snd (calls ! i) \<longleftrightarrow> tin_call_id (fst (calls ! i)) \<in> ?used \<union> ids_of (take i calls)" if "i < length calls" for i
  proof -
    have "snd (calls ! i) = duplicate_flags (map fst calls) ?used ! i" using flags that by (metis nth_map)
    with duplicate_flags_nth [of i "map fst calls" ?used] that show ?thesis by (simp add: ids_of_def take_map)
  qed
  with assms show ?thesis by (simp add: accounted_def)
qed

lemma run_loop_asked:
  assumes "well_typed env" and "along slots_rely [] (es1 @ (q, a) # es2)" and "request_in_range rq"
    and "drive env (run_loop cfg strat rq (initial_state t m)) [] = (out, es1 @ (q, a) # es2)"
  shows "accounted cfg rq es1 q"
  using guarantee_asked [OF run_loop_accounted [OF assms(3)] assms(1), of cfg strat t m out] assms(2,4) by simp

end
