(* ===== verification/Capability_Authority.thy ===== *)
theory Capability_Authority
  imports Execution_Models
begin

text \<open>
  \<^verbatim>\<open>src/suiteharness/execution/in_memory.py\<close>, \<open>InMemoryCapabilityAuthority\<close>: the store of capability
  grants, their ownership by product activations, and the forest of delegated child grants. The
  asyncio lock makes every operation atomic. \<open>_now()\<close> is the argument \<open>now\<close>,
  \<open>secrets.token_urlsafe\<close> the argument \<open>token\<close>. A Python set is a list without repetitions;
  the lemmas say nothing about its order.
\<close>

section \<open>Dictionaries of sets\<close>

definition members :: "('k, 'a list) dict \<Rightarrow> 'k \<Rightarrow> 'a list" where
  "members d k = (case dict_get d k of None \<Rightarrow> [] | Some xs \<Rightarrow> xs)"

definition set_add :: "'k \<Rightarrow> 'a \<Rightarrow> ('k, 'a list) dict \<Rightarrow> ('k, 'a list) dict" where
  "set_add k x d =
     dict_set k (if x \<in> set (members d k) then members d k else members d k @ [x]) d"

definition set_default :: "'k \<Rightarrow> ('k, 'a list) dict \<Rightarrow> ('k, 'a list) dict" where
  "set_default k d = (case dict_get d k of None \<Rightarrow> dict_set k [] d | Some _ \<Rightarrow> d)"

text \<open>Discard from the set under a key and drop the key when its set becomes empty.\<close>

definition set_discard :: "'k \<Rightarrow> 'a \<Rightarrow> ('k, 'a list) dict \<Rightarrow> ('k, 'a list) dict" where
  "set_discard k x d =
     (case dict_get d k of
        None \<Rightarrow> d
      | Some xs \<Rightarrow>
          (let ys = filter (\<lambda>y. y \<noteq> x) xs in if ys = [] then dict_pop k d else dict_set k ys d))"

lemma members_set [simp]: "members (dict_set k ys d) k' = (if k' = k then ys else members d k')"
  by (simp add: members_def)

lemma members_pop [simp]: "members (dict_pop k d) k' = (if k' = k then [] else members d k')"
  by (simp add: members_def)

lemma members_add [simp]:
  "set (members (set_add k x d) k') = (if k' = k then insert x (set (members d k)) else set (members d k'))"
  by (simp add: set_add_def insert_absorb)

lemma members_default [simp]: "members (set_default k d) k' = members d k'"
  by (cases "dict_get d k") (simp_all add: members_def set_default_def)

lemma set_discard_members:
  "set_discard k x d =
     (if dict_get d k = None then d
      else let ys = filter (\<lambda>y. y \<noteq> x) (members d k)
           in if ys = [] then dict_pop k d else dict_set k ys d)"
  by (cases "dict_get d k") (simp_all add: members_def set_discard_def)

lemma members_discard [simp]:
  "set (members (set_discard k x d) k') =
     (if k' = k then set (members d k) - {x} else set (members d k'))"
proof -
  have "filter (\<lambda>y. y \<noteq> x) (members d k) = [] \<longleftrightarrow> set (members d k) - {x} = {}"
    by (auto simp: filter_empty_conv)
  moreover have "dict_get d k = None \<Longrightarrow> members d k = []" by (simp add: members_def)
  moreover have "set (filter (\<lambda>y. y \<noteq> x) (members d k)) = set (members d k) - {x}" by auto
  ultimately show ?thesis by (simp add: set_discard_members Let_def)
qed

lemma set_ops_ok [simp]:
  "dict_ok d \<Longrightarrow> dict_ok (set_add k x d)"
  "dict_ok d \<Longrightarrow> dict_ok (set_default k d)"
  "dict_ok d \<Longrightarrow> dict_ok (set_discard k x d)"
  by (auto simp: set_add_def set_default_def set_discard_def Let_def split: option.splits)

section \<open>State and operations\<close>

record CapabilityAuthority =
  ca_grants :: "(string, CapabilityGrant) dict"
  ca_grant_owners :: "(string, string option) dict"
  ca_active_owners :: "(string \<times> string, string) dict"
  ca_owner_grants :: "(string, string list) dict"
  ca_grant_parents :: "(string, string) dict"
  ca_grant_children :: "(string, string list) dict"

definition empty_authority :: CapabilityAuthority where
  "empty_authority =
     \<lparr>ca_grants = [], ca_grant_owners = [], ca_active_owners = [], ca_owner_grants = [],
      ca_grant_parents = [], ca_grant_children = []\<rparr>"

abbreviation scope_of :: "CapabilityGrant \<Rightarrow> string \<times> string" where
  "scope_of g \<equiv> (cg_tenant_id g, cg_product_id g)"

text \<open>The three writes that store a grant under an owner.\<close>

definition store_grant ::
    "CapabilityGrant \<Rightarrow> string option \<Rightarrow> CapabilityAuthority \<Rightarrow> CapabilityAuthority" where
  "store_grant g owner st =
     st\<lparr>ca_grants := dict_set (cg_grant_id g) g (ca_grants st),
        ca_grant_owners := dict_set (cg_grant_id g) owner (ca_grant_owners st),
        ca_owner_grants := (case owner of None \<Rightarrow> ca_owner_grants st
                            | Some o' \<Rightarrow> set_add o' (cg_grant_id g) (ca_owner_grants st))\<rparr>"

definition authority_register ::
    "CapabilityAuthority \<Rightarrow> CapabilityGrant \<Rightarrow> CapabilityAuthority result" where
  "authority_register st g =
     (if dict_get (ca_grants st) (cg_grant_id g) \<noteq> None
      then Raise (ValueError ''duplicate capability grant'')
      else Return (store_grant g (dict_get (ca_active_owners st) (scope_of g)) st))"

definition authority_issue ::
    "CapabilityAuthority \<Rightarrow> ScopePath \<Rightarrow> ToolIdentity set \<Rightarrow> string set \<Rightarrow> string option \<Rightarrow>
     duration \<Rightarrow> datetime option \<Rightarrow> instant \<Rightarrow> string \<Rightarrow>
     (CapabilityAuthority \<times> CapabilityGrant) result" where
  "authority_issue st scope identities capabilities principal_id lifetime at now token =
     (if sp_kind scope \<notin> {PRODUCT, AGENT}
      then Raise (ValueError ''capability grants require a product or agent scope'')
      else if lifetime \<le> 0 then Raise (ValueError ''grant lifetime must be positive'')
      else result_bind (case at of None \<Rightarrow> Return now | Some t \<Rightarrow> utc t ''now'') (\<lambda>issued_at.
        result_bind (CapabilityGrant_validate
          \<lparr>cg_grant_id = ''grant-'' @ token, cg_tenant_id = fstr (sp_tenant_id scope),
           cg_product_id = fstr (sp_product_id scope), cg_tool_identities = identities,
           cg_capabilities = capabilities, cg_principal_id = principal_id,
           cg_issued_at = issued_at, cg_expires_at = issued_at + lifetime\<rparr>) (\<lambda>g.
        result_bind (authority_register st g) (\<lambda>st'. Return (st', g)))))"

text \<open>
  The loop of \<open>_grant_live_locked\<close> over the ancestors. The fuel is one more than the number of
  stored grants; \<open>live_chain_enough\<close> shows that it never runs out in a reachable state.
\<close>

fun live_chain :: "nat \<Rightarrow> CapabilityAuthority \<Rightarrow> string option \<Rightarrow> instant \<Rightarrow> bool option" where
  "live_chain fuel st None now = Some True"
| "live_chain 0 st (Some current) now = None"
| "live_chain (Suc fuel) st (Some current) now =
     (case dict_get (ca_grants st) current of
        None \<Rightarrow> Some False
      | Some g \<Rightarrow>
          if cg_expires_at g \<le> now then Some False
          else if Option.bind (dict_get (ca_grant_owners st) current) id \<noteq>
                  dict_get (ca_active_owners st) (scope_of g) then Some False
          else live_chain fuel st (dict_get (ca_grant_parents st) current) now)"

definition grant_live_locked :: "CapabilityAuthority \<Rightarrow> string \<Rightarrow> instant \<Rightarrow> bool" where
  "grant_live_locked st gid now \<longleftrightarrow>
     live_chain (Suc (length (ca_grants st))) st (Some gid) now = Some True"

definition authority_issue_child ::
    "CapabilityAuthority \<Rightarrow> string \<Rightarrow> ScopePath \<Rightarrow> ToolIdentity set \<Rightarrow> string set \<Rightarrow> string \<Rightarrow>
     duration \<Rightarrow> instant \<Rightarrow> string \<Rightarrow> (CapabilityAuthority \<times> CapabilityGrant) result" where
  "authority_issue_child st parent_id scope identities capabilities principal_id lifetime now token =
     (if sp_kind scope \<noteq> AGENT then Raise (ValueError ''child grants require an agent scope'')
      else if lifetime \<le> 0 then Raise (ValueError ''grant lifetime must be positive'')
      else case dict_get (ca_grants st) parent_id of
        None \<Rightarrow> Raise (ValueError ''parent grant is not active'')
      | Some parent \<Rightarrow>
          if \<not> grant_live_locked st parent_id now
          then Raise (ValueError ''parent grant is not active'')
          else if (Some (cg_tenant_id parent), Some (cg_product_id parent)) \<noteq>
                  (sp_tenant_id scope, sp_product_id scope)
          then Raise (ValueError ''child grant cannot change tenant or product'')
          else if cg_principal_id parent \<noteq> None \<and> Some principal_id \<noteq> cg_principal_id parent
          then Raise (ValueError ''child grant cannot change principal'')
          else if \<not> identities \<subseteq> cg_tool_identities parent
          then Raise (ValueError ''child grant cannot add tool identities'')
          else if \<not> capabilities \<subseteq> cg_capabilities parent
          then Raise (ValueError ''child grant cannot add capabilities'')
          else result_bind (CapabilityGrant_validate
            \<lparr>cg_grant_id = ''grant-'' @ token, cg_tenant_id = cg_tenant_id parent,
             cg_product_id = cg_product_id parent, cg_tool_identities = identities,
             cg_capabilities = capabilities, cg_principal_id = Some principal_id,
             cg_issued_at = now, cg_expires_at = min (cg_expires_at parent) (now + lifetime)\<rparr>) (\<lambda>g.
            if dict_get (ca_grants st) (cg_grant_id g) \<noteq> None
            then Raise (ValueError ''duplicate capability grant'')
            else case dict_get (ca_grant_owners st) parent_id of
                   None \<Rightarrow> Raise (LookupError ''grant owner'')
                 | Some owner \<Rightarrow>
                     Return ((store_grant g owner st)
                       \<lparr>ca_grant_parents := dict_set (cg_grant_id g) parent_id (ca_grant_parents st),
                        ca_grant_children := set_add parent_id (cg_grant_id g) (ca_grant_children st)\<rparr>, g)))"

definition authority_resolve ::
    "CapabilityAuthority \<Rightarrow> string \<Rightarrow> instant \<Rightarrow> CapabilityGrant option" where
  "authority_resolve st gid now =
     (case dict_get (ca_grants st) gid of
        None \<Rightarrow> None
      | Some g \<Rightarrow>
          if dict_get (ca_grant_parents st) gid \<noteq> None
          then (if grant_live_locked st gid now then Some g else None)
          else (let current_owner = dict_get (ca_active_owners st) (scope_of g);
                    grant_owner = Option.bind (dict_get (ca_grant_owners st) gid) id
                in if current_owner = None then (if grant_owner = None then Some g else None)
                   else (if grant_owner = current_owner then Some g else None)))"

text \<open>One turn of the loop of \<open>_revoke_subtree_locked\<close>, after the children were taken.\<close>

definition revoke_one :: "CapabilityAuthority \<Rightarrow> string \<Rightarrow> CapabilityAuthority" where
  "revoke_one st current =
     (let children = dict_pop current (ca_grant_children st)
      in st\<lparr>ca_grant_children :=
              (case dict_get (ca_grant_parents st) current of
                 None \<Rightarrow> children
               | Some parent \<Rightarrow> set_discard parent current children),
            ca_grant_parents := dict_pop current (ca_grant_parents st),
            ca_grants := dict_pop current (ca_grants st),
            ca_grant_owners := dict_pop current (ca_grant_owners st),
            ca_owner_grants :=
              (case Option.bind (dict_get (ca_grant_owners st) current) id of
                 None \<Rightarrow> ca_owner_grants st
               | Some owner \<Rightarrow> set_discard owner current (ca_owner_grants st))\<rparr>)"

definition children_total :: "CapabilityAuthority \<Rightarrow> nat" where
  "children_total st = sum_list (map (length \<circ> snd) (ca_grant_children st))"

lemma children_total_pop:
  "sum_list (map (length \<circ> snd) (dict_pop k d)) + length (members d k) \<le>
   sum_list (map (length \<circ> snd) d)"
proof (induction d)
  case (Cons kv d)
  have "sum_list (map (length \<circ> snd) (dict_pop k d)) \<le> sum_list (map (length \<circ> snd) d)"
    using Cons by linarith
  with Cons show ?case by (cases kv) (auto simp: members_def)
qed (simp add: members_def)

lemma children_total_set:
  "dict_get d k = Some xs \<Longrightarrow> length ys \<le> length xs \<Longrightarrow>
   sum_list (map (length \<circ> snd) (dict_set k ys d)) \<le> sum_list (map (length \<circ> snd) d)"
  by (induction d) (auto split: if_splits)

lemma children_total_discard:
  "sum_list (map (length \<circ> snd) (set_discard k x d)) \<le> sum_list (map (length \<circ> snd) d)"
  using children_total_pop [of k d]
  by (auto simp: set_discard_def Let_def intro: children_total_set split: option.splits)

lemma children_total_revoke:
  "children_total (revoke_one st c) + length (members (ca_grant_children st) c) \<le> children_total st"
  using children_total_pop [of c "ca_grant_children st"]
    children_total_discard [of _ c "dict_pop c (ca_grant_children st)"]
  by (auto simp: children_total_def revoke_one_def Let_def split: option.split)
     (metis (no_types, lifting) add_le_mono1 le_trans)

text \<open>
  The loop itself; the head of the list is the top of the Python stack (its last element).
\<close>

function revoke_subtree :: "CapabilityAuthority \<Rightarrow> string list \<Rightarrow> CapabilityAuthority" where
  "revoke_subtree st [] = st"
| "revoke_subtree st (current # pending) =
     revoke_subtree (revoke_one st current) (rev (members (ca_grant_children st) current) @ pending)"
  by pat_completeness auto
termination
proof (relation "measure (\<lambda>(st, pending). length pending + children_total st)", simp)
  fix st current pending
  show "((revoke_one st current, rev (members (ca_grant_children st) current) @ pending),
         st, current # pending) \<in> measure (\<lambda>(st, pending). length pending + children_total st)"
    using children_total_revoke [of st current] by simp
qed

definition authority_revoke :: "CapabilityAuthority \<Rightarrow> string \<Rightarrow> bool \<times> CapabilityAuthority" where
  "authority_revoke st gid =
     (if dict_get (ca_grants st) gid = None then (False, st)
      else (True, revoke_subtree st [gid]))"

definition authority_bind_activation ::
    "CapabilityAuthority \<Rightarrow> string \<Rightarrow> string list \<Rightarrow> string \<Rightarrow> CapabilityAuthority result" where
  "authority_bind_activation st tenant_id product_ids owner_token =
     (if owner_token = [] then Raise (ValueError ''activation owner token must not be empty'')
      else if product_ids = [] \<or> \<not> distinct product_ids
      then Raise (ValueError ''activation product_ids must be non-empty and unique'')
      else let keys = map (\<lambda>p. (tenant_id, p)) product_ids
           in if filter (\<lambda>k. dict_get (ca_active_owners st) k \<noteq> None) keys \<noteq> []
              then Raise (ValueError ''capability scope already belongs to an activation'')
              else Return (st\<lparr>ca_active_owners :=
                                fold (\<lambda>k. dict_set k owner_token) keys (ca_active_owners st),
                              ca_owner_grants := set_default owner_token (ca_owner_grants st)\<rparr>))"

definition revoke_if_present :: "string \<Rightarrow> CapabilityAuthority \<Rightarrow> CapabilityAuthority" where
  "revoke_if_present gid st =
     (if dict_get (ca_grants st) gid = None then st else revoke_subtree st [gid])"

definition authority_release_activation ::
    "CapabilityAuthority \<Rightarrow> string \<Rightarrow> CapabilityAuthority" where
  "authority_release_activation st owner_token =
     (let keys = map fst (filter (\<lambda>(k, o'). o' = owner_token) (ca_active_owners st));
          st1 = st\<lparr>ca_active_owners := fold dict_pop keys (ca_active_owners st)\<rparr>;
          st2 = fold revoke_if_present (members (ca_owner_grants st1) owner_token) st1
      in st2\<lparr>ca_owner_grants := dict_pop owner_token (ca_owner_grants st2)\<rparr>)"

section \<open>Reachable authorities\<close>

inductive authority_step :: "CapabilityAuthority \<Rightarrow> CapabilityAuthority \<Rightarrow> bool" where
  step_register: "authority_register st g = Inr st' \<Longrightarrow> authority_step st st'"
| step_issue: "authority_issue st sc ids caps pr life at now tok = Inr (st', g) \<Longrightarrow> authority_step st st'"
| step_issue_child: "authority_issue_child st par sc ids caps pr life now tok = Inr (st', g) \<Longrightarrow>
     authority_step st st'"
| step_revoke: "authority_revoke st gid = (b, st') \<Longrightarrow> authority_step st st'"
| step_bind: "authority_bind_activation st t ps tok = Inr st' \<Longrightarrow> authority_step st st'"
| step_release: "authority_release_activation st tok = st' \<Longrightarrow> authority_step st st'"

inductive authority_reachable :: "CapabilityAuthority \<Rightarrow> bool" where
  authority_start: "authority_reachable empty_authority"
| authority_next: "authority_reachable st \<Longrightarrow> authority_step st st' \<Longrightarrow> authority_reachable st'"


section \<open>The invariant\<close>

definition attenuates :: "CapabilityGrant \<Rightarrow> CapabilityGrant \<Rightarrow> bool" where
  "attenuates c p \<longleftrightarrow>
     cg_tenant_id c = cg_tenant_id p \<and> cg_product_id c = cg_product_id p \<and>
     cg_tool_identities c \<subseteq> cg_tool_identities p \<and> cg_capabilities c \<subseteq> cg_capabilities p \<and>
     cg_expires_at c \<le> cg_expires_at p \<and>
     (cg_principal_id p \<noteq> None \<longrightarrow> cg_principal_id c = cg_principal_id p)"

definition dicts_ok :: "CapabilityAuthority \<Rightarrow> bool" where
  "dicts_ok st \<longleftrightarrow> dict_ok (ca_grants st) \<and> dict_ok (ca_active_owners st)"

definition ids_agree :: "CapabilityAuthority \<Rightarrow> bool" where
  "ids_agree st \<longleftrightarrow> (\<forall>g gr. dict_get (ca_grants st) g = Some gr \<longrightarrow> cg_grant_id gr = g)"

definition owners_total :: "CapabilityAuthority \<Rightarrow> bool" where
  "owners_total st \<longleftrightarrow>
     (\<forall>g. dict_get (ca_grant_owners st) g = None \<longleftrightarrow> dict_get (ca_grants st) g = None)"

definition parents_live :: "CapabilityAuthority \<Rightarrow> string set \<Rightarrow> bool" where
  "parents_live st pending \<longleftrightarrow> (\<forall>c p. dict_get (ca_grant_parents st) c = Some p \<longrightarrow>
     dict_get (ca_grants st) c \<noteq> None \<and> (dict_get (ca_grants st) p \<noteq> None \<or> c \<in> pending))"

definition children_agree :: "CapabilityAuthority \<Rightarrow> bool" where
  "children_agree st \<longleftrightarrow> (\<forall>c p. c \<in> set (members (ca_grant_children st) p) \<longleftrightarrow>
     dict_get (ca_grant_parents st) c = Some p \<and> dict_get (ca_grants st) p \<noteq> None)"

definition owned_agree :: "CapabilityAuthority \<Rightarrow> bool" where
  "owned_agree st \<longleftrightarrow> (\<forall>g ow. g \<in> set (members (ca_owner_grants st) ow) \<longleftrightarrow>
     dict_get (ca_grant_owners st) g = Some (Some ow))"

definition attenuated :: "CapabilityAuthority \<Rightarrow> bool" where
  "attenuated st \<longleftrightarrow> (\<forall>c p gc gp. dict_get (ca_grant_parents st) c = Some p \<longrightarrow>
     dict_get (ca_grants st) c = Some gc \<longrightarrow> dict_get (ca_grants st) p = Some gp \<longrightarrow>
     attenuates gc gp \<and> dict_get (ca_grant_owners st) c = dict_get (ca_grant_owners st) p)"

definition acyclic_parents :: "CapabilityAuthority \<Rightarrow> bool" where
  "acyclic_parents st \<longleftrightarrow>
     (\<exists>rank :: string \<Rightarrow> nat. \<forall>c p. dict_get (ca_grant_parents st) c = Some p \<longrightarrow> rank p < rank c)"

text \<open>
  The forest while the grants in \<open>pending\<close> still wait to be revoked: their parent may be gone.
\<close>

definition forest_inv :: "CapabilityAuthority \<Rightarrow> string set \<Rightarrow> bool" where
  "forest_inv st pending \<longleftrightarrow>
     dicts_ok st \<and> ids_agree st \<and> owners_total st \<and> parents_live st pending \<and> children_agree st \<and>
     owned_agree st \<and> attenuated st \<and> acyclic_parents st"

text \<open>Owned grants exist only while their owner's activation holds their scope.\<close>

definition owners_active :: "CapabilityAuthority \<Rightarrow> string set \<Rightarrow> bool" where
  "owners_active st released \<longleftrightarrow> (\<forall>g gr ow. dict_get (ca_grants st) g = Some gr \<longrightarrow>
     dict_get (ca_grant_owners st) g = Some (Some ow) \<longrightarrow>
     ow \<in> released \<or> dict_get (ca_active_owners st) (scope_of gr) = Some ow)"

definition authority_inv :: "CapabilityAuthority \<Rightarrow> bool" where
  "authority_inv st \<longleftrightarrow> forest_inv st {} \<and> owners_active st {}"

lemmas forest_defs = dicts_ok_def ids_agree_def owners_total_def parents_live_def children_agree_def
  owned_agree_def attenuated_def acyclic_parents_def

lemma authority_inv_empty: "authority_inv empty_authority"
  by (simp add: authority_inv_def forest_inv_def forest_defs owners_active_def empty_authority_def
      members_def)

section \<open>Revocation\<close>

lemma revoke_one_sel [simp]:
  "ca_grants (revoke_one st c) = dict_pop c (ca_grants st)"
  "ca_grant_owners (revoke_one st c) = dict_pop c (ca_grant_owners st)"
  "ca_grant_parents (revoke_one st c) = dict_pop c (ca_grant_parents st)"
  "ca_active_owners (revoke_one st c) = ca_active_owners st"
  by (simp_all add: revoke_one_def Let_def)

lemma revoke_one_children:
  "set (members (ca_grant_children (revoke_one st c)) p) =
     (if p = c then {}
      else if dict_get (ca_grant_parents st) c = Some p
      then set (members (ca_grant_children st) p) - {c}
      else set (members (ca_grant_children st) p))"
proof (cases "dict_get (ca_grant_parents st) c")
  case None
  then show ?thesis by (simp add: revoke_one_def Let_def)
next
  case (Some q)
  then have "ca_grant_children (revoke_one st c) = set_discard q c (dict_pop c (ca_grant_children st))"
    by (simp add: revoke_one_def Let_def)
  with Some show ?thesis by auto
qed

lemma revoke_one_owned:
  "set (members (ca_owner_grants (revoke_one st c)) ow) =
     (if dict_get (ca_grant_owners st) c = Some (Some ow)
      then set (members (ca_owner_grants st) ow) - {c}
      else set (members (ca_owner_grants st) ow))"
proof (cases "Option.bind (dict_get (ca_grant_owners st) c) id")
  case None
  then have "dict_get (ca_grant_owners st) c \<noteq> Some (Some ow)" by auto
  with None show ?thesis by (simp add: revoke_one_def Let_def)
next
  case (Some q)
  then have q: "dict_get (ca_grant_owners st) c = Some (Some q)"
    by (cases "dict_get (ca_grant_owners st) c") simp_all
  then have "ca_owner_grants (revoke_one st c) = set_discard q c (ca_owner_grants st)"
    by (simp add: revoke_one_def Let_def)
  with q show ?thesis by auto
qed

lemma revoke_one_inv:
  assumes inv: "forest_inv st (insert c P)"
  shows "forest_inv (revoke_one st c) (set (members (ca_grant_children st) c) \<union> P)"
proof -
  have live: "parents_live st (insert c P)" and kids: "children_agree st" and own: "owned_agree st"
    and tot: "owners_total st" and att: "attenuated st" and acyc: "acyclic_parents st"
    using inv by (simp_all add: forest_inv_def)
  have "parents_live (revoke_one st c) (set (members (ca_grant_children st) c) \<union> P)"
    using live kids by (auto simp: parents_live_def children_agree_def)
  moreover have "children_agree (revoke_one st c)"
    using kids by (auto simp: children_agree_def revoke_one_children)
  moreover have "owned_agree (revoke_one st c)"
    using own by (auto simp: owned_agree_def revoke_one_owned)
  moreover have "attenuated (revoke_one st c)"
    using att by (simp add: attenuated_def)
  moreover have "acyclic_parents (revoke_one st c)"
    using acyc unfolding acyclic_parents_def by (auto 4 3)
  moreover have "owners_total (revoke_one st c)" using tot by (simp add: owners_total_def)
  moreover have "ids_agree (revoke_one st c)" "dicts_ok (revoke_one st c)"
    using inv by (simp_all add: forest_inv_def ids_agree_def dicts_ok_def)
  ultimately show ?thesis by (simp add: forest_inv_def)
qed

lemma revoke_subtree_inv:
  "forest_inv st (set pending) \<Longrightarrow> forest_inv (revoke_subtree st pending) {}"
proof (induction st pending rule: revoke_subtree.induct)
  case (2 st current pending)
  have "forest_inv (revoke_one st current) (set (members (ca_grant_children st) current) \<union> set pending)"
    using revoke_one_inv "2.prems" by simp
  then show ?case using "2.IH" by (simp add: Un_commute)
qed simp

lemma revoke_subtree_active [simp]:
  "ca_active_owners (revoke_subtree st pending) = ca_active_owners st"
  by (induction st pending rule: revoke_subtree.induct) simp_all

text \<open>Nothing is added: every map of the result is part of the map before.\<close>

lemma revoke_subtree_le:
  "dict_get (ca_grants (revoke_subtree st pending)) g = Some gr \<Longrightarrow> dict_get (ca_grants st) g = Some gr"
  "dict_get (ca_grant_owners (revoke_subtree st pending)) g = Some ow \<Longrightarrow>
     dict_get (ca_grant_owners st) g = Some ow"
  by (induction st pending rule: revoke_subtree.induct) (auto split: if_splits)

text \<open>A grant that survives keeps its parent entry.\<close>

lemma parents_kept:
  "dict_get (ca_grants (revoke_subtree st pending)) c = Some gr \<Longrightarrow>
     dict_get (ca_grant_parents (revoke_subtree st pending)) c = dict_get (ca_grant_parents st) c"
proof (induction st pending rule: revoke_subtree.induct)
  case (2 st current pending)
  have after: "dict_get (ca_grants (revoke_subtree (revoke_one st current)
      (rev (members (ca_grant_children st) current) @ pending))) c = Some gr"
    using "2.prems" by simp
  have "c \<noteq> current" using revoke_subtree_le(1) [OF after] by auto
  with "2.IH" [OF after] show ?case by simp
qed simp

lemma revoke_subtree_None:
  "dict_get (ca_grants st) c = None \<Longrightarrow> dict_get (ca_grants (revoke_subtree st pending)) c = None"
  using revoke_subtree_le(1) by (metis not_None_eq)

lemma revoke_subtree_gone:
  "c \<in> set pending \<Longrightarrow> dict_get (ca_grants (revoke_subtree st pending)) c = None"
proof (induction st pending rule: revoke_subtree.induct)
  case (2 st current pending)
  show ?case
  proof (cases "c = current")
    case True
    then have "dict_get (ca_grants (revoke_one st current)) c = None" by simp
    then show ?thesis by (simp add: revoke_subtree_None)
  next
    case False
    with 2 show ?thesis by simp
  qed
qed simp

text \<open>A set of grants that is closed under children contains all that a revocation touches.\<close>

definition closed_under_children :: "CapabilityAuthority \<Rightarrow> string set \<Rightarrow> bool" where
  "closed_under_children st D \<longleftrightarrow> (\<forall>p \<in> D. set (members (ca_grant_children st) p) \<subseteq> D)"

lemma revoke_subtree_frame:
  assumes "set pending \<subseteq> D" and "closed_under_children st D" and "g \<notin> D"
  shows "dict_get (ca_grants (revoke_subtree st pending)) g = dict_get (ca_grants st) g \<and>
         dict_get (ca_grant_owners (revoke_subtree st pending)) g = dict_get (ca_grant_owners st) g \<and>
         dict_get (ca_grant_parents (revoke_subtree st pending)) g = dict_get (ca_grant_parents st) g"
  using assms
proof (induction st pending rule: revoke_subtree.induct)
  case (2 st current pending)
  have "closed_under_children (revoke_one st current) D"
    using "2.prems"(2) by (auto simp: closed_under_children_def revoke_one_children split: if_splits)
  moreover have "set (rev (members (ca_grant_children st) current) @ pending) \<subseteq> D"
    using "2.prems"(1,2) by (auto simp: closed_under_children_def)
  ultimately show ?case using "2.IH" "2.prems" by auto
qed simp

declare revoke_subtree.simps [simp del]

section \<open>Ancestors and descendants\<close>

definition child_rel :: "CapabilityAuthority \<Rightarrow> (string \<times> string) set" where
  "child_rel st = {(c, p). dict_get (ca_grant_parents st) c = Some p}"

definition descendants :: "CapabilityAuthority \<Rightarrow> string \<Rightarrow> string set" where
  "descendants st g = {c. (c, g) \<in> (child_rel st)\<^sup>*}"

lemma descendants_closed:
  assumes "children_agree st"
  shows "closed_under_children st (descendants st g)"
  using assms unfolding closed_under_children_def descendants_def children_agree_def
  by (auto simp: child_rel_def intro: converse_rtrancl_into_rtrancl)

lemma revoke_result:
  fixes g :: string
  assumes inv: "forest_inv st {}"
  defines "st' \<equiv> revoke_subtree st [g]"
  shows "dict_get (ca_grants st') c = (if c \<in> descendants st g then None else dict_get (ca_grants st) c)"
    and "c \<notin> descendants st g \<Longrightarrow> dict_get (ca_grant_owners st') c = dict_get (ca_grant_owners st) c \<and>
           dict_get (ca_grant_parents st') c = dict_get (ca_grant_parents st) c"
    and "forest_inv st' {}"
proof -
  have "forest_inv st (set [g])" using inv by (auto simp: forest_inv_def parents_live_def)
  then show inv': "forest_inv st' {}" unfolding st'_def by (rule revoke_subtree_inv)
  have closed: "closed_under_children st (descendants st g)"
    using inv by (simp add: forest_inv_def descendants_closed)
  have frame: "dict_get (ca_grants st') c = dict_get (ca_grants st) c \<and>
      dict_get (ca_grant_owners st') c = dict_get (ca_grant_owners st) c \<and>
      dict_get (ca_grant_parents st') c = dict_get (ca_grant_parents st) c"
    if "c \<notin> descendants st g" for c
    unfolding st'_def
    by (rule revoke_subtree_frame [OF _ closed that]) (simp add: descendants_def)
  have "dict_get (ca_grants st') c = None" if "c \<in> descendants st g" for c
  proof -
    have "(c, g) \<in> (child_rel st)\<^sup>*" using that by (simp add: descendants_def)
    then show ?thesis
    proof (induction rule: converse_rtrancl_induct)
      case base
      show ?case unfolding st'_def by (rule revoke_subtree_gone) simp
    next
      case (step y z)
      have yz: "dict_get (ca_grant_parents st) y = Some z" using step.hyps(1) by (simp add: child_rel_def)
      show ?case
      proof (rule ccontr)
        assume "dict_get (ca_grants st') y \<noteq> None"
        then obtain gr where gr: "dict_get (ca_grants st') y = Some gr" by blast
        have "dict_get (ca_grant_parents st') y = Some z"
          using parents_kept [OF gr [unfolded st'_def]] yz by (simp only: st'_def)
        moreover have "parents_live st' {}" using inv' by (simp add: forest_inv_def)
        ultimately show False using step.IH unfolding parents_live_def by blast
      qed
    qed
  qed
  then show "dict_get (ca_grants st') c = (if c \<in> descendants st g then None else dict_get (ca_grants st) c)"
    using frame by simp
  show "c \<notin> descendants st g \<Longrightarrow> dict_get (ca_grant_owners st') c = dict_get (ca_grant_owners st) c \<and>
           dict_get (ca_grant_parents st') c = dict_get (ca_grant_parents st) c"
    using frame by blast
qed


section \<open>Every operation keeps the invariant\<close>

lemma store_grant_sel [simp]:
  "ca_grants (store_grant g ow st) = dict_set (cg_grant_id g) g (ca_grants st)"
  "ca_grant_owners (store_grant g ow st) = dict_set (cg_grant_id g) ow (ca_grant_owners st)"
  "ca_grant_parents (store_grant g ow st) = ca_grant_parents st"
  "ca_grant_children (store_grant g ow st) = ca_grant_children st"
  "ca_active_owners (store_grant g ow st) = ca_active_owners st"
  by (simp_all add: store_grant_def)

lemma store_grant_owned:
  "set (members (ca_owner_grants (store_grant g ow st)) o') =
     (if ow = Some o' then insert (cg_grant_id g) (set (members (ca_owner_grants st) o'))
      else set (members (ca_owner_grants st) o'))"
  by (cases ow) (auto simp: store_grant_def)

lemma fresh_no_parent:
  assumes "forest_inv st {}" and "dict_get (ca_grants st) c = None"
  shows "dict_get (ca_grant_parents st) c = None" and "dict_get (ca_grant_parents st) x \<noteq> Some c"
  using assms unfolding forest_inv_def parents_live_def by (metis empty_iff not_None_eq)+

lemma store_grant_inv:
  assumes inv: "forest_inv st {}" and fresh: "dict_get (ca_grants st) (cg_grant_id g) = None"
  shows "forest_inv (store_grant g ow st) {}"
proof -
  note np = fresh_no_parent [OF inv fresh]
  have tot: "owners_total st" and own: "owned_agree st" and kids: "children_agree st"
    and live: "parents_live st {}" and att: "attenuated st"
    using inv by (simp_all add: forest_inv_def)
  have no_owner: "dict_get (ca_grant_owners st) (cg_grant_id g) = None"
    using tot fresh by (simp add: owners_total_def)
  have "owned_agree (store_grant g ow st)"
    using own no_owner by (auto simp: owned_agree_def store_grant_owned)
  moreover have "children_agree (store_grant g ow st)"
    using kids np(2) by (auto simp: children_agree_def)
  moreover have "parents_live (store_grant g ow st) {}"
    using live by (auto simp: parents_live_def)
  moreover have "attenuated (store_grant g ow st)"
    using att np by (auto simp: attenuated_def)
  moreover have "owners_total (store_grant g ow st)" "ids_agree (store_grant g ow st)"
    "dicts_ok (store_grant g ow st)" "acyclic_parents (store_grant g ow st)"
    using inv by (auto simp: forest_inv_def owners_total_def ids_agree_def dicts_ok_def acyclic_parents_def)
  ultimately show ?thesis by (simp add: forest_inv_def)
qed

abbreviation link_child :: "string \<Rightarrow> string \<Rightarrow> CapabilityAuthority \<Rightarrow> CapabilityAuthority" where
  "link_child c p st \<equiv> st\<lparr>ca_grant_parents := dict_set c p (ca_grant_parents st),
                           ca_grant_children := set_add p c (ca_grant_children st)\<rparr>"

lemma link_child_inv:
  assumes inv: "forest_inv st {}"
    and c: "dict_get (ca_grants st) c = Some gc" "dict_get (ca_grant_parents st) c = None"
      "\<And>x. dict_get (ca_grant_parents st) x \<noteq> Some c"
    and p: "dict_get (ca_grants st) p = Some gp" "p \<noteq> c"
    and att: "attenuates gc gp" "dict_get (ca_grant_owners st) c = dict_get (ca_grant_owners st) p"
  shows "forest_inv (link_child c p st) {}"
proof -
  obtain rank :: "string \<Rightarrow> nat"
    where rank: "\<And>c p. dict_get (ca_grant_parents st) c = Some p \<Longrightarrow> rank p < rank c"
    using inv by (auto simp: forest_inv_def acyclic_parents_def)
  have "acyclic_parents (link_child c p st)"
    unfolding acyclic_parents_def
    by (rule exI [of _ "rank(c := Suc (rank p))"]) (use rank c(3) p(2) in auto)
  moreover have "children_agree (link_child c p st)"
    using inv c(2) p(1) by (auto simp: forest_inv_def children_agree_def)
  moreover have "parents_live (link_child c p st) {}"
    using inv c(1) p(1) by (auto simp: forest_inv_def parents_live_def)
  moreover have "attenuated (link_child c p st)"
    using inv c(1) p(1) att by (auto simp: forest_inv_def attenuated_def)
  moreover have "owned_agree (link_child c p st)" "owners_total (link_child c p st)"
    "ids_agree (link_child c p st)" "dicts_ok (link_child c p st)"
    using inv by (simp_all add: forest_inv_def owned_agree_def owners_total_def ids_agree_def dicts_ok_def)
  ultimately show ?thesis by (simp add: forest_inv_def)
qed

lemma authority_register_inv:
  assumes inv: "authority_inv st" and reg: "authority_register st g = Inr st'"
  shows "authority_inv st'"
proof -
  have fresh: "dict_get (ca_grants st) (cg_grant_id g) = None"
    and st': "st' = store_grant g (dict_get (ca_active_owners st) (scope_of g)) st"
    using reg by (auto simp: authority_register_def split: if_splits)
  have "owners_active st' {}"
    using inv by (auto simp: st' authority_inv_def owners_active_def)
  then show ?thesis
    using inv store_grant_inv [OF _ fresh] by (simp add: authority_inv_def st')
qed

lemma issue_Inr:
  assumes "authority_issue st sc ids caps pr life at now tok = Inr (st', g)"
  shows "authority_register st g = Inr st'" and "cg_tool_identities g = ids" and "cg_capabilities g = caps"
    and "cg_principal_id g = pr" and "cg_expires_at g = cg_issued_at g + life" and "0 < life"
  using assms by (auto simp: authority_issue_def CapabilityGrant_validate_Inr split: if_splits)

lemma issue_child_Inr:
  assumes "authority_issue_child st par sc ids caps pr life now tok = Inr (st', g)"
  obtains gp ow where "dict_get (ca_grants st) par = Some gp" and "grant_live_locked st par now"
    and "dict_get (ca_grants st) (cg_grant_id g) = None"
    and "dict_get (ca_grant_owners st) par = Some ow"
    and "st' = link_child (cg_grant_id g) par (store_grant g ow st)"
    and "attenuates g gp" and "cg_principal_id g = Some pr" and "cg_issued_at g = now"
    and "cg_tool_identities g = ids" and "cg_capabilities g = caps"
  using assms unfolding authority_issue_child_def
  by (auto simp: CapabilityGrant_validate_Inr attenuates_def split: if_splits option.splits)

lemma issue_child_inv:
  assumes inv: "authority_inv st"
    and child: "authority_issue_child st par sc ids caps pr life now tok = Inr (st', g)"
  shows "authority_inv st'"
  using child
proof (rule issue_child_Inr)
  fix gp ow
  assume par: "dict_get (ca_grants st) par = Some gp" "dict_get (ca_grant_owners st) par = Some ow"
    and fresh: "dict_get (ca_grants st) (cg_grant_id g) = None"
    and st': "st' = link_child (cg_grant_id g) par (store_grant g ow st)"
    and att: "attenuates g gp"
  have forest: "forest_inv st {}" and active: "owners_active st {}"
    using inv by (simp_all add: authority_inv_def)
  note np = fresh_no_parent [OF forest fresh]
  have neq: "par \<noteq> cg_grant_id g" using par(1) fresh by auto
  have "forest_inv st' {}"
    unfolding st'
    by (rule link_child_inv [where gc = g and gp = gp])
       (use store_grant_inv [OF forest fresh] np par neq att in simp_all)
  moreover have "owners_active st' {}"
    using active par att by (auto simp: st' owners_active_def attenuates_def)
  ultimately show ?thesis by (simp add: authority_inv_def)
qed

lemma owners_active_mono:
  assumes "owners_active st R" and "ca_active_owners st' = ca_active_owners st"
    and "\<And>g gr. dict_get (ca_grants st') g = Some gr \<Longrightarrow> dict_get (ca_grants st) g = Some gr"
    and "\<And>g ow. dict_get (ca_grant_owners st') g = Some ow \<Longrightarrow> dict_get (ca_grant_owners st) g = Some ow"
  shows "owners_active st' R"
  using assms unfolding owners_active_def by metis

lemma revoke_inv:
  assumes inv: "authority_inv st" and rev: "authority_revoke st gid = (b, st')"
  shows "authority_inv st'"
proof (cases "dict_get (ca_grants st) gid = None")
  case True
  with assms show ?thesis by (simp add: authority_revoke_def)
next
  case False
  then have st': "st' = revoke_subtree st [gid]"
    using rev by (auto simp: authority_revoke_def split: if_splits)
  have "owners_active st' {}"
    unfolding st'
    by (rule owners_active_mono [OF _ revoke_subtree_active revoke_subtree_le])
       (use inv in \<open>simp_all add: authority_inv_def\<close>)
  moreover have "forest_inv st' {}"
    using inv unfolding st' by (intro revoke_result(3)) (simp add: authority_inv_def)
  ultimately show ?thesis by (simp add: authority_inv_def)
qed

lemma dict_ok_fold_const: "dict_ok d \<Longrightarrow> dict_ok (fold (\<lambda>k. dict_set k v) ks d)"
  by (induction ks arbitrary: d) auto

lemma dict_get_fold_pop:
  "dict_get (fold dict_pop ks d) k' = (if k' \<in> set ks then None else dict_get d k')"
  by (induction ks arbitrary: d) auto

lemma dict_ok_fold_pop: "dict_ok d \<Longrightarrow> dict_ok (fold dict_pop ks d)"
  by (induction ks arbitrary: d) auto

lemma bind_Inr:
  assumes "authority_bind_activation st t ps tok = Inr st'"
  shows "st' = st\<lparr>ca_active_owners := fold (\<lambda>k. dict_set k tok) (map (\<lambda>p. (t, p)) ps) (ca_active_owners st),
                  ca_owner_grants := set_default tok (ca_owner_grants st)\<rparr>"
    and "\<And>p. p \<in> set ps \<Longrightarrow> dict_get (ca_active_owners st) (t, p) = None"
  using assms by (auto simp: authority_bind_activation_def Let_def filter_empty_conv split: if_splits)

lemma bind_inv:
  assumes inv: "authority_inv st" and bind: "authority_bind_activation st t ps tok = Inr st'"
  shows "authority_inv st'"
proof -
  note b = bind_Inr [OF bind]
  have "owners_active st' {}"
    using inv b(2)
    by (fastforce simp: b(1) authority_inv_def owners_active_def dict_get_fold_const)
  moreover have "forest_inv st' {}"
    using inv by (auto simp: b(1) authority_inv_def forest_inv_def forest_defs intro: dict_ok_fold_const)
  ultimately show ?thesis by (simp add: authority_inv_def)
qed

section \<open>Releasing an activation\<close>

lemma revoke_children_le:
  "set (members (ca_grant_children (revoke_subtree st pending)) p) \<subseteq>
   set (members (ca_grant_children st) p)"
proof (induction st pending rule: revoke_subtree.induct)
  case (2 st current pending)
  have "set (members (ca_grant_children (revoke_one st current)) p) \<subseteq> set (members (ca_grant_children st) p)"
    by (auto simp: revoke_one_children split: if_splits)
  with 2 show ?case by (simp add: revoke_subtree.simps)
qed (simp add: revoke_subtree.simps)

lemma revoke_if_present_facts:
  assumes "forest_inv st {}"
  shows "forest_inv (revoke_if_present i st) {}"
    and "ca_active_owners (revoke_if_present i st) = ca_active_owners st"
    and "dict_get (ca_grants (revoke_if_present i st)) g = Some gr \<Longrightarrow> dict_get (ca_grants st) g = Some gr"
    and "dict_get (ca_grant_owners (revoke_if_present i st)) g = Some ow \<Longrightarrow>
           dict_get (ca_grant_owners st) g = Some ow"
    and "dict_get (ca_grants (revoke_if_present i st)) i = None"
    and "closed_under_children st D \<Longrightarrow> closed_under_children (revoke_if_present i st) D"
    and "i \<in> D \<Longrightarrow> closed_under_children st D \<Longrightarrow> g \<notin> D \<Longrightarrow>
           dict_get (ca_grants (revoke_if_present i st)) g = dict_get (ca_grants st) g"
  using assms revoke_result(3) [OF assms, of i] revoke_subtree_gone [of i "[i]" st]
    revoke_children_le [of st "[i]"] revoke_subtree_frame [of "[i]" D st g]
  by (auto simp: revoke_if_present_def closed_under_children_def split: if_splits
      dest: revoke_subtree_le)

lemma fold_revoke:
  assumes "forest_inv st {}"
  shows "forest_inv (fold revoke_if_present ids st) {} \<and>
    ca_active_owners (fold revoke_if_present ids st) = ca_active_owners st \<and>
    (\<forall>g gr. dict_get (ca_grants (fold revoke_if_present ids st)) g = Some gr \<longrightarrow>
       g \<notin> set ids \<and> dict_get (ca_grants st) g = Some gr) \<and>
    (\<forall>g ow. dict_get (ca_grant_owners (fold revoke_if_present ids st)) g = Some ow \<longrightarrow>
       dict_get (ca_grant_owners st) g = Some ow)"
  using assms
proof (induction ids arbitrary: st)
  case (Cons i ids)
  note one = revoke_if_present_facts [where i = i, OF Cons.prems]
  from Cons.IH [OF one(1)] one(2-5) show ?case
    by (auto simp del: not_None_eq)
qed simp

lemma fold_revoke_frame:
  assumes "forest_inv st {}" and "set ids \<subseteq> D" and "closed_under_children st D" and "g \<notin> D"
  shows "dict_get (ca_grants (fold revoke_if_present ids st)) g = dict_get (ca_grants st) g"
  using assms
proof (induction ids arbitrary: st)
  case (Cons i ids)
  note one = revoke_if_present_facts [where i = i, OF Cons.prems(1)]
  from Cons.IH [OF one(1) _ one(6) [OF Cons.prems(3)] Cons.prems(4)] Cons.prems(2)
    one(7) [OF _ Cons.prems(3,4)]
  show ?case by simp
qed simp

lemma release_result:
  assumes inv: "authority_inv st"
  shows "authority_inv (authority_release_activation st tok)"
    and "dict_get (ca_grants (authority_release_activation st tok)) g =
           (if dict_get (ca_grant_owners st) g = Some (Some tok) then None
            else dict_get (ca_grants st) g)"
    and "dict_get (ca_active_owners (authority_release_activation st tok)) k =
           (if dict_get (ca_active_owners st) k = Some tok then None
            else dict_get (ca_active_owners st) k)"
proof -
  define keys where "keys = map fst (filter (\<lambda>(k, o'). o' = tok) (ca_active_owners st))"
  define st1 where "st1 = st\<lparr>ca_active_owners := fold dict_pop keys (ca_active_owners st)\<rparr>"
  define ids where "ids = members (ca_owner_grants st) tok"
  define st2 where "st2 = fold revoke_if_present ids st1"
  let ?st3 = "st2\<lparr>ca_owner_grants := dict_pop tok (ca_owner_grants st2)\<rparr>"
  have rel: "authority_release_activation st tok = ?st3"
    by (simp add: authority_release_activation_def keys_def st1_def ids_def st2_def Let_def)
  have forest: "forest_inv st {}" and active: "owners_active st {}"
    using inv by (simp_all add: authority_inv_def)
  have keys: "k \<in> set keys \<longleftrightarrow> dict_get (ca_active_owners st) k = Some tok" for k
  proof -
    have "set keys = {k. (k, tok) \<in> set (ca_active_owners st)}" by (force simp: keys_def)
    then show ?thesis using forest by (simp add: forest_inv_def dicts_ok_def dict_get_in_set)
  qed
  have act1: "dict_get (ca_active_owners st1) k =
      (if dict_get (ca_active_owners st) k = Some tok then None else dict_get (ca_active_owners st) k)" for k
    by (simp add: st1_def dict_get_fold_pop keys)
  have forest1: "forest_inv st1 {}"
    using forest by (auto simp: st1_def forest_inv_def forest_defs intro: dict_ok_fold_pop)
  note f2 = fold_revoke [OF forest1, of ids, folded st2_def]
  have ids: "g \<in> set ids \<longleftrightarrow> dict_get (ca_grant_owners st) g = Some (Some tok)" for g
    using forest by (simp add: ids_def forest_inv_def owned_agree_def)
  have unowned: "dict_get (ca_grant_owners st2) g \<noteq> Some (Some tok)" for g
  proof
    assume own: "dict_get (ca_grant_owners st2) g = Some (Some tok)"
    then have "g \<in> set ids" using f2 by (simp add: ids st1_def)
    then have "dict_get (ca_grants st2) g = None" using f2 by (metis not_None_eq)
    moreover have "owners_total st2" using f2 by (simp add: forest_inv_def)
    ultimately show False using own unfolding owners_total_def by (metis option.distinct(1))
  qed
  have closed: "closed_under_children st1 (set ids)"
    using forest unfolding closed_under_children_def
    by (auto simp: st1_def ids forest_inv_def children_agree_def attenuated_def parents_live_def)
       (metis not_None_eq)
  show "dict_get (ca_grants (authority_release_activation st tok)) g =
          (if dict_get (ca_grant_owners st) g = Some (Some tok) then None else dict_get (ca_grants st) g)"
  proof (cases "g \<in> set ids")
    case True
    then have "dict_get (ca_grants st2) g = None" using f2 by (metis not_None_eq)
    with True show ?thesis by (simp add: rel ids)
  next
    case False
    then show ?thesis
      using fold_revoke_frame [OF forest1 _ closed False] by (simp add: rel ids st2_def st1_def)
  qed
  show "dict_get (ca_active_owners (authority_release_activation st tok)) k =
          (if dict_get (ca_active_owners st) k = Some tok then None else dict_get (ca_active_owners st) k)"
    using f2 act1 by (simp add: rel)
  have "forest_inv ?st3 {}"
    using f2 unowned by (auto simp: forest_inv_def forest_defs)
  moreover have "owners_active ?st3 {}"
    using f2 active unowned act1 unfolding owners_active_def
    by (auto simp: st1_def dict_get_fold_pop keys split: if_splits) (metis)+
  ultimately show "authority_inv (authority_release_activation st tok)"
    by (simp add: rel authority_inv_def)
qed

lemma authority_step_inv:
  assumes "authority_step st st'" and "authority_inv st"
  shows "authority_inv st'"
  using assms(1)
proof cases
  case (step_register g)
  from authority_register_inv [OF assms(2) this] show ?thesis .
next
  case (step_issue sc ids caps pr life at now tok g)
  from authority_register_inv [OF assms(2) issue_Inr(1) [OF this]] show ?thesis .
next
  case (step_issue_child par sc ids caps pr life now tok g)
  from issue_child_inv [OF assms(2) this] show ?thesis .
next
  case (step_revoke gid b)
  from revoke_inv [OF assms(2) this] show ?thesis .
next
  case (step_bind t ps tok)
  from bind_inv [OF assms(2) this] show ?thesis .
next
  case (step_release tok)
  from release_result(1) [OF assms(2), of tok] show ?thesis unfolding step_release .
qed

lemma authority_reachable_inv: "authority_reachable st \<Longrightarrow> authority_inv st"
  by (induction rule: authority_reachable.induct)
     (blast intro: authority_inv_empty authority_step_inv)+


section \<open>Liveness of a chain of grants\<close>

lemma live_chain_enough:
  assumes inv: "forest_inv st {}"
  shows "live_chain (Suc (length (ca_grants st))) st g now \<noteq> None"
proof -
  obtain rank :: "string \<Rightarrow> nat"
    where rank: "\<And>c p. dict_get (ca_grant_parents st) c = Some p \<Longrightarrow> rank p < rank c"
    using inv by (auto simp: forest_inv_def acyclic_parents_def)
  define below where "below g = {x \<in> set (dict_keys (ca_grants st)). rank x < rank g}" for g
  have fin: "finite (below g)" for g by (simp add: below_def)
  have enough: "card (below g) < fuel \<Longrightarrow> live_chain fuel st (Some g) now \<noteq> None" for fuel g
  proof (induction fuel arbitrary: g)
    case (Suc fuel)
    show ?case
    proof (cases "dict_get (ca_grant_parents st) g")
      case None
      then show ?thesis by (auto split: option.split)
    next
      case (Some p)
      then have "dict_get (ca_grants st) p \<noteq> None"
        using inv unfolding forest_inv_def parents_live_def by blast
      then have "p \<in> below g" using rank [OF Some] by (auto simp: below_def dict_get_None)
      moreover have "below p \<subseteq> below g" using rank [OF Some] by (auto simp: below_def)
      moreover have "p \<notin> below p" by (simp add: below_def)
      ultimately have "card (below p) < card (below g)" by (metis fin psubsetI psubset_card_mono)
      then have "live_chain fuel st (Some p) now \<noteq> None" using Suc by simp
      with Some show ?thesis by (auto split: option.split)
    qed
  qed simp
  have "card (below g) \<le> length (ca_grants st)" for g
    using card_mono [of "set (dict_keys (ca_grants st))" "below g"] card_length [of "dict_keys (ca_grants st)"]
    by (simp add: below_def)
  then have "card (below g) < Suc (length (ca_grants st))" for g by (simp add: le_imp_less_Suc)
  from enough [OF this] show ?thesis by (cases g) (simp, blast)
qed

definition grant_current :: "CapabilityAuthority \<Rightarrow> instant \<Rightarrow> string \<Rightarrow> bool" where
  "grant_current st now g \<longleftrightarrow> (\<exists>gr. dict_get (ca_grants st) g = Some gr \<and> now < cg_expires_at gr \<and>
     Option.bind (dict_get (ca_grant_owners st) g) id = dict_get (ca_active_owners st) (scope_of gr))"

lemma live_chain_sound:
  "live_chain fuel st (Some g) now = Some True \<Longrightarrow> (g, a) \<in> (child_rel st)\<^sup>* \<Longrightarrow> grant_current st now a"
proof (induction fuel arbitrary: g)
  case (Suc fuel)
  have here: "grant_current st now g"
    and next_live: "live_chain fuel st (dict_get (ca_grant_parents st) g) now = Some True"
    using Suc.prems(1) by (auto simp: grant_current_def split: option.splits if_splits)
  from Suc.prems(2) show ?case
  proof (cases rule: converse_rtranclE)
    case base
    with here show ?thesis by simp
  next
    case (step p)
    then have "dict_get (ca_grant_parents st) g = Some p" by (simp add: child_rel_def)
    with next_live Suc.IH step(2) show ?thesis by simp
  qed
qed simp

lemma ancestors_attenuate:
  assumes "forest_inv st {}" and "(c, a) \<in> (child_rel st)\<^sup>*" and "dict_get (ca_grants st) c = Some gc"
  shows "\<exists>ga. dict_get (ca_grants st) a = Some ga \<and> attenuates gc ga \<and>
           dict_get (ca_grant_owners st) c = dict_get (ca_grant_owners st) a"
  using assms(2)
proof (induction rule: rtrancl_induct)
  case base
  with assms(3) show ?case by (simp add: attenuates_def)
next
  case (step y z)
  then obtain gy where y: "dict_get (ca_grants st) y = Some gy" "attenuates gc gy"
    "dict_get (ca_grant_owners st) c = dict_get (ca_grant_owners st) y" by blast
  have yz: "dict_get (ca_grant_parents st) y = Some z" using step.hyps(2) by (simp add: child_rel_def)
  then obtain gz where gz: "dict_get (ca_grants st) z = Some gz"
    using assms(1) unfolding forest_inv_def parents_live_def by blast
  have "attenuates gy gz" "dict_get (ca_grant_owners st) y = dict_get (ca_grant_owners st) z"
    using assms(1) y(1) gz yz by (auto simp: forest_inv_def attenuated_def)
  with y gz show ?case by (auto simp: attenuates_def)
qed

lemma authority_resolve_Some:
  assumes "authority_resolve st g now = Some gr"
  shows "dict_get (ca_grants st) g = Some gr"
    and "Option.bind (dict_get (ca_grant_owners st) g) id = dict_get (ca_active_owners st) (scope_of gr)"
    and "dict_get (ca_grant_parents st) g = Some p \<Longrightarrow> grant_live_locked st g now"
proof -
  show here: "dict_get (ca_grants st) g = Some gr"
    using assms by (auto simp: authority_resolve_def Let_def split: option.splits if_splits)
  show "dict_get (ca_grant_parents st) g = Some p \<Longrightarrow> grant_live_locked st g now"
    using assms here by (auto simp: authority_resolve_def split: if_splits)
  show "Option.bind (dict_get (ca_grant_owners st) g) id = dict_get (ca_active_owners st) (scope_of gr)"
  proof (cases "dict_get (ca_grant_parents st) g")
    case None
    with assms here show ?thesis by (auto simp: authority_resolve_def Let_def split: if_splits)
  next
    case (Some p)
    then have "grant_live_locked st g now"
      using assms here by (auto simp: authority_resolve_def split: if_splits)
    then have "grant_current st now g"
      unfolding grant_live_locked_def by (rule live_chain_sound) simp
    with here show ?thesis by (simp add: grant_current_def)
  qed
qed

section \<open>The contract of a grant authority\<close>

text \<open>
  What the runner relies on: a grant resolved under an id carries that id and is no wider than
  any grant that bounds it.
\<close>

locale grant_source =
  fixes ok :: "'s \<Rightarrow> bool"
    and lookup :: "'s \<Rightarrow> string \<Rightarrow> instant \<Rightarrow> CapabilityGrant option"
    and bounds :: "'s \<Rightarrow> string \<Rightarrow> CapabilityGrant \<Rightarrow> bool"
  assumes resolved_id: "ok s \<Longrightarrow> lookup s g t = Some gr \<Longrightarrow> cg_grant_id gr = g"
    and resolved_bounded: "ok s \<Longrightarrow> lookup s g t = Some gr \<Longrightarrow> bounds s g p \<Longrightarrow> attenuates gr p"

text \<open>The grants a grant was delegated from, itself included.\<close>

definition ancestor_grant :: "CapabilityAuthority \<Rightarrow> string \<Rightarrow> CapabilityGrant \<Rightarrow> bool" where
  "ancestor_grant st g p \<longleftrightarrow> (\<exists>a. (g, a) \<in> (child_rel st)\<^sup>* \<and> dict_get (ca_grants st) a = Some p)"

interpretation in_memory_grants: grant_source authority_inv authority_resolve ancestor_grant
proof
  fix s g t gr p
  assume inv: "authority_inv s" and found: "authority_resolve s g t = Some gr"
  note here = authority_resolve_Some(1) [OF found]
  show "cg_grant_id gr = g" using inv here by (auto simp: authority_inv_def forest_inv_def ids_agree_def)
  assume "ancestor_grant s g p"
  then obtain a where a: "(g, a) \<in> (child_rel s)\<^sup>*" "dict_get (ca_grants s) a = Some p"
    by (auto simp: ancestor_grant_def)
  from ancestors_attenuate [OF _ a(1) here] inv a(2) show "attenuates gr p"
    by (auto simp: authority_inv_def)
qed

section \<open>Properties\<close>

text \<open>A delegated grant to evaluate the properties on: \<open>g1\<close>, and \<open>grant-c\<close> derived from it.\<close>

definition base_grant :: CapabilityGrant where
  "base_grant = \<lparr>cg_grant_id = ''g1'', cg_tenant_id = ''acme'', cg_product_id = ''shop'',
     cg_tool_identities = {}, cg_capabilities = {''net'', ''fs''}, cg_principal_id = None,
     cg_issued_at = 0, cg_expires_at = 1000\<rparr>"

definition bot_path :: ScopePath where
  "bot_path = (product_path (Some ''acme'') (Some ''shop''))
     \<lparr>sp_kind := AGENT, sp_agent_id := Some ''bot'', sp_session_id := Some ''s1''\<rparr>"

definition delegated_authority :: CapabilityAuthority where
  "delegated_authority =
     (case authority_issue_child (store_grant base_grant None empty_authority) ''g1'' bot_path {} {''net''} ''alice'' 500 2 ''c'' of
        Inr (st, _) \<Rightarrow> st | Inl _ \<Rightarrow> empty_authority)"

lemma delegated_reachable: "authority_reachable delegated_authority"
proof -
  have "authority_register empty_authority base_grant = Inr (store_grant base_grant None empty_authority)"
    by (simp add: authority_register_def empty_authority_def)
  then have "authority_reachable (store_grant base_grant None empty_authority)"
    by (blast intro: authority_reachable.intros authority_step.step_register)
  then show ?thesis
    by (auto simp: delegated_authority_def intro: authority_reachable.intros step_issue_child split: sum.splits)
qed

lemma delegated_resolves: "authority_resolve delegated_authority ''grant-c'' 5 \<noteq> None"
  by code_simp

lemma delegated_parent: "dict_get (ca_grant_parents delegated_authority) ''grant-c'' = Some ''g1''"
  by code_simp

text \<open>
  C11. A delegated grant that resolves is derived from grants that are all stored, unexpired and
  owned by the activation that now owns their product, and it exceeds none of them: tenant and
  product are theirs, tools, capabilities and lifetime are included in theirs, and a grant bound
  to a principal passes on to that principal only.
\<close>

theorem delegated_grant_attenuated:
  assumes "authority_reachable st" and "authority_resolve st g now = Some gr"
    and "dict_get (ca_grant_parents st) g = Some p" and "(g, a) \<in> (child_rel st)\<^sup>*"
  shows "grant_current st now a \<and> (\<exists>ga. dict_get (ca_grants st) a = Some ga \<and> attenuates gr ga)"
proof -
  have inv: "forest_inv st {}" using authority_reachable_inv [OF assms(1)] by (simp add: authority_inv_def)
  note found = authority_resolve_Some [OF assms(2)]
  have "grant_current st now a"
    using found(3) [OF assms(3)] assms(4) unfolding grant_live_locked_def by (rule live_chain_sound)
  with ancestors_attenuate [OF inv assms(4) found(1)] show ?thesis by blast
qed

theorem delegated_grant_attenuated_witness:
  "grant_current delegated_authority 5 ''g1'' \<and>
   (\<exists>gr ga. authority_resolve delegated_authority ''grant-c'' 5 = Some gr \<and>
      dict_get (ca_grants delegated_authority) ''g1'' = Some ga \<and> attenuates gr ga)"
proof -
  obtain gr where gr: "authority_resolve delegated_authority ''grant-c'' 5 = Some gr"
    using delegated_resolves by blast
  have "(''grant-c'', ''g1'') \<in> (child_rel delegated_authority)\<^sup>*"
    using delegated_parent by (auto simp: child_rel_def)
  from delegated_grant_attenuated [OF delegated_reachable gr delegated_parent this] gr show ?thesis by blast
qed

text \<open>
  C13. Revoking a grant removes it and every grant derived from it, directly or through others,
  and no other grant; the bookkeeping stays consistent.
\<close>

theorem revoke_exactly_descendants:
  assumes "authority_reachable st" and "authority_revoke st g = (True, st')"
  shows "(\<forall>c. dict_get (ca_grants st') c = (if c \<in> descendants st g then None else dict_get (ca_grants st) c)) \<and>
     authority_reachable st' \<and> authority_inv st'"
proof -
  have inv: "forest_inv st {}" using authority_reachable_inv [OF assms(1)] by (simp add: authority_inv_def)
  have st': "st' = revoke_subtree st [g]" using assms(2) by (auto simp: authority_revoke_def split: if_splits)
  have "authority_reachable st'" using assms by (blast intro: authority_reachable.intros step_revoke)
  with revoke_result(1) [OF inv] st' authority_reachable_inv show ?thesis by blast
qed

theorem revoke_exactly_descendants_witness:
  "dict_get (ca_grants (snd (authority_revoke delegated_authority ''g1''))) ''grant-c'' = None"
proof -
  have "fst (authority_revoke delegated_authority ''g1'')" by code_simp
  then obtain st' where st': "authority_revoke delegated_authority ''g1'' = (True, st')" by (metis prod.collapse)
  have "''grant-c'' \<in> descendants delegated_authority ''g1''"
    using delegated_parent by (auto simp: descendants_def child_rel_def)
  with revoke_exactly_descendants [OF delegated_reachable st'] st' show ?thesis by simp
qed

text \<open>
  Releasing an activation takes back exactly the grants issued under it and its claim on its
  products; grants and claims of other activations stay.
\<close>

theorem release_exactly_owned:
  assumes "authority_reachable st"
  shows "dict_get (ca_grants (authority_release_activation st tok)) g =
           (if dict_get (ca_grant_owners st) g = Some (Some tok) then None else dict_get (ca_grants st) g) \<and>
         dict_get (ca_active_owners (authority_release_activation st tok)) k =
           (if dict_get (ca_active_owners st) k = Some tok then None else dict_get (ca_active_owners st) k)"
  using release_result(2,3) [OF authority_reachable_inv [OF assms]] by blast

theorem release_exactly_owned_witness:
  "dict_get (ca_grants (authority_release_activation delegated_authority ''tok'')) ''g1'' =
     dict_get (ca_grants delegated_authority) ''g1''"
proof -
  have "dict_get (ca_grant_owners delegated_authority) ''g1'' = Some None" by code_simp
  with release_exactly_owned [OF delegated_reachable, of "''tok''" "''g1''" "(''acme'', ''shop'')"] show ?thesis by simp
qed

lemma child_rel_acyclic:
  assumes "forest_inv st {}"
  shows "acyclic (child_rel st)"
proof -
  obtain rank :: "string \<Rightarrow> nat" where "\<forall>c p. dict_get (ca_grant_parents st) c = Some p \<longrightarrow> rank p < rank c"
    using assms by (auto simp: forest_inv_def acyclic_parents_def)
  then have "child_rel st \<subseteq> (measure rank)\<inverse>" by (auto simp: child_rel_def)
  then show ?thesis by (rule acyclic_subset [rotated]) (simp add: wf_acyclic)
qed

text \<open>
  C21. The walk over the ancestors of a grant ends: in every reachable state one step more than
  there are stored grants is enough, because no grant is its own ancestor.
\<close>

theorem ancestor_walk_terminates:
  assumes "authority_reachable st"
  shows "live_chain (Suc (length (ca_grants st))) st g now \<noteq> None \<and> acyclic (child_rel st)"
proof -
  have inv: "forest_inv st {}" using authority_reachable_inv [OF assms] by (simp add: authority_inv_def)
  then have "acyclic (child_rel st)" by (rule child_rel_acyclic)
  with live_chain_enough [OF inv] show ?thesis by blast
qed

theorem ancestor_walk_terminates_witness:
  "live_chain (Suc (length (ca_grants delegated_authority))) delegated_authority (Some ''grant-c'') 5 \<noteq> None"
  using ancestor_walk_terminates [OF delegated_reachable] by blast

end
