(* ===== verification/Approvals.thy ===== *)
theory Approvals
  imports Execution_Models
begin

text \<open>
  Approvals of single tool calls: the token store of \<^verbatim>\<open>src/suiteharness/execution/in_memory.py\<close>
  (\<open>InMemoryApprovalStore\<close>) and the interactive broker of
  \<^verbatim>\<open>src/suiteharness/channels/approvals.py\<close> (\<open>InteractiveApprovalCoordinator\<close>). Tokens are kept by
  digest only; \<open>sha\<close> is \<open>sha256(...).hexdigest()\<close>, the clock and the random tokens are
  arguments.
\<close>

section \<open>The approval store\<close>

type_synonym ApprovalStore = "(string, ApprovalBinding) dict"

text \<open>The retry loop of \<open>issue\<close>: the first offered token whose digest is not pending.\<close>

fun fresh_token :: "(string \<Rightarrow> string) \<Rightarrow> ApprovalStore \<Rightarrow> string list \<Rightarrow> string option" where
  "fresh_token sha st [] = None"
| "fresh_token sha st (t # ts) =
     (if dict_get st (sha t) = None then Some t else fresh_token sha st ts)"

text \<open>
  \<open>issue\<close>; \<open>None\<close> when the loop does not find a fresh token among those the generator yields.
\<close>

definition store_issue ::
    "(string \<Rightarrow> string) \<Rightarrow> ApprovalStore \<Rightarrow> ApprovalBinding \<Rightarrow> datetime option \<Rightarrow> instant \<Rightarrow> string list \<Rightarrow>
     (ApprovalCredential result \<times> ApprovalStore) option" where
  "store_issue sha st binding at now tokens =
     (case (case at of None \<Rightarrow> Return now | Some t \<Rightarrow> utc t ''now'') of
        Inl e \<Rightarrow> Some (Raise e, st)
      | Inr current \<Rightarrow>
          if current < ab_issued_at binding
          then Some (Raise (ValueError ''cannot issue an approval with a future issued_at''), st)
          else if ab_expires_at binding \<le> current
          then Some (Raise (ValueError ''cannot issue an already-expired approval''), st)
          else (case fresh_token sha st tokens of
                  None \<Rightarrow> None
                | Some token \<Rightarrow>
                    Some (ApprovalCredential_validate \<lparr>ac_token = token, ac_binding = binding\<rparr>,
                          dict_set (sha token) binding st)))"

definition consume_if_matches ::
    "(string \<Rightarrow> string) \<Rightarrow> ApprovalStore \<Rightarrow> string \<Rightarrow> ApprovalTarget \<Rightarrow> instant \<Rightarrow>
     ApprovalBinding option \<times> ApprovalStore" where
  "consume_if_matches sha st token expected now =
     (case dict_get st (sha token) of
        None \<Rightarrow> (None, st)
      | Some binding \<Rightarrow>
          if ab_expires_at binding \<le> now then (None, dict_pop (sha token) st)
          else if ab_target binding \<noteq> expected then (None, st)
          else (Some binding, dict_pop (sha token) st))"

definition store_revoke :: "(string \<Rightarrow> string) \<Rightarrow> ApprovalStore \<Rightarrow> string \<Rightarrow> bool \<times> ApprovalStore" where
  "store_revoke sha st token = (dict_get st (sha token) \<noteq> None, dict_pop (sha token) st)"

section \<open>The interactive broker\<close>

record ApprovalChallenge =
  ch_challenge_id :: string
  ch_principal_id :: string
  ch_run_id :: string
  ch_call_id :: string
  ch_tool_name :: string
  ch_tool_identity :: string
  ch_arguments :: json
  ch_expires_at :: instant

datatype future = Pending | Done "string option" | FutureCancelled

record PendingApproval =
  pa_challenge :: ApprovalChallenge
  pa_target :: ApprovalTarget
  pa_future :: future

record Coordinator =
  co_timeout :: duration
  co_pending :: "(string, PendingApproval) dict"

definition coordinator_init :: "duration \<Rightarrow> Coordinator result" where
  "coordinator_init timeout =
     (if timeout \<le> 0 \<or> 600 * second < timeout
      then Raise (ValueError ''approval timeout_seconds must be in (0, 600]'')
      else Return \<lparr>co_timeout = timeout, co_pending = []\<rparr>)"

text \<open>\<open>request_approval\<close> up to its first await outside the lock: the challenge becomes pending.\<close>

definition request_begin ::
    "(string \<Rightarrow> string) \<Rightarrow> Coordinator \<Rightarrow> RunRequest \<Rightarrow> ApprovalTarget \<Rightarrow> ToolSpec \<Rightarrow> json \<Rightarrow>
     instant \<Rightarrow> string \<Rightarrow> (ApprovalChallenge \<times> Coordinator) result" where
  "request_begin sha co request target spec arguments now token =
     result_bind (canonical_id sha (at_tool_identity target)) (\<lambda>cid.
       let challenge = \<lparr>ch_challenge_id = token,
                        ch_principal_id = rs_principal_id (rq_scope request),
                        ch_run_id = rq_run_id request, ch_call_id = at_call_id target,
                        ch_tool_name = ts_name spec, ch_tool_identity = cid,
                        ch_arguments = arguments, ch_expires_at = now + co_timeout co\<rparr>
       in Return (challenge, co\<lparr>co_pending :=
            dict_set token \<lparr>pa_challenge = challenge, pa_target = target, pa_future = Pending\<rparr>
              (co_pending co)\<rparr>))"

text \<open>
  What ends the wait: the future's value, the timeout, cancellation of the caller, or an
  exception of the publisher. \<open>finally\<close> removes the challenge in every case.
\<close>

datatype 'x wait_outcome = Decided "string option" | TimeoutExpired | CallerCancelled | PublishRaised 'x

datatype 'x approval_outcome = Approved ApprovalBinding | NotApproved | WasCancelled | Escaped 'x

definition request_end ::
    "Coordinator \<Rightarrow> string \<Rightarrow> ApprovalTarget \<Rightarrow> 'x wait_outcome \<Rightarrow> instant \<Rightarrow>
     'x approval_outcome result \<times> Coordinator" where
  "request_end co challenge_id target out decided_at =
     (case out of
        Decided (Some approver) \<Rightarrow>
          result_bind (ApprovalBinding_validate
            \<lparr>ab_target = target, ab_approved_by = approver, ab_issued_at = decided_at,
             ab_expires_at = decided_at + 30 * second\<rparr>) (\<lambda>b. Return (Approved b))
      | Decided None \<Rightarrow> Return NotApproved
      | TimeoutExpired \<Rightarrow> Return NotApproved
      | CallerCancelled \<Rightarrow> Return WasCancelled
      | PublishRaised x \<Rightarrow> Return (Escaped x),
      co\<lparr>co_pending := dict_pop challenge_id (co_pending co)\<rparr>)"

definition coordinator_decide ::
    "Coordinator \<Rightarrow> string \<Rightarrow> string \<Rightarrow> bool \<Rightarrow> string \<Rightarrow> bool \<times> Coordinator" where
  "coordinator_decide co challenge_id principal_id approved approved_by =
     (case dict_get (co_pending co) challenge_id of
        None \<Rightarrow> (False, co)
      | Some p \<Rightarrow>
          if pa_future p \<noteq> Pending then (False, co)
          else if ch_principal_id (pa_challenge p) \<noteq> principal_id then (False, co)
          else (True, co\<lparr>co_pending := dict_set challenge_id
                  (p\<lparr>pa_future := Done (if approved then Some approved_by else None)\<rparr>)
                  (co_pending co)\<rparr>))"

text \<open>\<open>close\<close>: the futures of what was pending, and the empty coordinator.\<close>

definition coordinator_close :: "Coordinator \<Rightarrow> PendingApproval list \<times> Coordinator" where
  "coordinator_close co =
     (map (\<lambda>p. if pa_future p = Pending then p\<lparr>pa_future := Done None\<rparr> else p)
        (dict_values (co_pending co)),
      co\<lparr>co_pending := []\<rparr>)"

section \<open>Facts about the store\<close>

lemma consume_Some:
  "consume_if_matches sha st token t now = (Some b, st') \<longleftrightarrow>
     dict_get st (sha token) = Some b \<and> now < ab_expires_at b \<and> ab_target b = t \<and>
     st' = dict_pop (sha token) st"
  by (auto simp: consume_if_matches_def split: option.splits if_splits)

lemma consume_removes:
  "consume_if_matches sha st token t now = (Some b, st') \<Longrightarrow> dict_get st' (sha token) = None"
  by (simp add: consume_Some)

lemma absent_stays_absent:
  "dict_get st d = None \<Longrightarrow> dict_get (snd (consume_if_matches sha st token t now)) d = None"
  "dict_get st d = None \<Longrightarrow> dict_get (snd (store_revoke sha st token)) d = None"
  by (auto simp: consume_if_matches_def store_revoke_def split: option.splits)

lemma fresh_token_Some: "fresh_token sha st ts = Some t \<Longrightarrow> t \<in> set ts \<and> dict_get st (sha t) = None"
  by (induction ts) (auto split: if_splits)

lemma fresh_token_exists:
  "\<exists>t \<in> set ts. dict_get st (sha t) = None \<Longrightarrow> \<exists>t. fresh_token sha st ts = Some t"
  by (induction ts) auto

text \<open>The life of a store: issues with fresh digests, consumptions and revocations.\<close>

datatype store_op =
    IssueOp ApprovalBinding "datetime option" instant "string list"
  | ConsumeOp string ApprovalTarget instant
  | RevokeOp string

fun store_step :: "(string \<Rightarrow> string) \<Rightarrow> ApprovalStore \<Rightarrow> store_op \<Rightarrow> ApprovalBinding option \<times> ApprovalStore" where
  "store_step sha st (IssueOp b at now ts) =
     (None, case store_issue sha st b at now ts of None \<Rightarrow> st | Some (_, st') \<Rightarrow> st')"
| "store_step sha st (ConsumeOp token t now) = consume_if_matches sha st token t now"
| "store_step sha st (RevokeOp token) = (None, snd (store_revoke sha st token))"

fun store_run :: "(string \<Rightarrow> string) \<Rightarrow> ApprovalStore \<Rightarrow> store_op list \<Rightarrow> ApprovalBinding option list" where
  "store_run sha st [] = []"
| "store_run sha st (op # ops) =
     (case store_step sha st op of (r, st') \<Rightarrow> r # store_run sha st' ops)"

definition issues_token :: "(string \<Rightarrow> string) \<Rightarrow> string \<Rightarrow> store_op \<Rightarrow> bool" where
  "issues_token sha token op \<longleftrightarrow>
     (case op of IssueOp b at now ts \<Rightarrow> (\<exists>t \<in> set ts. sha t = sha token) | _ \<Rightarrow> False)"

lemma store_step_absent:
  assumes "dict_get st (sha token) = None" and "\<not> issues_token sha token op"
  shows "dict_get (snd (store_step sha st op)) (sha token) = None"
proof (cases op)
  case (IssueOp b at now ts)
  have "sha t \<noteq> sha token" if "fresh_token sha st ts = Some t" for t
    using fresh_token_Some [OF that] assms(2) IssueOp by (auto simp: issues_token_def)
  with assms(1) IssueOp show ?thesis
    by (auto simp: store_issue_def split: option.splits sum.splits if_splits)
qed (use assms(1) absent_stays_absent in simp_all)

text \<open>Once the digest is gone, no later presentation of the token yields a binding.\<close>

lemma consumed_never_again:
  assumes "dict_get st (sha token) = None"
    and "\<forall>op \<in> set ops. \<not> issues_token sha token op"
    and "i < length ops" and "ops ! i = ConsumeOp token t now"
  shows "store_run sha st ops ! i = None"
  using assms
proof (induction ops arbitrary: st i)
  case (Cons op ops)
  obtain r st' where step: "store_step sha st op = (r, st')" by fastforce
  have absent: "dict_get st' (sha token) = None"
    using store_step_absent [of st sha token op] Cons.prems step by simp
  show ?case
  proof (cases i)
    case 0
    with Cons.prems step show ?thesis by (simp add: consume_if_matches_def)
  next
    case (Suc j)
    with Cons.IH [OF absent] Cons.prems step show ?thesis by simp
  qed
qed simp

section \<open>Facts about the broker\<close>

lemma decide_True:
  "coordinator_decide co cid pr ok by' = (True, co') \<longleftrightarrow>
     (\<exists>p. dict_get (co_pending co) cid = Some p \<and> pa_future p = Pending \<and>
        ch_principal_id (pa_challenge p) = pr \<and>
        co' = co\<lparr>co_pending := dict_set cid
                (p\<lparr>pa_future := Done (if ok then Some by' else None)\<rparr>) (co_pending co)\<rparr>)"
  by (auto simp: coordinator_decide_def split: option.splits if_splits)

lemma decide_False: "coordinator_decide co cid pr ok by' = (False, co') \<Longrightarrow> co' = co"
  by (auto simp: coordinator_decide_def split: option.splits if_splits)

lemma decide_once:
  assumes "coordinator_decide co cid pr ok by' = (True, co')"
  shows "coordinator_decide co' cid pr2 ok2 by2 = (False, co')"
  using assms by (auto simp: coordinator_decide_def split: option.splits if_splits)

section \<open>The contract of an approval store\<close>

text \<open>The answers to a sequence of presentations of tokens.\<close>

fun present ::
    "('s \<Rightarrow> string \<Rightarrow> ApprovalTarget \<Rightarrow> instant \<Rightarrow> ApprovalBinding option \<times> 's) \<Rightarrow> 's \<Rightarrow>
     (string \<times> ApprovalTarget \<times> instant) list \<Rightarrow> ApprovalBinding option list" where
  "present consume s [] = []"
| "present consume s ((token, target, now) # ps) =
     (case consume s token target now of (r, s') \<Rightarrow> r # present consume s' ps)"

text \<open>
  What the runner relies on: a consumed approval is for the expected call and has not expired,
  and its token is spent; a spent token yields nothing, and presenting tokens does not make
  another one usable again.
\<close>

locale approval_source =
  fixes consume :: "'s \<Rightarrow> string \<Rightarrow> ApprovalTarget \<Rightarrow> instant \<Rightarrow> ApprovalBinding option \<times> 's"
    and spent :: "'s \<Rightarrow> string \<Rightarrow> bool"
  assumes consumed_matches: "consume s token target now = (Some b, s') \<Longrightarrow>
      ab_target b = target \<and> now < ab_expires_at b"
    and consumed_spent: "consume s token target now = (Some b, s') \<Longrightarrow> spent s' token"
    and spent_refused: "spent s token \<Longrightarrow> fst (consume s token target now) = None"
    and spent_stays: "spent s token \<Longrightarrow> spent (snd (consume s token' target now)) token"
begin

lemma spent_present:
  assumes "spent s token" and "i < length ps" and "fst (ps ! i) = token"
  shows "present consume s ps ! i = None"
  using assms
proof (induction ps arbitrary: s i)
  case (Cons p ps)
  obtain token' target now where p: "p = (token', target, now)" by (cases p)
  obtain r s' where step: "consume s token' target now = (r, s')" by fastforce
  have "spent s' token" using spent_stays [OF Cons.prems(1), of token' target now] step by simp
  with Cons step p show ?case
    using spent_refused [OF Cons.prems(1), of target now] by (cases i) auto
qed simp

lemma at_most_once:
  assumes "i < j" and "j < length ps" and "fst (ps ! i) = fst (ps ! j)" and "present consume s ps ! i \<noteq> None"
  shows "present consume s ps ! j = None"
  using assms
proof (induction ps arbitrary: s i j)
  case (Cons p ps)
  obtain token target now where p: "p = (token, target, now)" by (cases p)
  obtain r s' where step: "consume s token target now = (r, s')" by fastforce
  obtain j' where j': "j = Suc j'" using Cons.prems(1) by (cases j) auto
  show ?case
  proof (cases i)
    case 0
    with Cons.prems p step obtain b where "r = Some b" by auto
    with step have "spent s' token" using consumed_spent by simp
    from spent_present [OF this, of j' ps] Cons.prems j' 0 p step show ?thesis by simp
  next
    case (Suc i')
    with Cons.prems j' p step Cons.IH [of i' j' s'] show ?thesis by simp
  qed
qed simp

end

definition token_spent :: "(string \<Rightarrow> string) \<Rightarrow> ApprovalStore \<Rightarrow> string \<Rightarrow> bool" where
  "token_spent sha st token \<longleftrightarrow> dict_get st (sha token) = None"

interpretation in_memory_approvals: approval_source "consume_if_matches sha" "token_spent sha" for sha
  by unfold_locales
     (auto simp: consume_if_matches_def token_spent_def split: option.splits if_splits)

section \<open>Properties\<close>

text \<open>An approval and a pending challenge to evaluate the properties on.\<close>

definition demo_target :: "string \<Rightarrow> ApprovalTarget" where
  "demo_target call = \<lparr>at_scope = product_path (Some ''acme'') (Some ''shop''), at_principal_id = ''alice'', at_run_id = ''run1'',
     at_call_id = call, at_tool_identity = \<lparr>ti_namespace = ''product'', ti_name = ''drop'',
       ti_origin = ''scope:product:acme:shop'', ti_version = ''1''\<rparr>, at_arguments_digest = replicate 64 (CHR ''0'')\<rparr>"

definition demo_binding :: ApprovalBinding where
  "demo_binding = \<lparr>ab_target = demo_target ''c1'', ab_approved_by = ''bob'', ab_issued_at = 0, ab_expires_at = 30\<rparr>"

definition demo_coordinator :: Coordinator where
  "demo_coordinator = \<lparr>co_timeout = 30 * second, co_pending = [(''x'', \<lparr>pa_challenge =
     \<lparr>ch_challenge_id = ''x'', ch_principal_id = ''alice'', ch_run_id = ''run1'', ch_call_id = ''c1'',
      ch_tool_name = ''drop'', ch_tool_identity = ''i'', ch_arguments = JObj [], ch_expires_at = 30\<rparr>,
     pa_target = demo_target ''c1'', pa_future = Pending\<rparr>)]\<rparr>"

text \<open>
  C12. An approval credential works at most once: of any sequence of presentations of tokens, with
  whatever targets and at whatever times, at most one presentation of a token is accepted.
\<close>

theorem approval_single_use:
  assumes "i < j" and "j < length ps" and "fst (ps ! i) = fst (ps ! j)"
    and "present (consume_if_matches sha) st ps ! i \<noteq> None"
  shows "present (consume_if_matches sha) st ps ! j = None"
  using assms by (rule in_memory_approvals.at_most_once)

theorem approval_single_use_witness:
  "present (consume_if_matches id) [(''t'', demo_binding)]
     [(''t'', demo_target ''c1'', 5), (''t'', demo_target ''c1'', 6)] ! 1 = None"
  by (rule approval_single_use [where i = 0])
     (simp_all add: consume_if_matches_def demo_binding_def)

text \<open>
  C18. Presenting a credential for another call, before it has expired, neither yields an approval
  nor uses the credential up: the call it was issued for can still present it.
\<close>

theorem approval_bound_to_call:
  assumes "dict_get st (sha token) = Some b" and "now < ab_expires_at b" and "ab_target b \<noteq> other"
    and "now' < ab_expires_at b"
  shows "present (consume_if_matches sha) st [(token, other, now), (token, ab_target b, now')] = [None, Some b]"
  using assms by (simp add: consume_if_matches_def)

theorem approval_bound_to_call_witness:
  "present (consume_if_matches id) [(''t'', demo_binding)]
     [(''t'', demo_target ''c2'', 5), (''t'', demo_target ''c1'', 6)] = [None, Some demo_binding]"
  using approval_bound_to_call [of "[(''t'', demo_binding)]" id "''t''" demo_binding 5 "demo_target ''c2''" 6]
  by (simp add: demo_binding_def demo_target_def)

text \<open>
  An interactive challenge is decided at most once, by the principal whose run waits for it,
  and an approval it leads to is bound to the target of that challenge.
\<close>

theorem challenge_decided_once:
  assumes "coordinator_decide co cid pr ok approver = (True, co')"
  shows "(\<exists>p. dict_get (co_pending co) cid = Some p \<and> ch_principal_id (pa_challenge p) = pr \<and> pa_future p = Pending) \<and>
     (\<forall>pr2 ok2 by2. coordinator_decide co' cid pr2 ok2 by2 = (False, co')) \<and>
     (\<forall>other. other \<noteq> cid \<longrightarrow> dict_get (co_pending co') other = dict_get (co_pending co) other)"
  using assms decide_once [OF assms] by (auto simp: decide_True)

theorem challenge_decided_once_witness:
  "\<forall>pr2 ok2 by2.
     coordinator_decide (snd (coordinator_decide demo_coordinator ''x'' ''alice'' True ''bob'')) ''x'' pr2 ok2 by2 =
       (False, snd (coordinator_decide demo_coordinator ''x'' ''alice'' True ''bob''))"
proof -
  have "coordinator_decide demo_coordinator ''x'' ''alice'' True ''bob'' =
      (True, snd (coordinator_decide demo_coordinator ''x'' ''alice'' True ''bob''))"
    by (simp add: coordinator_decide_def demo_coordinator_def)
  from challenge_decided_once [OF this] show ?thesis by blast
qed

end
