(* ===== verification/Channel_Policy.thy ===== *)
theory Channel_Policy
  imports Execution_Models
begin

text \<open>
  \<^verbatim>\<open>src/suiteharness/channels/policy.py\<close>: the authorization policy of the company channels. An
  argument of a tool call is a \<open>json\<close> value; \<open>JNull\<close> is Python's \<open>None\<close>.
\<close>

section \<open>Relative paths\<close>

definition DRIVE :: "string \<Rightarrow> bool" where
  [guard_defs]: "DRIVE s \<longleftrightarrow>
     (case s of a # b # _ \<Rightarrow> (is_lower a \<or> is_upper a) \<and> b = CHR '':'' | _ \<Rightarrow> False)"

text \<open>
  \<open>PurePosixPath(s).parts\<close>: the root, if any (two leading slashes are kept as they are, three
  or more count as one), then the components other than the empty one and \<open>.\<close>.
\<close>

definition posix_parts :: "string \<Rightarrow> string list" where
  "posix_parts s =
     (let k = length (takeWhile (\<lambda>c. c = CHR ''/'') s)
      in if k = 0 then [] else if k = 2 then [''//''] else [''/''])
     @ filter (\<lambda>p. p \<noteq> [] \<and> p \<noteq> ''.'') (py_split (CHR ''/'') s)"

definition portable :: "string \<Rightarrow> string" where
  "portable s = map (\<lambda>c. if c = CHR 0x5C then CHR ''/'' else c) s"

definition path_parts :: "json \<Rightarrow> bool \<Rightarrow> string list option" where
  "path_parts v allow_root =
     (case v of
        JStr s \<Rightarrow>
          if s = [] \<or> CHR 0x00 \<in> set s then None
          else let p = portable s in
            if p = ''.'' then (if allow_root then Some [] else None)
            else if take 1 p = ''/'' \<or> DRIVE p then None
            else let raw = py_split (CHR ''/'') p in
              if \<exists>c \<in> set raw. c \<in> {[], ''.'', ''..''} then None
              else if raw = posix_parts p then Some (posix_parts p) else None
      | _ \<Rightarrow> None)"

section \<open>Rules and the policy\<close>

record WorkspaceWriteRule =
  wr_space :: string
  wr_path :: string

definition WorkspaceWriteRule_post_init :: "WorkspaceWriteRule \<Rightarrow> WorkspaceWriteRule result" where
  "WorkspaceWriteRule_post_init r =
     (if wr_space r \<notin> {''product'', ''shared''}
      then Raise (ValueError (''workspace rule space must be '' @ CHR 0x27 # ''product'' @ CHR 0x27 #
                          '' or '' @ CHR 0x27 # ''shared'' @ [CHR 0x27]))
      else if path_parts (JStr (wr_path r)) True = None
      then Raise (ValueError ''workspace rule path must be normalized and relative'')
      else Return r)"

definition permits :: "WorkspaceWriteRule \<Rightarrow> json \<Rightarrow> json \<Rightarrow> bool" where
  "permits r space path =
     (let space' = (if space = JNull then JStr ''product'' else space) in
      if space' \<noteq> JStr (wr_space r) then False
      else (case (path_parts (JStr (wr_path r)) True, path_parts path False) of
              (Some configured, Some requested) \<Rightarrow>
                configured = [] \<or> take (length configured) requested = configured
            | _ \<Rightarrow> False))"

definition FEISHU_WRITABLE_TOOLS :: "string set" where
  "FEISHU_WRITABLE_TOOLS = {''suiteharness.fs.write'', ''suiteharness.fs.edit''}"

definition get_or :: "json \<Rightarrow> string \<Rightarrow> json \<Rightarrow> json" where
  "get_or args k d = (case json_get args k of None \<Rightarrow> d | Some v \<Rightarrow> v)"

definition is_builtin_file_write :: "ToolIdentity \<Rightarrow> ToolSpec \<Rightarrow> bool" where
  "is_builtin_file_write i spec \<longleftrightarrow> ti_namespace i = ''suiteharness'' \<and>
     ti_origin i = ''suiteharness.builtin.fs'' \<and> ti_name i \<in> FEISHU_WRITABLE_TOOLS \<and>
     ts_name spec = ti_name i"

definition channel_evaluate ::
    "WorkspaceWriteRule list \<Rightarrow> RunRequest \<Rightarrow> ToolIdentity \<Rightarrow> ToolSpec \<Rightarrow> json \<Rightarrow> ToolAuthorization" where
  "channel_evaluate roots request i spec args =
     (let channel = rs_channel_id (rq_scope request) in
      if channel = ''web''
      then (if WRITE \<in> ts_effects spec \<or> DESTRUCTIVE \<in> ts_effects spec
            then REQUIRE_APPROVAL else ALLOW)
      else if channel \<noteq> ''feishu'' then DEFAULT
      else if DESTRUCTIVE \<in> ts_effects spec then DENY
      else if is_read spec then ALLOW
      else if \<not> is_builtin_file_write i spec then DENY
      else if \<exists>rule \<in> set roots. permits rule (get_or args ''space'' (JStr ''product''))
                                       (get_or args ''path'' JNull)
      then ALLOW else DENY)"

section \<open>Where a permitted path points\<close>

text \<open>
  The lexical meaning of a relative path: \<open>.\<close> and empty components stay, \<open>..\<close> goes up, and
  going above the start is an escape.
\<close>

fun walk :: "string list \<Rightarrow> string list \<Rightarrow> string list option" where
  "walk at [] = Some (rev at)"
| "walk at (c # cs) =
     (if c = [] \<or> c = ''.'' then walk at cs
      else if c = ''..'' then (case at of [] \<Rightarrow> None | _ # up \<Rightarrow> walk up cs)
      else walk (c # at) cs)"

definition normal_component :: "string \<Rightarrow> bool" where
  "normal_component c \<longleftrightarrow> c \<notin> {[], ''.'', ''..''} \<and> CHR ''/'' \<notin> set c \<and> CHR 0x5C \<notin> set c \<and> CHR 0x00 \<notin> set c"

lemma walk_normal: "\<forall>c \<in> set cs. normal_component c \<Longrightarrow> walk at cs = Some (rev at @ cs)"
  by (induction cs arbitrary: at) (auto simp: normal_component_def)

lemma set_py_split: "p \<in> set (py_split sep s) \<Longrightarrow> set p \<subseteq> set s"
proof (induction s arbitrary: p)
  case (Cons c cs)
  then show ?case by (cases "py_split sep cs") (fastforce split: if_splits)+
qed simp

lemma portable_chars: "CHR 0x5C \<notin> set (portable s)" "CHR 0x00 \<in> set (portable s) \<longleftrightarrow> CHR 0x00 \<in> set s"
  by (auto simp: portable_def split: if_splits)

lemma path_parts_Some:
  assumes "path_parts v allow = Some ps" and "ps \<noteq> []"
  shows "\<exists>s. v = JStr s \<and> ps = py_split (CHR ''/'') (portable s)" and "\<forall>c \<in> set ps. normal_component c"
proof -
  obtain s where s: "v = JStr s" "CHR 0x00 \<notin> set s" "ps = py_split (CHR ''/'') (portable s)"
    and good: "\<forall>c \<in> set ps. c \<notin> {[], ''.'', ''..''}"
    using assms by (cases v) (auto simp: path_parts_def Let_def split: if_splits)
  then show "\<exists>s. v = JStr s \<and> ps = py_split (CHR ''/'') (portable s)" by blast
  show "\<forall>c \<in> set ps. normal_component c"
  proof
    fix c assume c: "c \<in> set ps"
    have "CHR ''/'' \<notin> set c" using c s(3) py_split_no_sep by simp
    moreover have "set c \<subseteq> set (portable s)" using c s(3) set_py_split by simp
    ultimately show "normal_component c"
      using portable_chars good c s(2) unfolding normal_component_def by blast
  qed
qed

lemma path_parts_no_root:
  assumes "path_parts v False = Some ps"
  shows "ps \<noteq> []"
proof (cases v)
  case (JStr s)
  have "ps = py_split (CHR ''/'') (portable s)"
    using assms unfolding JStr path_parts_def Let_def json.case
    by (simp only: split: if_splits) simp_all
  then show ?thesis by simp
qed (use assms in \<open>simp_all add: path_parts_def\<close>)

text \<open>The directory a rule configures, as its components.\<close>

definition root_components :: "string \<Rightarrow> string list" where
  "root_components s = (if portable s = ''.'' then [] else py_split (CHR ''/'') (portable s))"

lemma path_parts_root: "path_parts (JStr s) True = Some ps \<Longrightarrow> ps = root_components s"
  unfolding path_parts_def Let_def json.case root_components_def
  by (simp only: split: if_splits) simp_all

lemma permits_path:
  assumes "permits r space path"
  obtains s configured requested where "path = JStr s" and "requested = py_split (CHR ''/'') (portable s)"
    and "path_parts (JStr (wr_path r)) True = Some configured"
    and "\<forall>c \<in> set requested. normal_component c"
    and "take (length configured) requested = configured"
proof -
  obtain configured requested where c: "path_parts (JStr (wr_path r)) True = Some configured"
    and q: "path_parts path False = Some requested"
    and pre: "take (length configured) requested = configured"
    using assms by (auto simp: permits_def Let_def split: if_splits option.splits)
  from path_parts_Some [OF q path_parts_no_root [OF q]] c pre that show thesis by blast
qed

lemma permits_space:
  "permits r space path \<Longrightarrow> space = JStr (wr_space r) \<or> space = JNull \<and> wr_space r = ''product''"
  by (auto simp: permits_def Let_def split: if_splits)

lemmas evaluate_defs = channel_evaluate_def Let_def

lemma feishu_allowed_write:
  assumes "channel_evaluate roots rq i spec args = ALLOW"
    and "rs_channel_id (rq_scope rq) = ''feishu''" and "\<not> is_read spec"
  shows "is_builtin_file_write i spec" and "DESTRUCTIVE \<notin> ts_effects spec"
    and "\<exists>rule \<in> set roots. permits rule (get_or args ''space'' (JStr ''product'')) (get_or args ''path'' JNull)"
  using assms by (auto simp: evaluate_defs split: if_splits)

section \<open>Properties\<close>

definition feishu_request :: RunRequest where
  "feishu_request = \<lparr>rq_run_id = ''run1'',
     rq_scope = \<lparr>rs_path = product_path (Some ''acme'') (Some ''shop''), rs_principal_id = ''alice'',
       rs_channel_id = ''feishu'', rs_roles = {}, rs_purpose = ''test'', rs_request_id = ''r1'',
       rs_correlation_id = ''c1'', rs_session_owner_id = None\<rparr>,
     rq_grant_id = ''g1'', rq_input = JNull,
     rq_conversation = \<lparr>cc_messages = [], cc_truncated = False, cc_working_summary = '''',
       cc_long_term_context = '''', cc_memory_degraded = False\<rparr>,
     rq_read_only = False,
     rq_budget = \<lparr>eb_max_iterations = 2, eb_max_tool_calls = 1, eb_max_parallel_calls = 1, eb_timeout = second\<rparr>,
     rq_resume = None\<rparr>"

definition write_identity :: ToolIdentity where
  "write_identity = \<lparr>ti_namespace = ''suiteharness'', ti_name = ''suiteharness.fs.write'',
     ti_origin = ''suiteharness.builtin.fs'', ti_version = ''1''\<rparr>"

definition write_spec :: ToolSpec where
  "write_spec = \<lparr>ts_name = ''suiteharness.fs.write'', ts_description = '''', ts_effects = {WRITE},
     ts_required_capabilities = {}, ts_input_schema = JObj []\<rparr>"

definition notes_rule :: WorkspaceWriteRule where
  "notes_rule = \<lparr>wr_space = ''product'', wr_path = ''notes''\<rparr>"

text \<open>
  C17. On the Feishu channel a call that is not a read is allowed only for the two built-in file tools,
  never for a destructive tool, and only below a configured root of the workspace the call names, the product's when
  it names none: the path has no empty, \<open>.\<close> or
  \<open>..\<close> component, no backslash and no drive, so that resolving it component by component, from
  whatever directory, ends in a directory below the configured one.
\<close>

theorem feishu_write_contained:
  assumes "channel_evaluate roots rq i spec args = ALLOW"
    and "rs_channel_id (rq_scope rq) = ''feishu''" and "\<not> is_read spec"
  shows "ti_namespace i = ''suiteharness'' \<and> ti_origin i = ''suiteharness.builtin.fs'' \<and>
    ti_name i \<in> {''suiteharness.fs.write'', ''suiteharness.fs.edit''} \<and> ts_name spec = ti_name i \<and>
    DESTRUCTIVE \<notin> ts_effects spec \<and>
    (\<exists>rule path rest. rule \<in> set roots \<and> get_or args ''path'' JNull = JStr path \<and>
       (json_get args ''space'' = Some (JStr (wr_space rule)) \<or>
        json_get args ''space'' \<in> {None, Some JNull} \<and> wr_space rule = ''product'') \<and>
       (\<forall>at. walk at (py_split (CHR ''/'') (portable path)) = Some (rev at @ root_components (wr_path rule) @ rest)))"
proof -
  note facts = feishu_allowed_write [OF assms]
  then obtain rule where rule: "rule \<in> set roots"
    and ok: "permits rule (get_or args ''space'' (JStr ''product'')) (get_or args ''path'' JNull)" by blast
  from permits_space [OF ok] have space: "json_get args ''space'' = Some (JStr (wr_space rule)) \<or>
      json_get args ''space'' \<in> {None, Some JNull} \<and> wr_space rule = ''product''"
    by (auto simp: get_or_def split: option.splits)
  from ok obtain s configured requested where s: "get_or args ''path'' JNull = JStr s"
    "requested = py_split (CHR ''/'') (portable s)" "path_parts (JStr (wr_path rule)) True = Some configured"
    "\<forall>c \<in> set requested. normal_component c" "take (length configured) requested = configured"
    by (rule permits_path)
  then have "walk at requested = Some (rev at @ configured @ drop (length configured) requested)" for at
    using walk_normal [of requested at] by (metis append_take_drop_id)
  with s(1,2) rule space path_parts_root [OF s(3)]
  have "\<exists>rule path rest. rule \<in> set roots \<and> get_or args ''path'' JNull = JStr path \<and>
       (json_get args ''space'' = Some (JStr (wr_space rule)) \<or>
        json_get args ''space'' \<in> {None, Some JNull} \<and> wr_space rule = ''product'') \<and>
       (\<forall>at. walk at (py_split (CHR ''/'') (portable path)) = Some (rev at @ root_components (wr_path rule) @ rest))"
    by blast
  with facts(1,2) show ?thesis by (simp add: is_builtin_file_write_def FEISHU_WRITABLE_TOOLS_def)
qed

theorem feishu_write_contained_witness:
  "\<exists>rule path rest. rule \<in> {notes_rule} \<and>
     get_or (JObj [(''path'', JStr ''notes/a.txt'')]) ''path'' JNull = JStr path \<and> wr_space rule = ''product'' \<and>
     (\<forall>at. walk at (py_split (CHR ''/'') (portable path)) = Some (rev at @ root_components (wr_path rule) @ rest))"
proof -
  have "channel_evaluate [notes_rule] feishu_request write_identity write_spec
      (JObj [(''path'', JStr ''notes/a.txt'')]) = ALLOW" by code_simp
  from feishu_write_contained [OF this] show ?thesis
    by (simp add: feishu_request_def write_spec_def is_read_def json_get_def)
qed

text \<open>
  The decision of the channel policy on every channel: destructive calls are denied on Feishu
  and need an approval on the web, where every write does; reads are allowed on both; other
  channels are left to the execution policy.
\<close>

theorem channel_policy_decisions:
  "channel_evaluate roots rq i spec args =
     (if rs_channel_id (rq_scope rq) \<notin> {''web'', ''feishu''} then DEFAULT
      else if ts_effects spec \<inter> {WRITE, DESTRUCTIVE} \<noteq> {} \<and> rs_channel_id (rq_scope rq) = ''web'' then REQUIRE_APPROVAL
      else if DESTRUCTIVE \<in> ts_effects spec then DENY
      else if rs_channel_id (rq_scope rq) = ''web'' \<or> is_read spec then ALLOW
      else if is_builtin_file_write i spec \<and>
        (\<exists>rule \<in> set roots. permits rule (get_or args ''space'' (JStr ''product'')) (get_or args ''path'' JNull))
      then ALLOW else DENY)"
  by (auto simp: channel_evaluate_def Let_def)

end
