(* ===== verification/Run_Budget.thy ===== *)
theory Run_Budget
  imports Prelude
begin

text \<open>
  \<^verbatim>\<open>src/suiteharness/multiagent/budget.py\<close>: the quota \<open>AggregateRunBudget\<close> shared by a parent run and
  its delegated children. Every method body runs under one \<open>asyncio.Lock\<close>, so an operation is
  one atomic function of the state; the clock reading \<open>now\<close> (\<open>time.monotonic()\<close>, in
  microseconds) is an argument. \<open>take_child_slot\<close> gives the lock up while it waits: what the
  other tasks did meanwhile arrives as a list of wake-ups.
\<close>

section \<open>State and operations\<close>

record AggregateRunBudget =
  rb_max_iterations :: int
  rb_max_tool_calls :: int
  rb_max_children :: int
  rb_deadline_monotonic :: int
  rb_iterations_used :: int
  rb_tool_calls_used :: int
  rb_child_calls :: "string set"
  rb_active_children :: int

definition AggregateRunBudget_init :: "int \<Rightarrow> int \<Rightarrow> int \<Rightarrow> int \<Rightarrow> AggregateRunBudget result" where
  "AggregateRunBudget_init max_iterations max_tool_calls max_children deadline =
     (if max_iterations < 0 \<or> max_tool_calls < 0 \<or> max_children < 0
      then Raise (ValueError ''aggregate limits must be nonnegative integers'')
      else Return \<lparr>rb_max_iterations = max_iterations, rb_max_tool_calls = max_tool_calls,
                   rb_max_children = max_children, rb_deadline_monotonic = deadline,
                   rb_iterations_used = 0, rb_tool_calls_used = 0, rb_child_calls = {},
                   rb_active_children = 0\<rparr>)"

definition remaining_seconds :: "AggregateRunBudget \<Rightarrow> int \<Rightarrow> int" where
  "remaining_seconds b now = max 0 (rb_deadline_monotonic b - now)"

definition take_iteration :: "AggregateRunBudget \<Rightarrow> int \<Rightarrow> bool \<times> AggregateRunBudget" where
  "take_iteration b now =
     (if remaining_seconds b now \<le> 0 \<or> rb_max_iterations b \<le> rb_iterations_used b then (False, b)
      else (True, b\<lparr>rb_iterations_used := rb_iterations_used b + 1\<rparr>))"

definition take_tool_slots :: "AggregateRunBudget \<Rightarrow> int \<Rightarrow> int \<Rightarrow> (int \<times> AggregateRunBudget) result" where
  "take_tool_slots b requested now =
     (if requested < 0 then Raise (ValueError ''requested tool slots must be a nonnegative integer'')
      else if remaining_seconds b now \<le> 0 then Return (0, b)
      else let available = max 0 (rb_max_tool_calls b - rb_tool_calls_used b);
               permitted = min requested available
           in Return (permitted, b\<lparr>rb_tool_calls_used := rb_tool_calls_used b + permitted\<rparr>))"

definition reserve_child ::
    "AggregateRunBudget \<Rightarrow> string \<Rightarrow> int option \<Rightarrow> int \<Rightarrow> (bool \<times> AggregateRunBudget) result" where
  "reserve_child b call_id ceiling now =
     (if call_id = [] then Raise (ValueError ''a child reservation requires a call id'')
      else if (case ceiling of None \<Rightarrow> False | Some c \<Rightarrow> c < 0)
      then Raise (ValueError ''child ceiling must be a nonnegative integer'')
      else if remaining_seconds b now \<le> 0 \<or> call_id \<in> rb_child_calls b \<or>
              (case ceiling of None \<Rightarrow> rb_max_children b | Some c \<Rightarrow> min (rb_max_children b) c)
                \<le> int (card (rb_child_calls b))
      then Return (False, b)
      else Return (True, b\<lparr>rb_child_calls := insert call_id (rb_child_calls b)\<rparr>))"

text \<open>
  One pass of the loop of \<open>take_child_slot\<close>: leave with \<open>False\<close>, take the slot, or wait on the
  condition.
\<close>

datatype slot_poll = Refused | Taken AggregateRunBudget | MustWait

definition slot_attempt :: "AggregateRunBudget \<Rightarrow> int \<Rightarrow> int \<Rightarrow> slot_poll" where
  "slot_attempt b effective now =
     (if 0 < remaining_seconds b now \<and> 0 < effective
      then (if rb_active_children b < effective
            then Taken (b\<lparr>rb_active_children := rb_active_children b + 1\<rparr>) else MustWait)
      else Refused)"

text \<open>
  How a wait ends: the condition is notified or the timeout of \<open>wait_for\<close> expires; in both
  cases the lock is held again, over the state the other tasks left, at a later time.
\<close>

datatype wake = Notified AggregateRunBudget int | TimedOut AggregateRunBudget

fun child_slot_loop ::
    "AggregateRunBudget \<Rightarrow> int \<Rightarrow> int \<Rightarrow> wake list \<Rightarrow> (bool \<times> AggregateRunBudget) option" where
  "child_slot_loop b effective now wakes =
     (case slot_attempt b effective now of
        Refused \<Rightarrow> Some (False, b)
      | Taken b' \<Rightarrow> Some (True, b')
      | MustWait \<Rightarrow>
          (case wakes of
             [] \<Rightarrow> None
           | TimedOut b' # _ \<Rightarrow> Some (False, b')
           | Notified b' now' # rest \<Rightarrow> child_slot_loop b' effective now' rest))"

declare child_slot_loop.simps [simp del]

definition take_child_slot ::
    "AggregateRunBudget \<Rightarrow> int \<Rightarrow> int \<Rightarrow> wake list \<Rightarrow> (bool \<times> AggregateRunBudget) option result" where
  "take_child_slot b ceiling now wakes =
     (if ceiling < 0 then Raise (ValueError ''child concurrency ceiling must be a nonnegative integer'')
      else Return (child_slot_loop b (min ceiling (rb_max_children b)) now wakes))"

definition release_child_slot :: "AggregateRunBudget \<Rightarrow> AggregateRunBudget result" where
  "release_child_slot b =
     (if rb_active_children b \<le> 0 then Raise (RuntimeError ''no child concurrency slot is active'')
      else Return (b\<lparr>rb_active_children := rb_active_children b - 1\<rparr>))"

section \<open>Interleavings\<close>

text \<open>
  The parent and its children call the operations in any order; each call is a step. A slot
  is taken in the pass of the loop that finds one free, at whatever time that is.
\<close>

datatype budget_op =
    TakeIteration int
  | TakeToolSlots int int
  | ReserveChild string "int option" int
  | SlotPass int int
  | ReleaseSlot

datatype budget_event = NoGrant | Iteration | ToolSlots int | Child string | SlotTaken | SlotReleased

definition budget_step :: "AggregateRunBudget \<Rightarrow> budget_op \<Rightarrow> budget_event \<times> AggregateRunBudget" where
  "budget_step b op =
     (case op of
        TakeIteration now \<Rightarrow>
          (case take_iteration b now of (ok, b') \<Rightarrow> (if ok then Iteration else NoGrant, b'))
      | TakeToolSlots n now \<Rightarrow>
          (case take_tool_slots b n now of Inl _ \<Rightarrow> (NoGrant, b) | Inr (k, b') \<Rightarrow> (ToolSlots k, b'))
      | ReserveChild cid ceiling now \<Rightarrow>
          (case reserve_child b cid ceiling now of
             Inl _ \<Rightarrow> (NoGrant, b)
           | Inr (ok, b') \<Rightarrow> (if ok then Child cid else NoGrant, b'))
      | SlotPass ceiling now \<Rightarrow>
          (if ceiling < 0 then (NoGrant, b)
           else case slot_attempt b (min ceiling (rb_max_children b)) now of
                  Taken b' \<Rightarrow> (SlotTaken, b') | _ \<Rightarrow> (NoGrant, b))
      | ReleaseSlot \<Rightarrow>
          (case release_child_slot b of Inl _ \<Rightarrow> (NoGrant, b) | Inr b' \<Rightarrow> (SlotReleased, b')))"

fun budget_run :: "AggregateRunBudget \<Rightarrow> budget_op list \<Rightarrow> budget_event list \<times> AggregateRunBudget" where
  "budget_run b [] = ([], b)"
| "budget_run b (op # ops) =
     (case budget_step b op of (e, b') \<Rightarrow>
        (case budget_run b' ops of (es, b'') \<Rightarrow> (e # es, b'')))"

definition same_limits :: "AggregateRunBudget \<Rightarrow> AggregateRunBudget \<Rightarrow> bool" where
  "same_limits b b' \<longleftrightarrow> rb_max_iterations b' = rb_max_iterations b \<and>
     rb_max_tool_calls b' = rb_max_tool_calls b \<and> rb_max_children b' = rb_max_children b \<and>
     rb_deadline_monotonic b' = rb_deadline_monotonic b"

definition budget_inv :: "AggregateRunBudget \<Rightarrow> bool" where
  "budget_inv b \<longleftrightarrow> 0 \<le> rb_iterations_used b \<and> rb_iterations_used b \<le> rb_max_iterations b \<and>
     0 \<le> rb_tool_calls_used b \<and> rb_tool_calls_used b \<le> rb_max_tool_calls b \<and>
     finite (rb_child_calls b) \<and> int (card (rb_child_calls b)) \<le> rb_max_children b \<and>
     0 \<le> rb_active_children b \<and> rb_active_children b \<le> rb_max_children b"

lemma budget_inv_init:
  "AggregateRunBudget_init i t c d = Inr b \<Longrightarrow> budget_inv b"
  by (auto simp: AggregateRunBudget_init_def budget_inv_def split: if_splits)

text \<open>What one step grants is exactly what it adds to the counters.\<close>

definition tools_of :: "budget_event \<Rightarrow> int" where
  "tools_of e = (case e of ToolSlots k \<Rightarrow> k | _ \<Rightarrow> 0)"

definition iterations_of :: "budget_event \<Rightarrow> int" where
  "iterations_of e = (case e of Iteration \<Rightarrow> 1 | _ \<Rightarrow> 0)"

definition child_of :: "budget_event \<Rightarrow> string list" where
  "child_of e = (case e of Child c \<Rightarrow> [c] | _ \<Rightarrow> [])"

definition slots_of :: "budget_event \<Rightarrow> int" where
  "slots_of e = (case e of SlotTaken \<Rightarrow> 1 | SlotReleased \<Rightarrow> -1 | _ \<Rightarrow> 0)"

lemmas event_defs = tools_of_def iterations_of_def child_of_def slots_of_def

lemmas budget_op_defs = take_iteration_def take_tool_slots_def reserve_child_def slot_attempt_def
  release_child_slot_def

lemma budget_step_spec:
  assumes "budget_step b op = (e, b')"
  shows budget_step_counts: "rb_iterations_used b' = rb_iterations_used b + iterations_of e"
      "rb_tool_calls_used b' = rb_tool_calls_used b + tools_of e"
      "rb_active_children b' = rb_active_children b + slots_of e"
    and budget_step_children: "rb_child_calls b' = rb_child_calls b \<union> set (child_of e)"
      "set (child_of e) \<inter> rb_child_calls b = {}" "distinct (child_of e)"
    and budget_step_limits: "same_limits b b'"
  using assms
  by (cases op; auto simp: budget_step_def budget_op_defs event_defs same_limits_def Let_def
        split: if_splits)+

lemma budget_step_inv:
  assumes "budget_step b op = (e, b')" and "budget_inv b"
  shows "budget_inv b'"
  using assms
  by (cases op)
     (auto simp: budget_step_def budget_op_defs budget_inv_def Let_def card_insert_if
        split: if_splits option.splits)

lemma budget_step_grants_nonneg:
  "budget_step b op = (e, b') \<Longrightarrow> budget_inv b \<Longrightarrow> 0 \<le> tools_of e \<and> 0 \<le> iterations_of e"
  by (cases op; auto simp: budget_step_def budget_op_defs event_defs Let_def split: if_splits)

lemma budget_run_inv:
  "budget_run b ops = (es, b') \<Longrightarrow> budget_inv b \<Longrightarrow> budget_inv b' \<and> same_limits b b'"
proof (induction ops arbitrary: b es b')
  case Nil
  then show ?case by (simp add: same_limits_def)
next
  case (Cons op ops)
  from Cons.prems obtain e b1 es' where step: "budget_step b op = (e, b1)"
    and rest: "budget_run b1 ops = (es', b')" by (auto split: prod.splits)
  from Cons.IH [OF rest budget_step_inv [OF step Cons.prems(2)]] budget_step_limits [OF step]
  show ?case by (auto simp: same_limits_def)
qed

lemma budget_run_counts:
  "budget_run b ops = (es, b') \<Longrightarrow>
     rb_iterations_used b' = rb_iterations_used b + sum_list (map iterations_of es) \<and>
     rb_tool_calls_used b' = rb_tool_calls_used b + sum_list (map tools_of es) \<and>
     rb_active_children b' = rb_active_children b + sum_list (map slots_of es)"
proof (induction ops arbitrary: b es)
  case (Cons op ops)
  from Cons.prems obtain e b1 es' where step: "budget_step b op = (e, b1)"
    and rest: "budget_run b1 ops = (es', b')" and es: "es = e # es'" by (auto split: prod.splits)
  from Cons.IH [OF rest] budget_step_counts [OF step] show ?case by (simp add: es)
qed simp

lemma budget_run_children:
  "budget_run b ops = (es, b') \<Longrightarrow>
     rb_child_calls b' = rb_child_calls b \<union> set (concat (map child_of es)) \<and>
     set (concat (map child_of es)) \<inter> rb_child_calls b = {} \<and> distinct (concat (map child_of es))"
proof (induction ops arbitrary: b es)
  case (Cons op ops)
  from Cons.prems obtain e b1 es' where step: "budget_step b op = (e, b1)"
    and rest: "budget_run b1 ops = (es', b')" and es: "es = e # es'" by (auto split: prod.splits)
  from Cons.IH [OF rest] budget_step_children [OF step] show ?case by (auto simp: es)
qed simp

section \<open>The waiting loop\<close>

text \<open>
  If the loop ends with a slot, the slot was free in the pass that took it; it never ends with
  a slot after the deadline.
\<close>

lemma slot_attempt_Taken:
  "slot_attempt b eff now = Taken b' \<longleftrightarrow> now < rb_deadline_monotonic b \<and> 0 < eff \<and>
     rb_active_children b < eff \<and> b' = b\<lparr>rb_active_children := rb_active_children b + 1\<rparr>"
  by (auto simp: slot_attempt_def remaining_seconds_def)

lemma child_slot_loop_True:
  "child_slot_loop b eff now wakes = Some (True, b') \<Longrightarrow>
     \<exists>b0 t. slot_attempt b0 eff t = Taken b' \<and> ((b0, t) = (b, now) \<or> Notified b0 t \<in> set wakes)"
proof (induction wakes arbitrary: b now)
  case Nil
  then show ?case by (auto simp: child_slot_loop.simps split: slot_poll.splits)
next
  case (Cons w ws)
  show ?case
  proof (cases "slot_attempt b eff now")
    case MustWait
    show ?thesis
    proof (cases w)
      case (Notified b1 t1)
      with MustWait Cons.prems have "child_slot_loop b1 eff t1 ws = Some (True, b')"
        by (simp add: child_slot_loop.simps [of b])
      with Cons.IH show ?thesis using Notified by fastforce
    next
      case (TimedOut b1)
      with MustWait Cons.prems show ?thesis by (simp add: child_slot_loop.simps [of b])
    qed
  qed (use Cons.prems in \<open>auto simp: child_slot_loop.simps [of b]\<close>)
qed

section \<open>Properties\<close>

text \<open>
  C10. Whatever the order in which a parent and its children draw on the shared quota, together
  they are granted at most the limits it was created with; no call id is reserved twice; the
  children reserved and the slots taken stay within the child limit.
\<close>

theorem aggregate_budget_bounds:
  assumes "AggregateRunBudget_init max_iterations max_tool_calls max_children deadline = Inr b"
    and "budget_run b ops = (events, b')"
  shows "sum_list (map iterations_of events) \<le> max_iterations \<and>
     sum_list (map tools_of events) \<le> max_tool_calls \<and>
     distinct (concat (map child_of events)) \<and> int (length (concat (map child_of events))) \<le> max_children \<and>
     0 \<le> sum_list (map slots_of events) \<and> sum_list (map slots_of events) \<le> max_children"
proof -
  have b: "b = \<lparr>rb_max_iterations = max_iterations, rb_max_tool_calls = max_tool_calls,
      rb_max_children = max_children, rb_deadline_monotonic = deadline, rb_iterations_used = 0,
      rb_tool_calls_used = 0, rb_child_calls = {}, rb_active_children = 0\<rparr>"
    using assms(1) by (auto simp: AggregateRunBudget_init_def split: if_splits)
  have inv': "budget_inv b'" and same: "same_limits b b'"
    using budget_run_inv [OF assms(2) budget_inv_init [OF assms(1)]] by auto
  have "card (rb_child_calls b') = length (concat (map child_of events))"
    using budget_run_children [OF assms(2)] b by (simp add: distinct_card del: set_concat)
  with budget_run_counts [OF assms(2)] budget_run_children [OF assms(2)] inv' same b show ?thesis
    by (simp add: budget_inv_def same_limits_def del: set_concat distinct_concat_iff)
qed

theorem aggregate_budget_bounds_witness:
  "sum_list (map iterations_of (fst (budget_run
      \<lparr>rb_max_iterations = 1, rb_max_tool_calls = 2, rb_max_children = 1, rb_deadline_monotonic = 9,
       rb_iterations_used = 0, rb_tool_calls_used = 0, rb_child_calls = {}, rb_active_children = 0\<rparr>
      [TakeIteration 1, TakeIteration 2, TakeToolSlots 5 3, ReserveChild ''a'' None 4]))) \<le> 1"
  using aggregate_budget_bounds [of 1 2 1 9 _ "[TakeIteration 1, TakeIteration 2, TakeToolSlots 5 3, ReserveChild ''a'' None 4]",
      OF _ prod.collapse [symmetric]]
  by (simp add: AggregateRunBudget_init_def)

end
