(* ===== verification/Runner_Composition.thy ===== *)
theory Runner_Composition
  imports Batch Run_Loop_Safety Capability_Authority Approvals Channel_Policy Run_Budget
begin

text \<open>
  The runner on top of its collaborators. The contracts of the registry, the authority and the
  approval store (the locales of their theories) turn what the runner guarantees about its
  history into statements about the state of those components; interpreted on the in-memory
  implementations they hold for the shipped configuration.
\<close>

section \<open>Answers that a component gives\<close>

text \<open>
  Every answer comes from the component in some state that satisfies its invariant; the state
  may be another one for each question, since other tasks use the component too.
\<close>

definition tools_served ::
    "('s \<Rightarrow> bool) \<Rightarrow> ('s \<Rightarrow> RequestScope \<Rightarrow> string \<Rightarrow> 'h RegisteredTool option) \<Rightarrow>
     'h exchange list \<Rightarrow> 'h ask \<Rightarrow> 'h answer \<Rightarrow> bool" where
  "tools_served ok lookup h q a \<longleftrightarrow>
     (\<forall>sc n t. q = ResolveTool sc n \<longrightarrow> a = ATool t \<longrightarrow> (\<exists>s. ok s \<and> lookup s sc n = t))"

text \<open>
  The answers of the authority are what it resolves in the state it has, at the time it reads, when it is asked; both may
  depend on the whole history before the question.
\<close>

definition grants_served ::
    "('h exchange list \<Rightarrow> 's) \<Rightarrow> ('h exchange list \<Rightarrow> instant) \<Rightarrow> ('s \<Rightarrow> string \<Rightarrow> instant \<Rightarrow> CapabilityGrant option) \<Rightarrow>
     'h exchange list \<Rightarrow> 'h ask \<Rightarrow> 'h answer \<Rightarrow> bool" where
  "grants_served state clock lookup h q a \<longleftrightarrow>
     (\<forall>g found. q = ResolveGrant g \<longrightarrow> a = AGrant (Inr found) \<longrightarrow> found = lookup (state h) g (clock h))"

lemma called_authorised:
  assumes "well_typed env"
    and "drive env (execute_intent cfg rq intent it sm duplicate) [] = (out, es1 @ (CallHandler r ctx args, a) # es2)"
  shows "handler_authorised cfg rq intent duplicate es1 r ctx args"
proof -
  from guarantee_asked [OF execute_intent_guarantee [where R = "\<lambda>_ _ _. True"] assms(1) _ along_trivial refl,
      of cfg rq intent it sm duplicate out] assms(2)
  have "guarded cfg rq intent duplicate ([] @ es1) (CallHandler r ctx args)" by simp
  then show ?thesis by (simp add: guarded_CallHandler)
qed

section \<open>The registry\<close>

context tool_source
begin

lemma called_tool:
  assumes "well_typed env" and "along (tools_served ok lookup) [] (es1 @ (CallHandler r ctx args, a) # es2)"
    and "drive env (execute_intent cfg rq intent it sm duplicate) [] = (out, es1 @ (CallHandler r ctx args, a) # es2)"
  shows "ti_name (rt_identity r) = tin_tool_name intent" and "ts_name (rt_spec r) = tin_tool_name intent"
    and "rt_registration_scope r \<in> set (registration_candidates (rq_scope rq))"
proof -
  have "(ResolveTool (rq_scope rq) (tin_tool_name intent), ATool (Some r)) \<in> set es1"
    using called_authorised [OF assms(1,3)] by (simp add: handler_authorised_def)
  then have "(ResolveTool (rq_scope rq) (tin_tool_name intent), ATool (Some r)) \<in>
      set (es1 @ (CallHandler r ctx args, a) # es2)" by simp
  from along_member [OF assms(2) this]
  obtain s where "ok s" "lookup s (rq_scope rq) (tin_tool_name intent) = Some r"
    by (auto simp: tools_served_def)
  then show "ti_name (rt_identity r) = tin_tool_name intent" "ts_name (rt_spec r) = tin_tool_name intent"
    "rt_registration_scope r \<in> set (registration_candidates (rq_scope rq))"
    using lookup_named lookup_visible by blast+
qed

end

section \<open>The authority\<close>

context grant_source
begin

lemma called_within_grants:
  assumes "well_typed env" and states: "\<forall>h. ok (state h)"
    and served: "along (grants_served state clock lookup) [] (es1 @ (CallHandler r ctx args, a) # es2)"
    and "drive env (execute_intent cfg rq intent it sm duplicate) [] = (out, es1 @ (CallHandler r ctx args, a) # es2)"
  shows "\<exists>h1 grant h2. es1 = h1 @ (ResolveGrant (rq_grant_id rq), AGrant (Inr (Some grant))) # h2 \<and>
     lookup (state h1) (rq_grant_id rq) (clock h1) = Some grant \<and>
     (\<forall>p. bounds (state h1) (rq_grant_id rq) p \<or> p = grant \<longrightarrow>
        rt_identity r \<in> cg_tool_identities p \<and> ts_required_capabilities (rt_spec r) \<subseteq> cg_capabilities p)"
proof -
  obtain grant where grant: "call_checked rq intent r grant es1"
    using called_authorised [OF assms(1,4)] by (auto simp: handler_authorised_def)
  then have "(ResolveGrant (rq_grant_id rq), AGrant (Inr (Some grant))) \<in> set es1"
    by (simp add: call_checked_def grant_confirmed_def)
  then obtain h1 h2 where split: "es1 = h1 @ (ResolveGrant (rq_grant_id rq), AGrant (Inr (Some grant))) # h2"
    by (meson split_list)
  from served [unfolded split, simplified, THEN along_at]
  have found: "lookup (state h1) (rq_grant_id rq) (clock h1) = Some grant" by (simp add: grants_served_def)
  have "rt_identity r \<in> cg_tool_identities p \<and> ts_required_capabilities (rt_spec r) \<subseteq> cg_capabilities p"
    if "bounds (state h1) (rq_grant_id rq) p \<or> p = grant" for p
  proof -
    have within: "rt_identity r \<in> cg_tool_identities grant" "ts_required_capabilities (rt_spec r) \<subseteq> cg_capabilities grant"
      using grant by (simp_all add: call_checked_def)
    from that show ?thesis
    proof
      assume "bounds (state h1) (rq_grant_id rq) p"
      then have "attenuates grant p" by (rule resolved_bounded [OF states [rule_format] found])
      with within show ?thesis by (auto simp: attenuates_def)
    qed (use within in simp)
  qed
  with split found show ?thesis by blast
qed

end

end
