(* ===== verification/Examples.thy ===== *)
theory Examples
  imports Runner_Composition
begin

text \<open>
  Concrete instances the witnesses evaluate: a product request, a read tool and a destructive
  tool, a grant for both, and a surrounding in which every collaborator answers, the registry and
  the authority as their models do.
\<close>

definition demo_path :: ScopePath where
  "demo_path = product_path (Some ''acme'') (Some ''shop'')"

definition demo_agent_path :: ScopePath where
  "demo_agent_path = demo_path\<lparr>sp_kind := AGENT, sp_agent_id := Some ''bot'', sp_session_id := Some ''s1''\<rparr>"

definition demo_scope :: RequestScope where
  "demo_scope = \<lparr>rs_path = demo_path, rs_principal_id = ''alice'', rs_channel_id = ''web'', rs_roles = {},
     rs_purpose = ''test'', rs_request_id = ''r1'', rs_correlation_id = ''c1'', rs_session_owner_id = None\<rparr>"

definition demo_identity :: "string \<Rightarrow> ToolIdentity" where
  "demo_identity name = \<lparr>ti_namespace = ''product'', ti_name = name, ti_origin = ''scope:product:acme:shop'',
     ti_version = ''1''\<rparr>"

definition demo_tool :: "string \<Rightarrow> ToolEffect set \<Rightarrow> unit RegisteredTool" where
  "demo_tool name effects = \<lparr>rt_registration_scope = demo_path, rt_identity = demo_identity name,
     rt_spec = \<lparr>ts_name = name, ts_description = '''', ts_effects = effects, ts_required_capabilities = {},
       ts_input_schema = JObj []\<rparr>, rt_handler = ()\<rparr>"

definition read_tool :: "unit RegisteredTool" where
  "read_tool = demo_tool ''look'' {READ}"

definition drop_tool :: "unit RegisteredTool" where
  "drop_tool = demo_tool ''drop'' {WRITE, DESTRUCTIVE}"

lemma drop_tool_destructive: "DESTRUCTIVE \<in> ts_effects (rt_spec drop_tool)"
  by (simp add: drop_tool_def demo_tool_def)

text \<open>The registry with both tools, and an authority in which a grant was delegated to the caller.\<close>

definition demo_register :: "unit RegisteredTool \<Rightarrow> unit InMemoryToolRegistry \<Rightarrow> unit InMemoryToolRegistry" where
  "demo_register t reg =
     (case registry_register (\<lambda>_. True) (\<lambda>_. True) (ts_name (rt_spec t)) reg demo_path (rt_spec t) () of
        Inr (reg', _) \<Rightarrow> reg' | Inl _ \<Rightarrow> reg)"

definition demo_registry :: "unit InMemoryToolRegistry" where
  "demo_registry = demo_register drop_tool (demo_register read_tool (empty_registry 0))"

lemma demo_register_reachable: "registry_reachable reg \<Longrightarrow> registry_reachable (demo_register t reg)"
  by (auto simp: demo_register_def intro: registry_next registry_step.step_register split: sum.splits)

lemma demo_registry_inv: "registry_inv demo_registry"
  unfolding demo_registry_def
  by (intro registry_reachable_inv demo_register_reachable registry_start)

definition demo_grant :: CapabilityGrant where
  "demo_grant = \<lparr>cg_grant_id = ''g1'', cg_tenant_id = ''acme'', cg_product_id = ''shop'',
     cg_tool_identities = {demo_identity ''look'', demo_identity ''drop''}, cg_capabilities = {},
     cg_principal_id = None, cg_issued_at = 0, cg_expires_at = 1000\<rparr>"

definition demo_root_authority :: CapabilityAuthority where
  "demo_root_authority = store_grant demo_grant None empty_authority"

definition demo_authority :: CapabilityAuthority where
  "demo_authority =
     (case authority_issue_child demo_root_authority ''g1'' demo_agent_path
             {demo_identity ''look'', demo_identity ''drop''} {} ''alice'' 500 2 ''c'' of
        Inr (st, _) \<Rightarrow> st | Inl _ \<Rightarrow> demo_root_authority)"

lemma demo_root_authority_reachable: "authority_reachable demo_root_authority"
proof -
  have "authority_register empty_authority demo_grant = Inr demo_root_authority"
    by (simp add: authority_register_def demo_root_authority_def empty_authority_def)
  then show ?thesis by (blast intro: authority_reachable.intros authority_step.step_register)
qed

lemma demo_authority_reachable: "authority_reachable demo_authority"
  using demo_root_authority_reachable
  by (auto simp: demo_authority_def intro: authority_reachable.intros step_issue_child split: sum.splits)

definition demo_request :: RunRequest where
  "demo_request = \<lparr>rq_run_id = ''run1'', rq_scope = demo_scope, rq_grant_id = ''grant-c'', rq_input = JNull,
     rq_conversation = \<lparr>cc_messages = [], cc_truncated = False, cc_working_summary = '''',
       cc_long_term_context = '''', cc_memory_degraded = False\<rparr>,
     rq_read_only = False,
     rq_budget = \<lparr>eb_max_iterations = 1, eb_max_tool_calls = 1, eb_max_parallel_calls = 1, eb_timeout = second\<rparr>,
     rq_resume = None\<rparr>"

text \<open>A digest of the right form; the real one is a parameter everywhere.\<close>

definition demo_sha :: "string \<Rightarrow> string" where
  "demo_sha s = replicate 64 (CHR ''0'')"

definition demo_config :: RunnerConfig where
  "demo_config = \<lparr>rc_policy = default_policy, rc_authorization_policy = False, rc_interactive_approvals = False,
     rc_tool_results = False, rc_sha = demo_sha, rc_time = JInt\<rparr>"

definition demo_intent :: "string \<Rightarrow> string option \<Rightarrow> ToolIntent" where
  "demo_intent name token = \<lparr>tin_call_id = ''call1'', tin_tool_name = name, tin_arguments = JObj [],
     tin_approval_token = token\<rparr>"

definition demo_decision :: WorkflowDecision where
  "demo_decision = \<lparr>wd_kind = TOOLS, wd_intents = [demo_intent ''look'' None], wd_output = JNull,
     wd_workflow_state = JNull\<rparr>"

fun demo_env :: "unit surrounding" where
  "demo_env h Now = ATime 5"
| "demo_env h Monotonic = ATime 0"
| "demo_env h (ResolveTool sc n) = ATool (registry_resolve demo_registry sc n)"
| "demo_env h (ResolveGrant g) = AGrant (Inr (authority_resolve demo_authority g 5))"
| "demo_env h (Append ev) = AUnit (Inr ())"
| "demo_env h (Publish k t d) = AUnit (Inr ())"
| "demo_env h (Validate r v) = AUnit (Inr ())"
| "demo_env h (Evaluate rq i sp v) = AAuth (Inr (Some DEFAULT))"
| "demo_env h (Consume tok target) =
     ABinding (Inr (Some \<lparr>ab_target = target, ab_approved_by = ''bob'', ab_issued_at = 0, ab_expires_at = 30\<rparr>))"
| "demo_env h (RequestApproval rq target sp v) = ABinding (Inr None)"
| "demo_env h (CallHandler r ctx v) = AJson (Inr (Some (JStr ''ok'')))"
| "demo_env h (PutResult sc n p) = AReference (Inr JNull)"
| "demo_env h TakeIterationAsk = AFlag True"
| "demo_env h (TakeToolSlotsAsk n) = ACount n"
| "demo_env h (Render rq f) = APrompt (Inr None)"
| "demo_env h (ResumeKey rq f p) = AKey (Inr (Some ''route''))"
| "demo_env h (Workflow rq f p) = AStream [StreamDecision demo_decision] None"
| "demo_env h (Reflect rq f d) = ADecision (Inr (Some d))"
| "demo_env h (ExecuteBatch b it) = AObservations (Inr [])"

lemma demo_env_typed: "well_typed demo_env"
  unfolding well_typed_def
proof (intro allI)
  fix h q
  show "answers q (demo_env h q)" by (cases q) simp_all
qed

definition demo_call :: "string \<Rightarrow> string option \<Rightarrow> (unit, ToolObservation) prog" where
  "demo_call name token = execute_intent demo_config demo_request (demo_intent name token) 1 0 False"

text \<open>The exchange in which the handler of a tool is called.\<close>

definition calls_tool :: "'h RegisteredTool \<Rightarrow> 'h exchange \<Rightarrow> bool" where
  "calls_tool r e = (case fst e of CallHandler r' _ _ \<Rightarrow> r' = r | _ \<Rightarrow> False)"

lemma calls_tool_split:
  assumes "list_ex (calls_tool r) h"
  shows "\<exists>es1 ctx args a es2. h = es1 @ (CallHandler r ctx args, a) # es2"
proof -
  from assms obtain q a where e: "(q, a) \<in> set h" "calls_tool r (q, a)" by (auto simp: list_ex_iff)
  then obtain ctx args where "q = CallHandler r ctx args" by (cases q) (auto simp: calls_tool_def)
  with split_list [OF e(1)] show ?thesis by metis
qed

lemma demo_call_history:
  "list_ex (calls_tool read_tool) (snd (drive demo_env (demo_call ''look'' None) []))"
  by code_simp

lemma demo_call_returns:
  "\<not> isl (fst (drive demo_env (execute_intent demo_config demo_request (demo_intent ''look'' None) 1 0 False) []))"
  by code_simp

lemma demo_drop_history:
  "list_ex (calls_tool drop_tool) (snd (drive demo_env (demo_call ''drop'' (Some ''t'')) []))"
  by code_simp

lemma demo_task_history:
  "list_ex (calls_tool read_tool)
     (snd (drive demo_env (execute_task demo_config demo_request 1 0 (demo_intent ''look'' None, False)) []))"
  by code_simp

lemma driven_call:
  assumes "list_ex (calls_tool r) (snd (drive env p []))"
  obtains out es1 ctx args a es2 where "drive env p [] = (out, es1 @ (CallHandler r ctx args, a) # es2)"
  using calls_tool_split [OF assms] by (metis prod.collapse)

lemmas demo_handler_call = driven_call [OF demo_call_history, unfolded demo_call_def]
lemmas demo_drop_handler_call = driven_call [OF demo_drop_history, unfolded demo_call_def]

text \<open>What the surrounding answers is what the components serve.\<close>

lemma drive_along:
  assumes keeps: "\<And>h q. \<forall>e \<in> set h. K e \<Longrightarrow> K (q, env h q) \<and> R h q (env h q)"
    and "drive env p h = (r, h @ es)" and "\<forall>e \<in> set h. K e"
  shows "along R h es"
  using assms(2,3)
proof (induction p arbitrary: h es)
  case (Ask q k)
  from Ask.prems(1) obtain es' where es: "es = (q, env h q) # es'"
    and next': "drive env (k (env h q)) (h @ [(q, env h q)]) = (r, (h @ [(q, env h q)]) @ es')" by (rule drive_Ask)
  from keeps [OF Ask.prems(2), of q] Ask.IH [OF _ next'] Ask.prems(2) es show ?case by simp
qed auto

lemma demo_tools_served: "tools_served registry_inv registry_resolve h q (demo_env h q)"
  using demo_registry_inv by (auto simp: tools_served_def)

lemma demo_grants_served: "grants_served (\<lambda>_. demo_authority) (\<lambda>_. 5) authority_resolve h q (demo_env h q)"
  by (auto simp: grants_served_def)

lemma demo_served:
  assumes "drive demo_env p [] = (r, es)"
  shows "along (tools_served registry_inv registry_resolve) [] es"
    and "along (grants_served (\<lambda>_. demo_authority) (\<lambda>_. 5) authority_resolve) [] es"
    and "along clock_rely [] es" and "along slots_rely [] es"
proof -
  have "along R [] es" if "\<And>h q. \<forall>e \<in> set h. K e \<Longrightarrow> K (q, demo_env h q) \<and> R h q (demo_env h q)" for R K
    using drive_along [of K demo_env R p "[]" r es] that assms by simp
  note all = this
  show "along (tools_served registry_inv registry_resolve) [] es"
    by (rule all [where K = "\<lambda>_. True"]) (simp add: demo_tools_served)
  show "along (grants_served (\<lambda>_. demo_authority) (\<lambda>_. 5) authority_resolve) [] es"
    by (rule all [where K = "\<lambda>_. True"]) (simp add: demo_grants_served)
  show "along clock_rely [] es"
    by (rule all [where K = "\<lambda>e. \<forall>t. e = (Now, ATime t) \<longrightarrow> t = 5"]) (auto simp: clock_rely_def)
  show "along slots_rely [] es"
    by (rule all [where K = "\<lambda>_. True"]) (auto simp: slots_rely_def)
qed

text \<open>A batch of one call runs as its task does.\<close>

lemma batch_drive:
  assumes "well_typed env" and "batch_reachable limit b0 [(Active p, h)]"
  shows "batch_reachable limit b0 [(Finished (fst (drive env p h)), snd (drive env p h))]"
  using assms(2)
proof (induction p arbitrary: h)
  case (Ask q k)
  have "batch_step limit [(Active (Ask q k), h)] ([(Active (Ask q k), h)][0 := (Active (k (env h q)), h @ [(q, env h q)])])"
    using assms(1) by (intro batch_step.exchange) (auto simp: well_typed_def)
  with Ask.prems have "batch_reachable limit b0 [(Active (k (env h q)), h @ [(q, env h q)])]"
    by (auto intro: batch_next)
  then show ?case using Ask.IH by simp
next
  case (Ret x)
  then show ?case using batch_next [OF Ret batch_step.task_returns [of 0]] by simp
next
  case (Throw e)
  then show ?case using batch_next [OF Throw batch_step.task_raises [of 0]] by simp
qed

lemma demo_batch_call:
  obtains b es1 ctx args a es2
  where "batch_reachable 1 (start_batch demo_config demo_request 1 0 [(demo_intent ''look'' None, False)]) b"
    and "length b = 1" and "snd (b ! 0) = es1 @ (CallHandler read_tool ctx args, a) # es2"
proof -
  let ?p = "execute_task demo_config demo_request 1 0 (demo_intent ''look'' None, False)"
  let ?b0 = "start_batch demo_config demo_request 1 0 [(demo_intent ''look'' None, False)]"
  have "batch_step 1 ?b0 (?b0[0 := (Active ?p, [])])"
    by (intro batch_step.take_permit) (auto simp: start_batch_def active_count_def is_active_def)
  then have "batch_reachable 1 ?b0 [(Active ?p, [])]"
    by (auto simp: start_batch_def intro: batch_reachable.intros)
  from batch_drive [OF demo_env_typed this] calls_tool_split [OF demo_task_history] that show thesis by fastforce
qed

section \<open>A whole run\<close>

text \<open>
  The workflow asks for one call. To evaluate a program in a surrounding, its definitions are
  unfolded only where it is about to run.
\<close>

lemmas run_unfolds =
  ask_defs [THEN drive_cong] lift_answered_def [THEN drive_cong] lift_result_def [THEN drive_cong]
  except_Exception_def [THEN drive_cong] emit_def [THEN drive_cong] grant_of_def [THEN drive_cong]
  visible_tool_def [THEN drive_cong] visible_tools_def [THEN drive_cong]
  run_loop_def [THEN drive_cong] start_loop_def [THEN drive_cong] loop_body_def [THEN drive_cong]
  open_frame_def [THEN drive_cong] run_frame_def [THEN drive_cong] unless_def [THEN drive_cong]
  attempt_def [THEN drive_cong] bind_route_def [THEN drive_cong] due_checkpoint_def [THEN drive_cong]
  render_prompt_def [THEN drive_cong] run_workflow_def [THEN drive_cong] review_def [THEN drive_cong]
  act_on_decision_def [THEN drive_cong] run_tools_def [THEN drive_cong] run_permitted_def [THEN drive_cong]
  batch_is_safe_def [THEN drive_cong] finish_with_def [THEN drive_cong] run_result_def [THEN drive_cong]
  finish_def [THEN drive_cong] stop_def [THEN drive_cong] iterate.simps [THEN drive_cong]
  for_each.simps [THEN drive_cong] consume_stream.simps [THEN drive_cong] all_prog.simps [THEN drive_cong]

lemmas run_folded = iterate.simps for_each.simps consume_stream.simps all_prog.simps

definition demo_run :: "(unit, RunResult) prog" where
  "demo_run = run_loop demo_config \<lparr>es_prompt = False, es_reflection = False\<rparr> demo_request (initial_state 5 0)"

definition demo_child_grant :: CapabilityGrant where
  "demo_child_grant = demo_grant\<lparr>cg_grant_id := ''grant-c'', cg_principal_id := Some ''alice'',
     cg_issued_at := 2, cg_expires_at := 502\<rparr>"

definition demo_resume :: RunResumeState where
  "demo_resume = \<lparr>rr_source_run_id = ''run1'', rr_workflow_state = JNull, rr_observations = [], rr_iterations_used = 0,
     rr_tool_calls_used = 0, rr_call_ids = [], rr_prompt_digest = demo_sha [], rr_route_key = ''route''\<rparr>"

definition demo_checkpoint :: json where
  "demo_checkpoint = JObj [(''resume_state'', dump_resume JInt demo_resume), (''input'', JNull),
     (''conversation'', dump_conversation JInt (rq_conversation demo_request))]"

lemma demo_request_sel:
  "rq_grant_id demo_request = ''grant-c''" "rq_resume demo_request = None" "rq_scope demo_request = demo_scope"
  "rq_input demo_request = JNull" "rq_run_id demo_request = ''run1''" "\<not> rq_read_only demo_request"
  "rq_budget demo_request =
     \<lparr>eb_max_iterations = 1, eb_max_tool_calls = 1, eb_max_parallel_calls = 1, eb_timeout = second\<rparr>"
  "rs_tenant_id demo_scope = Some ''acme''" "rs_product_id demo_scope = Some ''shop''"
  "rs_principal_id demo_scope = ''alice''"
  by (simp_all add: demo_request_def demo_scope_def demo_path_def rs_tenant_id_def rs_product_id_def)

lemma demo_config_sel:
  "rc_policy demo_config = default_policy" "rc_sha demo_config = demo_sha" "rc_time demo_config = JInt"
  "ep_max_run_input_bytes default_policy = 262144" "ep_max_workflow_state_bytes default_policy = 262144"
  by (simp_all add: demo_config_def default_policy_def)

lemma demo_decision_sel:
  "wd_kind demo_decision = TOOLS" "wd_intents demo_decision = [demo_intent ''look'' None]"
  "wd_workflow_state demo_decision = JNull" "tin_approval_token (demo_intent ''look'' None) = None"
  "tin_arguments (demo_intent ''look'' None) = JObj []" "tin_call_id (demo_intent ''look'' None) = ''call1''"
  by (simp_all add: demo_decision_def demo_intent_def)

lemma demo_tools:
  "registry_resolve demo_registry demo_scope ''look'' = Some read_tool"
  "registry_resolve demo_registry demo_scope ''drop'' = Some drop_tool"
  "ts_required_capabilities (rt_spec read_tool) = {}" "ts_required_capabilities (rt_spec drop_tool) = {}"
  by code_simp+

lemma demo_child_grant_sel:
  "authority_resolve demo_authority ''grant-c'' 5 = Some demo_child_grant"
  "cg_tenant_id demo_child_grant = ''acme''" "cg_product_id demo_child_grant = ''shop''"
  "cg_principal_id demo_child_grant = Some ''alice''" "cg_expires_at demo_child_grant = 502"
  "sorted_list_of_set (ti_name ` cg_tool_identities demo_child_grant) = [''drop'', ''look'']"
  "cg_capabilities demo_child_grant = {}"
  "rt_identity read_tool \<in> cg_tool_identities demo_child_grant"
  "rt_identity drop_tool \<in> cg_tool_identities demo_child_grant"
  by code_simp+

lemma demo_checked:
  "budget_policy_failure default_policy demo_request = None"
  "prompt_digest demo_config demo_request None = Inr (demo_sha [])"
  "RunResumeState_validate demo_resume = Inr demo_resume"
  "int (length (dumps demo_checkpoint)) \<le> checkpoint_limit default_policy"
  "canonical_json demo_checkpoint = Inr (dumps demo_checkpoint)"
  by code_simp+

lemma demo_ids:
  "ID_PATTERN ''r1''" "ID_PATTERN ''c1''" "ID_PATTERN ''run1''" "ID_PATTERN ''alice''" "ID_PATTERN ''shop''"
  "ID_PATTERN ''acme''" "ID_PATTERN ''web''" "py_strip ''test'' = ''test''" "opt_id_ok None"
  by code_simp+

lemma demo_event_valid:
  fixes ty t d
  defines "ev \<equiv> \<lparr>ae_event_type = ty, ae_occurred_at = t, ae_tenant_id = ''acme'', ae_product_id = ''shop'',
      ae_principal_id = ''alice'', ae_request_id = rs_request_id demo_scope,
      ae_correlation_id = rs_correlation_id demo_scope, ae_purpose = rs_purpose demo_scope, ae_run_id = ''run1'',
      ae_channel_id = rs_channel_id demo_scope, ae_call_id = None, ae_tool_name = None, ae_tool_identity = None,
      ae_data = d\<rparr>"
  assumes "\<not> has_non_finite (JObj d)"
  shows "AuditEvent_validate ev = Inr ev"
  using assms by (simp add: ev_def AuditEvent_validate_def demo_scope_def demo_ids result_bind_def canonical_json_def)

lemma demo_checkpoint_written:
  "drive demo_env (checkpoint demo_config demo_request
     \<lparr>st_started_at = t, st_started_monotonic = m, st_iterations_used = i, st_tool_calls_used = 0,
      st_observations = [], st_call_ids = {}\<rparr> JNull (demo_sha []) ''route'' 0) h =
   (Inr (), h @ [(Publish ''checkpoint'' [] demo_checkpoint, AUnit (Inr ()))])"
  by (simp add: checkpoint_def drive_simps run_unfolds demo_config_sel demo_request_sel demo_checked(3-5)
        demo_resume_def [symmetric] demo_checkpoint_def [symmetric])

lemma demo_run_events:
  "\<exists>r es. drive demo_env demo_run [] = (Inr r, es) \<and>
     (ExecuteBatch [(demo_intent ''look'' None, False)] 1, AObservations (Inr [])) \<in> set es \<and>
     (Publish ''checkpoint'' [] demo_checkpoint, AUnit (Inr ())) \<in> set es"
  unfolding demo_run_def
  by (simp add: drive_simps run_unfolds demo_config_sel demo_request_sel demo_decision_sel demo_tools
        demo_child_grant_sel demo_checked demo_event_valid demo_checkpoint_written canonical_json_def
        initial_state_def charge_calls_def RunResult_validate_def run_failure_def del: run_folded)

lemma demo_request_in_range: "request_in_range demo_request"
  by (simp add: request_in_range_def demo_request_def)

end
