(* ===== verification/Session_Models.thy ===== *)
theory Session_Models
  imports Execution_Models
begin

text \<open>
  \<^verbatim>\<open>src/suiteharness/sessions/models.py\<close>: the vocabulary of the durable sessions. As in
  \<open>Execution_Models\<close>, a pydantic model is a record and its validators a function into \<open>result\<close>;
  \<open>canonical_json\<close> of this module is the function of the same name. Two functions of the
  surrounding are parameters: \<open>parse_iso\<close> is \<open>datetime.fromisoformat\<close> (\<open>None\<close> when it raises), and the
  size of a serialised recovery point is a number.
\<close>

section \<open>Limits\<close>

record SessionStoreLimits =
  sl_max_sessions :: int
  sl_max_transcript_payload_bytes :: int
  sl_max_transcript_events_per_session :: int
  sl_max_transcript_events_total :: int
  sl_max_run_claims_per_session :: int
  sl_max_run_claims_total :: int
  sl_max_checkpoint_state_bytes :: int
  sl_max_checkpoints_per_session :: int
  sl_max_checkpoint_bytes_per_session :: int
  sl_max_resume_point_bytes :: int
  sl_max_resume_points_per_session :: int
  sl_max_resume_bytes_per_session :: int
  sl_max_resume_points_total :: int
  sl_max_resume_bytes_total :: int

definition default_limits :: SessionStoreLimits where
  "default_limits = \<lparr>sl_max_sessions = 100000, sl_max_transcript_payload_bytes = 4 * 1024 * 1024,
     sl_max_transcript_events_per_session = 50000, sl_max_transcript_events_total = 1000000,
     sl_max_run_claims_per_session = 50000, sl_max_run_claims_total = 1000000,
     sl_max_checkpoint_state_bytes = 4 * 1024 * 1024, sl_max_checkpoints_per_session = 8,
     sl_max_checkpoint_bytes_per_session = 16 * 1024 * 1024, sl_max_resume_point_bytes = 512 * 1024,
     sl_max_resume_points_per_session = 8, sl_max_resume_bytes_per_session = 2 * 1024 * 1024,
     sl_max_resume_points_total = 10000, sl_max_resume_bytes_total = 128 * 1024 * 1024\<rparr>"

definition between :: "int \<Rightarrow> int \<Rightarrow> int \<Rightarrow> bool" where
  [guard_defs]: "between lo hi v \<longleftrightarrow> lo \<le> v \<and> v \<le> hi"

text \<open>The \<open>ge\<close> and \<open>le\<close> of the fields.\<close>

definition limits_in_range :: "SessionStoreLimits \<Rightarrow> bool" where
  [guard_defs]: "limits_in_range l \<longleftrightarrow>
     between 1 1000000 (sl_max_sessions l) \<and>
     between 1024 (32 * 1024 * 1024) (sl_max_transcript_payload_bytes l) \<and>
     between 1 1000000 (sl_max_transcript_events_per_session l) \<and>
     between 1 10000000 (sl_max_transcript_events_total l) \<and>
     between 1 1000000 (sl_max_run_claims_per_session l) \<and>
     between 1 10000000 (sl_max_run_claims_total l) \<and>
     between 1024 (32 * 1024 * 1024) (sl_max_checkpoint_state_bytes l) \<and>
     between 1 256 (sl_max_checkpoints_per_session l) \<and>
     between 1024 (128 * 1024 * 1024) (sl_max_checkpoint_bytes_per_session l) \<and>
     between 1024 (512 * 1024) (sl_max_resume_point_bytes l) \<and>
     between 1 256 (sl_max_resume_points_per_session l) \<and>
     between 1024 (128 * 1024 * 1024) (sl_max_resume_bytes_per_session l) \<and>
     between 1 1000000 (sl_max_resume_points_total l) \<and>
     between 1024 (1024 * 1024 * 1024) (sl_max_resume_bytes_total l)"

definition SessionStoreLimits_validate :: "SessionStoreLimits \<Rightarrow> SessionStoreLimits result" where
  "SessionStoreLimits_validate l =
     (if \<not> limits_in_range l then Raise (ValueError ''session store limit out of range'')
      else if sl_max_transcript_events_total l < sl_max_transcript_events_per_session l
      then Raise (ValueError ''max_transcript_events_total must cover the per-session limit'')
      else if sl_max_run_claims_total l < sl_max_run_claims_per_session l
      then Raise (ValueError ''max_run_claims_total must cover the per-session limit'')
      else if sl_max_checkpoint_bytes_per_session l < sl_max_checkpoint_state_bytes l
      then Raise (ValueError ''max_checkpoint_bytes_per_session must cover one checkpoint state'')
      else if sl_max_resume_bytes_per_session l < sl_max_resume_point_bytes l
      then Raise (ValueError ''max_resume_bytes_per_session must cover one resume point'')
      else if sl_max_resume_points_total l < sl_max_resume_points_per_session l
      then Raise (ValueError ''max_resume_points_total must cover the per-session limit'')
      else if sl_max_resume_bytes_total l < sl_max_resume_bytes_per_session l
      then Raise (ValueError ''max_resume_bytes_total must cover the per-session limit'')
      else Return l)"

section \<open>Enumerations and helpers\<close>

datatype SessionStatus = ACTIVE | WAITING_APPROVAL | COMPLETED | SESSION_FAILED | SESSION_CANCELLED

datatype SessionRunClaimState = ACQUIRED | RUN_ACTIVE | STALE

datatype RunStopOutcome = REQUESTED | ALREADY_REQUESTED | ALREADY_FINISHED | NOT_FOUND

datatype TranscriptEventType =
    USER_MESSAGE | ASSISTANT_MESSAGE | EVENT_TOOL_INTENT | TOOL_RESULT | APPROVAL_REQUESTED
  | APPROVAL_RESOLVED | STATUS | ERROR | CANCEL | MEMORY_INVALIDATED

fun event_type_value :: "TranscriptEventType \<Rightarrow> string" where
  "event_type_value USER_MESSAGE = ''user_message''"
| "event_type_value ASSISTANT_MESSAGE = ''assistant_message''"
| "event_type_value EVENT_TOOL_INTENT = ''tool_intent''"
| "event_type_value TOOL_RESULT = ''tool_result''"
| "event_type_value APPROVAL_REQUESTED = ''approval_requested''"
| "event_type_value APPROVAL_RESOLVED = ''approval_resolved''"
| "event_type_value STATUS = ''status''"
| "event_type_value ERROR = ''error''"
| "event_type_value CANCEL = ''cancel''"
| "event_type_value MEMORY_INVALIDATED = ''memory_invalidated''"

text \<open>\<open>payload.get(key)\<close> on a dictionary: a missing key and \<open>null\<close> are both \<open>None\<close>.\<close>

definition get_present :: "json \<Rightarrow> string \<Rightarrow> json option" where
  "get_present v key = (case json_get v key of Some JNull \<Rightarrow> None | r \<Rightarrow> r)"

definition is_object :: "json \<Rightarrow> bool" where
  "is_object v \<longleftrightarrow> (case v of JObj _ \<Rightarrow> True | _ \<Rightarrow> False)"

definition memory_invalidation_source :: "json \<Rightarrow> (string \<times> int) option result" where
  "memory_invalidation_source payload =
     (if \<not> is_object payload then Return None
      else case (get_present payload ''source_namespace'', get_present payload ''source_version'') of
             (None, None) \<Rightarrow> Return None
           | (Some (JStr namespace), Some (JInt version)) \<Rightarrow>
               if ID_PATTERN namespace \<and> 1 \<le> version then Return (Some (namespace, version))
               else Raise (ValueError ''source namespace and positive integer version must be supplied together'')
           | _ \<Rightarrow> Raise (ValueError ''source namespace and positive integer version must be supplied together''))"

definition finished_resume_run_id :: "TranscriptEventType \<Rightarrow> json \<Rightarrow> string option" where
  "finished_resume_run_id event_type payload =
     (if event_type \<notin> {ASSISTANT_MESSAGE, ERROR} \<or> \<not> is_object payload \<or>
         json_get payload ''run_status'' = Some (JStr ''cancelled'') then None
      else case json_get payload ''run_id'' of
             Some (JStr run_id) \<Rightarrow> if ID_PATTERN run_id then Some run_id else None
           | _ \<Rightarrow> None)"

definition validate_transcript_page :: "int \<Rightarrow> int option \<Rightarrow> unit result" where
  "validate_transcript_page limit before_sequence =
     (if \<not> (1 \<le> limit \<and> limit \<le> 1000)
      then Raise (ValueError ''transcript page limit must be between 1 and 1000'')
      else if (case before_sequence of None \<Rightarrow> False | Some b \<Rightarrow> b < 1)
      then Raise (ValueError ''before_sequence must be a positive integer'')
      else Return ())"

section \<open>Records\<close>

record SessionIdentity =
  si_tenant_id :: string
  si_product_id :: string
  si_agent_id :: string
  si_session_id :: string
  si_principal_id :: string

definition SessionIdentity_validate :: "SessionIdentity \<Rightarrow> SessionIdentity result" where
  "SessionIdentity_validate i =
     (if ID_PATTERN (si_tenant_id i) \<and> ID_PATTERN (si_product_id i) \<and> ID_PATTERN (si_agent_id i) \<and>
         ID_PATTERN (si_session_id i) \<and> ID_PATTERN (si_principal_id i)
      then Return i else Raise (ValueError ''invalid identifier''))"

record SessionRecord =
  sr_identity :: SessionIdentity
  sr_status :: SessionStatus
  sr_revision :: int
  sr_memory_invalidated_revision :: int
  sr_memory_source_versions :: "(string, int) dict"
  sr_created_at :: instant
  sr_updated_at :: instant

definition SessionRecord_validate :: "SessionRecord \<Rightarrow> SessionRecord result" where
  "SessionRecord_validate r =
     (if sr_revision r < 0 \<or> sr_memory_invalidated_revision r < 0
      then Raise (ValueError ''revision must not be negative'')
      else if sr_updated_at r < sr_created_at r
      then Raise (ValueError ''updated_at must not precede created_at'') else Return r)"

record RunResumePoint =
  rp_identity :: SessionIdentity
  rp_run_id :: string
  rp_payload :: json
  rp_memory_invalidated_revision :: int
  rp_memory_source_versions :: "(string, int) dict"
  rp_created_at :: instant

definition RunResumePoint_validate :: "RunResumePoint \<Rightarrow> RunResumePoint result" where
  "RunResumePoint_validate p =
     result_bind (SessionIdentity_validate (rp_identity p)) (\<lambda>_.
     if \<not> ID_PATTERN (rp_run_id p) then Raise (ValueError ''invalid run_id'')
     else if rp_memory_invalidated_revision p < 0 then Raise (ValueError ''revision must not be negative'')
     else if list_ex (\<lambda>(namespace, version). \<not> ID_PATTERN namespace \<or> version < 1) (rp_memory_source_versions p)
     then Raise (ValueError ''source versions must be positive integers'')
     else Return p)"

record TranscriptEvent =
  te_identity :: SessionIdentity
  te_event_id :: string
  te_sequence :: int
  te_revision :: int
  te_type :: TranscriptEventType
  te_payload :: json
  te_occurred_at :: instant
  te_idempotency_key :: "string option"

definition TranscriptEvent_validate :: "TranscriptEvent \<Rightarrow> TranscriptEvent result" where
  "TranscriptEvent_validate e =
     (if \<not> ID_PATTERN (te_event_id e) then Raise (ValueError ''invalid event_id'')
      else if te_sequence e < 1 \<or> te_revision e < 1 then Raise (ValueError ''must be positive'')
      else if \<not> opt_id_ok (te_idempotency_key e) then Raise (ValueError ''invalid idempotency_key'')
      else result_bind (canonical_json (te_payload e)) (\<lambda>_. Return e))"

record SessionCheckpoint =
  sc_identity :: SessionIdentity
  sc_checkpoint_id :: string
  sc_revision :: int
  sc_workflow_state :: json
  sc_last_event_sequence :: int
  sc_created_at :: instant
  sc_idempotency_key :: string

definition SessionCheckpoint_validate :: "SessionCheckpoint \<Rightarrow> SessionCheckpoint result" where
  "SessionCheckpoint_validate c =
     (if \<not> ID_PATTERN (sc_checkpoint_id c) then Raise (ValueError ''invalid checkpoint_id'')
      else if \<not> ID_PATTERN (sc_idempotency_key c) then Raise (ValueError ''invalid idempotency_key'')
      else if sc_revision c < 1 \<or> sc_last_event_sequence c < 0 then Raise (ValueError ''out of range'')
      else result_bind (canonical_json (sc_workflow_state c)) (\<lambda>_. Return c))"

record SessionSnapshot =
  sn_session :: SessionRecord
  sn_checkpoint :: "SessionCheckpoint option"
  sn_transcript :: "TranscriptEvent list"

section \<open>Recovery points\<close>

text \<open>
  \<open>re.sub(r"[^a-z0-9]", "", key.lower())\<close>. Besides the ASCII letters two code points have a lower
  case with an ASCII letter in it: U+0130 (dotted capital i) and U+212A (kelvin sign).
\<close>

fun folded_key :: "string \<Rightarrow> string" where
  "folded_key [] = []"
| "folded_key (c # cs) =
     (if is_lower c \<or> is_digit c then c # folded_key cs
      else if is_upper c then char_of (of_char c + (32 :: nat)) # folded_key cs
      else if c = CHR 0xC4 \<and> take 1 cs = [CHR 0xB0] then CHR ''i'' # folded_key cs
      else if c = CHR 0xE2 \<and> take 2 cs = [CHR 0x84, CHR 0xAA] then CHR ''k'' # folded_key cs
      else folded_key cs)"

definition forbidden_keys :: "string set" where
  "forbidden_keys = {''resultid'', ''resultreference'', ''approvaltoken'', ''approvalbinding'', ''approvalcredential'',
     ''accesstoken'', ''refreshtoken'', ''apikey'', ''authorization'', ''password'', ''secret'',
     ''clientsecret'', ''credential'', ''credentials'', ''grantid'', ''ownertoken'', ''privatekey'',
     ''approval'', ''token'', ''cookie''}"

fun unsafe_payload :: "json \<Rightarrow> bool" where
  "unsafe_payload (JObj kvs) = list_ex (\<lambda>kv. folded_key (fst kv) \<in> forbidden_keys \<or> unsafe_payload (snd kv)) kvs"
| "unsafe_payload (JList xs) = list_ex unsafe_payload xs"
| "unsafe_payload _ = False"

definition json_string :: "json option \<Rightarrow> string option" where
  "json_string v = (case v of Some (JStr s) \<Rightarrow> Some s | _ \<Rightarrow> None)"

definition json_strings :: "json list \<Rightarrow> string list" where
  "json_strings vs = List.map_filter (\<lambda>v. json_string (Some v)) vs"

definition json_int :: "json option \<Rightarrow> int option" where
  "json_int v = (case v of Some (JInt i) \<Rightarrow> Some i | _ \<Rightarrow> None)"

definition json_list :: "json option \<Rightarrow> json list option" where
  "json_list v = (case v of Some (JList xs) \<Rightarrow> Some xs | _ \<Rightarrow> None)"

definition has_sha :: "json option \<Rightarrow> bool" where
  "has_sha v \<longleftrightarrow> (case json_string v of None \<Rightarrow> False | Some s \<Rightarrow> SHA256 s)"

definition resumable_family :: "string \<Rightarrow> string option" where
  "resumable_family name =
     (if name \<in> {''suiteharness.fs.list'', ''suiteharness.fs.read'', ''suiteharness.fs.glob'', ''suiteharness.fs.grep''}
      then Some ''fs''
      else if name \<in> {''suiteharness.web.search'', ''suiteharness.web.fetch''} then Some ''web'' else None)"

definition parsed_time :: "(string \<Rightarrow> datetime option) \<Rightarrow> json option \<Rightarrow> instant option" where
  "parsed_time parse_iso v =
     (case json_string v of
        None \<Rightarrow> None
      | Some s \<Rightarrow> (case parse_iso s of Some (Aware t off) \<Rightarrow> Some (t - off) | _ \<Rightarrow> None))"

text \<open>The body of the loop over the observations; every exception ends the function with \<open>None\<close>.\<close>

definition resumable_observation :: "(string \<Rightarrow> datetime option) \<Rightarrow> json \<Rightarrow> bool" where
  "resumable_observation parse_iso ob \<longleftrightarrow>
     is_object ob \<and> json_get ob ''status'' = Some (JStr ''succeeded'') \<and> get_present ob ''failure'' = None \<and>
     json_get ob ''result'' \<noteq> None \<and>
     (case json_string (json_get ob ''tool_name'') of
        None \<Rightarrow> False
      | Some name \<Rightarrow>
          (case (resumable_family name, json_get ob ''tool_identity'') of
             (Some family, Some (JObj kvs)) \<Rightarrow>
               length kvs = 4 \<and> dict_get kvs ''namespace'' = Some (JStr ''suiteharness'') \<and>
               dict_get kvs ''name'' = Some (JStr name) \<and>
               dict_get kvs ''origin'' = Some (JStr (''suiteharness.builtin.'' @ family)) \<and>
               dict_get kvs ''version'' = Some (JStr ''1'')
           | _ \<Rightarrow> False)) \<and>
     (case (parsed_time parse_iso (json_get ob ''started_at''), parsed_time parse_iso (json_get ob ''finished_at'')) of
        (Some start, Some finish) \<Rightarrow> start \<le> finish
      | _ \<Rightarrow> False)"

definition resumable_state :: "(string \<Rightarrow> datetime option) \<Rightarrow> string \<Rightarrow> json \<Rightarrow> bool" where
  "resumable_state parse_iso run_id state \<longleftrightarrow>
     json_get state ''source_run_id'' = Some (JStr run_id) \<and> json_get state ''workflow_state'' \<noteq> None \<and>
     (case (json_int (json_get state ''iterations_used''), json_int (json_get state ''tool_calls_used''),
            json_list (json_get state ''observations''), json_list (json_get state ''call_ids'')) of
        (Some iterations, Some calls, Some observations, Some call_ids) \<Rightarrow>
          0 \<le> iterations \<and> iterations \<le> 10000 \<and> has_sha (json_get state ''prompt_digest'') \<and>
          (case json_string (json_get state ''route_key'') of
             None \<Rightarrow> False | Some key \<Rightarrow> 1 \<le> py_len key \<and> py_len key \<le> 4096) \<and>
          list_all (\<lambda>v. case v of JStr s \<Rightarrow> ID_PATTERN s | _ \<Rightarrow> False) call_ids \<and> distinct call_ids \<and>
          calls = int (length observations) \<and> length call_ids = length observations \<and>
          length observations \<le> 1024 \<and>
          (observations = [] \<or> (iterations \<noteq> 0 \<and> json_get state ''workflow_state'' \<noteq> Some JNull)) \<and>
          list_all (resumable_observation parse_iso) observations \<and>
          (case those (map (\<lambda>ob. json_string (json_get ob ''call_id'')) observations) of
             None \<Rightarrow> False | Some observed_ids \<Rightarrow> sort observed_ids = sort (json_strings call_ids))
      | _ \<Rightarrow> False)"

definition safe_resume_point :: "(string \<Rightarrow> datetime option) \<Rightarrow> RunResumePoint \<Rightarrow> RunResumePoint option" where
  "safe_resume_point parse_iso point =
     (let data = rp_payload point in
      if unsafe_payload data \<or> has_non_finite data \<or> 512 * 1024 < length (dumps data) then None
      else case RunResumePoint_validate point of
        Inl _ \<Rightarrow> None
      | Inr checked \<Rightarrow>
          if has_sha (json_get data ''message_digest'') \<and> json_get data ''input'' \<noteq> None \<and>
             (case json_get data ''conversation'' of
                Some c \<Rightarrow> json_list (json_get c ''messages'') \<noteq> None | None \<Rightarrow> False) \<and>
             (case json_get data ''resume_state'' of
                Some state \<Rightarrow> resumable_state parse_iso (rp_run_id point) state | None \<Rightarrow> False)
          then Some checked else None)"

end
