(* ===== verification/Session_Store.thy ===== *)
theory Session_Store
  imports Session_Models
begin

text \<open>
  \<^verbatim>\<open>src/suiteharness/sessions/memory.py\<close>: \<open>InMemorySessionStore\<close>. Every method body that touches
  the state runs under one lock, so an operation is a function on the store that returns its
  result or exception and the store it leaves. \<open>clock\<close> is the reading of the store's clock,
  \<open>now\<close> and \<open>later\<close> those of \<open>utc_now()\<close>; \<open>sha\<close> is the hash function, \<open>parse_iso\<close> and the size of
  a serialised point are as in \<open>Session_Models\<close>. Copies handed out (\<open>model_copy(deep=True)\<close>) are
  values. A lease is in microseconds, \<open>None\<close> when it is not a finite number.
\<close>

section \<open>State\<close>

datatype claim_state = ClaimActive | ClaimFinalizing | ClaimAbandoned

type_synonym run_claim = "string \<times> claim_state \<times> instant"

type_synonym session_key = "SessionIdentity \<times> string"

record InMemorySessionStore =
  ms_sessions :: "(SessionIdentity, SessionRecord) dict"
  ms_events :: "(SessionIdentity, TranscriptEvent list) dict"
  ms_checkpoints :: "(SessionIdentity, SessionCheckpoint list) dict"
  ms_event_idempotency :: "(session_key, string \<times> TranscriptEvent) dict"
  ms_event_ids :: "(session_key, TranscriptEvent) dict"
  ms_checkpoint_idempotency :: "(session_key, string \<times> SessionCheckpoint) dict"
  ms_run_claims :: "(session_key, run_claim) dict"
  ms_run_stops :: "session_key set"
  ms_resume_points :: "(session_key, RunResumePoint) dict"
  ms_resume_point_bytes :: "(session_key, nat) dict"
  ms_limits :: SessionStoreLimits

definition empty_store :: "SessionStoreLimits \<Rightarrow> InMemorySessionStore" where
  "empty_store limits = \<lparr>ms_sessions = [], ms_events = [], ms_checkpoints = [], ms_event_idempotency = [],
     ms_event_ids = [], ms_checkpoint_idempotency = [], ms_run_claims = [], ms_run_stops = {},
     ms_resume_points = [], ms_resume_point_bytes = [], ms_limits = limits\<rparr>"

text \<open>
  Subscripts of dictionaries. The entries are there whenever the code subscripts them, which is
  part of the invariant below.
\<close>

definition events_of :: "InMemorySessionStore \<Rightarrow> SessionIdentity \<Rightarrow> TranscriptEvent list" where
  "events_of st i = (case dict_get (ms_events st) i of None \<Rightarrow> [] | Some es \<Rightarrow> es)"

definition checkpoints_of :: "InMemorySessionStore \<Rightarrow> SessionIdentity \<Rightarrow> SessionCheckpoint list" where
  "checkpoints_of st i = (case dict_get (ms_checkpoints st) i of None \<Rightarrow> [] | Some cs \<Rightarrow> cs)"

definition point_bytes_of :: "InMemorySessionStore \<Rightarrow> session_key \<Rightarrow> int" where
  "point_bytes_of st k = (case dict_get (ms_resume_point_bytes st) k of None \<Rightarrow> 0 | Some n \<Rightarrow> int n)"

section \<open>Checks\<close>

text \<open>A check that may raise, before anything is changed.\<close>

definition after_check :: "'x result \<Rightarrow> 's \<Rightarrow> ('x \<Rightarrow> 'a result \<times> 's) \<Rightarrow> 'a result \<times> 's" where
  "after_check c st f = (case c of Inl e \<Rightarrow> (Raise e, st) | Inr x \<Rightarrow> f x)"

definition OWNER_TOKEN :: "string \<Rightarrow> bool" where
  "OWNER_TOKEN s \<longleftrightarrow> 32 \<le> length s \<and> length s \<le> 256 \<and>
     list_all (\<lambda>c. is_alnum c \<or> c = CHR ''_'' \<or> c = CHR ''-'') s"

definition session_require :: "InMemorySessionStore \<Rightarrow> SessionIdentity \<Rightarrow> SessionRecord result" where
  "session_require st i =
     (case dict_get (ms_sessions st) i of
        None \<Rightarrow> Raise (SessionNotFoundError ''session was not found for this identity'')
      | Some r \<Rightarrow> Return r)"

definition session_now :: "datetime \<Rightarrow> instant result" where
  "session_now clock =
     (case clock of
        Naive _ \<Rightarrow> Raise (ValueError ''session clock must return a timezone-aware datetime'')
      | Aware t off \<Rightarrow> Return (t - off))"

definition validate_run_id :: "string \<Rightarrow> unit result" where
  "validate_run_id run_id = (if ID_PATTERN run_id then Return () else Raise (ValueError ''invalid session run_id''))"

definition validate_run_claim :: "string \<Rightarrow> string \<Rightarrow> duration option \<Rightarrow> duration result" where
  "validate_run_claim run_id owner_token lease =
     result_bind (validate_run_id run_id) (\<lambda>_.
     if \<not> OWNER_TOKEN owner_token then Raise (ValueError ''invalid session run owner_token'')
     else case lease of
            None \<Rightarrow> Raise (ValueError ''session run lease_seconds must be in (0, 172800]'')
          | Some d \<Rightarrow>
              if d \<le> 0 \<or> 172800 * second < d
              then Raise (ValueError ''session run lease_seconds must be in (0, 172800]'') else Return d)"

definition validate_active_run_limit :: "int \<Rightarrow> unit result" where
  "validate_active_run_limit limit =
     (if 1 \<le> limit \<and> limit \<le> 1000 then Return ()
      else Raise (ValueError ''active run limit must be between 1 and 1000''))"

definition check_revision :: "SessionRecord \<Rightarrow> int option \<Rightarrow> unit result" where
  "check_revision r expected =
     (case expected of
        None \<Rightarrow> Return ()
      | Some e \<Rightarrow> if e \<noteq> sr_revision r then Raise (SessionRevisionConflictError e (sr_revision r)) else Return ())"

section \<open>Sessions and run claims\<close>

definition session_create ::
    "InMemorySessionStore \<Rightarrow> SessionIdentity \<Rightarrow> instant \<Rightarrow> instant \<Rightarrow> SessionRecord result \<times> InMemorySessionStore" where
  "session_create st i now later =
     (case dict_get (ms_sessions st) i of
        Some r \<Rightarrow> (Return r, st)
      | None \<Rightarrow>
          if sl_max_sessions (ms_limits st) \<le> int (length (ms_sessions st))
          then (Raise (SessionCapacityError ''session store reached max_sessions''), st)
          else after_check (SessionRecord_validate
            \<lparr>sr_identity = i, sr_status = ACTIVE, sr_revision = 0, sr_memory_invalidated_revision = 0,
             sr_memory_source_versions = [], sr_created_at = now, sr_updated_at = later\<rparr>) st (\<lambda>r.
            (Return r, st\<lparr>ms_sessions := dict_set i r (ms_sessions st), ms_events := dict_set i [] (ms_events st),
                          ms_checkpoints := dict_set i [] (ms_checkpoints st)\<rparr>)))"

definition session_get :: "InMemorySessionStore \<Rightarrow> SessionIdentity \<Rightarrow> SessionRecord option" where
  "session_get st i = dict_get (ms_sessions st) i"

definition claims_of :: "InMemorySessionStore \<Rightarrow> SessionIdentity \<Rightarrow> session_key list" where
  "claims_of st i = filter (\<lambda>k. fst k = i) (dict_keys (ms_run_claims st))"

definition claim_run ::
    "InMemorySessionStore \<Rightarrow> SessionIdentity \<Rightarrow> string \<Rightarrow> string \<Rightarrow> duration option \<Rightarrow> datetime \<Rightarrow>
     SessionRunClaimState result \<times> InMemorySessionStore" where
  "claim_run st i run_id owner_token lease clock =
     after_check (validate_run_claim run_id owner_token lease) st (\<lambda>d.
     after_check (session_now clock) st (\<lambda>now.
     after_check (session_require st i) st (\<lambda>_.
     case dict_get (ms_run_claims st) (i, run_id) of
       None \<Rightarrow>
         if sl_max_run_claims_per_session (ms_limits st) \<le> int (length (claims_of st i))
         then (Raise (SessionCapacityError ''session reached max_run_claims_per_session''), st)
         else if sl_max_run_claims_total (ms_limits st) \<le> int (length (ms_run_claims st))
         then (Raise (SessionCapacityError ''session store reached max_run_claims_total''), st)
         else (Return ACQUIRED,
               st\<lparr>ms_run_claims := dict_set (i, run_id) (owner_token, ClaimActive, now + d) (ms_run_claims st)\<rparr>)
     | Some (owner, state, expires_at) \<Rightarrow>
         if state \<noteq> ClaimAbandoned \<and> now < expires_at then (Return RUN_ACTIVE, st)
         else (Return STALE,
               if state \<noteq> ClaimAbandoned
               then st\<lparr>ms_run_claims := dict_set (i, run_id) (owner, ClaimAbandoned, expires_at) (ms_run_claims st)\<rparr>
               else st))))"

definition finalize_run ::
    "InMemorySessionStore \<Rightarrow> SessionIdentity \<Rightarrow> string \<Rightarrow> string \<Rightarrow> duration option \<Rightarrow> datetime \<Rightarrow>
     bool result \<times> InMemorySessionStore" where
  "finalize_run st i run_id owner_token lease clock =
     after_check (validate_run_claim run_id owner_token lease) st (\<lambda>d.
     after_check (session_now clock) st (\<lambda>now.
     after_check (session_require st i) st (\<lambda>_.
     case dict_get (ms_run_claims st) (i, run_id) of
       None \<Rightarrow> (Return False, st)
     | Some (owner, state, expires_at) \<Rightarrow>
         if owner \<noteq> owner_token \<or> state \<noteq> ClaimActive then (Return False, st)
         else (Return True,
               st\<lparr>ms_run_claims := dict_set (i, run_id) (owner_token, ClaimFinalizing, now + d) (ms_run_claims st)\<rparr>))))"

definition request_stop ::
    "InMemorySessionStore \<Rightarrow> SessionIdentity \<Rightarrow> string \<Rightarrow> datetime \<Rightarrow> RunStopOutcome result \<times> InMemorySessionStore" where
  "request_stop st i run_id clock =
     after_check (validate_run_id run_id) st (\<lambda>_.
     after_check (session_now clock) st (\<lambda>now.
     case dict_get (ms_run_claims st) (i, run_id) of
       None \<Rightarrow> (Return NOT_FOUND, st)
     | Some (owner, state, expires_at) \<Rightarrow>
         if state \<noteq> ClaimActive \<or> expires_at \<le> now then (Return ALREADY_FINISHED, st)
         else if (i, run_id) \<in> ms_run_stops st then (Return ALREADY_REQUESTED, st)
         else (Return REQUESTED, st\<lparr>ms_run_stops := insert (i, run_id) (ms_run_stops st)\<rparr>)))"

definition stop_requested :: "InMemorySessionStore \<Rightarrow> SessionIdentity \<Rightarrow> string \<Rightarrow> bool result" where
  "stop_requested st i run_id =
     result_bind (validate_run_id run_id) (\<lambda>_. Return ((i, run_id) \<in> ms_run_stops st))"

definition active_run_ids :: "InMemorySessionStore \<Rightarrow> SessionIdentity \<Rightarrow> int \<Rightarrow> datetime \<Rightarrow> string list result" where
  "active_run_ids st i limit clock =
     result_bind (validate_active_run_limit limit) (\<lambda>_.
     result_bind (session_now clock) (\<lambda>now.
     Return (take (nat limit) (map (\<lambda>(k, c). snd k)
       (filter (\<lambda>(k, (owner, state, expires_at)). fst k = i \<and> state = ClaimActive \<and> now < expires_at)
          (ms_run_claims st))))))"

section \<open>Recovery points\<close>

definition RESUME_POINT_TTL :: duration where "RESUME_POINT_TTL = 300 * second"

definition discard_resume_point :: "session_key \<Rightarrow> InMemorySessionStore \<Rightarrow> InMemorySessionStore" where
  "discard_resume_point k st = st\<lparr>ms_resume_points := dict_pop k (ms_resume_points st),
     ms_resume_point_bytes := dict_pop k (ms_resume_point_bytes st)\<rparr>"

definition expire_resume_points :: "instant \<Rightarrow> InMemorySessionStore \<Rightarrow> InMemorySessionStore" where
  "expire_resume_points now st =
     fold discard_resume_point
       (map fst (filter (\<lambda>(k, p). RESUME_POINT_TTL \<le> now - rp_created_at p) (ms_resume_points st))) st"

text \<open>The loop of \<open>_trim_resume_points\<close> over the keys, the oldest point first.\<close>

fun trim_loop ::
    "session_key \<Rightarrow> int \<Rightarrow> int \<Rightarrow> session_key list \<Rightarrow> int \<Rightarrow> int \<Rightarrow> InMemorySessionStore \<Rightarrow> InMemorySessionStore" where
  "trim_loop keep max_count max_bytes [] n bytes st = st"
| "trim_loop keep max_count max_bytes (k # ks) n bytes st =
     (if n \<le> max_count \<and> bytes \<le> max_bytes then st
      else if k \<noteq> keep
      then trim_loop keep max_count max_bytes ks (n - 1) (bytes - point_bytes_of st k) (discard_resume_point k st)
      else trim_loop keep max_count max_bytes ks n bytes st)"

definition trim_scope ::
    "session_key \<Rightarrow> SessionIdentity option \<Rightarrow> int \<Rightarrow> int \<Rightarrow> InMemorySessionStore \<Rightarrow> InMemorySessionStore" where
  "trim_scope keep scope max_count max_bytes st =
     (let entries = filter (\<lambda>(k, p). scope = None \<or> scope = Some (fst k)) (ms_resume_points st);
          keys = map fst (sort_key (\<lambda>(k, p). rp_created_at p) entries)
      in trim_loop keep max_count max_bytes keys (int (length keys))
           (sum_list (map (point_bytes_of st) keys)) st)"

definition trim_resume_points :: "SessionIdentity \<Rightarrow> session_key \<Rightarrow> InMemorySessionStore \<Rightarrow> InMemorySessionStore" where
  "trim_resume_points i keep st =
     (let l = ms_limits st in
      trim_scope keep None (sl_max_resume_points_total l) (sl_max_resume_bytes_total l)
        (trim_scope keep (Some i) (sl_max_resume_points_per_session l) (sl_max_resume_bytes_per_session l) st))"

text \<open>The conditions under which a point is kept; \<open>!=\<close> of dictionaries ignores their order.\<close>

definition point_current :: "InMemorySessionStore \<Rightarrow> RunResumePoint \<Rightarrow> instant \<Rightarrow> bool" where
  "point_current st p now \<longleftrightarrow>
     (let key = (rp_identity p, rp_run_id p) in
      (case dict_get (ms_run_claims st) key of
         None \<Rightarrow> False
       | Some (owner, state, expires_at) \<Rightarrow> state = ClaimActive \<and> now < expires_at) \<and>
      key \<notin> ms_run_stops st \<and>
      (case dict_get (ms_sessions st) (rp_identity p) of
         None \<Rightarrow> False
       | Some r \<Rightarrow> rp_memory_invalidated_revision p = sr_memory_invalidated_revision r \<and>
           set (rp_memory_source_versions p) = set (sr_memory_source_versions r)) \<and>
      0 \<le> now - rp_created_at p \<and> now - rp_created_at p < RESUME_POINT_TTL \<and>
      (case dict_get (ms_resume_points st) key of
         None \<Rightarrow> True | Some prior \<Rightarrow> rp_created_at prior \<le> rp_created_at p))"

definition save_resume_point ::
    "(string \<Rightarrow> datetime option) \<Rightarrow> (RunResumePoint \<Rightarrow> nat) \<Rightarrow> InMemorySessionStore \<Rightarrow> SessionIdentity \<Rightarrow>
     RunResumePoint \<Rightarrow> datetime \<Rightarrow> RunResumePoint option result \<times> InMemorySessionStore" where
  "save_resume_point parse_iso size_of st i point clock =
     (case safe_resume_point parse_iso point of
        None \<Rightarrow> (Return None, st)
      | Some checked \<Rightarrow>
          if rp_identity checked \<noteq> i \<or> sl_max_resume_point_bytes (ms_limits st) < int (size_of checked)
          then (Return None, st)
          else after_check (session_now clock) st (\<lambda>now.
            let st1 = expire_resume_points now st; key = (i, rp_run_id checked) in
            if \<not> point_current st1 checked now then (Return None, st1)
            else (Return (Some checked),
                  trim_resume_points i key
                    (st1\<lparr>ms_resume_points := dict_set key checked (ms_resume_points st1),
                         ms_resume_point_bytes := dict_set key (size_of checked) (ms_resume_point_bytes st1)\<rparr>))))"

definition get_resume_point ::
    "InMemorySessionStore \<Rightarrow> SessionIdentity \<Rightarrow> string \<Rightarrow> datetime \<Rightarrow>
     RunResumePoint option result \<times> InMemorySessionStore" where
  "get_resume_point st i run_id clock =
     after_check (validate_run_id run_id) st (\<lambda>_.
     after_check (session_now clock) st (\<lambda>now.
     let st1 = expire_resume_points now st in
     (Return (case dict_get (ms_resume_points st1) (i, run_id) of
        None \<Rightarrow> None
      | Some p \<Rightarrow> if 0 \<le> now - rp_created_at p \<and> now - rp_created_at p < RESUME_POINT_TTL then Some p else None),
      st1)))"

section \<open>The transcript\<close>

definition fingerprint_of :: "(string \<Rightarrow> string) \<Rightarrow> TranscriptEventType \<Rightarrow> json \<Rightarrow> string" where
  "fingerprint_of sha event_type payload =
     sha (dumps (JObj [(''type'', JStr (event_type_value event_type)), (''payload'', payload)]))"

definition events_total :: "InMemorySessionStore \<Rightarrow> nat" where
  "events_total st = sum_list (map (length \<circ> snd) (ms_events st))"

text \<open>The record of a session after an event, and the state with the event stored.\<close>

definition record_after :: "SessionRecord \<Rightarrow> (string \<times> int) option \<Rightarrow> TranscriptEvent \<Rightarrow> SessionRecord" where
  "record_after r source event =
     r\<lparr>sr_revision := te_revision event,
       sr_memory_invalidated_revision :=
         (if te_type event = MEMORY_INVALIDATED then te_revision event else sr_memory_invalidated_revision r),
       sr_memory_source_versions :=
         (case source of
            None \<Rightarrow> sr_memory_source_versions r
          | Some (namespace, version) \<Rightarrow> dict_set namespace version (sr_memory_source_versions r)),
       sr_updated_at := max (sr_updated_at r) (te_occurred_at event)\<rparr>"

definition store_event ::
    "InMemorySessionStore \<Rightarrow> SessionRecord \<Rightarrow> (string \<times> int) option \<Rightarrow> string \<Rightarrow> TranscriptEvent \<Rightarrow> InMemorySessionStore" where
  "store_event st r source fingerprint event =
     (let i = te_identity event in
      st\<lparr>ms_events := dict_set i (events_of st i @ [event]) (ms_events st),
         ms_event_ids := dict_set (i, te_event_id event) event (ms_event_ids st),
         ms_event_idempotency :=
           (case te_idempotency_key event of
              None \<Rightarrow> ms_event_idempotency st
            | Some key \<Rightarrow> dict_set (i, key) (fingerprint, event) (ms_event_idempotency st)),
         ms_sessions := dict_set i (record_after r source event) (ms_sessions st)\<rparr>)"

text \<open>
  The body of \<open>append\<close> from the revision check on. When the clock is naive the event has been
  stored before the exception.
\<close>

definition append_new ::
    "(string \<Rightarrow> string) \<Rightarrow> InMemorySessionStore \<Rightarrow> SessionRecord \<Rightarrow> (string \<times> int) option \<Rightarrow> string \<Rightarrow>
     TranscriptEventType \<Rightarrow> json \<Rightarrow> string option \<Rightarrow> int option \<Rightarrow> datetime option \<Rightarrow> instant \<Rightarrow> datetime \<Rightarrow>
     TranscriptEvent result \<times> InMemorySessionStore" where
  "append_new sha st r source event_id event_type payload idempotency_key expected_revision occurred_at now clock =
     after_check (check_revision r expected_revision) st (\<lambda>_.
     let i = sr_identity r; events = events_of st i in
     if sl_max_transcript_events_per_session (ms_limits st) \<le> int (length events)
     then (Raise (SessionCapacityError ''session reached max_transcript_events_per_session''), st)
     else if sl_max_transcript_events_total (ms_limits st) \<le> int (events_total st)
     then (Raise (SessionCapacityError ''session store reached max_transcript_events_total''), st)
     else after_check (result_bind (case occurred_at of None \<Rightarrow> Return now | Some t \<Rightarrow> utc t ''occurred_at'') (\<lambda>at.
       TranscriptEvent_validate
         \<lparr>te_identity = i, te_event_id = event_id, te_sequence = int (length events) + 1,
          te_revision = sr_revision r + 1, te_type = event_type, te_payload = payload,
          te_occurred_at = at, te_idempotency_key = idempotency_key\<rparr>)) st (\<lambda>event.
       let st1 = store_event st r source (fingerprint_of sha event_type payload) event in
       after_check (session_now clock) st1 (\<lambda>current.
         let st2 = expire_resume_points current st1 in
         (Return event,
          case finished_resume_run_id event_type payload of
            None \<Rightarrow> st2 | Some run_id \<Rightarrow> discard_resume_point (i, run_id) st2))))"

text \<open>\<open>source is not None and source[1] <= record.memory_source_versions.get(source[0], 0)\<close>.\<close>

definition source_known :: "SessionRecord \<Rightarrow> (string \<times> int) option \<Rightarrow> bool" where
  "source_known r source =
     (case source of
        None \<Rightarrow> False
      | Some (namespace, version) \<Rightarrow>
          version \<le> (case dict_get (sr_memory_source_versions r) namespace of None \<Rightarrow> 0 | Some v \<Rightarrow> v))"

definition session_append ::
    "(string \<Rightarrow> string) \<Rightarrow> InMemorySessionStore \<Rightarrow> SessionIdentity \<Rightarrow> string \<Rightarrow> TranscriptEventType \<Rightarrow> json \<Rightarrow>
     string option \<Rightarrow> int option \<Rightarrow> datetime option \<Rightarrow> instant \<Rightarrow> datetime \<Rightarrow>
     TranscriptEvent result \<times> InMemorySessionStore" where
  "session_append sha st i event_id event_type payload idempotency_key expected_revision occurred_at now clock =
     after_check (if event_type = MEMORY_INVALIDATED then memory_invalidation_source payload else Return None) st (\<lambda>source.
     after_check (canonical_json payload) st (\<lambda>payload_bytes.
     if sl_max_transcript_payload_bytes (ms_limits st) < int (length payload_bytes)
     then (Raise (SessionPayloadTooLargeError ''transcript payload exceeds max_transcript_payload_bytes''), st)
     else after_check (session_require st i) st (\<lambda>r.
       case Option.bind idempotency_key (\<lambda>key. dict_get (ms_event_idempotency st) (i, key)) of
         Some (fingerprint, event) \<Rightarrow>
           if fingerprint \<noteq> fingerprint_of sha event_type payload
           then (Raise (SessionIdempotencyConflictError ''event idempotency key was reused with different content''), st)
           else (Return event, st)
       | None \<Rightarrow>
           if source_known r source
           then (case find (\<lambda>e. te_revision e = sr_memory_invalidated_revision r) (events_of st i) of
                   None \<Rightarrow> (Raise (RuntimeError ''coroutine raised StopIteration''), st)
                 | Some e \<Rightarrow> (Return e, st))
           else if dict_get (ms_event_ids st) (i, event_id) \<noteq> None
           then (Raise (SessionIdempotencyConflictError ''event_id already exists in this session''), st)
           else append_new sha st r source event_id event_type payload idempotency_key expected_revision
                  occurred_at now clock)))"

section \<open>Checkpoints, status and reading\<close>

definition state_bytes :: "SessionCheckpoint \<Rightarrow> int" where
  "state_bytes c = int (length (dumps (sc_workflow_state c)))"

text \<open>The loop of \<open>_prune_checkpoints\<close>: the oldest checkpoint goes first.\<close>

fun prune_checkpoints ::
    "SessionStoreLimits \<Rightarrow> SessionIdentity \<Rightarrow> SessionCheckpoint list \<Rightarrow> (session_key, string \<times> SessionCheckpoint) dict \<Rightarrow>
     SessionCheckpoint list \<times> (session_key, string \<times> SessionCheckpoint) dict" where
  "prune_checkpoints l i [] idem = ([], idem)"
| "prune_checkpoints l i (c # cs) idem =
     (if sl_max_checkpoints_per_session l < int (length (c # cs)) \<or>
         sl_max_checkpoint_bytes_per_session l < sum_list (map state_bytes (c # cs))
      then prune_checkpoints l i cs
             (case dict_get idem (i, sc_idempotency_key c) of
                Some (fingerprint, prior) \<Rightarrow>
                  if sc_checkpoint_id prior = sc_checkpoint_id c then dict_pop (i, sc_idempotency_key c) idem else idem
              | None \<Rightarrow> idem)
      else (c # cs, idem))"

definition checkpoint_new ::
    "(string \<Rightarrow> string) \<Rightarrow> InMemorySessionStore \<Rightarrow> SessionRecord \<Rightarrow> SessionIdentity \<Rightarrow> string \<Rightarrow> json \<Rightarrow> int \<Rightarrow> string \<Rightarrow>
     instant \<Rightarrow> SessionCheckpoint result \<times> InMemorySessionStore" where
  "checkpoint_new sha st r i checkpoint_id workflow_state expected_revision idempotency_key now =
     (if list_ex (\<lambda>c. sc_checkpoint_id c = checkpoint_id) (checkpoints_of st i)
      then (Raise (SessionIdempotencyConflictError ''checkpoint_id already exists in this session''), st)
      else after_check (check_revision r (Some expected_revision)) st (\<lambda>_.
      after_check (SessionCheckpoint_validate
        \<lparr>sc_identity = i, sc_checkpoint_id = checkpoint_id, sc_revision = sr_revision r + 1,
         sc_workflow_state = workflow_state, sc_last_event_sequence = int (length (events_of st i)),
         sc_created_at = now, sc_idempotency_key = idempotency_key\<rparr>) st (\<lambda>c.
        case prune_checkpoints (ms_limits st) i (checkpoints_of st i @ [c])
               (dict_set (i, idempotency_key) (sha (dumps workflow_state), c) (ms_checkpoint_idempotency st)) of
          (cs, idem) \<Rightarrow>
            (Return c, st\<lparr>ms_checkpoints := dict_set i cs (ms_checkpoints st), ms_checkpoint_idempotency := idem,
               ms_sessions := dict_set i (r\<lparr>sr_revision := sc_revision c, sr_updated_at := now\<rparr>)
                 (ms_sessions st)\<rparr>))))"

definition save_checkpoint ::
    "(string \<Rightarrow> string) \<Rightarrow> InMemorySessionStore \<Rightarrow> SessionIdentity \<Rightarrow> string \<Rightarrow> json \<Rightarrow> int \<Rightarrow> string \<Rightarrow> instant \<Rightarrow>
     SessionCheckpoint result \<times> InMemorySessionStore" where
  "save_checkpoint sha st i checkpoint_id workflow_state expected_revision idempotency_key now =
     after_check (canonical_json workflow_state) st (\<lambda>bytes.
     if sl_max_checkpoint_state_bytes (ms_limits st) < int (length bytes)
     then (Raise (SessionPayloadTooLargeError ''checkpoint state exceeds max_checkpoint_state_bytes''), st)
     else after_check (session_require st i) st (\<lambda>r.
       case dict_get (ms_checkpoint_idempotency st) (i, idempotency_key) of
         Some (fingerprint, c) \<Rightarrow>
           if fingerprint \<noteq> sha bytes
           then (Raise (SessionIdempotencyConflictError ''checkpoint idempotency key was reused with different state''), st)
           else (Return c, st)
       | None \<Rightarrow>
           checkpoint_new sha st r i checkpoint_id workflow_state expected_revision idempotency_key now))"

definition set_status ::
    "InMemorySessionStore \<Rightarrow> SessionIdentity \<Rightarrow> SessionStatus \<Rightarrow> int \<Rightarrow> instant \<Rightarrow>
     SessionRecord result \<times> InMemorySessionStore" where
  "set_status st i status expected_revision now =
     after_check (session_require st i) st (\<lambda>r.
     after_check (check_revision r (Some expected_revision)) st (\<lambda>_.
     let updated = r\<lparr>sr_status := status, sr_revision := sr_revision r + 1, sr_updated_at := now\<rparr> in
     (Return updated, st\<lparr>ms_sessions := dict_set i updated (ms_sessions st)\<rparr>)))"

definition session_resume :: "InMemorySessionStore \<Rightarrow> SessionIdentity \<Rightarrow> SessionSnapshot option" where
  "session_resume st i =
     (case dict_get (ms_sessions st) i of
        None \<Rightarrow> None
      | Some r \<Rightarrow>
          let checkpoints = checkpoints_of st i;
              checkpoint = (if checkpoints = [] then None else Some (last checkpoints));
              after = (case checkpoint of None \<Rightarrow> 0 | Some c \<Rightarrow> sc_last_event_sequence c)
          in Some \<lparr>sn_session = r, sn_checkpoint = checkpoint,
                   sn_transcript = filter (\<lambda>e. after < te_sequence e) (events_of st i)\<rparr>)"

text \<open>\<open>events[-limit:]\<close> and \<open>events[max(0, end - limit):end]\<close>.\<close>

definition recent_transcript :: "InMemorySessionStore \<Rightarrow> SessionIdentity \<Rightarrow> int \<Rightarrow> TranscriptEvent list result" where
  "recent_transcript st i limit =
     (if limit < 1 \<or> 1000 < limit then Raise (ValueError ''recent transcript limit must be between 1 and 1000'')
      else result_bind (session_require st i) (\<lambda>_.
        let events = events_of st i in Return (drop (length events - nat limit) events)))"

definition transcript_page ::
    "InMemorySessionStore \<Rightarrow> SessionIdentity \<Rightarrow> int \<Rightarrow> int option \<Rightarrow> TranscriptEvent list result" where
  "transcript_page st i limit before_sequence =
     result_bind (validate_transcript_page limit before_sequence) (\<lambda>_.
     result_bind (session_require st i) (\<lambda>_.
     let events = events_of st i;
         upto = (case before_sequence of None \<Rightarrow> int (length events) | Some b \<Rightarrow> min (int (length events)) (b - 1));
         from = max 0 (upto - limit)
     in Return (take (nat (upto - from)) (drop (nat from) events))))"

end
