(* ===== verification/Session_Laws.thy ===== *)
theory Session_Laws
  imports Session_Store
begin

text \<open>
  The laws of the session store: what holds in every state that any sequence of operations,
  by any number of tasks, can reach.
\<close>

section \<open>Sequences of operations\<close>

datatype session_op =
    CreateOp SessionIdentity instant instant
  | ClaimOp SessionIdentity string string "duration option" datetime
  | FinalizeOp SessionIdentity string string "duration option" datetime
  | StopOp SessionIdentity string datetime
  | SavePointOp SessionIdentity RunResumePoint datetime
  | GetPointOp SessionIdentity string datetime
  | AppendOp SessionIdentity string TranscriptEventType json "string option" "int option" "datetime option" instant datetime
  | CheckpointOp SessionIdentity string json int string instant
  | StatusOp SessionIdentity SessionStatus int instant

datatype session_out =
    RecordOut "SessionRecord result"
  | ClaimOut "SessionRunClaimState result"
  | FinalizeOut "bool result"
  | StopOut "RunStopOutcome result"
  | PointOut "RunResumePoint option result"
  | EventOut "TranscriptEvent result"
  | CheckpointOut "SessionCheckpoint result"

text \<open>The functions of the surrounding: the hash, the parser of timestamps and the size of a point.\<close>

record session_env =
  en_sha :: "string \<Rightarrow> string"
  en_parse_iso :: "string \<Rightarrow> datetime option"
  en_size_of :: "RunResumePoint \<Rightarrow> nat"

fun session_step ::
    "session_env \<Rightarrow> InMemorySessionStore \<Rightarrow> session_op \<Rightarrow> session_out \<times> InMemorySessionStore" where
  "session_step env st (CreateOp i now later) = map_prod RecordOut id (session_create st i now later)"
| "session_step env st (ClaimOp i run owner lease clock) = map_prod ClaimOut id (claim_run st i run owner lease clock)"
| "session_step env st (FinalizeOp i run owner lease clock) =
     map_prod FinalizeOut id (finalize_run st i run owner lease clock)"
| "session_step env st (StopOp i run clock) = map_prod StopOut id (request_stop st i run clock)"
| "session_step env st (SavePointOp i p clock) =
     map_prod PointOut id (save_resume_point (en_parse_iso env) (en_size_of env) st i p clock)"
| "session_step env st (GetPointOp i run clock) = map_prod PointOut id (get_resume_point st i run clock)"
| "session_step env st (AppendOp i eid ty payload key expected occ now clock) =
     map_prod EventOut id (session_append (en_sha env) st i eid ty payload key expected occ now clock)"
| "session_step env st (CheckpointOp i cid ws expected key now) =
     map_prod CheckpointOut id (save_checkpoint (en_sha env) st i cid ws expected key now)"
| "session_step env st (StatusOp i status expected now) = map_prod RecordOut id (set_status st i status expected now)"

text \<open>Any number of steps of an object, one after the other.\<close>

fun run_with :: "('s \<Rightarrow> 'o \<Rightarrow> 'r \<times> 's) \<Rightarrow> 's \<Rightarrow> 'o list \<Rightarrow> 'r list \<times> 's" where
  "run_with step s [] = ([], s)"
| "run_with step s (op # ops) =
     (let out = step s op; rest = run_with step (snd out) ops in (fst out # fst rest, snd rest))"

abbreviation session_run ::
    "session_env \<Rightarrow> InMemorySessionStore \<Rightarrow> session_op list \<Rightarrow> session_out list \<times> InMemorySessionStore" where
  "session_run env \<equiv> run_with (session_step env)"

lemma run_with_append:
  "run_with step s (ops @ ops') =
     (fst (run_with step s ops) @ fst (run_with step (snd (run_with step s ops)) ops'),
      snd (run_with step (snd (run_with step s ops)) ops'))"
  by (induction ops arbitrary: s) (simp_all add: Let_def)

lemma run_with_length [simp]: "length (fst (run_with step s ops)) = length ops"
  by (induction ops arbitrary: s) (simp_all add: Let_def)

text \<open>A property that every operation keeps holds after every sequence of operations.\<close>

lemma run_with_keeps:
  assumes "\<And>s op. P s \<Longrightarrow> P (snd (step s op))" and "P s"
  shows "P (snd (run_with step s ops))"
  using assms(2) by (induction ops arbitrary: s) (simp_all add: assms(1) Let_def)

text \<open>The answers that a question picks from a run.\<close>

definition picked :: "('o \<Rightarrow> 'r \<Rightarrow> 'k option) \<Rightarrow> 'o list \<Rightarrow> 'r list \<Rightarrow> 'k list" where
  "picked f ops outs = List.map_filter (\<lambda>(op, out). f op out) (zip ops outs)"

lemma picked_simps [simp]:
  "picked f [] outs = []"
  "picked f (op # ops) (out # outs) = (case f op out of None \<Rightarrow> [] | Some k \<Rightarrow> [k]) @ picked f ops outs"
  by (auto simp: picked_def List.map_filter_simps split: option.splits)

lemma map_picked: "map g (picked f ops outs) = picked (\<lambda>op out. map_option g (f op out)) ops outs"
  by (induction ops outs rule: list_induct2') (auto simp: picked_def List.map_filter_simps split: option.splits)

section \<open>Keys that are granted once\<close>

text \<open>
  The contract behind the run claims: a key is granted only while it is not taken, is taken from
  then on, and never becomes free again. Then no sequence of operations grants it twice.
\<close>

locale granted_once =
  fixes step :: "'s \<Rightarrow> 'o \<Rightarrow> 'r \<times> 's" and granted :: "'o \<Rightarrow> 'r \<Rightarrow> 'k option" and taken :: "'s \<Rightarrow> 'k \<Rightarrow> bool"
  assumes granted_fresh: "granted op (fst (step s op)) = Some k \<Longrightarrow> \<not> taken s k"
    and granted_taken: "granted op (fst (step s op)) = Some k \<Longrightarrow> taken (snd (step s op)) k"
    and taken_stays: "taken s k \<Longrightarrow> taken (snd (step s op)) k"
begin

lemma taken_after: "taken s k \<Longrightarrow> taken (snd (run_with step s ops)) k"
  by (rule run_with_keeps) (simp_all add: taken_stays)

lemma not_granted_again: "taken s k \<Longrightarrow> k \<notin> set (picked granted ops (fst (run_with step s ops)))"
proof (induction ops arbitrary: s)
  case (Cons op ops)
  then show ?case
    using granted_fresh [of op s] taken_stays [of s k op] by (auto simp: Let_def split: option.splits)
qed simp

lemma granted_distinct: "distinct (picked granted ops (fst (run_with step s ops)))"
proof (induction ops arbitrary: s)
  case (Cons op ops)
  then show ?case
    using not_granted_again granted_taken [of op s] by (auto simp: Let_def split: option.splits)
qed simp

end

section \<open>What the operations leave alone\<close>

lemma after_check_simps [simp]:
  "after_check (Inl e) st f = (Raise e, st)" "after_check (Inr x) st f = f x"
  by (simp_all add: after_check_def)

lemma after_check_split:
  "P (after_check c st f) \<longleftrightarrow> (\<forall>e. c = Inl e \<longrightarrow> P (Raise e, st)) \<and> (\<forall>x. c = Inr x \<longrightarrow> P (f x))"
  by (simp add: after_check_def split: sum.split)

lemma after_check_split_asm:
  "P (after_check c st f) \<longleftrightarrow> \<not> ((\<exists>e. c = Inl e \<and> \<not> P (Raise e, st)) \<or> (\<exists>x. c = Inr x \<and> \<not> P (f x)))"
  by (simp add: after_check_def split: sum.split)

lemmas after_check_splits = after_check_split after_check_split_asm

text \<open>To show something of the state an operation leaves, it is enough to look past its checks.\<close>

lemma after_check_snd:
  "Q st \<Longrightarrow> (\<And>x. c = Inr x \<Longrightarrow> Q (snd (f x))) \<Longrightarrow> Q (snd (after_check c st f))"
  by (simp split: after_check_split)

lemma after_check_passed:
  "after_check c st f = (out, st') \<Longrightarrow> \<not> (\<exists>e. out = Raise e \<and> st' = st) \<Longrightarrow> \<exists>x. c = Inr x \<and> f x = (out, st')"
  by (auto split: after_check_splits)

lemma if_snd: "(b \<Longrightarrow> Q (snd x)) \<Longrightarrow> (\<not> b \<Longrightarrow> Q (snd y)) \<Longrightarrow> Q (snd (if b then x else y))"
  by simp

lemmas check_splits = sum.split option.split prod.split if_split

lemma discard_frame [simp, frame]:
  "ms_sessions (discard_resume_point k st) = ms_sessions st" "ms_events (discard_resume_point k st) = ms_events st"
  "ms_checkpoints (discard_resume_point k st) = ms_checkpoints st"
  "ms_event_idempotency (discard_resume_point k st) = ms_event_idempotency st"
  "ms_event_ids (discard_resume_point k st) = ms_event_ids st"
  "ms_checkpoint_idempotency (discard_resume_point k st) = ms_checkpoint_idempotency st"
  "ms_run_claims (discard_resume_point k st) = ms_run_claims st"
  "ms_run_stops (discard_resume_point k st) = ms_run_stops st"
  "ms_limits (discard_resume_point k st) = ms_limits st"
  by (simp_all add: discard_resume_point_def)

text \<open>Everything but the recovery points.\<close>

definition durable :: "InMemorySessionStore \<Rightarrow> InMemorySessionStore" where
  "durable st = st\<lparr>ms_resume_points := [], ms_resume_point_bytes := []\<rparr>"

lemma durable_sel [simp]:
  "ms_sessions (durable st) = ms_sessions st" "ms_events (durable st) = ms_events st"
  "ms_checkpoints (durable st) = ms_checkpoints st" "ms_event_idempotency (durable st) = ms_event_idempotency st"
  "ms_event_ids (durable st) = ms_event_ids st"
  "ms_checkpoint_idempotency (durable st) = ms_checkpoint_idempotency st"
  "ms_run_claims (durable st) = ms_run_claims st" "ms_run_stops (durable st) = ms_run_stops st"
  "ms_limits (durable st) = ms_limits st" "durable (durable st) = durable st"
  by (simp_all add: durable_def)

lemma durable_discard [simp]: "durable (discard_resume_point k st) = durable st"
  by (simp add: durable_def discard_resume_point_def)

lemma durable_expire [simp]: "durable (expire_resume_points now st) = durable st"
proof -
  have "durable (fold discard_resume_point ks s) = durable s" for ks s
    by (induction ks arbitrary: s) simp_all
  then show ?thesis by (simp add: expire_resume_points_def)
qed

lemma durable_trim_loop [simp]: "durable (trim_loop keep mc mb ks n b st) = durable st"
  by (induction keep mc mb ks n b st rule: trim_loop.induct) simp_all

lemma durable_trim [simp]: "durable (trim_resume_points i k st) = durable st"
  by (simp add: trim_resume_points_def trim_scope_def Let_def)

lemma durable_points [simp]: "durable (st\<lparr>ms_resume_points := ps, ms_resume_point_bytes := bs\<rparr>) = durable st"
  by (simp add: durable_def)

lemma durable_points_ops:
  "durable (snd (save_resume_point p sz st i pt clock)) = durable st"
  "durable (snd (get_resume_point st i run clock)) = durable st"
  by (auto simp: save_resume_point_def get_resume_point_def after_check_def Let_def split: check_splits)

section \<open>The ways an append ends\<close>

text \<open>The event that an append would store.\<close>

definition new_event ::
    "InMemorySessionStore \<Rightarrow> SessionRecord \<Rightarrow> string \<Rightarrow> TranscriptEventType \<Rightarrow> json \<Rightarrow> string option \<Rightarrow> instant \<Rightarrow>
     TranscriptEvent" where
  "new_event st r event_id event_type payload key at =
     \<lparr>te_identity = sr_identity r, te_event_id = event_id, te_sequence = int (length (events_of st (sr_identity r))) + 1,
      te_revision = sr_revision r + 1, te_type = event_type, te_payload = payload,
      te_occurred_at = at, te_idempotency_key = key\<rparr>"

lemma new_event_sel [simp]:
  "te_identity (new_event st r eid ty payload key at) = sr_identity r"
  "te_event_id (new_event st r eid ty payload key at) = eid"
  "te_sequence (new_event st r eid ty payload key at) = int (length (events_of st (sr_identity r))) + 1"
  "te_revision (new_event st r eid ty payload key at) = sr_revision r + 1"
  "te_type (new_event st r eid ty payload key at) = ty" "te_payload (new_event st r eid ty payload key at) = payload"
  "te_idempotency_key (new_event st r eid ty payload key at) = key"
  by (simp_all add: new_event_def)

lemma validated_event:
  "result_bind c (\<lambda>at. TranscriptEvent_validate (f at)) = Inr event \<Longrightarrow> \<exists>at. event = f at"
  by (auto simp: TranscriptEvent_validate_def result_bind_def split: if_splits sum.splits)

lemma append_new_cases:
  assumes "append_new sha st r source eid ty payload key expected occ now clock = (out, st')"
  obtains (refused) e where "out = Raise e" "st' = st"
  | (stored) at event where "event = new_event st r eid ty payload key at"
      "int (length (events_of st (sr_identity r))) < sl_max_transcript_events_per_session (ms_limits st)"
      "int (events_total st) < sl_max_transcript_events_total (ms_limits st)"
      "durable st' = durable (store_event st r source (fingerprint_of sha ty payload) event)"
      "out = Return event \<or> (\<exists>e. out = Raise e)"
proof -
  let ?at = "case occ of None \<Rightarrow> Return now | Some t \<Rightarrow> utc t ''occurred_at''"
  let ?room = "int (length (events_of st (sr_identity r))) < sl_max_transcript_events_per_session (ms_limits st) \<and>
    int (events_total st) < sl_max_transcript_events_total (ms_limits st)"
  obtain built where
    built: "result_bind ?at (\<lambda>at. TranscriptEvent_validate (new_event st r eid ty payload key at)) = built"
    by blast
  note body = assms [unfolded append_new_def Let_def new_event_def [symmetric] built]
  show thesis
  proof (cases built)
    case (Inl e)
    then show thesis using body refused by (auto split: after_check_splits if_splits)
  next
    case (Inr event)
    then obtain at where at: "event = new_event st r eid ty payload key at"
      using validated_event built by metis
    let ?st = "store_event st r source (fingerprint_of sha ty payload) event"
    from body Inr consider e where "out = Raise e" "st' = st"
      | "?room" "durable st' = durable ?st" "out = Return event \<or> (\<exists>e. out = Raise e)"
      by (auto split: after_check_splits if_splits option.splits)
    then show thesis using refused stored [OF at] by cases auto
  qed
qed

lemma source_of_payload:
  assumes "(if ty = MEMORY_INVALIDATED then memory_invalidation_source payload else Return None) = Inr source"
  shows "ty \<noteq> MEMORY_INVALIDATED \<Longrightarrow> source = None"
    and "source = Some (namespace, version) \<Longrightarrow> ty = MEMORY_INVALIDATED \<and> 1 \<le> version"
  using assms by (auto simp: memory_invalidation_source_def Let_def split: if_splits option.splits json.splits)

lemma source_known_entry:
  assumes "source_known r source" and "\<And>ns v. source = Some (ns, v) \<Longrightarrow> 1 \<le> v"
  shows "sr_memory_source_versions r \<noteq> []"
  using assms by (auto simp: source_known_def split: option.splits prod.splits)

lemma session_require_Inr: "session_require st i = Inr r \<longleftrightarrow> dict_get (ms_sessions st) i = Some r"
  by (simp add: session_require_def split: option.splits)

lemma session_append_cases:
  assumes "session_append sha st i eid ty payload key expected occ now clock = (out, st')"
  obtains (refused) e where "out = Raise e" "st' = st"
  | (replayed) k event where "key = Some k" "out = Return event" "st' = st"
      "dict_get (ms_event_idempotency st) (i, k) = Some (fingerprint_of sha ty payload, event)"
  | (outdated) r event where "dict_get (ms_sessions st) i = Some r" "sr_memory_source_versions r \<noteq> []"
      "find (\<lambda>e. te_revision e = sr_memory_invalidated_revision r) (events_of st i) = Some event"
      "\<And>k. key = Some k \<Longrightarrow> dict_get (ms_event_idempotency st) (i, k) = None"
      "out = Return event" "st' = st"
  | (stored) r source at event where "dict_get (ms_sessions st) i = Some r"
      "source \<noteq> None \<Longrightarrow> ty = MEMORY_INVALIDATED"
      "\<And>k. key = Some k \<Longrightarrow> dict_get (ms_event_idempotency st) (i, k) = None"
      "dict_get (ms_event_ids st) (i, eid) = None" "event = new_event st r eid ty payload key at"
      "int (length (events_of st (sr_identity r))) < sl_max_transcript_events_per_session (ms_limits st)"
      "int (events_total st) < sl_max_transcript_events_total (ms_limits st)"
      "durable st' = durable (store_event st r source (fingerprint_of sha ty payload) event)"
      "out = Return event \<or> (\<exists>e. out = Raise e)"
proof (cases "\<exists>e. out = Raise e \<and> st' = st")
  case True
  then show thesis using refused by blast
next
  case changed: False
  obtain source bytes r where
    source: "(if ty = MEMORY_INVALIDATED then memory_invalidation_source payload else Return None) = Inr source"
    and r: "dict_get (ms_sessions st) i = Some r"
    and rest: "(case Option.bind key (\<lambda>key. dict_get (ms_event_idempotency st) (i, key)) of
         Some (fingerprint, event) \<Rightarrow>
           if fingerprint \<noteq> fingerprint_of sha ty payload
           then (Raise (SessionIdempotencyConflictError ''event idempotency key was reused with different content''), st)
           else (Return event, st)
       | None \<Rightarrow>
           if source_known r source
           then (case find (\<lambda>e. te_revision e = sr_memory_invalidated_revision r) (events_of st i) of
                   None \<Rightarrow> (Raise (RuntimeError ''coroutine raised StopIteration''), st)
                 | Some e \<Rightarrow> (Return e, st))
           else if dict_get (ms_event_ids st) (i, eid) \<noteq> None
           then (Raise (SessionIdempotencyConflictError ''event_id already exists in this session''), st)
           else append_new sha st r source eid ty payload key expected occ now clock) = (out, st')"
    using assms changed unfolding session_append_def session_require_Inr [symmetric]
    by (auto simp only: prod.inject split: after_check_splits if_split_asm)
  show thesis
  proof (cases "Option.bind key (\<lambda>key. dict_get (ms_event_idempotency st) (i, key))")
    case (Some p)
    then show thesis
      using rest changed replayed by (cases p) (auto simp: bind_eq_Some_conv split: if_splits)
  next
    case None
    then have fresh: "dict_get (ms_event_idempotency st) (i, k) = None" if "key = Some k" for k
      using that by simp
    show thesis
    proof (cases "source_known r source")
      case True
      then show thesis
        using rest None changed outdated [OF r source_known_entry [OF True]] source_of_payload(2) [OF source] fresh
        by (auto split: option.splits)
    next
      case False
      then have unknown: "dict_get (ms_event_ids st) (i, eid) = None"
        and new: "append_new sha st r source eid ty payload key expected occ now clock = (out, st')"
        using rest None changed by (auto split: if_splits)
      show thesis
        using new
        by (cases rule: append_new_cases)
          (use changed stored [OF r _ fresh unknown] source_of_payload(1) [OF source] in auto)
    qed
  qed
qed

section \<open>Run claims\<close>

text \<open>The run and its owner, when the answer says that the claim was acquired or finalised.\<close>

fun acquired :: "session_op \<Rightarrow> session_out \<Rightarrow> (session_key \<times> string) option" where
  "acquired (ClaimOp i run owner lease clock) (ClaimOut (Inr ACQUIRED)) = Some ((i, run), owner)"
| "acquired _ _ = None"

fun finalised :: "session_op \<Rightarrow> session_out \<Rightarrow> (session_key \<times> string) option" where
  "finalised (FinalizeOp i run owner lease clock) (FinalizeOut (Inr True)) = Some ((i, run), owner)"
| "finalised _ _ = None"

definition claim_owner :: "InMemorySessionStore \<Rightarrow> session_key \<Rightarrow> string option" where
  "claim_owner st k = map_option fst (dict_get (ms_run_claims st) k)"

definition claim_closed :: "InMemorySessionStore \<Rightarrow> session_key \<Rightarrow> bool" where
  "claim_closed st k \<longleftrightarrow> (\<exists>c. dict_get (ms_run_claims st) k = Some c \<and> fst (snd c) \<noteq> ClaimActive)"

text \<open>The operations that do not touch the claims.\<close>

lemma durable_claims: "durable st = durable st' \<Longrightarrow> ms_run_claims st = ms_run_claims st'"
  using durable_sel(7) [of st] durable_sel(7) [of st'] by simp

lemma append_claims [simp]:
  "ms_run_claims (snd (session_append sha st i eid ty payload key expected occ now clock)) = ms_run_claims st"
proof -
  obtain out st' where step: "session_append sha st i eid ty payload key expected occ now clock = (out, st')"
    by (metis surj_pair)
  then show ?thesis
  proof (cases rule: session_append_cases)
    case (stored r source at event)
    then show ?thesis using durable_claims [OF stored(8)] by (simp add: step store_event_def Let_def)
  qed (use step in simp_all)
qed

lemma claims_frame [simp]:
  "ms_run_claims (snd (session_create st i now later)) = ms_run_claims st"
  "ms_run_claims (snd (request_stop st i run clock)) = ms_run_claims st"
  "ms_run_claims (snd (save_resume_point p sz st i pt clock)) = ms_run_claims st"
  "ms_run_claims (snd (get_resume_point st i run clock)) = ms_run_claims st"
  "ms_run_claims (snd (save_checkpoint sha st i cid ws n ck now)) = ms_run_claims st"
  "ms_run_claims (snd (set_status st i status n now)) = ms_run_claims st"
  subgoal by (simp add: session_create_def split: after_check_split option.split)
  subgoal by (simp add: request_stop_def split: after_check_split option.split prod.split)
  subgoal by (rule durable_claims [OF durable_points_ops(1)])
  subgoal by (rule durable_claims [OF durable_points_ops(2)])
  subgoal by (simp add: save_checkpoint_def checkpoint_new_def split: after_check_split option.split prod.split)
  subgoal by (simp add: set_status_def Let_def split: after_check_split)
  done

lemma claim_run_effect:
  fixes st i run owner lease clock
  defines "r \<equiv> claim_run st i run owner lease clock"
  shows "fst r = Return ACQUIRED \<Longrightarrow> dict_get (ms_run_claims st) (i, run) = None"
    and "fst r = Return ACQUIRED \<Longrightarrow> claim_owner (snd r) (i, run) = Some owner"
    and "claim_owner (snd r) k = Some w \<Longrightarrow> claim_owner st k = Some w \<or> (fst r = Return ACQUIRED \<and> k = (i, run) \<and> w = owner)"
    and "claim_owner st k = Some w \<Longrightarrow> claim_owner (snd r) k = Some w"
    and "claim_closed st k \<Longrightarrow> claim_closed (snd r) k"
  by (auto simp: r_def claim_run_def claim_owner_def claim_closed_def
      split: after_check_splits option.splits if_splits)

lemma finalize_run_effect:
  fixes st i run owner lease clock
  defines "r \<equiv> finalize_run st i run owner lease clock"
  shows "fst r = Return True \<Longrightarrow> \<not> claim_closed st (i, run)"
    and "fst r = Return True \<Longrightarrow> claim_owner st (i, run) = Some owner"
    and "fst r = Return True \<Longrightarrow> claim_closed (snd r) (i, run)"
    and "claim_owner (snd r) k = claim_owner st k"
    and "claim_closed st k \<Longrightarrow> claim_closed (snd r) k"
  by (auto simp: r_def finalize_run_def claim_owner_def claim_closed_def
      split: after_check_splits option.splits if_splits)

lemma acquired_Some:
  "acquired op out = Some kw \<longleftrightarrow> (\<exists>i run owner lease clock. op = ClaimOp i run owner lease clock \<and>
     out = ClaimOut (Return ACQUIRED) \<and> kw = ((i, run), owner))"
  by (cases "(op, out)" rule: acquired.cases) auto

lemma finalised_Some:
  "finalised op out = Some kw \<longleftrightarrow> (\<exists>i run owner lease clock. op = FinalizeOp i run owner lease clock \<and>
     out = FinalizeOut (Return True) \<and> kw = ((i, run), owner))"
  by (cases "(op, out)" rule: finalised.cases) auto

lemma owner_step:
  assumes "claim_owner (snd (session_step env st op)) k = Some w"
  shows "claim_owner st k = Some w \<or> acquired op (fst (session_step env st op)) = Some (k, w)"
proof (cases op)
  case (ClaimOp i run owner lease clock)
  with assms show ?thesis using claim_run_effect(3) [of st i run owner lease clock k w] by (auto simp: acquired_Some)
next
  case (FinalizeOp i run owner lease clock)
  with assms show ?thesis by (simp add: finalize_run_effect(4))
qed (use assms in \<open>simp_all add: claim_owner_def\<close>)

lemma acquired_step:
  assumes "acquired op (fst (session_step env st op)) = Some (k, w)"
  shows "claim_owner st k = None" and "claim_owner (snd (session_step env st op)) k = Some w"
  using assms claim_run_effect(1,2) by (auto simp: acquired_Some claim_owner_def [of st])

lemma finalised_step:
  assumes "finalised op (fst (session_step env st op)) = Some (k, w)"
  shows "\<not> claim_closed st k" and "claim_closed (snd (session_step env st op)) k" and "claim_owner st k = Some w"
  using assms finalize_run_effect(1-3) by (auto simp: finalised_Some)

lemma owner_stays:
  assumes "claim_owner st k = Some w"
  shows "claim_owner (snd (session_step env st op)) k = Some w"
proof (cases op)
  case (ClaimOp i run owner lease clock)
  with assms show ?thesis by (simp add: claim_run_effect(4))
next
  case (FinalizeOp i run owner lease clock)
  with assms show ?thesis by (simp add: finalize_run_effect(4))
qed (use assms in \<open>simp_all add: claim_owner_def\<close>)

lemma closed_stays:
  assumes "claim_closed st k"
  shows "claim_closed (snd (session_step env st op)) k"
proof (cases op)
  case (ClaimOp i run owner lease clock)
  with assms show ?thesis by (simp add: claim_run_effect(5))
next
  case (FinalizeOp i run owner lease clock)
  with assms show ?thesis by (simp add: finalize_run_effect(5))
qed (use assms in \<open>simp_all add: claim_closed_def\<close>)

interpretation claims: granted_once "session_step env" "\<lambda>op out. map_option fst (acquired op out)"
  "\<lambda>st k. claim_owner st k \<noteq> None" for env
  by unfold_locales (auto dest: acquired_step owner_stays)

interpretation finals: granted_once "session_step env" "\<lambda>op out. map_option fst (finalised op out)" claim_closed for env
  by unfold_locales (auto dest: finalised_step closed_stays)

lemma set_picked_Cons:
  "k \<in> set (picked f (op # ops) (out # outs)) \<longleftrightarrow> f op out = Some k \<or> k \<in> set (picked f ops outs)"
  by (auto split: option.splits)

lemma finalised_by_owner:
  "(k, w) \<in> set (picked finalised ops (fst (session_run env st ops))) \<Longrightarrow>
   claim_owner st k = Some w \<or> (k, w) \<in> set (picked acquired ops (fst (session_run env st ops)))"
proof (induction ops arbitrary: st)
  case (Cons op ops)
  let ?out = "fst (session_step env st op)" and ?st = "snd (session_step env st op)"
  from Cons.prems consider "finalised op ?out = Some (k, w)"
    | "(k, w) \<in> set (picked finalised ops (fst (session_run env ?st ops)))"
    by (auto simp: Let_def set_picked_Cons simp del: picked_simps(2))
  then show ?case
  proof cases
    case 1
    then show ?thesis by (simp add: finalised_step(3))
  next
    case 2
    from Cons.IH [OF this] owner_step [of env st op k w] show ?thesis
      by (auto simp: Let_def set_picked_Cons simp del: picked_simps(2))
  qed
qed simp

end
