(* ===== verification/Session_Transcript.thy ===== *)
theory Session_Transcript
  imports Session_Laws
begin

text \<open>
  The invariant of the session store's durable part: transcripts are numbered without gaps, their
  revisions increase, the indexes of event ids and idempotency keys are exactly what a search of
  the transcript would find, checkpoints lie within their transcript and within the limits.
\<close>

section \<open>Lists and dictionaries\<close>

lemma find_append: "find P (xs @ ys) = (case find P xs of None \<Rightarrow> find P ys | Some x \<Rightarrow> Some x)"
  by (induction xs) simp_all

lemma sum_dict_set:
  assumes "dict_ok d"
  shows "sum_list (map (f \<circ> snd) (dict_set k v d)) + (case dict_get d k of None \<Rightarrow> 0 | Some w \<Rightarrow> f w) =
         sum_list (map (f \<circ> snd) d) + (f v :: nat)"
  using assms
proof (induction d)
  case (Cons e d)
  then show ?case by (cases "fst e = k") (auto simp: dict_ok_def split: prod.splits)
qed simp

section \<open>The invariant\<close>

definition transcript_ok :: "SessionRecord \<Rightarrow> TranscriptEvent list \<Rightarrow> bool" where
  "transcript_ok r es \<longleftrightarrow>
     map te_sequence es = map int [1..<Suc (length es)] \<and>
     sorted_wrt (<) (map te_revision es) \<and>
     (\<forall>e \<in> set es. te_identity e = sr_identity r \<and> 0 < te_revision e \<and> te_revision e \<le> sr_revision r) \<and>
     distinct (map te_event_id es) \<and> 0 \<le> sr_revision r \<and>
     (sr_memory_source_versions r \<noteq> [] \<longrightarrow> (\<exists>e \<in> set es. te_revision e = sr_memory_invalidated_revision r))"

definition checkpoints_ok :: "SessionStoreLimits \<Rightarrow> SessionRecord \<Rightarrow> nat \<Rightarrow> SessionCheckpoint list \<Rightarrow> bool" where
  "checkpoints_ok l r n cs \<longleftrightarrow>
     (\<forall>c \<in> set cs. sc_identity c = sr_identity r \<and> 0 \<le> sc_last_event_sequence c \<and> sc_last_event_sequence c \<le> int n \<and>
        sc_revision c \<le> sr_revision r) \<and>
     sorted_wrt (<) (map sc_revision cs) \<and> sorted_wrt (\<le>) (map sc_last_event_sequence cs) \<and>
     distinct (map sc_idempotency_key cs) \<and>
     int (length cs) \<le> sl_max_checkpoints_per_session l \<and>
     sum_list (map state_bytes cs) \<le> sl_max_checkpoint_bytes_per_session l"

definition session_ok :: "InMemorySessionStore \<Rightarrow> SessionIdentity \<Rightarrow> SessionRecord \<Rightarrow> bool" where
  "session_ok st i r \<longleftrightarrow> sr_identity r = i \<and> transcript_ok r (events_of st i) \<and>
     checkpoints_ok (ms_limits st) r (length (events_of st i)) (checkpoints_of st i) \<and>
     int (length (events_of st i)) \<le> sl_max_transcript_events_per_session (ms_limits st)"

text \<open>The indexes are what a search of the transcript and of the checkpoints finds.\<close>

definition indexes_ok :: "(string \<Rightarrow> string) \<Rightarrow> InMemorySessionStore \<Rightarrow> bool" where
  "indexes_ok sha st \<longleftrightarrow> (\<forall>i key.
     dict_get (ms_event_ids st) (i, key) = find (\<lambda>e. te_event_id e = key) (events_of st i) \<and>
     dict_get (ms_event_idempotency st) (i, key) =
       map_option (\<lambda>e. (fingerprint_of sha (te_type e) (te_payload e), e))
         (find (\<lambda>e. te_idempotency_key e = Some key) (events_of st i)) \<and>
     dict_get (ms_checkpoint_idempotency st) (i, key) =
       map_option (\<lambda>c. (sha (dumps (sc_workflow_state c)), c))
         (find (\<lambda>c. sc_idempotency_key c = key) (checkpoints_of st i)))"

definition store_ok :: "(string \<Rightarrow> string) \<Rightarrow> InMemorySessionStore \<Rightarrow> bool" where
  "store_ok sha st \<longleftrightarrow>
     dict_ok (ms_sessions st) \<and> dict_ok (ms_events st) \<and>
     dom (dict_get (ms_events st)) = dom (dict_get (ms_sessions st)) \<and>
     dom (dict_get (ms_checkpoints st)) = dom (dict_get (ms_sessions st)) \<and>
     (\<forall>i r. dict_get (ms_sessions st) i = Some r \<longrightarrow> session_ok st i r) \<and> indexes_ok sha st \<and>
     int (length (ms_sessions st)) \<le> sl_max_sessions (ms_limits st) \<and>
     int (events_total st) \<le> sl_max_transcript_events_total (ms_limits st)"

section \<open>The operations keep it\<close>

lemma store_ok_durable: "store_ok sha (durable st) = store_ok sha st"
  by (simp add: store_ok_def session_ok_def indexes_ok_def events_of_def checkpoints_of_def events_total_def)

lemma store_ok_cong: "durable st = durable st' \<Longrightarrow> store_ok sha st = store_ok sha st'"
  by (metis store_ok_durable)

text \<open>What the invariant reads is unchanged when claims, stops and recovery points change.\<close>

lemma store_ok_frame [simp]:
  "store_ok sha (st\<lparr>ms_run_claims := cs\<rparr>) = store_ok sha st"
  "store_ok sha (st\<lparr>ms_run_stops := ks\<rparr>) = store_ok sha st"
  by (simp_all add: store_ok_def session_ok_def indexes_ok_def events_of_def checkpoints_of_def events_total_def)

lemma store_ok_empty: "limits_in_range l \<Longrightarrow> store_ok sha (empty_store l)"
  by (simp add: store_ok_def empty_store_def indexes_ok_def events_of_def checkpoints_of_def events_total_def
      dict_ok_def guard_defs)

lemma store_ok_no_session:
  assumes "store_ok sha st" and "dict_get (ms_sessions st) i = None"
  shows "events_of st i = []" and "checkpoints_of st i = []" and "dict_get (ms_events st) i = None"
proof -
  have "i \<notin> dom (dict_get (ms_events st))" and "i \<notin> dom (dict_get (ms_checkpoints st))"
    using assms unfolding store_ok_def by (simp_all add: domIff)
  then show "events_of st i = []" and "checkpoints_of st i = []" and "dict_get (ms_events st) i = None"
    by (simp_all add: events_of_def checkpoints_of_def domIff)
qed

lemma store_ok_create:
  assumes ok: "store_ok sha st" and limits: "limits_in_range (ms_limits st)"
  shows "store_ok sha (snd (session_create st i now later))"
proof (cases "snd (session_create st i now later) = st")
  case False
  let ?r = "\<lparr>sr_identity = i, sr_status = ACTIVE, sr_revision = 0, sr_memory_invalidated_revision = 0,
     sr_memory_source_versions = [], sr_created_at = now, sr_updated_at = later\<rparr>"
  let ?st = "st\<lparr>ms_sessions := dict_set i ?r (ms_sessions st), ms_events := dict_set i [] (ms_events st),
     ms_checkpoints := dict_set i [] (ms_checkpoints st)\<rparr>"
  from False have new: "dict_get (ms_sessions st) i = None"
    and room: "int (length (ms_sessions st)) < sl_max_sessions (ms_limits st)"
    and st: "snd (session_create st i now later) = ?st"
    by (auto simp: session_create_def SessionRecord_validate_def split: option.splits after_check_splits if_splits)
  note none = store_ok_no_session [OF ok new]
  have events: "events_of ?st j = events_of st j" and checkpoints: "checkpoints_of ?st j = checkpoints_of st j" for j
    using none by (auto simp: events_of_def checkpoints_of_def split: option.splits)
  have absent: "i \<notin> set (dict_keys (ms_sessions st))"
    using new by (simp add: map_of_eq_None_iff)
  have "events_total ?st = events_total st"
    using ok sum_dict_set [of "ms_events st" length i "[]"] by (simp add: events_total_def store_ok_def none)
  moreover have "session_ok ?st i ?r"
    using limits by (simp add: session_ok_def events checkpoints none transcript_ok_def checkpoints_ok_def guard_defs)
  moreover have "session_ok ?st j r" if "dict_get (ms_sessions st) j = Some r" for j r
    using ok that by (simp add: store_ok_def session_ok_def events checkpoints)
  moreover have "indexes_ok sha ?st"
    using ok by (simp add: store_ok_def indexes_ok_def events checkpoints)
  moreover have "int (length (ms_sessions ?st)) \<le> sl_max_sessions (ms_limits st)"
    using room absent by (simp add: length_dict_set)
  ultimately show ?thesis
    using ok by (simp add: st store_ok_def)
qed (simp add: ok)

lemma dict_set_same: "dict_get d k = Some v \<Longrightarrow> dict_set k v d = d"
  by (induction d) auto

lemma dict_get_key: "dict_get d k = Some v \<Longrightarrow> k \<in> set (dict_keys d)"
  using dict_get_None [of d k] by (metis option.distinct(1))

text \<open>An operation on one session.\<close>

lemma store_ok_replace:
  assumes ok: "store_ok sha st" and r: "dict_get (ms_sessions st) i = Some r"
    and sessions: "ms_sessions st' = dict_set i r' (ms_sessions st)" and limits: "ms_limits st' = ms_limits st"
    and events: "ms_events st' = dict_set i es (ms_events st)"
    and checkpoints: "ms_checkpoints st' = dict_set i cs (ms_checkpoints st)"
    and this_one: "session_ok st' i r'" and indexes: "indexes_ok sha st'"
    and all: "int (events_total st') \<le> sl_max_transcript_events_total (ms_limits st)"
  shows "store_ok sha st'"
proof -
  have "session_ok st' j rj" if "dict_get (ms_sessions st') j = Some rj" for j rj
    using ok that this_one
    by (cases "j = i") (simp_all add: store_ok_def session_ok_def sessions limits events checkpoints events_of_def checkpoints_of_def)
  moreover have "int (length (ms_sessions st')) \<le> sl_max_sessions (ms_limits st)"
    using ok dict_get_key [OF r] by (simp add: store_ok_def sessions length_dict_set del: set_map)
  ultimately show ?thesis
    using ok indexes all by (simp add: store_ok_def sessions limits events checkpoints)
qed

lemma store_ok_entries:
  assumes "store_ok sha st" and "dict_get (ms_sessions st) i = Some r"
  shows "dict_get (ms_events st) i = Some (events_of st i)"
    and "dict_get (ms_checkpoints st) i = Some (checkpoints_of st i)" and "session_ok st i r"
proof -
  have "i \<in> dom (dict_get (ms_events st))" and "i \<in> dom (dict_get (ms_checkpoints st))" and "session_ok st i r"
    using assms by (auto simp: store_ok_def)
  then show "dict_get (ms_events st) i = Some (events_of st i)"
    and "dict_get (ms_checkpoints st) i = Some (checkpoints_of st i)" and "session_ok st i r"
    by (auto simp: events_of_def checkpoints_of_def)
qed

lemma store_ok_status: "store_ok sha st \<Longrightarrow> store_ok sha (snd (set_status st i status expected now))"
proof (cases "dict_get (ms_sessions st) i")
  case (Some r)
  assume ok: "store_ok sha st"
  note entries = store_ok_entries [OF ok Some]
  let ?r = "r\<lparr>sr_status := status, sr_revision := sr_revision r + 1, sr_updated_at := now\<rparr>"
  let ?st = "st\<lparr>ms_sessions := dict_set i ?r (ms_sessions st)\<rparr>"
  have "session_ok ?st i ?r"
    using entries(3)
    by (auto simp: session_ok_def transcript_ok_def checkpoints_ok_def events_of_def checkpoints_of_def)
  moreover have "indexes_ok sha ?st" and "int (events_total ?st) \<le> sl_max_transcript_events_total (ms_limits st)"
    using ok by (simp_all add: store_ok_def indexes_ok_def events_of_def checkpoints_of_def events_total_def)
  ultimately have "store_ok sha ?st"
    using store_ok_replace [OF ok Some, where st' = ?st and r' = ?r and
        es = "events_of st i" and cs = "checkpoints_of st i"] by (simp add: dict_set_same entries)
  with ok show ?thesis
    by (simp add: set_status_def session_require_def Some Let_def split: after_check_split)
qed (simp add: set_status_def session_require_def)

lemma stored_frame [simp]:
  fixes st r source fp e
  defines "st' \<equiv> store_event st r source fp e"
  shows "ms_checkpoints st' = ms_checkpoints st" "ms_checkpoint_idempotency st' = ms_checkpoint_idempotency st"
    "ms_limits st' = ms_limits st" "checkpoints_of st' j = checkpoints_of st j"
    "events_of st' j = (if j = te_identity e then events_of st j @ [e] else events_of st j)"
  by (simp_all add: st'_def store_event_def Let_def checkpoints_of_def events_of_def)

lemma transcript_ok_snoc:
  assumes ok: "transcript_ok r es"
    and e: "te_identity e = sr_identity r" "te_sequence e = int (length es) + 1" "te_revision e = sr_revision r + 1"
    and fresh: "find (\<lambda>x. te_event_id x = te_event_id e) es = None"
    and r': "sr_identity r' = sr_identity r" "sr_revision r' = te_revision e"
    and memory: "sr_memory_source_versions r' = sr_memory_source_versions r \<and>
        sr_memory_invalidated_revision r' = sr_memory_invalidated_revision r \<or>
      sr_memory_invalidated_revision r' = te_revision e"
  shows "transcript_ok r' (es @ [e])"
proof -
  have "te_event_id e \<notin> te_event_id ` set es"
    using fresh by (auto simp: find_None_iff)
  with assms show ?thesis
    by (auto simp: transcript_ok_def sorted_wrt_append)
qed

lemma transcript_ok_later:
  "transcript_ok r es \<Longrightarrow> sr_identity r' = sr_identity r \<Longrightarrow> sr_revision r \<le> sr_revision r' \<Longrightarrow>
   sr_memory_source_versions r' = sr_memory_source_versions r \<Longrightarrow>
   sr_memory_invalidated_revision r' = sr_memory_invalidated_revision r \<Longrightarrow> transcript_ok r' es"
  by (force simp: transcript_ok_def)

lemma indexes_ok_store:
  assumes ok: "indexes_ok sha st" and fp: "fp = fingerprint_of sha (te_type e) (te_payload e)"
    and id: "dict_get (ms_event_ids st) (te_identity e, te_event_id e) = None"
    and key: "\<And>k. te_idempotency_key e = Some k \<Longrightarrow> dict_get (ms_event_idempotency st) (te_identity e, k) = None"
  shows "indexes_ok sha (store_event st r source fp e)"
proof -
  let ?i = "te_identity e" and ?st = "store_event st r source fp e"
  have ids: "dict_get (ms_event_ids ?st) = (dict_get (ms_event_ids st))((?i, te_event_id e) \<mapsto> e)"
    by (simp add: store_event_def Let_def)
  have keys: "dict_get (ms_event_idempotency ?st) (j, k) =
      (if j = ?i \<and> te_idempotency_key e = Some k then Some (fp, e) else dict_get (ms_event_idempotency st) (j, k))" for j k
    by (auto simp: store_event_def Let_def split: option.splits)
  have none: "find (\<lambda>x. te_event_id x = te_event_id e) (events_of st ?i) = None"
    using ok id by (simp add: indexes_ok_def)
  have none': "find (\<lambda>x. te_idempotency_key x = Some k) (events_of st ?i) = None" if "te_idempotency_key e = Some k" for k
    using ok key [OF that] by (simp add: indexes_ok_def)
  show ?thesis
    using ok none none' unfolding indexes_ok_def ids keys
    by (auto simp: find_append fp split: option.splits)
qed

lemma store_ok_store:
  assumes ok: "store_ok sha st" and r: "dict_get (ms_sessions st) i = Some r"
    and source: "source \<noteq> None \<Longrightarrow> ty = MEMORY_INVALIDATED"
    and key: "\<And>k. key = Some k \<Longrightarrow> dict_get (ms_event_idempotency st) (i, k) = None"
    and id: "dict_get (ms_event_ids st) (i, eid) = None"
    and e: "e = new_event st r eid ty payload key at"
    and room: "int (length (events_of st (sr_identity r))) < sl_max_transcript_events_per_session (ms_limits st)"
    and room': "int (events_total st) < sl_max_transcript_events_total (ms_limits st)"
  shows "store_ok sha (store_event st r source (fingerprint_of sha ty payload) e)"
proof -
  let ?st = "store_event st r source (fingerprint_of sha ty payload) e"
  note entries = store_ok_entries [OF ok r]
  have i: "sr_identity r = i" using entries(3) by (simp add: session_ok_def)
  define r' where "r' = record_after r source e"
  have r': "ms_sessions ?st = dict_set i r' (ms_sessions st)" "sr_identity r' = sr_identity r"
    "sr_revision r' = te_revision e" "sr_memory_source_versions r' = sr_memory_source_versions r \<and>
        sr_memory_invalidated_revision r' = sr_memory_invalidated_revision r \<or>
      sr_memory_invalidated_revision r' = te_revision e"
    using source by (atomize (full), cases source) (auto simp: r'_def record_after_def store_event_def Let_def e i)
  have events: "ms_events ?st = dict_set i (events_of st i @ [e]) (ms_events st)"
    by (simp add: store_event_def Let_def e i)
  have indexes: "indexes_ok sha ?st"
    using ok id key by (intro indexes_ok_store) (auto simp: store_ok_def e i)
  have "find (\<lambda>x. te_event_id x = te_event_id e) (events_of st i) = None"
    using ok id by (simp add: store_ok_def indexes_ok_def e)
  then have "transcript_ok r' (events_of st i @ [e])"
    using entries(3) r' by (intro transcript_ok_snoc [of r]) (auto simp: session_ok_def e i)
  moreover have "checkpoints_ok (ms_limits st) r' (Suc (length (events_of st i))) (checkpoints_of st i)"
    using entries(3) r' by (auto simp: session_ok_def checkpoints_ok_def e)
  ultimately have "session_ok ?st i r'"
    using r' room by (simp add: session_ok_def e i)
  moreover have "int (events_total ?st) \<le> sl_max_transcript_events_total (ms_limits st)"
    using room' sum_dict_set [of "ms_events st" length i "events_of st i @ [e]"] ok
    by (simp add: events_total_def events entries store_ok_def)
  ultimately show ?thesis
    using indexes by (intro store_ok_replace [OF ok r r'(1) _ events, where cs = "checkpoints_of st i"])
      (simp_all add: dict_set_same entries)
qed

lemma store_ok_append:
  assumes ok: "store_ok sha st"
  shows "store_ok sha (snd (session_append sha st i eid ty payload key expected occ now clock))"
proof -
  obtain out st' where step: "session_append sha st i eid ty payload key expected occ now clock = (out, st')"
    by (metis surj_pair)
  then show ?thesis
  proof (cases rule: session_append_cases)
    case (stored r source at event)
    have "store_ok sha (store_event st r source (fingerprint_of sha ty payload) event)"
      by (rule store_ok_store [OF ok stored(1-7)])
    then have "store_ok sha st'"
      using store_ok_cong [OF stored(8)] by simp
    with step show ?thesis by simp
  qed (use step ok in simp_all)
qed

text \<open>Checkpoints. Pruning keeps a suffix that fits the limits, and drops exactly its index entries.\<close>

lemma prune_suffix: "\<exists>dropped. cs = dropped @ fst (prune_checkpoints l i cs idem)"
proof (induction l i cs idem rule: prune_checkpoints.induct)
  case (2 l i c cs idem)
  then show ?case by (auto simp: Let_def split: option.splits) (metis append_Cons)+
qed simp

lemma prune_fits:
  assumes "0 \<le> sl_max_checkpoints_per_session l" and "0 \<le> sl_max_checkpoint_bytes_per_session l"
  shows "int (length (fst (prune_checkpoints l i cs idem))) \<le> sl_max_checkpoints_per_session l \<and>
         sum_list (map state_bytes (fst (prune_checkpoints l i cs idem))) \<le> sl_max_checkpoint_bytes_per_session l"
  using assms by (induction l i cs idem rule: prune_checkpoints.induct) simp_all

lemma prune_keeps_last:
  assumes "1 \<le> sl_max_checkpoints_per_session l" and "state_bytes c \<le> sl_max_checkpoint_bytes_per_session l"
  shows "\<exists>kept. fst (prune_checkpoints l i (cs @ [c]) idem) = kept @ [c]"
  using assms by (induction cs arbitrary: idem) (auto split: option.splits)

lemma prune_index:
  assumes "distinct (map sc_idempotency_key cs)"
    and "\<forall>key. dict_get idem (i, key) = map_option f (find (\<lambda>c. sc_idempotency_key c = key) cs)"
    and "\<And>c. snd (f c) = c"
  shows "dict_get (snd (prune_checkpoints l i cs idem)) (i, key) =
         map_option f (find (\<lambda>c. sc_idempotency_key c = key) (fst (prune_checkpoints l i cs idem)))"
  using assms
proof (induction l i cs idem rule: prune_checkpoints.induct)
  case (2 l i c cs idem)
  have entry: "dict_get idem (i, sc_idempotency_key c) = Some (f c)" using "2.prems"(2) by simp
  have gone: "find (\<lambda>c'. sc_idempotency_key c' = sc_idempotency_key c) cs = None"
    using "2.prems"(1) by (simp add: find_None_iff) (metis image_eqI)
  show ?case
  proof (cases "sl_max_checkpoints_per_session l < int (length (c # cs)) \<or>
      sl_max_checkpoint_bytes_per_session l < sum_list (map state_bytes (c # cs))")
    case True
    have "\<forall>key. dict_get (dict_pop (i, sc_idempotency_key c) idem) (i, key) =
        map_option f (find (\<lambda>c. sc_idempotency_key c = key) cs)"
      using "2.prems"(2) gone by auto
    moreover have "snd (f c) = c" by (rule "2.prems"(3))
    ultimately show ?thesis
      using "2.IH" [OF True] True "2.prems"(1,3) entry by (cases "f c") auto
  next
    case False
    then show ?thesis using "2.prems"(2) by simp
  qed
qed simp

lemma prune_others:
  "j \<noteq> i \<Longrightarrow> dict_get (snd (prune_checkpoints l i cs idem)) (j, key) = dict_get idem (j, key)"
proof (induction l i cs idem rule: prune_checkpoints.induct)
  case (2 l i c cs idem)
  then show ?case by (auto split: option.splits if_splits)
qed simp

lemma checkpoints_ok_add:
  assumes old: "checkpoints_ok l r n cs" and limits: "limits_in_range l"
    and c: "sc_identity c = sr_identity r" "sc_revision c = sr_revision r + 1" "sc_last_event_sequence c = int n"
    and fresh: "find (\<lambda>x. sc_idempotency_key x = sc_idempotency_key c) cs = None"
    and r': "sr_identity r' = sr_identity r" "sr_revision r' = sc_revision c"
  shows "checkpoints_ok l r' n (fst (prune_checkpoints l i (cs @ [c]) idem))"
proof -
  define kept where "kept = fst (prune_checkpoints l i (cs @ [c]) idem)"
  obtain dropped where split: "cs @ [c] = dropped @ kept" using prune_suffix kept_def by metis
  have key: "sc_idempotency_key c \<notin> sc_idempotency_key ` set cs"
    using fresh by (simp add: find_None_iff) (metis imageE)
  have all: "sorted_wrt (<) (map sc_revision (cs @ [c]))" "sorted_wrt (\<le>) (map sc_last_event_sequence (cs @ [c]))"
    "distinct (map sc_idempotency_key (cs @ [c]))"
    "\<forall>x \<in> set (cs @ [c]). sc_identity x = sr_identity r' \<and> 0 \<le> sc_last_event_sequence x \<and>
       sc_last_event_sequence x \<le> int n \<and> sc_revision x \<le> sr_revision r'"
    using old c r' key by (force simp: checkpoints_ok_def sorted_wrt_append)+
  have "int (length kept) \<le> sl_max_checkpoints_per_session l \<and>
      sum_list (map state_bytes kept) \<le> sl_max_checkpoint_bytes_per_session l"
    using limits unfolding kept_def by (intro prune_fits) (simp_all add: guard_defs)
  with all [unfolded split] show ?thesis
    unfolding kept_def [symmetric] by (simp add: checkpoints_ok_def sorted_wrt_append)
qed

lemma validated_checkpoint: "SessionCheckpoint_validate c = Inr c' \<Longrightarrow> c' = c"
  by (auto simp: SessionCheckpoint_validate_def result_bind_def split: if_splits sum.splits)

lemma canonical_json_dumps: "canonical_json v = Inr s \<Longrightarrow> s = dumps v"
  by (auto simp: canonical_json_def split: if_splits)

text \<open>The ways \<open>save_checkpoint\<close> ends.\<close>

definition new_checkpoint ::
    "InMemorySessionStore \<Rightarrow> SessionRecord \<Rightarrow> SessionIdentity \<Rightarrow> string \<Rightarrow> json \<Rightarrow> string \<Rightarrow> instant \<Rightarrow> SessionCheckpoint" where
  "new_checkpoint st r i cid state key now =
     \<lparr>sc_identity = i, sc_checkpoint_id = cid, sc_revision = sr_revision r + 1, sc_workflow_state = state,
      sc_last_event_sequence = int (length (events_of st i)), sc_created_at = now, sc_idempotency_key = key\<rparr>"

lemma save_checkpoint_cases:
  assumes "save_checkpoint sha st i cid state expected key now = (out, st')"
  obtains (refused) e where "out = Raise e" "st' = st"
  | (replayed) c where "out = Return c" "st' = st"
      "dict_get (ms_checkpoint_idempotency st) (i, key) = Some (sha (dumps state), c)"
  | (saved) r c cs idem where "dict_get (ms_sessions st) i = Some r" "c = new_checkpoint st r i cid state key now"
      "dict_get (ms_checkpoint_idempotency st) (i, key) = None" "expected = sr_revision r"
      "int (length (dumps state)) \<le> sl_max_checkpoint_state_bytes (ms_limits st)"
      "prune_checkpoints (ms_limits st) i (checkpoints_of st i @ [c])
         (dict_set (i, key) (sha (dumps state), c) (ms_checkpoint_idempotency st)) = (cs, idem)"
      "out = Return c" "st' = st\<lparr>ms_checkpoints := dict_set i cs (ms_checkpoints st), ms_checkpoint_idempotency := idem,
         ms_sessions := dict_set i (r\<lparr>sr_revision := sc_revision c, sr_updated_at := now\<rparr>) (ms_sessions st)\<rparr>"
proof (cases "\<exists>e. out = Raise e \<and> st' = st")
  case True
  then show thesis using refused by blast
next
  case changed: False
  obtain r where r: "dict_get (ms_sessions st) i = Some r"
    and fits: "int (length (dumps state)) \<le> sl_max_checkpoint_state_bytes (ms_limits st)"
    and rest: "(case dict_get (ms_checkpoint_idempotency st) (i, key) of
         Some (fingerprint, c) \<Rightarrow>
           if fingerprint \<noteq> sha (dumps state)
           then (Raise (SessionIdempotencyConflictError ''checkpoint idempotency key was reused with different state''), st)
           else (Return c, st)
       | None \<Rightarrow> checkpoint_new sha st r i cid state expected key now) = (out, st')"
    using assms changed
    unfolding save_checkpoint_def session_require_Inr [symmetric]
    by (auto simp only: prod.inject not_less dest!: canonical_json_dumps split: after_check_splits if_split_asm)
  show thesis
  proof (cases "dict_get (ms_checkpoint_idempotency st) (i, key)")
    case (Some p)
    then show thesis
      using rest changed replayed by (cases p) (auto split: if_splits)
  next
    case None
    let ?c = "new_checkpoint st r i cid state key now"
    obtain cs idem where pruned: "prune_checkpoints (ms_limits st) i (checkpoints_of st i @ [?c])
         (dict_set (i, key) (sha (dumps state), ?c) (ms_checkpoint_idempotency st)) = (cs, idem)"
      by (metis surj_pair)
    have checks: "check_revision r (Some expected) = Inr ()" "SessionCheckpoint_validate ?c = Inr ?c"
      "\<not> list_ex (\<lambda>c. sc_checkpoint_id c = cid) (checkpoints_of st i)"
    proof -
      have body: "checkpoint_new sha st r i cid state expected key now = (out, st')"
        using rest by (simp add: None)
      then show new: "\<not> list_ex (\<lambda>c. sc_checkpoint_id c = cid) (checkpoints_of st i)"
        using changed by (auto simp: checkpoint_new_def)
      note checked = after_check_passed [OF body [unfolded checkpoint_new_def new_checkpoint_def [symmetric]
            if_not_P [OF new]] changed]
      then show "check_revision r (Some expected) = Inr ()" by auto
      from checked obtain c' where c': "SessionCheckpoint_validate ?c = Inr c'"
        by (auto dest!: after_check_passed [OF _ changed])
      with validated_checkpoint [OF c'] show "SessionCheckpoint_validate ?c = Inr ?c" by simp
    qed
    then have "expected = sr_revision r" by (simp add: check_revision_def split: if_splits)
    moreover have "(Return ?c, st\<lparr>ms_checkpoints := dict_set i cs (ms_checkpoints st), ms_checkpoint_idempotency := idem,
         ms_sessions := dict_set i (r\<lparr>sr_revision := sc_revision ?c, sr_updated_at := now\<rparr>) (ms_sessions st)\<rparr>) = (out, st')"
      using rest unfolding None checkpoint_new_def new_checkpoint_def [symmetric] by (simp add: checks pruned)
    ultimately show thesis
      using saved [OF r refl None _ fits pruned] by simp
  qed
qed

lemma new_checkpoint_sel [simp]:
  "sc_identity (new_checkpoint st r i cid state key now) = i"
  "sc_revision (new_checkpoint st r i cid state key now) = sr_revision r + 1"
  "sc_workflow_state (new_checkpoint st r i cid state key now) = state"
  "sc_last_event_sequence (new_checkpoint st r i cid state key now) = int (length (events_of st i))"
  "sc_idempotency_key (new_checkpoint st r i cid state key now) = key"
  by (simp_all add: new_checkpoint_def)

lemma store_ok_checkpoint:
  assumes ok: "store_ok sha st" and limits: "limits_in_range (ms_limits st)"
  shows "store_ok sha (snd (save_checkpoint sha st i cid state expected key now))"
proof -
  obtain out st' where step: "save_checkpoint sha st i cid state expected key now = (out, st')"
    by (metis surj_pair)
  then show ?thesis
  proof (cases rule: save_checkpoint_cases)
    case (saved r c cs idem)
    note entries = store_ok_entries [OF ok saved(1)]
    let ?f = "\<lambda>c. (sha (dumps (sc_workflow_state c)), c)"
    let ?idem = "dict_set (i, key) (sha (dumps state), c) (ms_checkpoint_idempotency st)"
    let ?r = "r\<lparr>sr_revision := sc_revision c, sr_updated_at := now\<rparr>"
    have index: "dict_get (ms_checkpoint_idempotency st) (j, k) =
        map_option ?f (find (\<lambda>c. sc_idempotency_key c = k) (checkpoints_of st j))" for j k
      using ok by (simp add: store_ok_def indexes_ok_def)
    have fresh: "find (\<lambda>x. sc_idempotency_key x = sc_idempotency_key c) (checkpoints_of st i) = None"
      using index [of i key] saved(2,3) by simp
    have kept: "cs = fst (prune_checkpoints (ms_limits st) i (checkpoints_of st i @ [c]) ?idem)"
      and idem: "idem = snd (prune_checkpoints (ms_limits st) i (checkpoints_of st i @ [c]) ?idem)"
      by (simp_all add: saved(6))
    have here: "checkpoints_of st' j = (if j = i then cs else checkpoints_of st j)" "events_of st' j = events_of st j" for j
      by (simp_all add: saved(8) checkpoints_of_def events_of_def)
    have limits': "ms_limits st' = ms_limits st" and frame: "ms_event_ids st' = ms_event_ids st"
      "ms_event_idempotency st' = ms_event_idempotency st" "ms_checkpoint_idempotency st' = idem"
      by (simp_all add: saved(8))
    have "checkpoints_ok (ms_limits st) ?r (length (events_of st i)) cs"
      unfolding kept using entries(3) saved(2) fresh
      by (intro checkpoints_ok_add [OF _ limits]) (auto simp: session_ok_def)
    then have "session_ok st' i ?r"
      using entries(3) saved(2) transcript_ok_later [of r "events_of st i" ?r] limits'
      by (simp add: session_ok_def here)
    moreover have "indexes_ok sha st'"
    proof -
      have "distinct (map sc_idempotency_key (checkpoints_of st i @ [c]))"
        using entries(3) fresh by (auto simp: session_ok_def checkpoints_ok_def find_None_iff)
      moreover have "\<forall>k. dict_get ?idem (i, k) = map_option ?f (find (\<lambda>c. sc_idempotency_key c = k) (checkpoints_of st i @ [c]))"
        using index [of i] saved(2) fresh by (auto simp: find_append split: option.splits)
      ultimately have "dict_get idem (i, k) = map_option ?f (find (\<lambda>c. sc_idempotency_key c = k) cs)" for k
        unfolding kept idem by (rule prune_index) simp
      moreover have "dict_get idem (j, k) = dict_get (ms_checkpoint_idempotency st) (j, k)" if "j \<noteq> i" for j k
        using that by (simp add: idem prune_others)
      ultimately show ?thesis
        using ok index by (auto simp: store_ok_def indexes_ok_def here frame)
    qed
    moreover have "int (events_total st') \<le> sl_max_transcript_events_total (ms_limits st)"
      using ok by (simp add: store_ok_def events_total_def saved(8))
    ultimately have "store_ok sha st'"
      using store_ok_replace [OF ok saved(1), where st' = st' and r' = ?r and es = "events_of st i" and cs = cs]
      by (simp add: dict_set_same entries saved(8))
    with step show ?thesis by simp
  qed (use step ok in simp_all)
qed

section \<open>Every reachable store\<close>

lemma limits_step [simp]: "ms_limits (snd (session_step env st op)) = ms_limits st"
proof (cases op)
  case (CreateOp i now later)
  then show ?thesis by (simp add: session_create_def split: after_check_split option.split)
next
  case (ClaimOp i run owner lease clock)
  then show ?thesis by (simp add: claim_run_def split: after_check_split option.split prod.split)
next
  case (FinalizeOp i run owner lease clock)
  then show ?thesis by (simp add: finalize_run_def split: after_check_split option.split prod.split)
next
  case (StopOp i run clock)
  then show ?thesis by (simp add: request_stop_def split: after_check_split option.split prod.split)
next
  case (SavePointOp i p clock)
  then show ?thesis using durable_sel(9) durable_points_ops(1) by (metis session_step.simps(5) snd_map_prod id_apply)
next
  case (GetPointOp i run clock)
  then show ?thesis using durable_sel(9) durable_points_ops(2) by (metis session_step.simps(6) snd_map_prod id_apply)
next
  case (AppendOp i eid ty payload key expected occ now clock)
  obtain out st' where step: "session_append (en_sha env) st i eid ty payload key expected occ now clock = (out, st')"
    by (metis surj_pair)
  then have "ms_limits st' = ms_limits st"
  proof (cases rule: session_append_cases)
    case (stored r source at event)
    then show ?thesis by (metis durable_sel(9) stored_frame(3))
  qed simp_all
  with AppendOp step show ?thesis by simp
next
  case (CheckpointOp i cid ws expected key now)
  then show ?thesis by (simp add: save_checkpoint_def checkpoint_new_def split: after_check_split option.split prod.split)
next
  case (StatusOp i status expected now)
  then show ?thesis by (simp add: set_status_def Let_def split: after_check_split)
qed

lemma store_ok_step:
  assumes ok: "store_ok (en_sha env) st" and limits: "limits_in_range (ms_limits st)"
  shows "store_ok (en_sha env) (snd (session_step env st op))"
proof (cases op)
  case (ClaimOp i run owner lease clock)
  with ok show ?thesis by (simp add: claim_run_def split: after_check_split option.split prod.split)
next
  case (FinalizeOp i run owner lease clock)
  with ok show ?thesis by (simp add: finalize_run_def split: after_check_split option.split prod.split)
next
  case (StopOp i run clock)
  with ok show ?thesis by (simp add: request_stop_def split: after_check_split option.split prod.split)
next
  case (SavePointOp i p clock)
  with ok show ?thesis
    using store_ok_cong [OF durable_points_ops(1)] by (simp only: session_step.simps snd_map_prod id_apply)
next
  case (GetPointOp i run clock)
  with ok show ?thesis
    using store_ok_cong [OF durable_points_ops(2)] by (simp only: session_step.simps snd_map_prod id_apply)
qed (simp_all add: store_ok_create [OF ok limits] store_ok_append [OF ok] store_ok_checkpoint [OF ok limits]
    store_ok_status [OF ok])

lemma store_ok_reachable:
  assumes "limits_in_range l"
  shows "store_ok (en_sha env) (snd (session_run env (empty_store l) ops)) \<and>
         ms_limits (snd (session_run env (empty_store l) ops)) = l"
proof -
  let ?P = "\<lambda>st. store_ok (en_sha env) st \<and> ms_limits st = l"
  show ?thesis
  proof (rule run_with_keeps [where P = ?P])
    show "?P (empty_store l)" using store_ok_empty [OF assms] by (simp add: empty_store_def)
  qed (use store_ok_step assms in auto)
qed

section \<open>What follows for readers\<close>

lemma sequence_range:
  assumes "map te_sequence es = map int [1..<Suc (length es)]" and "e \<in> set es"
  shows "1 \<le> te_sequence e \<and> te_sequence e \<le> int (length es)"
proof -
  have "te_sequence e \<in> set (map int [1..<Suc (length es)])"
    unfolding assms(1) [symmetric] using assms(2) by simp
  then show ?thesis by (auto simp del: upt_Suc)
qed

text \<open>Cutting a transcript by sequence number is cutting it by position.\<close>

lemma filter_sequence:
  "map te_sequence es = map int [1..<Suc (length es)] \<Longrightarrow>
   filter (\<lambda>e. int m < te_sequence e \<and> te_sequence e \<le> int n) es = take (n - m) (drop m es)"
proof (induction es rule: rev_induct)
  case (snoc e es)
  then have "map te_sequence es = map int [1..<Suc (length es)]" and "te_sequence e = int (length es) + 1"
    by simp_all
  with snoc.IH show ?case by (auto simp: min_def)
qed simp

text \<open>Transcripts only grow at the end, and checkpoints change only when one is saved.\<close>

lemma events_of_durable: "durable st = durable st' \<Longrightarrow> events_of st i = events_of st' i"
  by (metis durable_sel(2) events_of_def)

lemma checkpoints_of_durable: "durable st = durable st' \<Longrightarrow> checkpoints_of st i = checkpoints_of st' i"
  by (metis durable_sel(3) checkpoints_of_def)

fun saves_checkpoint :: "SessionIdentity \<Rightarrow> session_op \<Rightarrow> bool" where
  "saves_checkpoint i (CheckpointOp j cid ws expected key now) \<longleftrightarrow> j = i"
| "saves_checkpoint i _ \<longleftrightarrow> False"

lemma append_grows:
  assumes "session_append sha st i eid ty payload key expected occ now clock = (out, st')"
  shows "(\<exists>es. events_of st' j = events_of st j @ es) \<and> checkpoints_of st' j = checkpoints_of st j"
  using assms
proof (cases rule: session_append_cases)
  case (stored r source at event)
  then show ?thesis using events_of_durable [OF stored(8)] checkpoints_of_durable [OF stored(8)] by simp
qed simp_all

lemma checkpoint_grows:
  assumes "save_checkpoint sha st i cid ws expected key now = (out, st')"
  shows "events_of st' j = events_of st j" and "j \<noteq> i \<Longrightarrow> checkpoints_of st' j = checkpoints_of st j"
  using assms by (cases rule: save_checkpoint_cases; simp add: events_of_def checkpoints_of_def)+

lemma create_grows:
  assumes ok: "store_ok sha st"
  shows "events_of (snd (session_create st i now later)) j = events_of st j \<and>
         checkpoints_of (snd (session_create st i now later)) j = checkpoints_of st j"
proof (cases "dict_get (ms_sessions st) i")
  case None
  note none = store_ok_no_session [OF ok None]
  then show ?thesis
    by (simp add: session_create_def None events_of_def checkpoints_of_def split: after_check_split)
qed (simp add: session_create_def)

lemma step_grows:
  assumes ok: "store_ok (en_sha env) st"
  shows "(\<exists>es. events_of (snd (session_step env st op)) i = events_of st i @ es) \<and>
         (\<not> saves_checkpoint i op \<longrightarrow> checkpoints_of (snd (session_step env st op)) i = checkpoints_of st i)"
proof (cases op)
  case (AppendOp j eid ty payload key expected occ now clock)
  obtain out st' where step: "session_append (en_sha env) st j eid ty payload key expected occ now clock = (out, st')"
    by (metis surj_pair)
  from append_grows [OF this] step AppendOp show ?thesis by simp
next
  case (CreateOp j now later)
  have "events_of (snd (session_create st j now later)) i = events_of st i"
    "checkpoints_of (snd (session_create st j now later)) i = checkpoints_of st i"
    using create_grows [OF ok] by simp_all
  with CreateOp show ?thesis by simp
next
  case (ClaimOp j run owner lease clock)
  then show ?thesis
    by (simp add: claim_run_def events_of_def checkpoints_of_def split: after_check_split option.split prod.split)
next
  case (FinalizeOp j run owner lease clock)
  then show ?thesis
    by (simp add: finalize_run_def events_of_def checkpoints_of_def split: after_check_split option.split prod.split)
next
  case (StopOp j run clock)
  then show ?thesis
    by (simp add: request_stop_def events_of_def checkpoints_of_def split: after_check_split option.split prod.split)
next
  case (SavePointOp j p clock)
  then show ?thesis
    using events_of_durable [OF durable_points_ops(1)] checkpoints_of_durable [OF durable_points_ops(1)] by simp
next
  case (GetPointOp j run clock)
  then show ?thesis
    using events_of_durable [OF durable_points_ops(2)] checkpoints_of_durable [OF durable_points_ops(2)] by simp
next
  case (CheckpointOp j cid ws expected key now)
  obtain out st' where step: "save_checkpoint (en_sha env) st j cid ws expected key now = (out, st')"
    by (metis surj_pair)
  from checkpoint_grows [OF this] step CheckpointOp show ?thesis by simp
next
  case (StatusOp j status expected now)
  then show ?thesis
    by (simp add: set_status_def Let_def events_of_def checkpoints_of_def split: after_check_split)
qed

lemma run_grows:
  assumes "store_ok (en_sha env) st" and "limits_in_range (ms_limits st)"
  shows "(\<exists>es. events_of (snd (session_run env st ops)) i = events_of st i @ es) \<and>
         (list_all (\<lambda>op. \<not> saves_checkpoint i op) ops \<longrightarrow>
            checkpoints_of (snd (session_run env st ops)) i = checkpoints_of st i)"
  using assms
proof (induction ops arbitrary: st)
  case (Cons op ops)
  let ?st = "snd (session_step env st op)"
  have "store_ok (en_sha env) ?st" by (rule store_ok_step [OF Cons.prems])
  from Cons.IH [OF this] step_grows [OF Cons.prems(1), of op i] Cons.prems(2) show ?case
    by (auto simp: Let_def)
qed simp

lemma store_ok_run:
  assumes "store_ok (en_sha env) st" and "limits_in_range (ms_limits st)"
  shows "store_ok (en_sha env) (snd (session_run env st ops))" and "ms_limits (snd (session_run env st ops)) = ms_limits st"
proof -
  let ?P = "\<lambda>s. store_ok (en_sha env) s \<and> ms_limits s = ms_limits st"
  have "?P (snd (session_run env st ops))"
    by (rule run_with_keeps) (use store_ok_step assms in auto)
  then show "store_ok (en_sha env) (snd (session_run env st ops))" and "ms_limits (snd (session_run env st ops)) = ms_limits st"
    by simp_all
qed

section \<open>Replaying an append\<close>

text \<open>An append that returned an event with its key leaves the key in the index.\<close>

lemma append_indexed:
  assumes ok: "store_ok sha st"
    and step: "session_append sha st i eid ty payload (Some k) expected occ now clock = (Return e, st')"
    and key: "te_idempotency_key e = Some k"
  shows "dict_get (ms_event_idempotency st') (i, k) = Some (fingerprint_of sha ty payload, e)"
  using step
proof (cases rule: session_append_cases)
  case (replayed k' event)
  then show ?thesis by simp
next
  case (outdated r event)
  then have "e \<in> set (events_of st i)" by (auto simp: find_Some_iff)
  with key have "find (\<lambda>e. te_idempotency_key e = Some k) (events_of st i) \<noteq> None"
    by (auto simp: find_None_iff)
  with ok outdated(4) [of k] show ?thesis by (simp add: store_ok_def indexes_ok_def)
next
  case (stored r source at event)
  then have "sr_identity r = i" using store_ok_entries(3) [OF ok stored(1)] by (simp add: session_ok_def)
  with stored have "dict_get (ms_event_idempotency (store_event st r source (fingerprint_of sha ty payload) event)) (i, k) =
      Some (fingerprint_of sha ty payload, e)"
    by (simp add: store_event_def Let_def)
  with stored(8) show ?thesis by (metis durable_sel(4))
qed simp

lemma index_persists:
  assumes ok: "store_ok (en_sha env) st" and limits: "limits_in_range (ms_limits st)"
    and entry: "dict_get (ms_event_idempotency st) (i, k) = Some (fp, e)"
  shows "dict_get (ms_event_idempotency (snd (session_run env st ops))) (i, k) = Some (fp, e)"
    and "dict_get (ms_sessions (snd (session_run env st ops))) i \<noteq> None"
proof -
  let ?st = "snd (session_run env st ops)"
  have ok': "store_ok (en_sha env) ?st" by (rule store_ok_run [OF ok limits])
  obtain es where es: "events_of ?st i = events_of st i @ es" using run_grows [OF ok limits] by blast
  have found: "find (\<lambda>e. te_idempotency_key e = Some k) (events_of st i) = Some e"
    and fp: "fp = fingerprint_of (en_sha env) (te_type e) (te_payload e)"
    using ok entry by (auto simp: store_ok_def indexes_ok_def)
  then show "dict_get (ms_event_idempotency ?st) (i, k) = Some (fp, e)"
    using ok' by (simp add: store_ok_def indexes_ok_def es find_append)
  have "events_of ?st i \<noteq> []" using found es by auto
  then show "dict_get (ms_sessions ?st) i \<noteq> None" using store_ok_no_session(1) [OF ok'] by blast
qed

text \<open>The checks that come before the index do not depend on what the store holds.\<close>

lemma append_found:
  assumes first: "session_append sha st i eid ty payload (Some k) expected occ now clock = (Return e, st')"
    and limits: "ms_limits st2 = ms_limits st"
    and found: "dict_get (ms_event_idempotency st2) (i, k) = Some (fingerprint_of sha ty payload, e)"
    and there: "dict_get (ms_sessions st2) i \<noteq> None"
  shows "session_append sha st2 i eid' ty payload (Some k) expected' occ' now' clock' = (Return e, st2)"
proof -
  let ?source = "if ty = MEMORY_INVALIDATED then memory_invalidation_source payload else Return None"
  from first obtain source bytes where "?source = Inr source" "canonical_json payload = Inr bytes"
    "\<not> sl_max_transcript_payload_bytes (ms_limits st) < int (length bytes)"
    unfolding session_append_def by (auto simp only: prod.inject sum.simps split: after_check_splits if_split_asm)
  moreover obtain r where "session_require st2 i = Inr r"
    using there by (auto simp: session_require_def)
  ultimately show ?thesis
    unfolding session_append_def using found limits by (simp add: canonical_json_def)
qed

section \<open>Reading\<close>

lemma drop_filter_sequence:
  assumes "map te_sequence es = map int [1..<Suc (length es)]" and "0 \<le> a"
  shows "filter (\<lambda>e. a < te_sequence e) es = drop (nat a) es"
proof -
  have "filter (\<lambda>e. a < te_sequence e) es = filter (\<lambda>e. int (nat a) < te_sequence e \<and> te_sequence e \<le> int (length es)) es"
    using assms(2) sequence_range [OF assms(1)] by (intro filter_cong) auto
  then show ?thesis using filter_sequence [OF assms(1), of "nat a" "length es"] by simp
qed

lemma take_filter_sequence:
  assumes "map te_sequence es = map int [1..<Suc (length es)]" and "1 \<le> b"
  shows "filter (\<lambda>e. te_sequence e < b) es = take (nat (b - 1)) es"
proof -
  have "filter (\<lambda>e. te_sequence e < b) es = filter (\<lambda>e. int 0 < te_sequence e \<and> te_sequence e \<le> int (nat (b - 1))) es"
    using assms(2) sequence_range [OF assms(1)] by (intro filter_cong) force+
  then show ?thesis using filter_sequence [OF assms(1), of 0 "nat (b - 1)"] by simp
qed

text \<open>The last \<open>n\<close> elements: what a query by descending sequence number with a limit selects.\<close>

definition newest :: "int \<Rightarrow> 'a list \<Rightarrow> 'a list" where
  "newest n xs = drop (length xs - nat n) xs"

lemma page_cut:
  assumes "0 \<le> hi" and "hi \<le> int (length es)" and "1 \<le> limit"
  shows "take (nat (hi - max 0 (hi - limit))) (drop (nat (max 0 (hi - limit))) es) = newest limit (take (nat hi) es)"
proof -
  have "length (take (nat hi) es) = nat hi" using assms by simp
  with assms show ?thesis by (simp add: newest_def drop_take max_def nat_diff_distrib')
qed

end
