(* ===== verification/Session_Points.thy ===== *)
theory Session_Points
  imports Session_Transcript "HOL-Library.Multiset"
begin

text \<open>
  Recovery points: the store keeps at most the configured number and size of them, for every session
  and in all, and a point it has accepted is the one it gives back.
\<close>

section \<open>Points of a scope\<close>

definition in_scope :: "SessionIdentity option \<Rightarrow> session_key \<Rightarrow> bool" where
  "in_scope scope k \<longleftrightarrow> scope = None \<or> scope = Some (fst k)"

definition points_of :: "InMemorySessionStore \<Rightarrow> SessionIdentity option \<Rightarrow> session_key list" where
  "points_of st scope = filter (in_scope scope) (dict_keys (ms_resume_points st))"

definition points_fit :: "InMemorySessionStore \<Rightarrow> SessionIdentity option \<Rightarrow> int \<Rightarrow> int \<Rightarrow> bool" where
  "points_fit st scope max_count max_bytes \<longleftrightarrow>
     int (length (points_of st scope)) \<le> max_count \<and>
     sum_list (map (point_bytes_of st) (points_of st scope)) \<le> max_bytes"

definition points_ok :: "InMemorySessionStore \<Rightarrow> bool" where
  "points_ok st \<longleftrightarrow> dict_ok (ms_resume_points st) \<and>
     (let l = ms_limits st in
      points_fit st None (sl_max_resume_points_total l) (sl_max_resume_bytes_total l) \<and>
      (\<forall>i. points_fit st (Some i) (sl_max_resume_points_per_session l) (sl_max_resume_bytes_per_session l)))"

section \<open>Discarding\<close>

lemma point_bytes_nonneg [simp]: "0 \<le> point_bytes_of st k"
  by (simp add: point_bytes_of_def split: option.split)

lemma point_bytes_discard [simp]: "k' \<noteq> k \<Longrightarrow> point_bytes_of (discard_resume_point k st) k' = point_bytes_of st k'"
  by (simp add: point_bytes_of_def discard_resume_point_def)

lemma points_of_discard: "points_of (discard_resume_point k st) scope = filter (\<lambda>k'. k' \<noteq> k) (points_of st scope)"
  by (simp add: points_of_def discard_resume_point_def AList.delete_eq filter_map o_def case_prod_beta conj_commute
      eq_commute [of k])

lemma sum_filter_le: "(\<And>x. (0 :: int) \<le> f x) \<Longrightarrow> sum_list (map f (filter P xs)) \<le> sum_list (map f xs)"
  by (induction xs) (auto intro: add_increasing)

lemma sum_filter_remove:
  "distinct xs \<Longrightarrow> k \<in> set xs \<Longrightarrow> sum_list (map f (filter (\<lambda>x. x \<noteq> k) xs)) = sum_list (map f xs) - (f k :: int)"
proof (induction xs)
  case (Cons x xs)
  then have "filter (\<lambda>y. y \<noteq> x) xs = xs" by (auto simp: filter_id_conv)
  with Cons show ?case by auto
qed simp

lemma length_filter_remove:
  "distinct xs \<Longrightarrow> k \<in> set xs \<Longrightarrow> int (length (filter (\<lambda>x. x \<noteq> k) xs)) = int (length xs) - 1"
  using sum_filter_remove [of xs k "\<lambda>_. 1"] by (simp add: sum_list_triv)

lemma bytes_discard:
  "sum_list (map (point_bytes_of (discard_resume_point k st)) (filter (\<lambda>x. x \<noteq> k) xs)) =
   sum_list (map (point_bytes_of st) (filter (\<lambda>x. x \<noteq> k) xs))"
  by (rule arg_cong [where f = sum_list]) simp

lemma points_fit_discard: "points_fit st scope mc mb \<Longrightarrow> points_fit (discard_resume_point k st) scope mc mb"
  unfolding points_fit_def points_of_discard bytes_discard
  using sum_filter_le [of "point_bytes_of st" "\<lambda>k'. k' \<noteq> k" "points_of st scope", OF point_bytes_nonneg]
    of_nat_mono [OF length_filter_le [of "\<lambda>k'. k' \<noteq> k" "points_of st scope"], where 'a = int] by linarith

lemma dict_ok_discard: "dict_ok (ms_resume_points st) \<Longrightarrow> dict_ok (ms_resume_points (discard_resume_point k st))"
  by (simp add: discard_resume_point_def)

lemma points_ok_discard: "points_ok st \<Longrightarrow> points_ok (discard_resume_point k st)"
  by (simp add: points_ok_def Let_def points_fit_discard dict_ok_discard)

lemma points_ok_expire: "points_ok st \<Longrightarrow> points_ok (expire_resume_points now st)"
proof -
  have "points_ok s \<Longrightarrow> points_ok (fold discard_resume_point ks s)" for ks s
    by (induction ks arbitrary: s) (simp_all add: points_ok_discard)
  then show "points_ok st \<Longrightarrow> ?thesis" by (simp add: expire_resume_points_def)
qed

section \<open>Trimming\<close>

text \<open>The loop only discards, and never the point it is told to keep.\<close>

lemma trim_loop_keeps:
  assumes "\<And>k st. P st \<Longrightarrow> k \<noteq> keep \<Longrightarrow> P (discard_resume_point k st)" and "P st"
  shows "P (trim_loop keep mc mb ks n b st)"
  using assms(2)
proof (induction ks arbitrary: n b st)
  case (Cons k ks)
  then show ?case by (simp add: assms(1))
qed simp

lemma trim_loop_fits:
  assumes "1 \<le> mc" and "point_bytes_of st keep \<le> mb" and "distinct (points_of st scope)"
    and "set ks \<subseteq> set (points_of st scope)" and "set (points_of st scope) \<subseteq> insert keep (set ks)" and "distinct ks"
  shows "points_fit (trim_loop keep mc mb ks (int (length (points_of st scope)))
           (sum_list (map (point_bytes_of st) (points_of st scope))) st) scope mc mb"
  using assms
proof (induction ks arbitrary: st)
  case Nil
  then have "points_of st scope = [] \<or> points_of st scope = [keep]"
    by (cases "points_of st scope") (auto dest: subset_singletonD simp: distinct_singleton)
  moreover have "0 \<le> mb" using Nil.prems(2) point_bytes_nonneg by (rule order_trans [rotated])
  ultimately show ?case using Nil.prems by (auto simp: points_fit_def)
next
  case (Cons k ks)
  let ?ps = "points_of st scope" and ?st = "discard_resume_point k st"
  show ?case
  proof (cases "k = keep \<or> points_fit st scope mc mb")
    case True
    with Cons show ?thesis by (auto simp: points_fit_def)
  next
    case False
    have k: "k \<in> set ?ps" and ps: "points_of ?st scope = filter (\<lambda>x. x \<noteq> k) ?ps"
      using Cons.prems by (auto simp: points_of_discard)
    have "points_fit (trim_loop keep mc mb ks (int (length (points_of ?st scope)))
        (sum_list (map (point_bytes_of ?st) (points_of ?st scope))) ?st) scope mc mb"
      using Cons.prems False by (intro Cons.IH) (auto simp: ps)
    moreover have "int (length (points_of ?st scope)) = int (length ?ps) - 1"
      "sum_list (map (point_bytes_of ?st) (points_of ?st scope)) =
       sum_list (map (point_bytes_of st) ?ps) - point_bytes_of st k"
      using Cons.prems(3) k by (simp_all add: ps bytes_discard sum_filter_remove length_filter_remove)
    ultimately show ?thesis
      using False by (auto simp: points_fit_def)
  qed
qed

lemma trim_scope_fits:
  assumes "1 \<le> mc" and "point_bytes_of st keep \<le> mb" and ok: "dict_ok (ms_resume_points st)"
  shows "points_fit (trim_scope keep scope mc mb st) scope mc mb"
proof -
  define keys where "keys = map fst (sort_key (\<lambda>(k, p). rp_created_at p)
    (filter (\<lambda>(k, p). scope = None \<or> scope = Some (fst k)) (ms_resume_points st)))"
  have "mset keys = mset (map fst (filter (\<lambda>(k, p). scope = None \<or> scope = Some (fst k)) (ms_resume_points st)))"
    unfolding keys_def mset_map by simp
  also have "map fst (filter (\<lambda>(k, p). scope = None \<or> scope = Some (fst k)) (ms_resume_points st)) = points_of st scope"
    by (simp add: points_of_def in_scope_def filter_map o_def case_prod_unfold)
  finally have perm: "mset keys = mset (points_of st scope)" .
  have distinct: "distinct (points_of st scope)"
    using ok by (simp add: points_of_def dict_ok_def)
  have "sum_list (map (point_bytes_of st) keys) = sum_list (map (point_bytes_of st) (points_of st scope))"
    using perm by (metis mset_map sum_mset_sum_list)
  moreover have "length keys = length (points_of st scope)" "set keys = set (points_of st scope)" "distinct keys"
    using perm distinct by (metis mset_eq_length mset_eq_setD mset_eq_imp_distinct_iff)+
  ultimately show ?thesis
    using trim_loop_fits [OF assms(1,2) distinct, of keys]
    unfolding trim_scope_def keys_def [symmetric] Let_def by auto
qed

lemma trim_scope_keeps:
  assumes "\<And>k st. P st \<Longrightarrow> k \<noteq> keep \<Longrightarrow> P (discard_resume_point k st)" and "P st"
  shows "P (trim_scope keep scope mc mb st)"
  unfolding trim_scope_def Let_def by (rule trim_loop_keeps [OF assms])

lemma trim_limits [simp]: "ms_limits (trim_scope keep scope mc mb st) = ms_limits st"
  by (rule trim_scope_keeps [where P = "\<lambda>s. ms_limits s = ms_limits st"]) simp_all

section \<open>Saving\<close>

lemma points_of_set:
  "points_of (st\<lparr>ms_resume_points := dict_set key p (ms_resume_points st), ms_resume_point_bytes := bs\<rparr>) (Some j) =
   (if fst key = j \<and> key \<notin> set (dict_keys (ms_resume_points st)) then points_of st (Some j) @ [key] else points_of st (Some j))"
  by (auto simp: points_of_def in_scope_def AList.update_keys)

lemma points_ok_save:
  assumes ok: "points_ok st" and limits: "SessionStoreLimits_validate (ms_limits st) = Return (ms_limits st)"
    and i: "fst key = i" and size: "int n \<le> sl_max_resume_point_bytes (ms_limits st)"
  shows "points_ok (trim_resume_points i key
     (st\<lparr>ms_resume_points := dict_set key p (ms_resume_points st),
         ms_resume_point_bytes := dict_set key n (ms_resume_point_bytes st)\<rparr>))"
proof -
  let ?l = "ms_limits st"
  define st1 where "st1 = st\<lparr>ms_resume_points := dict_set key p (ms_resume_points st),
         ms_resume_point_bytes := dict_set key n (ms_resume_point_bytes st)\<rparr>"
  define st2 where "st2 = trim_scope key (Some i) (sl_max_resume_points_per_session ?l) (sl_max_resume_bytes_per_session ?l) st1"
  define st3 where "st3 = trim_scope key None (sl_max_resume_points_total ?l) (sl_max_resume_bytes_total ?l) st2"
  have l: "1 \<le> sl_max_resume_points_per_session ?l" "1 \<le> sl_max_resume_points_total ?l"
    "int n \<le> sl_max_resume_bytes_per_session ?l" "int n \<le> sl_max_resume_bytes_total ?l"
    using limits size by (auto simp: SessionStoreLimits_validate_def guard_defs split: if_splits)
  have st1: "dict_ok (ms_resume_points st1)" "point_bytes_of st1 key = int n"
    using ok by (simp_all add: st1_def points_ok_def point_bytes_of_def)
  have others: "points_fit st1 (Some j) (sl_max_resume_points_per_session ?l) (sl_max_resume_bytes_per_session ?l)"
    if "j \<noteq> i" for j
  proof -
    have "point_bytes_of st1 k = point_bytes_of st k" if "k \<in> set (points_of st (Some j))" for k
      using that \<open>j \<noteq> i\<close> i by (auto simp: st1_def point_bytes_of_def points_of_def in_scope_def)
    then have "map (point_bytes_of st1) (points_of st (Some j)) = map (point_bytes_of st) (points_of st (Some j))"
      by simp
    moreover have "points_of st1 (Some j) = points_of st (Some j)"
      using that i by (simp add: st1_def points_of_set)
    moreover have "points_fit st (Some j) (sl_max_resume_points_per_session ?l) (sl_max_resume_bytes_per_session ?l)"
      using ok by (simp add: points_ok_def Let_def)
    ultimately show ?thesis
      by (simp add: points_fit_def del: map_eq_conv)
  qed
  have st2: "dict_ok (ms_resume_points st2)" "point_bytes_of st2 key = int n"
    unfolding st2_def
    by (rule trim_scope_keeps [where P = "\<lambda>s. dict_ok (ms_resume_points s)"], simp_all add: st1 dict_ok_discard)
      (rule trim_scope_keeps [where P = "\<lambda>s. point_bytes_of s key = int n"], simp_all add: st1)
  have fit2: "points_fit st2 (Some j) (sl_max_resume_points_per_session ?l) (sl_max_resume_bytes_per_session ?l)" for j
  proof (cases "j = i")
    case True
    then show ?thesis unfolding st2_def using trim_scope_fits st1 l by simp
  next
    case False
    show ?thesis unfolding st2_def by (rule trim_scope_keeps) (simp_all add: points_fit_discard others [OF False])
  qed
  have "points_fit st3 (Some j) (sl_max_resume_points_per_session ?l) (sl_max_resume_bytes_per_session ?l)" for j
    unfolding st3_def by (rule trim_scope_keeps) (simp_all add: points_fit_discard fit2)
  moreover have "points_fit st3 None (sl_max_resume_points_total ?l) (sl_max_resume_bytes_total ?l)"
    unfolding st3_def using trim_scope_fits st2 l by simp
  moreover have "dict_ok (ms_resume_points st3)"
    unfolding st3_def
    by (rule trim_scope_keeps [where P = "\<lambda>s. dict_ok (ms_resume_points s)"]) (simp_all add: st2 dict_ok_discard)
  moreover have "ms_limits st3 = ?l" by (simp add: st3_def st2_def st1_def)
  moreover have "trim_resume_points i key st1 = st3"
    by (simp add: trim_resume_points_def Let_def st3_def st2_def st1_def)
  ultimately show ?thesis
    by (simp add: points_ok_def st1_def [symmetric])
qed

section \<open>Every reachable store\<close>

lemma points_ok_cong:
  "ms_resume_points st' = ms_resume_points st \<Longrightarrow> ms_resume_point_bytes st' = ms_resume_point_bytes st \<Longrightarrow>
   ms_limits st' = ms_limits st \<Longrightarrow> points_ok st' = points_ok st"
  unfolding points_ok_def points_fit_def points_of_def point_bytes_of_def by simp

lemma empty_limits: "ms_limits (empty_store l) = l"
  by (simp add: empty_store_def)

lemma points_ok_empty: "limits_in_range l \<Longrightarrow> points_ok (empty_store l)"
  by (simp add: points_ok_def points_fit_def points_of_def empty_store_def guard_defs)

lemma points_ok_points_op:
  assumes ok: "points_ok st" and limits: "SessionStoreLimits_validate (ms_limits st) = Return (ms_limits st)"
  shows "points_ok (snd (save_resume_point p sz st i pt clock))" and "points_ok (snd (get_resume_point st i run clock))"
proof -
  have "ms_limits (expire_resume_points t st) = ms_limits st" for t
    using durable_expire [of t st] durable_sel(9) by metis
  then show "points_ok (snd (save_resume_point p sz st i pt clock))"
    using ok points_ok_save [OF points_ok_expire [OF ok]] limits
    by (simp add: save_resume_point_def Let_def points_ok_expire split: option.split after_check_split)
  show "points_ok (snd (get_resume_point st i run clock))"
    using ok by (simp add: get_resume_point_def Let_def points_ok_expire split: option.split after_check_split)
qed

lemma points_ok_append:
  assumes ok: "points_ok st"
  shows "points_ok (snd (session_append sha st i eid ty payload key expected occ now clock))"
proof -
  have stored: "points_ok (store_event st r source fp e)" for r source fp e
    using ok by (subst points_ok_cong [of _ st]) (simp_all add: store_event_def Let_def)
  have "points_ok (snd (append_new sha st r source eid ty payload key expected occ now clock))" for r source
    unfolding append_new_def Let_def
    by (simp add: ok stored points_ok_expire points_ok_discard split: after_check_split option.split)
  then show ?thesis
    unfolding session_append_def
    by (intro after_check_snd [where Q = points_ok] if_snd [where Q = points_ok]) (auto simp: ok split: option.split)
qed

lemma points_ok_step:
  assumes ok: "points_ok st" and limits: "SessionStoreLimits_validate (ms_limits st) = Return (ms_limits st)"
  shows "points_ok (snd (session_step env st op))"
proof (cases op)
  case (SavePointOp i p clock)
  then show ?thesis by (simp add: points_ok_points_op [OF ok limits])
next
  case (GetPointOp i run clock)
  then show ?thesis by (simp add: points_ok_points_op [OF ok limits])
next
  case (AppendOp i eid ty payload key expected occ now clock)
  then show ?thesis by (simp add: points_ok_append [OF ok])
next
  case (CreateOp i now later)
  with ok show ?thesis
    by (subst points_ok_cong [of _ st]) (simp_all add: session_create_def split: after_check_split option.split)
next
  case (ClaimOp i run owner lease clock)
  with ok show ?thesis
    by (subst points_ok_cong [of _ st]) (simp_all add: claim_run_def split: after_check_split option.split prod.split)
next
  case (FinalizeOp i run owner lease clock)
  with ok show ?thesis
    by (subst points_ok_cong [of _ st]) (simp_all add: finalize_run_def split: after_check_split option.split prod.split)
next
  case (StopOp i run clock)
  with ok show ?thesis
    by (subst points_ok_cong [of _ st]) (simp_all add: request_stop_def split: after_check_split option.split prod.split)
next
  case (CheckpointOp i cid ws expected key now)
  with ok show ?thesis
    by (subst points_ok_cong [of _ st])
      (simp_all add: save_checkpoint_def checkpoint_new_def split: after_check_split option.split prod.split)
next
  case (StatusOp i status expected now)
  with ok show ?thesis
    by (subst points_ok_cong [of _ st]) (simp_all add: set_status_def Let_def split: after_check_split)
qed

lemma points_ok_reachable:
  assumes "SessionStoreLimits_validate l = Return l"
  shows "points_ok (snd (session_run env (empty_store l) ops))"
proof -
  let ?P = "\<lambda>st. points_ok st \<and> ms_limits st = l"
  have "limits_in_range l" using assms by (simp add: SessionStoreLimits_validate_def split: if_splits)
  then have "?P (empty_store l)" by (simp add: points_ok_empty empty_limits)
  then have "?P (snd (session_run env (empty_store l) ops))"
    by (rule run_with_keeps [rotated]) (use points_ok_step assms in auto)
  then show ?thesis ..
qed

section \<open>Giving a saved point back\<close>

definition expired :: "instant \<Rightarrow> InMemorySessionStore \<Rightarrow> session_key \<Rightarrow> bool" where
  "expired now st k \<longleftrightarrow> (\<exists>p. dict_get (ms_resume_points st) k = Some p \<and> RESUME_POINT_TTL \<le> now - rp_created_at p)"

lemma fold_discard_get:
  "dict_get (ms_resume_points (fold discard_resume_point ks st)) k =
   (if k \<in> set ks then None else dict_get (ms_resume_points st) k)"
  by (induction ks arbitrary: st) (auto simp: discard_resume_point_def)

text \<open>A point that is not expired survives the expiry.\<close>

lemma expire_keeps:
  assumes ok: "dict_ok (ms_resume_points st)" and p: "dict_get (ms_resume_points st) k = Some p"
    and fresh: "now - rp_created_at p < RESUME_POINT_TTL"
  shows "dict_get (ms_resume_points (expire_resume_points now st)) k = Some p"
proof -
  have "k \<notin> set (map fst (filter (\<lambda>(k, p). RESUME_POINT_TTL \<le> now - rp_created_at p) (ms_resume_points st)))"
    using p fresh by (auto simp: dict_get_in_set [OF ok, symmetric])
  with p show ?thesis by (simp add: expire_resume_points_def fold_discard_get del: set_map)
qed

lemma trim_keeps_saved:
  assumes "dict_get (ms_resume_points st) key = Some p"
  shows "dict_get (ms_resume_points (trim_resume_points i key st)) key = Some p"
  unfolding trim_resume_points_def Let_def
  by (intro trim_scope_keeps [where P = "\<lambda>s. dict_get (ms_resume_points s) key = Some p"])
    (simp_all add: discard_resume_point_def assms)

end
