(* ===== verification/Session_Properties.thy ===== *)
theory Session_Properties
  imports Session_Points
begin

text \<open>
  The properties of the session store, with a concrete session on which they are applied.
\<close>

section \<open>A concrete session\<close>

definition demo_session :: SessionIdentity where
  "demo_session = \<lparr>si_tenant_id = ''acme'', si_product_id = ''desk'', si_agent_id = ''helper'', si_session_id = ''s1'',
     si_principal_id = ''ann''\<rparr>"

definition demo_surrounding :: session_env where
  "demo_surrounding = \<lparr>en_sha = (\<lambda>s. s), en_parse_iso = (\<lambda>_. None), en_size_of = (\<lambda>_. 600)\<rparr>"

definition demo_owner :: string where
  "demo_owner = ''0123456789abcdef0123456789abcdef''"

text \<open>The session is created, a run claimed, and a message of the user appended.\<close>

definition demo_ops :: "session_op list" where
  "demo_ops = [CreateOp demo_session 0 0, ClaimOp demo_session ''run1'' demo_owner (Some (60 * second)) (Aware 10 0),
     AppendOp demo_session ''e1'' USER_MESSAGE (JStr ''hi'') (Some ''k1'') None None 20 (Aware 20 0)]"

definition demo_store :: InMemorySessionStore where
  "demo_store = snd (session_run demo_surrounding (empty_store default_limits) demo_ops)"

definition demo_event :: TranscriptEvent where
  "demo_event = \<lparr>te_identity = demo_session, te_event_id = ''e2'', te_sequence = 2, te_revision = 2,
     te_type = ASSISTANT_MESSAGE, te_payload = JStr ''hello'', te_occurred_at = 30, te_idempotency_key = Some ''k2''\<rparr>"

definition demo_digest :: string where "demo_digest = concat (replicate 4 ''0123456789abcdef'')"

definition demo_point :: RunResumePoint where
  "demo_point = \<lparr>rp_identity = demo_session, rp_run_id = ''run1'',
     rp_payload = JObj [(''message_digest'', JStr demo_digest), (''input'', JStr ''hi''),
       (''conversation'', JObj [(''messages'', JList [])]),
       (''resume_state'', JObj [(''source_run_id'', JStr ''run1''), (''workflow_state'', JNull), (''iterations_used'', JInt 0),
          (''tool_calls_used'', JInt 0), (''observations'', JList []), (''call_ids'', JList []),
          (''prompt_digest'', JStr demo_digest), (''route_key'', JStr ''r'')])],
     rp_memory_invalidated_revision = 0, rp_memory_source_versions = [], rp_created_at = 25\<rparr>"

definition demo_saved :: SessionCheckpoint where
  "demo_saved = \<lparr>sc_identity = demo_session, sc_checkpoint_id = ''c1'', sc_revision = 2, sc_workflow_state = JInt 7,
     sc_last_event_sequence = 1, sc_created_at = 50, sc_idempotency_key = ''ck1''\<rparr>"

text \<open>What the operations answer on it.\<close>

lemma demo_append:
  "fst (session_append (\<lambda>s. s) demo_store demo_session ''e2'' ASSISTANT_MESSAGE (JStr ''hello'') (Some ''k2'') (Some 1) None
     30 (Aware 31 0)) = Return demo_event"
  by code_simp

lemma demo_save_answer:
  "fst (save_checkpoint (\<lambda>s. s) demo_store demo_session ''c1'' (JInt 7) 1 ''ck1'' 50) = Return demo_saved"
  "dict_get (ms_checkpoint_idempotency demo_store) (demo_session, ''ck1'') = None"
  by code_simp+

lemma demo_there: "session_get demo_store demo_session \<noteq> None"
  by code_simp

lemma demo_point_harmless: "\<not> unsafe_payload (rp_payload demo_point)" "\<not> has_non_finite (rp_payload demo_point)"
  by code_simp+

lemma demo_point_small: "length (dumps (rp_payload demo_point)) \<le> 600"
  by code_simp

lemma demo_point_digest: "has_sha (json_get (rp_payload demo_point) ''message_digest'')"
  by code_simp

lemma demo_point_state:
  "case json_get (rp_payload demo_point) ''resume_state'' of
     Some state \<Rightarrow> resumable_state (\<lambda>_. None) (rp_run_id demo_point) state | None \<Rightarrow> False"
  by code_simp

lemma demo_point_rest:
  "RunResumePoint_validate demo_point = Return demo_point" "json_get (rp_payload demo_point) ''input'' \<noteq> None"
  "case json_get (rp_payload demo_point) ''conversation'' of Some c \<Rightarrow> json_list (json_get c ''messages'') \<noteq> None | None \<Rightarrow> False"
  by code_simp+

lemma demo_point_safe: "safe_resume_point (\<lambda>_. None) demo_point = Some demo_point"
  using demo_point_harmless demo_point_small demo_point_digest demo_point_state demo_point_rest
  by (simp add: safe_resume_point_def Let_def)

lemma demo_point_current: "point_current (expire_resume_points 40 demo_store) demo_point 40"
  by code_simp

lemma demo_point_fits: "rp_identity demo_point = demo_session" "sl_max_resume_point_bytes (ms_limits demo_store) = 512 * 1024"
  by code_simp+

lemma demo_point_saved:
  "fst (save_resume_point (\<lambda>_. None) (\<lambda>_. 600) demo_store demo_session demo_point (Aware 40 0)) = Return (Some demo_point)"
  using demo_point_current demo_point_fits
  by (simp add: save_resume_point_def demo_point_safe session_now_def Let_def)

lemma default_limits_valid: "SessionStoreLimits_validate default_limits = Return default_limits" "limits_in_range default_limits"
  by code_simp+

lemma demo_env_sel: "en_sha demo_surrounding = (\<lambda>s. s)" "en_parse_iso demo_surrounding = (\<lambda>_. None)"
  "en_size_of demo_surrounding = (\<lambda>_. 600)"
  by (simp_all add: demo_surrounding_def)

section \<open>Properties\<close>

text \<open>
  C31. A run is acquired once. Whatever sequence of operations is performed on a fresh store, by
  however many callers: \<open>claim_run\<close> answers ``acquired'' at most once for a run of a session, also
  after its lease has expired, \<open>finalize_run\<close> succeeds at most once for a run, and only for the owner
  token that acquired it.
\<close>

theorem run_claimed_once:
  "let outs = fst (session_run env (empty_store l) ops) in
     distinct (map fst (picked acquired ops outs)) \<and>
     distinct (map fst (picked finalised ops outs)) \<and>
     set (picked finalised ops outs) \<subseteq> set (picked acquired ops outs)"
proof -
  let ?outs = "fst (session_run env (empty_store l) ops)"
  have "distinct (map fst (picked acquired ops ?outs))"
    unfolding map_picked by (rule claims.granted_distinct)
  moreover have "distinct (map fst (picked finalised ops ?outs))"
    unfolding map_picked by (rule finals.granted_distinct)
  moreover have "set (picked finalised ops ?outs) \<subseteq> set (picked acquired ops ?outs)"
    using finalised_by_owner [of _ _ ops env "empty_store l"] by (auto simp: claim_owner_def empty_store_def)
  ultimately show ?thesis by (simp add: Let_def)
qed

text \<open>
  C32. The invariant of the session store. After any sequence of operations on a fresh store with
  limits in range: every session has its transcript and its checkpoints; sequence numbers count
  from one without gaps; revisions increase strictly and stay below the session's; event ids are
  unique; the memory invalidation the record points at is an event of the transcript, so the search
  for it never comes up empty; both idempotency indexes and the index of event ids are exactly
  what a search of the transcript or of the checkpoints finds; the limits on sessions,
  events and checkpoints are kept.
\<close>

theorem session_store_invariant:
  assumes "limits_in_range l"
  shows "store_ok (en_sha env) (snd (session_run env (empty_store l) ops))"
  using store_ok_reachable [OF assms] by blast

theorem session_store_invariant_witness: "store_ok (\<lambda>s. s) demo_store"
  using session_store_invariant [OF default_limits_valid(2), of demo_surrounding demo_ops]
  by (simp add: demo_store_def demo_env_sel)

text \<open>
  C33. Appends are idempotent. When an append with an idempotency key has stored its event, or found
  it, then repeating it later, under another event id, with any expected revision and after any
  other operations, returns the same event and changes nothing.
\<close>

theorem append_replayed:
  assumes limits: "limits_in_range l"
    and first: "session_append (en_sha env) (snd (session_run env (empty_store l) ops)) i eid ty payload (Some k)
        expected occ now clock = (Return e, st1)"
    and key: "te_idempotency_key e = Some k"
    and later: "st2 = snd (session_run env st1 ops')"
  shows "session_append (en_sha env) st2 i eid' ty payload (Some k) expected' occ' now' clock' = (Return e, st2)"
proof -
  let ?st = "snd (session_run env (empty_store l) ops)"
  note st = store_ok_reachable [OF limits, of env ops]
  have st1: "store_ok (en_sha env) st1" "ms_limits st1 = ms_limits ?st"
    using store_ok_append [of "en_sha env" ?st i eid ty payload "Some k" expected occ now clock] st
      limits_step [of env ?st "AppendOp i eid ty payload (Some k) expected occ now clock"] first by simp_all
  then have in_range: "limits_in_range (ms_limits st1)" using st limits by simp
  note entry = append_indexed [OF conjunct1 [OF st] first key]
  show ?thesis
    using append_found [OF first] index_persists [OF st1(1) in_range entry, of ops'] store_ok_run [OF st1(1) in_range, of ops']
    by (simp add: later st1(2))
qed

theorem append_replayed_witness:
  "\<exists>st1. session_append (\<lambda>s. s) demo_store demo_session ''e2'' ASSISTANT_MESSAGE (JStr ''hello'') (Some ''k2'') (Some 1) None
        30 (Aware 31 0) = (Return demo_event, st1) \<and>
      (let st2 = snd (session_run demo_surrounding st1 [StatusOp demo_session COMPLETED 2 35]) in
       session_append (\<lambda>s. s) st2 demo_session ''e3'' ASSISTANT_MESSAGE (JStr ''hello'') (Some ''k2'') (Some 1) None
         40 (Aware 41 0) = (Return demo_event, st2))"
proof -
  obtain st1 where first: "session_append (\<lambda>s. s) demo_store demo_session ''e2'' ASSISTANT_MESSAGE (JStr ''hello'')
      (Some ''k2'') (Some 1) None 30 (Aware 31 0) = (Return demo_event, st1)"
    using demo_append by (metis prod.collapse)
  have "te_idempotency_key demo_event = Some ''k2''" by (simp add: demo_event_def)
  from append_replayed [OF default_limits_valid(2) first [unfolded demo_store_def, folded demo_env_sel(1)] this refl,
      of "[StatusOp demo_session COMPLETED 2 35]" "''e3''" "Some 1" None 40 "Aware 41 0"] first
  show ?thesis unfolding Let_def demo_env_sel(1) by blast
qed

text \<open>
  C34. Resuming after a checkpoint. When a checkpoint has been saved under a new key, then after any
  further operations that save no other checkpoint of this session, \<open>resume\<close> returns this
  checkpoint, and its transcript is exactly what was appended since.
\<close>

theorem resume_after_checkpoint:
  assumes limits: "SessionStoreLimits_validate l = Return l"
    and st: "st = snd (session_run env (empty_store l) ops)"
    and saved: "save_checkpoint (en_sha env) st i cid state expected key now = (Return c, st1)"
    and new: "dict_get (ms_checkpoint_idempotency st) (i, key) = None"
    and others: "list_all (\<lambda>op. \<not> saves_checkpoint i op) ops'"
    and later: "st2 = snd (session_run env st1 ops')"
  shows "\<exists>s. session_resume st2 i = Some s \<and> sn_checkpoint s = Some c \<and> events_of st2 i = events_of st i @ sn_transcript s"
proof -
  have range: "limits_in_range l" and bytes: "sl_max_checkpoint_state_bytes l \<le> sl_max_checkpoint_bytes_per_session l"
    using limits by (auto simp: SessionStoreLimits_validate_def split: if_splits)
  have at_least: "1 \<le> sl_max_checkpoints_per_session l" using range by (simp add: guard_defs)
  have ok: "store_ok (en_sha env) st" "ms_limits st = l" using store_ok_reachable [OF range] st by auto
  have ok1: "store_ok (en_sha env) st1" "ms_limits st1 = l"
    using store_ok_step [OF ok(1), of "CheckpointOp i cid state expected key now"]
      limits_step [of env st "CheckpointOp i cid state expected key now"] range saved ok(2) by simp_all
  from saved obtain kept where kept: "checkpoints_of st1 i = kept @ [c]"
    and c: "sc_last_event_sequence c = int (length (events_of st i))"
  proof (cases rule: save_checkpoint_cases)
    case (saved r c' cs idem)
    have "state_bytes c' \<le> sl_max_checkpoint_bytes_per_session l"
      using saved(2,5) bytes ok(2) by (simp add: state_bytes_def)
    then obtain kept where "cs = kept @ [c']"
      using prune_keeps_last [of l c' i "checkpoints_of st i"] saved(6) at_least ok(2) by (metis fst_conv)
    with saved that show thesis by (simp add: checkpoints_of_def)
  qed (use new in simp_all)
  have same: "events_of st1 i = events_of st i" by (rule checkpoint_grows [OF saved])
  have range1: "limits_in_range (ms_limits st1)" using range ok1(2) by simp
  note ok2 = store_ok_run(1) [OF ok1(1) range1, of ops', folded later]
  have kept2: "checkpoints_of st2 i = kept @ [c]"
    using run_grows [OF ok1(1) range1, of ops' i] others kept later by simp
  obtain es where es: "events_of st2 i = events_of st i @ es"
    using run_grows [OF ok1(1) range1, of ops' i] same later by auto
  obtain r where r: "dict_get (ms_sessions st2) i = Some r"
    using store_ok_no_session(2) [OF ok2, of i] kept2 by fastforce
  then have "map te_sequence (events_of st2 i) = map int [1..<Suc (length (events_of st2 i))]"
    using store_ok_entries(3) [OF ok2 r] by (simp add: session_ok_def transcript_ok_def)
  from drop_filter_sequence [OF this, of "sc_last_event_sequence c"]
  show ?thesis by (simp add: session_resume_def r kept2 Let_def c es)
qed

theorem resume_after_checkpoint_witness:
  "\<exists>st1 s. save_checkpoint (\<lambda>s. s) demo_store demo_session ''c1'' (JInt 7) 1 ''ck1'' 50 = (Return demo_saved, st1) \<and>
     (let st2 = snd (session_run demo_surrounding st1
        [AppendOp demo_session ''e2'' ASSISTANT_MESSAGE (JStr ''hello'') None None None 60 (Aware 60 0)]) in
      session_resume st2 demo_session = Some s \<and> sn_checkpoint s = Some demo_saved \<and>
      events_of st2 demo_session = events_of demo_store demo_session @ sn_transcript s)"
proof -
  obtain st1 where saved: "save_checkpoint (\<lambda>s. s) demo_store demo_session ''c1'' (JInt 7) 1 ''ck1'' 50 =
      (Return demo_saved, st1)"
    using demo_save_answer(1) by (metis prod.collapse)
  from resume_after_checkpoint [OF default_limits_valid(1) demo_store_def saved [folded demo_env_sel(1)]
      demo_save_answer(2) _ refl,
      of "[AppendOp demo_session ''e2'' ASSISTANT_MESSAGE (JStr ''hello'') None None None 60 (Aware 60 0)]"] saved
  show ?thesis unfolding Let_def by auto
qed

text \<open>
  Pages of a transcript. The page before sequence number \<open>b\<close>, which the store cuts out by
  position, holds the newest \<open>limit\<close> of the events whose sequence number is below \<open>b\<close>, in order;
  without \<open>b\<close> it holds the newest \<open>limit\<close> events and is what \<open>recent_transcript\<close> returns.
\<close>

theorem transcript_page_by_sequence:
  assumes limits: "limits_in_range l"
    and st: "st = snd (session_run env (empty_store l) ops)"
    and there: "session_get st i = Some r"
    and limit: "1 \<le> limit" "limit \<le> 1000" and b: "1 \<le> b"
  shows "transcript_page st i limit (Some b) = Return (newest limit (filter (\<lambda>e. te_sequence e < b) (events_of st i))) \<and>
         transcript_page st i limit None = Return (newest limit (events_of st i)) \<and>
         recent_transcript st i limit = Return (newest limit (events_of st i))"
proof -
  let ?es = "events_of st i"
  have ok: "store_ok (en_sha env) st" using store_ok_reachable [OF limits] st by simp
  have r: "dict_get (ms_sessions st) i = Some r" using there by (simp add: session_get_def)
  have "map te_sequence ?es = map int [1..<Suc (length ?es)]"
    using store_ok_entries(3) [OF ok r] by (simp add: session_ok_def transcript_ok_def)
  from take_filter_sequence [OF this b]
  have "filter (\<lambda>e. te_sequence e < b) ?es = take (nat (min (int (length ?es)) (b - 1))) ?es"
    by (simp add: min_def)
  then have "newest limit (filter (\<lambda>e. te_sequence e < b) ?es) =
      (let upto = min (int (length ?es)) (b - 1); from = max 0 (upto - limit) in take (nat (upto - from)) (drop (nat from) ?es))"
    using page_cut [of "min (int (length ?es)) (b - 1)" ?es limit] limit b by (simp add: Let_def)
  moreover have "newest limit ?es =
      (let upto = int (length ?es); from = max 0 (upto - limit) in take (nat (upto - from)) (drop (nat from) ?es))"
    unfolding Let_def
    by (rule page_cut [OF of_nat_0_le_iff order_refl limit(1), unfolded nat_int take_all [OF order_refl], symmetric])
  ultimately show ?thesis
    using limit b r
    by (simp add: transcript_page_def recent_transcript_def validate_transcript_page_def session_require_def Let_def
        newest_def [of limit ?es, symmetric])
qed

theorem transcript_page_by_sequence_witness:
  "transcript_page demo_store demo_session 10 (Some 2) =
     Return (newest 10 (filter (\<lambda>e. te_sequence e < 2) (events_of demo_store demo_session)))"
proof -
  obtain r where "session_get demo_store demo_session = Some r" using demo_there by auto
  from transcript_page_by_sequence [OF default_limits_valid(2) demo_store_def this, of 10 2] show ?thesis by simp
qed

text \<open>
  Recovery points are bounded and given back. In every store that operations on a fresh store
  with valid limits reach, the number and the bytes of the recovery points are within the limits
  for each session and in all; and when \<open>save_resume_point\<close> accepts a point, trimming the older ones
  has not removed it: \<open>get_resume_point\<close> at the same reading of the clock returns it.
\<close>

theorem resume_point_saved:
  assumes limits: "SessionStoreLimits_validate l = Return l"
    and st: "st = snd (session_run env (empty_store l) ops)"
    and saved: "save_resume_point (en_parse_iso env) (en_size_of env) st i point clock = (Return (Some p), st1)"
  shows "points_ok st \<and> points_ok st1 \<and> fst (get_resume_point st1 i (rp_run_id p) clock) = Return (Some p)"
proof -
  have range: "limits_in_range l" using limits by (simp add: SessionStoreLimits_validate_def split: if_splits)
  have ok: "points_ok st" using points_ok_reachable [OF limits] st by simp
  have "ms_limits st = l" using store_ok_reachable [OF range] st by simp
  then have ok1: "points_ok st1"
    using points_ok_points_op(1) [OF ok, of "en_parse_iso env" "en_size_of env" i point clock] limits saved by simp
  let ?key = "(i, rp_run_id p)"
  from saved obtain now where now: "session_now clock = Inr now" and safe: "safe_resume_point (en_parse_iso env) point = Some p"
    and current: "point_current (expire_resume_points now st) p now"
    and st1: "st1 = trim_resume_points i ?key ((expire_resume_points now st)
       \<lparr>ms_resume_points := dict_set ?key p (ms_resume_points (expire_resume_points now st)),
        ms_resume_point_bytes := dict_set ?key (en_size_of env p) (ms_resume_point_bytes (expire_resume_points now st))\<rparr>)"
    unfolding save_resume_point_def Let_def by (auto split: option.splits after_check_splits if_splits)
  have "dict_get (ms_resume_points st1) ?key = Some p"
    unfolding st1 by (rule trim_keeps_saved) simp
  moreover have fresh: "0 \<le> now - rp_created_at p" "now - rp_created_at p < RESUME_POINT_TTL"
    using current by (auto simp: point_current_def Let_def)
  ultimately have "dict_get (ms_resume_points (expire_resume_points now st1)) ?key = Some p"
    using ok1 by (intro expire_keeps) (simp_all add: points_ok_def)
  moreover have "validate_run_id (rp_run_id p) = Return ()"
    using safe by (auto simp: safe_resume_point_def Let_def RunResumePoint_validate_def validate_run_id_def result_bind_def
        split: if_splits sum.splits)
  ultimately show ?thesis
    using ok ok1 now fresh by (simp add: get_resume_point_def Let_def)
qed

theorem resume_point_saved_witness:
  "\<exists>st1. save_resume_point (\<lambda>_. None) (\<lambda>_. 600) demo_store demo_session demo_point (Aware 40 0) = (Return (Some demo_point), st1) \<and>
     points_ok st1 \<and> fst (get_resume_point st1 demo_session ''run1'' (Aware 40 0)) = Return (Some demo_point)"
proof -
  obtain st1 where saved: "save_resume_point (\<lambda>_. None) (\<lambda>_. 600) demo_store demo_session demo_point (Aware 40 0) =
      (Return (Some demo_point), st1)"
    using demo_point_saved by (metis prod.collapse)
  have "rp_run_id demo_point = ''run1''" by (simp add: demo_point_def)
  with resume_point_saved [OF default_limits_valid(1) demo_store_def saved [folded demo_env_sel(2,3)]] saved
  show ?thesis by auto
qed

end
