(* ===== verification/Plugin_Models.thy ===== *)
theory Plugin_Models
  imports Prelude
begin

text \<open>
  \<^verbatim>\<open>src/suiteharness/plugins/models.py\<close> and \<^verbatim>\<open>plugins/errors.py\<close>: the data-only declarations of plugins.
  A pydantic model is a record and its validators a function into \<open>result\<close>. The package
  \<^verbatim>\<open>packaging\<close> is a parameter: how it reads and prints versions, which specifiers it accepts and which versions
  a specifier contains; so is the class of the word characters beyond ASCII.
\<close>

section \<open>Errors\<close>

datatype PluginErrorCode =
    PATH_NOT_ALLOWED | INVALID_SOURCE | INVALID_MANIFEST | DIGEST_MISMATCH | SIGNATURE_REJECTED | TRUST_REJECTED
  | HARNESS_API_MISMATCH | DUPLICATE_PLUGIN | DUPLICATE_PROVIDER | MISSING_PROVIDER | PROVIDER_VERSION_MISMATCH
  | DEPENDENCY_CYCLE | CONTRIBUTION_CONFLICT | INVALID_EXPORTS | INVALID_CONTRIBUTION | UNSUPPORTED_TRUST_MODE
  | ALREADY_ACTIVE | NOT_ACTIVE | ACTIVATION_FAILED | CLEANUP_FAILED

fun plugin_code_value :: "PluginErrorCode \<Rightarrow> string" where
  "plugin_code_value PATH_NOT_ALLOWED = ''path_not_allowed''"
| "plugin_code_value INVALID_SOURCE = ''invalid_source''"
| "plugin_code_value INVALID_MANIFEST = ''invalid_manifest''"
| "plugin_code_value DIGEST_MISMATCH = ''digest_mismatch''"
| "plugin_code_value SIGNATURE_REJECTED = ''signature_rejected''"
| "plugin_code_value TRUST_REJECTED = ''trust_rejected''"
| "plugin_code_value HARNESS_API_MISMATCH = ''harness_api_mismatch''"
| "plugin_code_value DUPLICATE_PLUGIN = ''duplicate_plugin''"
| "plugin_code_value DUPLICATE_PROVIDER = ''duplicate_provider''"
| "plugin_code_value MISSING_PROVIDER = ''missing_provider''"
| "plugin_code_value PROVIDER_VERSION_MISMATCH = ''provider_version_mismatch''"
| "plugin_code_value DEPENDENCY_CYCLE = ''dependency_cycle''"
| "plugin_code_value CONTRIBUTION_CONFLICT = ''contribution_conflict''"
| "plugin_code_value INVALID_EXPORTS = ''invalid_exports''"
| "plugin_code_value INVALID_CONTRIBUTION = ''invalid_contribution''"
| "plugin_code_value UNSUPPORTED_TRUST_MODE = ''unsupported_trust_mode''"
| "plugin_code_value ALREADY_ACTIVE = ''already_active''"
| "plugin_code_value NOT_ACTIVE = ''not_active''"
| "plugin_code_value ACTIVATION_FAILED = ''activation_failed''"
| "plugin_code_value CLEANUP_FAILED = ''cleanup_failed''"

abbreviation plan_error :: "PluginErrorCode \<Rightarrow> string \<Rightarrow> (string \<times> string list) list \<Rightarrow> 'a result" where
  "plan_error code message detail \<equiv> Raise (PluginPlanError (plugin_code_value code) message detail)"

abbreviation lifecycle_error :: "PluginErrorCode \<Rightarrow> string \<Rightarrow> (string \<times> string list) list \<Rightarrow> 'a result" where
  "lifecycle_error code message detail \<equiv> Raise (PluginLifecycleError (plugin_code_value code) message detail)"

section \<open>The surrounding\<close>

record 'v packaging =
  pk_Version :: "string \<Rightarrow> 'v option"
  pk_str :: "'v \<Rightarrow> string"
  pk_SpecifierSet :: "string \<Rightarrow> bool"
  pk_in :: "'v \<Rightarrow> string \<Rightarrow> bool"
  pk_word :: "string \<Rightarrow> bool"

section \<open>Regular expressions\<close>

text \<open>\<open>[a-z][a-z0-9]*(?:[._/-][a-z0-9]+)*\<close>\<close>

fun plugin_id_tail :: "bool \<Rightarrow> string \<Rightarrow> bool" where
  "plugin_id_tail acc [] = acc"
| "plugin_id_tail acc (c # cs) =
     (if is_lower c \<or> is_digit c then plugin_id_tail True cs
      else acc \<and> c \<in> set ''._/-'' \<and> plugin_id_tail False cs)"

definition PLUGIN_ID :: "string \<Rightarrow> bool" where
  "PLUGIN_ID s \<longleftrightarrow> (case s of [] \<Rightarrow> False | c # cs \<Rightarrow> is_lower c \<and> plugin_id_tail True cs)"

text \<open>\<open>\w\<close> and \<open>[A-Za-z_]\<close>, on code points.\<close>

definition word_char :: "(string \<Rightarrow> bool) \<Rightarrow> string \<Rightarrow> bool" where
  "word_char unicode p \<longleftrightarrow> (case p of [c] \<Rightarrow> is_alnum c \<or> c = CHR ''_'' | _ \<Rightarrow> unicode p)"

definition name_start :: "string \<Rightarrow> bool" where
  "name_start p \<longleftrightarrow> (case p of [c] \<Rightarrow> is_lower c \<or> is_upper c \<or> c = CHR ''_'' | _ \<Rightarrow> False)"

text \<open>
  \<open>[A-Za-z_]\w*(?:\.[A-Za-z_]\w*)*:[A-Za-z_]\w*\<close>: the first flag says whether a name has just
  started (a start character is due), the second whether the colon has been read.
\<close>

fun entrypoint_tail :: "(string \<Rightarrow> bool) \<Rightarrow> bool \<Rightarrow> bool \<Rightarrow> string list \<Rightarrow> bool" where
  "entrypoint_tail unicode due colon [] = (\<not> due \<and> colon)"
| "entrypoint_tail unicode due colon (p # ps) =
     (if due then name_start p \<and> entrypoint_tail unicode False colon ps
      else if word_char unicode p then entrypoint_tail unicode False colon ps
      else if p = ''.'' then \<not> colon \<and> entrypoint_tail unicode True False ps
      else p = '':'' \<and> \<not> colon \<and> entrypoint_tail unicode True True ps)"

definition ENTRYPOINT :: "(string \<Rightarrow> bool) \<Rightarrow> string \<Rightarrow> bool" where
  "ENTRYPOINT unicode s \<longleftrightarrow> entrypoint_tail unicode True False (py_chars s)"

definition DIGEST :: "string \<Rightarrow> bool" where
  "DIGEST s \<longleftrightarrow> take 7 s = ''sha256:'' \<and> length s = 71 \<and>
     list_all (\<lambda>c. is_digit c \<or> (CHR ''a'' \<le> c \<and> c \<le> CHR ''f'')) (drop 7 s)"

definition KEY_ID :: "string \<Rightarrow> bool" where
  "KEY_ID s \<longleftrightarrow> head_then (\<lambda>c. is_alnum c \<or> c \<in> set ''._:/-'') 127 s"

text \<open>\<open>value.strip() == value\<close>: the outermost code points are no white space.\<close>

definition unpadded :: "string \<Rightarrow> bool" where
  "unpadded s \<longleftrightarrow> (case py_chars s of [] \<Rightarrow> True | p # ps \<Rightarrow> \<not> space_point p \<and> \<not> space_point (last (p # ps)))"

section \<open>Field validators\<close>

definition plugin_identifier :: "string \<Rightarrow> string \<Rightarrow> string result" where
  "plugin_identifier v label = (if PLUGIN_ID v then Return v else Raise (ValueError (''invalid '' @ label)))"

definition canonical_version :: "'v packaging \<Rightarrow> string \<Rightarrow> string \<Rightarrow> string result" where
  "canonical_version pk v label =
     (if v = [] \<or> \<not> unpadded v then Raise (ValueError (label @ '' must be a non-empty canonical version''))
      else case pk_Version pk v of
             None \<Rightarrow> Raise (ValueError (''invalid '' @ label))
           | Some parsed \<Rightarrow>
               if pk_str pk parsed \<noteq> v then Raise (ValueError (label @ '' must be canonical; use '' @ pk_str pk parsed))
               else Return v)"

definition version_specifier :: "'v packaging \<Rightarrow> string \<Rightarrow> string \<Rightarrow> bool \<Rightarrow> string result" where
  "version_specifier pk v label allow_empty =
     (if \<not> unpadded v \<or> (v = [] \<and> \<not> allow_empty) then Raise (ValueError (label @ '' must be a valid PEP 440 specifier''))
      else if \<not> pk_SpecifierSet pk v then Raise (ValueError (''invalid '' @ label)) else Return v)"

section \<open>Declarations\<close>

datatype TrustMode = TRUSTED_IN_PROCESS | ISOLATED_WORKER | MCP_MODE

datatype Permission =
    WORKSPACE_READ | WORKSPACE_WRITE | NETWORK_EGRESS | PROCESS_SPAWN | MODEL_INVOKE | MEMORY_READ | MEMORY_WRITE
  | KNOWLEDGE_READ | KNOWLEDGE_WRITE | MCP_CONNECT | CHANNEL_RECEIVE | CHANNEL_SEND | TOOL_REGISTER

type_synonym PermissionSet = "Permission set"

definition ps_permits :: "PermissionSet \<Rightarrow> Permission \<Rightarrow> bool" where
  "ps_permits ps p \<longleftrightarrow> p \<in> ps"

definition ps_contains :: "PermissionSet \<Rightarrow> PermissionSet \<Rightarrow> bool" where
  "ps_contains ps required \<longleftrightarrow> required \<subseteq> ps"

record SignatureMetadata =
  sg_algorithm :: string
  sg_key_id :: string
  sg_value :: string

definition SignatureMetadata_validate :: "SignatureMetadata \<Rightarrow> SignatureMetadata result" where
  "SignatureMetadata_validate s =
     result_bind (plugin_identifier (sg_algorithm s) ''signature algorithm'') (\<lambda>_.
     if \<not> KEY_ID (sg_key_id s) then Raise (ValueError ''invalid signature key_id'')
     else if sg_value s = [] \<or> \<not> unpadded (sg_value s) \<or> 16384 < py_len (sg_value s)
     then Raise (ValueError ''signature value must contain 1-16384 characters'') else Return s)"

record ArtifactIntegrity =
  ai_digest :: string
  ai_signature :: "SignatureMetadata option"

definition ArtifactIntegrity_validate :: "ArtifactIntegrity \<Rightarrow> ArtifactIntegrity result" where
  "ArtifactIntegrity_validate a =
     (if \<not> DIGEST (ai_digest a) then Raise (ValueError ''artifact digest must use sha256:<64 lowercase hex>'')
      else case ai_signature a of
             None \<Rightarrow> Return a
           | Some s \<Rightarrow> result_bind (SignatureMetadata_validate s) (\<lambda>_. Return a))"

record ProvidedService =
  pv_service :: string
  pv_version :: string

definition ProvidedService_validate :: "'v packaging \<Rightarrow> ProvidedService \<Rightarrow> ProvidedService result" where
  "ProvidedService_validate pk p =
     result_bind (plugin_identifier (pv_service p) ''provided service'') (\<lambda>_.
     result_bind (canonical_version pk (pv_version p) ''provided service version'') (\<lambda>_. Return p))"

record RequiredService =
  rq_service :: string
  rq_version :: string
  rq_optional :: bool

definition RequiredService_validate :: "'v packaging \<Rightarrow> RequiredService \<Rightarrow> RequiredService result" where
  "RequiredService_validate pk r =
     result_bind (plugin_identifier (rq_service r) ''required service'') (\<lambda>_.
     result_bind (version_specifier pk (rq_version r) ''required service version'' True) (\<lambda>_. Return r))"

text \<open>\<open>accepts\<close> and \<open>supports_harness\<close>; a version that cannot be read raises \<open>InvalidVersion\<close>, a \<open>ValueError\<close>.\<close>

definition accepts :: "'v packaging \<Rightarrow> RequiredService \<Rightarrow> string \<Rightarrow> bool result" where
  "accepts pk r version =
     (case pk_Version pk version of
        None \<Rightarrow> Raise (ValueError ''Invalid version'') | Some candidate \<Rightarrow> Return (pk_in pk candidate (rq_version r)))"

datatype ContributionKind =
    KIND_PRODUCT | KIND_MEMORY | KIND_KNOWLEDGE | KIND_WORKFLOW | KIND_REFLECTION | KIND_PROMPT | KIND_TOOL | KIND_MODEL
  | KIND_MCP | KIND_CHANNEL

fun contribution_kind_value :: "ContributionKind \<Rightarrow> string" where
  "contribution_kind_value KIND_PRODUCT = ''product''"
| "contribution_kind_value KIND_MEMORY = ''memory''"
| "contribution_kind_value KIND_KNOWLEDGE = ''knowledge''"
| "contribution_kind_value KIND_WORKFLOW = ''workflow''"
| "contribution_kind_value KIND_REFLECTION = ''reflection''"
| "contribution_kind_value KIND_PROMPT = ''prompt''"
| "contribution_kind_value KIND_TOOL = ''tools''"
| "contribution_kind_value KIND_MODEL = ''models''"
| "contribution_kind_value KIND_MCP = ''mcp''"
| "contribution_kind_value KIND_CHANNEL = ''channels''"

record ContributionDeclaration =
  cd_contribution_id :: string
  cd_version :: string
  cd_permissions :: PermissionSet

definition ContributionDeclaration_validate ::
    "'v packaging \<Rightarrow> ContributionDeclaration \<Rightarrow> ContributionDeclaration result" where
  "ContributionDeclaration_validate pk c =
     result_bind (plugin_identifier (cd_contribution_id c) ''contribution_id'') (\<lambda>_.
     result_bind (canonical_version pk (cd_version c) ''contribution version'') (\<lambda>_. Return c))"

record Contributions =
  cn_product :: "ContributionDeclaration list"
  cn_memory :: "ContributionDeclaration list"
  cn_knowledge :: "ContributionDeclaration list"
  cn_workflow :: "ContributionDeclaration list"
  cn_reflection :: "ContributionDeclaration list"
  cn_prompt :: "ContributionDeclaration list"
  cn_tools :: "ContributionDeclaration list"
  cn_models :: "ContributionDeclaration list"
  cn_mcp :: "ContributionDeclaration list"
  cn_channels :: "ContributionDeclaration list"

definition contribution_kinds :: "ContributionKind list" where
  "contribution_kinds = [KIND_PRODUCT, KIND_MEMORY, KIND_KNOWLEDGE, KIND_WORKFLOW, KIND_REFLECTION, KIND_PROMPT,
     KIND_TOOL, KIND_MODEL, KIND_MCP, KIND_CHANNEL]"

fun contributions_of :: "Contributions \<Rightarrow> ContributionKind \<Rightarrow> ContributionDeclaration list" where
  "contributions_of c KIND_PRODUCT = cn_product c"
| "contributions_of c KIND_MEMORY = cn_memory c"
| "contributions_of c KIND_KNOWLEDGE = cn_knowledge c"
| "contributions_of c KIND_WORKFLOW = cn_workflow c"
| "contributions_of c KIND_REFLECTION = cn_reflection c"
| "contributions_of c KIND_PROMPT = cn_prompt c"
| "contributions_of c KIND_TOOL = cn_tools c"
| "contributions_of c KIND_MODEL = cn_models c"
| "contributions_of c KIND_MCP = cn_mcp c"
| "contributions_of c KIND_CHANNEL = cn_channels c"

definition contribution_items :: "Contributions \<Rightarrow> (ContributionKind \<times> ContributionDeclaration) list" where
  "contribution_items c = concat (map (\<lambda>kind. map (Pair kind) (contributions_of c kind)) contribution_kinds)"

definition unique_within_kind :: "Contributions \<Rightarrow> Contributions result" where
  "unique_within_kind c =
     (case find (\<lambda>kind. \<not> distinct (map cd_contribution_id (contributions_of c kind))) contribution_kinds of
        Some kind \<Rightarrow> Raise (ValueError (''duplicate '' @ contribution_kind_value kind @ '' contribution_id''))
      | None \<Rightarrow> Return c)"

section \<open>Manifests\<close>

record PluginManifest =
  pm_schema_version :: string
  pm_plugin_id :: string
  pm_version :: string
  pm_harness_api :: string
  pm_trust_mode :: TrustMode
  pm_entrypoint :: string
  pm_artifact :: ArtifactIntegrity
  pm_provides :: "ProvidedService list"
  pm_requires :: "RequiredService list"
  pm_contributions :: Contributions
  pm_permissions :: PermissionSet

text \<open>A list of nested models, validated one after the other.\<close>

fun validate_all :: "('a \<Rightarrow> 'b result) \<Rightarrow> 'a list \<Rightarrow> unit result" where
  "validate_all f [] = Return ()"
| "validate_all f (x # xs) = result_bind (f x) (\<lambda>_. validate_all f xs)"

definition relationships :: "PluginManifest \<Rightarrow> PluginManifest result" where
  "relationships m =
     (let provided = map pv_service (pm_provides m); required = map rq_service (pm_requires m) in
      if \<not> distinct provided then Raise (ValueError ''provides must not repeat a service'')
      else if \<not> distinct required then Raise (ValueError ''requires must not repeat a service'')
      else if set provided \<inter> set required \<noteq> {}
      then Raise (ValueError ''a plugin cannot require its own provided service'')
      else case find (\<lambda>(kind, c). \<not> ps_contains (pm_permissions m) (cd_permissions c))
                  (contribution_items (pm_contributions m)) of
             Some (kind, c) \<Rightarrow>
               Raise (ValueError (contribution_kind_value kind @ '':'' @ cd_contribution_id c @
                 '' requests permissions outside the plugin permission set''))
           | None \<Rightarrow> Return m)"

definition PluginManifest_validate :: "'v packaging \<Rightarrow> PluginManifest \<Rightarrow> PluginManifest result" where
  "PluginManifest_validate pk m =
     (if pm_schema_version m \<noteq> ''1'' then Raise (ValueError ''unsupported plugin schema_version'')
      else result_bind (plugin_identifier (pm_plugin_id m) ''plugin_id'') (\<lambda>_.
      result_bind (canonical_version pk (pm_version m) ''plugin version'') (\<lambda>_.
      result_bind (version_specifier pk (pm_harness_api m) ''harness_api'' False) (\<lambda>_.
      if \<not> ENTRYPOINT (pk_word pk) (pm_entrypoint m)
      then Raise (ValueError ''entrypoint must use package.module:Attribute syntax'')
      else result_bind (ArtifactIntegrity_validate (pm_artifact m)) (\<lambda>_.
      result_bind (validate_all (ProvidedService_validate pk) (pm_provides m)) (\<lambda>_.
      result_bind (validate_all (RequiredService_validate pk) (pm_requires m)) (\<lambda>_.
      result_bind (validate_all (ContributionDeclaration_validate pk)
        (map snd (contribution_items (pm_contributions m)))) (\<lambda>_.
      result_bind (unique_within_kind (pm_contributions m)) (\<lambda>_. relationships m)))))))))"

definition supports_harness :: "'v packaging \<Rightarrow> PluginManifest \<Rightarrow> 'v \<Rightarrow> bool" where
  "supports_harness pk m candidate \<longleftrightarrow> pk_in pk candidate (pm_harness_api m)"

text \<open>The keys of \<open>contribution_map\<close>; within a manifest they do not repeat.\<close>

definition contribution_map ::
    "PluginManifest \<Rightarrow> (ContributionKind \<times> string, ContributionDeclaration) dict" where
  "contribution_map m =
     fold (\<lambda>(kind, c). dict_set (kind, cd_contribution_id c) c) (contribution_items (pm_contributions m)) []"

record PluginSourceDeclaration =
  psd_path :: string
  psd_expected_digest :: string

definition PluginSourceDeclaration_validate :: "PluginSourceDeclaration \<Rightarrow> PluginSourceDeclaration result" where
  "PluginSourceDeclaration_validate d =
     (if take 1 (psd_path d) \<noteq> ''/'' then Raise (ValueError ''plugin source path must be absolute'')
      else if \<not> DIGEST (psd_expected_digest d)
      then Raise (ValueError ''expected_digest must use sha256:<64 lowercase hex>'') else Return d)"

end
