(* ===== verification/Plugin_Plan.thy ===== *)
theory Plugin_Plan
  imports Plugin_Models "HOL-Library.Product_Lexorder" "HOL-Library.Multiset"
begin

text \<open>
  \<^verbatim>\<open>src/suiteharness/plugins/graph.py\<close>: \<open>PluginPlanner.plan\<close>. Each loop of the method is a function of its
  own. A set of consumers is a list without repetitions; \<open>heapq\<close> is a list of which the
  smallest element is taken. \<open>'v\<close> is the type of the versions of \<^verbatim>\<open>packaging\<close>, ordered as that package
  orders them; objects that are compared by identity, the attestations, are numbers.
\<close>

section \<open>Sources and plans\<close>

record VerifiedPluginSource =
  vs_root :: string
  vs_manifest :: PluginManifest
  vs_digest :: string
  vs_signature_verified :: bool
  vs_attestation :: nat

definition is_attested_by :: "VerifiedPluginSource \<Rightarrow> nat \<Rightarrow> bool" where
  "is_attested_by s token \<longleftrightarrow> vs_attestation s = token"

abbreviation source_id :: "VerifiedPluginSource \<Rightarrow> string" where
  "source_id s \<equiv> pm_plugin_id (vs_manifest s)"

record ResolvedRequirement =
  rr_requirement :: RequiredService
  rr_provider_plugin_id :: "string option"

record PluginPlan =
  pp_sources :: "VerifiedPluginSource list"
  pp_bindings :: "(string, ResolvedRequirement list) dict"
  pp_attestation :: nat

definition plan_plugin_ids :: "PluginPlan \<Rightarrow> string list" where
  "plan_plugin_ids p = map source_id (pp_sources p)"

record 'v PluginPlanner =
  pl_harness_version :: 'v
  pl_attestation :: nat

definition PluginPlanner_init :: "'v packaging \<Rightarrow> string \<Rightarrow> nat \<Rightarrow> 'v PluginPlanner result" where
  "PluginPlanner_init pk harness_version attestation =
     (case pk_Version pk harness_version of
        None \<Rightarrow> Raise (ValueError ''harness_version must be a valid PEP 440 version'')
      | Some v \<Rightarrow> Return \<lparr>pl_harness_version = v, pl_attestation = attestation\<rparr>)"

section \<open>The loops of the planner\<close>

fun check_candidates :: "'v packaging \<Rightarrow> 'v PluginPlanner \<Rightarrow> VerifiedPluginSource list \<Rightarrow> unit result" where
  "check_candidates pk pl [] = Return ()"
| "check_candidates pk pl (s # ss) =
     (if \<not> is_attested_by s (pl_attestation pl)
      then plan_error TRUST_REJECTED ''plugin source was not produced by the configured discovery'' []
      else if \<not> supports_harness pk (vs_manifest s) (pl_harness_version pl)
      then plan_error HARNESS_API_MISMATCH ''plugin does not support this harness API''
             [(''plugin_id'', [source_id s]), (''plugin_harness_api'', [pm_harness_api (vs_manifest s)]),
              (''harness_version'', [pk_str pk (pl_harness_version pl)])]
      else check_candidates pk pl ss)"

text \<open>\<open>_source_key\<close>; the version of a validated manifest can be read.\<close>

definition source_key :: "'v packaging \<Rightarrow> VerifiedPluginSource \<Rightarrow> string \<times> 'v \<times> string" where
  "source_key pk s = (source_id s, the (pk_Version pk (pm_version (vs_manifest s))), vs_digest s)"

fun index_sources ::
    "VerifiedPluginSource list \<Rightarrow> (string, VerifiedPluginSource) dict \<Rightarrow> (string, VerifiedPluginSource) dict result" where
  "index_sources [] by_id = Return by_id"
| "index_sources (s # ss) by_id =
     (if dict_get by_id (source_id s) \<noteq> None
      then plan_error DUPLICATE_PLUGIN ''a plan may contain only one artifact for each plugin_id''
             [(''plugin_id'', [source_id s])]
      else index_sources ss (dict_set (source_id s) s by_id))"

type_synonym providers = "(string, VerifiedPluginSource \<times> string) dict"

fun add_provided :: "VerifiedPluginSource \<Rightarrow> ProvidedService list \<Rightarrow> providers \<Rightarrow> providers result" where
  "add_provided s [] providers = Return providers"
| "add_provided s (p # ps) providers =
     (case dict_get providers (pv_service p) of
        Some (previous, version) \<Rightarrow>
          plan_error DUPLICATE_PROVIDER ''a service must have exactly one provider''
            [(''service'', [pv_service p]), (''providers'', sort [source_id previous, source_id s])]
      | None \<Rightarrow> add_provided s ps (dict_set (pv_service p) (s, pv_version p) providers))"

fun index_providers :: "VerifiedPluginSource list \<Rightarrow> providers \<Rightarrow> providers result" where
  "index_providers [] providers = Return providers"
| "index_providers (s # ss) providers =
     result_bind (add_provided s (pm_provides (vs_manifest s)) providers) (index_providers ss)"

type_synonym slots = "(ContributionKind \<times> string, string) dict"

fun add_contributions :: "VerifiedPluginSource \<Rightarrow> (ContributionKind \<times> string) list \<Rightarrow> slots \<Rightarrow> slots result" where
  "add_contributions s [] seen = Return seen"
| "add_contributions s (key # keys) seen =
     (case dict_get seen key of
        Some previous \<Rightarrow>
          plan_error CONTRIBUTION_CONFLICT ''two plugins declare the same contribution slot''
            [(''kind'', [contribution_kind_value (fst key)]), (''contribution_id'', [snd key]),
             (''plugins'', sort [previous, source_id s])]
      | None \<Rightarrow> add_contributions s keys (dict_set key (source_id s) seen))"

fun index_contributions :: "VerifiedPluginSource list \<Rightarrow> slots \<Rightarrow> slots result" where
  "index_contributions [] seen = Return seen"
| "index_contributions (s # ss) seen =
     result_bind (add_contributions s (dict_keys (contribution_map (vs_manifest s))) seen) (index_contributions ss)"

text \<open>One plugin: the resolved requirements and the ids of the plugins that provide them.\<close>

fun resolve_requirements ::
    "'v packaging \<Rightarrow> providers \<Rightarrow> string \<Rightarrow> RequiredService list \<Rightarrow>
     (ResolvedRequirement list \<times> string list) result" where
  "resolve_requirements pk providers plugin_id [] = Return ([], [])"
| "resolve_requirements pk providers plugin_id (r # rs) =
     (case dict_get providers (rq_service r) of
        None \<Rightarrow>
          if rq_optional r
          then result_bind (resolve_requirements pk providers plugin_id rs) (\<lambda>(resolved, deps).
                 Return (\<lparr>rr_requirement = r, rr_provider_plugin_id = None\<rparr> # resolved, deps))
          else plan_error MISSING_PROVIDER ''required plugin service has no provider''
                 [(''plugin_id'', [plugin_id]), (''service'', [rq_service r])]
      | Some (provider, version) \<Rightarrow>
          result_bind (accepts pk r version) (\<lambda>ok.
          if \<not> ok
          then plan_error PROVIDER_VERSION_MISMATCH ''provided service version does not satisfy the consumer''
                 [(''plugin_id'', [plugin_id]), (''service'', [rq_service r]), (''required'', [rq_version r]),
                  (''provided'', [version]), (''provider'', [source_id provider])]
          else result_bind (resolve_requirements pk providers plugin_id rs) (\<lambda>(resolved, deps).
                 Return (\<lparr>rr_requirement = r, rr_provider_plugin_id = Some (source_id provider)\<rparr> # resolved,
                         List.insert (source_id provider) deps))))"

record graph =
  gr_outgoing :: "(string, string list) dict"
  gr_incoming :: "(string, int) dict"
  gr_bindings :: "(string, ResolvedRequirement list) dict"

definition empty_graph :: "string list \<Rightarrow> graph" where
  "empty_graph ids = \<lparr>gr_outgoing = map (\<lambda>i. (i, [])) ids, gr_incoming = map (\<lambda>i. (i, 0)) ids, gr_bindings = []\<rparr>"

definition outgoing_of :: "graph \<Rightarrow> string \<Rightarrow> string list" where
  "outgoing_of g i = (case dict_get (gr_outgoing g) i of None \<Rightarrow> [] | Some cs \<Rightarrow> cs)"

definition count_of :: "(string, int) dict \<Rightarrow> string \<Rightarrow> int" where
  "count_of d i = (case dict_get d i of None \<Rightarrow> 0 | Some n \<Rightarrow> n)"

definition add_edge :: "string \<Rightarrow> string \<Rightarrow> graph \<Rightarrow> graph" where
  "add_edge plugin_id provider_id g =
     g\<lparr>gr_outgoing := dict_set provider_id (List.insert plugin_id (outgoing_of g provider_id)) (gr_outgoing g),
       gr_incoming := dict_set plugin_id (count_of (gr_incoming g) plugin_id + 1) (gr_incoming g)\<rparr>"

fun link_plugins :: "'v packaging \<Rightarrow> providers \<Rightarrow> (string, VerifiedPluginSource) dict \<Rightarrow> graph \<Rightarrow> graph result" where
  "link_plugins pk providers [] g = Return g"
| "link_plugins pk providers ((plugin_id, s) # rest) g =
     result_bind (resolve_requirements pk providers plugin_id (pm_requires (vs_manifest s))) (\<lambda>(resolved, deps).
     link_plugins pk providers rest
       (fold (add_edge plugin_id) deps (g\<lparr>gr_bindings := dict_set plugin_id resolved (gr_bindings g)\<rparr>)))"

text \<open>The body of the \<open>for\<close> loop over the consumers of a plugin that has been placed.\<close>

fun release :: "string list \<Rightarrow> (string, int) dict \<Rightarrow> string list \<Rightarrow> (string, int) dict \<times> string list" where
  "release [] counts ready = (counts, ready)"
| "release (c # cs) counts ready =
     (let n = count_of counts c - 1; counts' = dict_set c n counts
      in release cs counts' (if n = 0 then c # ready else ready))"

text \<open>The number of plugins that still wait for a provider; it bounds what can become ready.\<close>

definition waiting :: "(string, int) dict \<Rightarrow> nat" where
  "waiting counts = length (filter (\<lambda>e. 0 < snd e) counts)"

lemma waiting_set:
  "waiting (dict_set c (count_of counts c - 1) counts) + (if count_of counts c = 1 then 1 else 0) = waiting counts"
  by (induction counts) (auto simp: waiting_def count_of_def split: option.splits)

lemma release_waiting:
  "release cs counts ready = (counts', ready') \<Longrightarrow> waiting counts' + length ready' = waiting counts + length ready"
proof (induction cs counts ready rule: release.induct)
  case (2 c cs counts ready)
  then show ?case using waiting_set [of c counts] by (auto simp: Let_def split: if_splits)
qed simp

text \<open>The \<open>while\<close> loop: \<open>heappop\<close> takes the smallest id that is ready.\<close>

function place ::
    "(string, string list) dict \<Rightarrow> (string, int) dict \<Rightarrow> string list \<Rightarrow> string list \<Rightarrow> string list \<times> (string, int) dict" where
  "place outgoing counts ready order =
     (if ready = [] then (order, counts)
      else let i = Min (set ready);
               consumers = (case dict_get outgoing i of None \<Rightarrow> [] | Some cs \<Rightarrow> cs);
               rest = release (sort consumers) counts (remove1 i ready)
           in place outgoing (fst rest) (snd rest) (order @ [i]))"
  by pat_completeness auto
termination
proof (relation "measure (\<lambda>(outgoing, counts, ready, order). waiting counts + length ready)")
  fix outgoing counts ready order i consumers and rest :: "(string, int) dict \<times> string list"
  assume ready: "ready \<noteq> []" and i: "i = Min (set ready)"
    and rest: "rest = release (sort consumers) counts (remove1 i ready)"
  have "waiting (fst rest) + length (snd rest) = waiting counts + length (remove1 i ready)"
    using release_waiting [of "sort consumers" counts "remove1 i ready" "fst rest" "snd rest"] rest by simp
  moreover have "length (remove1 i ready) < length ready"
    using ready by (simp add: i length_remove1)
  ultimately show "((outgoing, fst rest, snd rest, order @ [i]), (outgoing, counts, ready, order))
      \<in> measure (\<lambda>(outgoing, counts, ready, order). waiting counts + length ready)"
    by simp
qed simp

declare place.simps [simp del]

definition plan_sources ::
    "'v::linorder packaging \<Rightarrow> 'v PluginPlanner \<Rightarrow> VerifiedPluginSource list \<Rightarrow> PluginPlan result" where
  "plan_sources pk pl sources =
     result_bind (check_candidates pk pl sources) (\<lambda>_.
     result_bind (index_sources (sort_key (source_key pk) sources) []) (\<lambda>by_id.
     result_bind (index_providers (dict_values by_id) []) (\<lambda>providers.
     result_bind (index_contributions (dict_values by_id) []) (\<lambda>_.
     result_bind (link_plugins pk providers by_id (empty_graph (dict_keys by_id))) (\<lambda>g.
     let placed = place (gr_outgoing g) (gr_incoming g)
           (map fst (filter (\<lambda>e. snd e = 0) (gr_incoming g))) []
     in if length (fst placed) \<noteq> length by_id
        then plan_error DEPENDENCY_CYCLE ''plugin service dependencies contain a cycle''
               [(''plugins'', sort (map fst (filter (\<lambda>e. snd e \<noteq> 0) (snd placed))))]
        else Return \<lparr>pp_sources = List.map_filter (dict_get by_id) (fst placed), pp_bindings = gr_bindings g,
                     pp_attestation = pl_attestation pl\<rparr>)))))"

end
