(* ===== verification/Plugin_Order.thy ===== *)
theory Plugin_Order
  imports Plugin_Plan
begin

text \<open>
  The loop of the planner that places the plugins: what it keeps true of its counters and its ready list, that
  the order it builds is the smallest one the dependencies allow, and that it gets stuck exactly on a cycle.
\<close>

section \<open>Placing in dependency order\<close>

definition count_ok :: "string set \<Rightarrow> (string \<Rightarrow> string set) \<Rightarrow> (string, int) dict \<Rightarrow> string list \<Rightarrow> bool" where
  "count_ok V deps counts order \<longleftrightarrow> (\<forall>p \<in> V. count_of counts p = int (card (deps p - set order)))"

text \<open>The ids that may come next.\<close>

definition placeable :: "string set \<Rightarrow> (string \<Rightarrow> string set) \<Rightarrow> string list \<Rightarrow> string set" where
  "placeable V deps order = {p \<in> V - set order. deps p \<subseteq> set order}"

text \<open>An order in which every id is the smallest one whose providers all come before it.\<close>

definition greedy :: "string set \<Rightarrow> (string \<Rightarrow> string set) \<Rightarrow> string list \<Rightarrow> bool" where
  "greedy V deps order \<longleftrightarrow>
     (\<forall>k < length order. order ! k \<in> placeable V deps (take k order) \<and> order ! k = Min (placeable V deps (take k order)))"

lemma greedy_snoc:
  "greedy V deps (order @ [i]) \<longleftrightarrow> greedy V deps order \<and> i \<in> placeable V deps order \<and> i = Min (placeable V deps order)"
  by (auto simp: greedy_def less_Suc_eq nth_append)

lemma greedy_nth: "greedy V deps order \<Longrightarrow> k < length order \<Longrightarrow> order ! k \<in> placeable V deps (take k order)"
  unfolding greedy_def by blast

lemma greedy_facts:
  assumes "greedy V deps order"
  shows "distinct order" and "set order \<subseteq> V" and "p \<in> set order \<Longrightarrow> deps p \<subseteq> set order"
  using assms
proof (induction order arbitrary: p rule: rev_induct)
  case (snoc i order)
  {
    case 1
    with snoc.IH show ?case by (auto simp: greedy_snoc placeable_def)
  next
    case 2
    with snoc.IH show ?case by (auto simp: greedy_snoc placeable_def)
  next
    case 3
    with snoc.IH show ?case by (auto simp: greedy_snoc placeable_def)
  }
qed simp_all

lemma count_of_set: "count_of (dict_set c n counts) p = (if p = c then n else count_of counts p)"
  by (simp add: count_of_def)

lemma release_count:
  "distinct cs \<Longrightarrow> count_of (fst (release cs counts ready)) p = count_of counts p - (if p \<in> set cs then 1 else 0)"
  by (induction cs counts ready rule: release.induct) (auto simp: Let_def count_of_set)

lemma release_ready:
  "distinct cs \<Longrightarrow> set (snd (release cs counts ready)) = set ready \<union> {p \<in> set cs. count_of counts p = 1}"
  by (induction cs counts ready rule: release.induct) (auto simp: Let_def count_of_set)

lemma release_distinct:
  "distinct cs \<Longrightarrow> distinct ready \<Longrightarrow> (\<And>p. p \<in> set cs \<Longrightarrow> count_of counts p = 1 \<Longrightarrow> p \<notin> set ready) \<Longrightarrow>
   distinct (snd (release cs counts ready))"
proof (induction cs counts ready rule: release.induct)
  case (2 c cs counts ready)
  let ?n = "count_of counts c - 1"
  let ?ready = "if ?n = 0 then c # ready else ready"
  have "distinct (snd (release cs (dict_set c ?n counts) ?ready))"
    using "2.prems" by (intro "2.IH" [OF refl refl]) (auto simp: count_of_set split: if_splits)
  then show ?case by (simp add: Let_def)
qed simp

lemma release_keys:
  "set (dict_keys (fst (release cs counts ready))) = set (dict_keys counts) \<union> set cs"
  by (induction cs counts ready rule: release.induct) (simp_all add: Let_def del: set_map)

lemma release_ok: "dict_ok counts \<Longrightarrow> dict_ok (fst (release cs counts ready))"
  by (induction cs counts ready rule: release.induct) (simp_all add: Let_def)

text \<open>What the loop maintains, and what holds when it ends.\<close>

definition place_inv :: "string set \<Rightarrow> (string \<Rightarrow> string set) \<Rightarrow> (string, int) dict \<Rightarrow> string list \<Rightarrow> string list \<Rightarrow> bool" where
  "place_inv V deps counts ready order \<longleftrightarrow>
     greedy V deps order \<and> count_ok V deps counts order \<and> distinct ready \<and> set ready = placeable V deps order \<and>
     dict_ok counts \<and> set (dict_keys counts) = V"

lemma one_less_waiting:
  assumes "finite D" "i \<in> D" "i \<notin> A"
  shows "card (D - A) = Suc (card (D - insert i A))"
proof -
  have "D - A = insert i (D - insert i A)" using assms by auto
  then show ?thesis using assms(1) by (metis card_insert_disjoint finite_Diff Diff_iff insertI1)
qed

lemma place_step:
  assumes inv: "place_inv V deps counts ready order" and ready: "ready \<noteq> []"
    and V: "finite V" "\<And>p. p \<in> V \<Longrightarrow> deps p \<subseteq> V"
    and i: "i = Min (set ready)" and cs: "distinct cs" "set cs = {p \<in> V. i \<in> deps p}"
    and rest: "rest = release cs counts (remove1 i ready)"
  shows "place_inv V deps (fst rest) (snd rest) (order @ [i])"
proof -
  have set_ready: "set ready = placeable V deps order" and dr: "distinct ready" and greedy0: "greedy V deps order"
    and counts0: "count_ok V deps counts order" and keys: "dict_ok counts" "set (dict_keys counts) = V"
    using inv unfolding place_inv_def by blast+
  have "i \<in> set ready" using Min_in [of "set ready"] ready by (simp add: i)
  then have i_in: "i \<in> placeable V deps order" and i_min: "i = Min (placeable V deps order)"
    using i set_ready by simp_all
  then have i_new: "i \<in> V" "i \<notin> set order" "deps i \<subseteq> set order" by (simp_all add: placeable_def)
  have greedy: "greedy V deps (order @ [i])"
    using greedy0 i_in i_min greedy_snoc by blast
  have finite_deps: "finite (deps p)" if "p \<in> V" for p using V that by (meson finite_subset)
  have counts: "count_of counts p = int (card (deps p - set order))" if "p \<in> V" for p
    using counts0 that by (simp add: count_ok_def)
  have placed: "set (order @ [i]) = insert i (set order)" by simp
  have less: "card (deps p - set order) = Suc (card (deps p - insert i (set order)))" if "p \<in> V" "i \<in> deps p" for p
    by (rule one_less_waiting) (use that i_new finite_deps in auto)
  have after: "count_of (fst rest) p = int (card (deps p - set (order @ [i])))" if p: "p \<in> V" for p
  proof (cases "i \<in> deps p")
    case True
    then have "p \<in> set cs" using p cs by simp
    then show ?thesis
      unfolding placed rest release_count [OF cs(1)] counts [OF p] less [OF p True] by simp
  next
    case False
    then have "p \<notin> set cs" and "deps p - insert i (set order) = deps p - set order" using cs by auto
    then show ?thesis unfolding placed rest release_count [OF cs(1)] counts [OF p] by simp
  qed
  have new: "{p \<in> set cs. count_of counts p = 1} = {p \<in> V. i \<in> deps p \<and> deps p \<subseteq> insert i (set order)}"
  proof -
    have "count_of counts p = 1 \<longleftrightarrow> deps p \<subseteq> insert i (set order)" if p: "p \<in> V" "i \<in> deps p" for p
      unfolding counts [OF p(1)] less [OF p] using finite_deps [OF p(1)] by (simp add: Diff_eq_empty_iff)
    then show ?thesis unfolding cs(2) by blast
  qed
  have not_placed: "p \<notin> set (order @ [i])" if "p \<in> V" "i \<in> deps p" for p
    using that greedy_facts(3) [OF greedy0, of p] i_new by auto
  have "set (snd rest) = (placeable V deps order - {i}) \<union> {p \<in> V. i \<in> deps p \<and> deps p \<subseteq> insert i (set order)}"
    unfolding rest release_ready [OF cs(1)] new set_remove1_eq [OF dr] set_ready ..
  also have "\<dots> = placeable V deps (order @ [i])"
    using not_placed i_new unfolding placeable_def placed by blast
  finally have ready': "set (snd rest) = placeable V deps (order @ [i])" .
  have "distinct (snd rest)"
    unfolding rest
  proof (rule release_distinct)
    fix p
    assume "p \<in> set cs"
    then have "i \<in> deps p" using cs by simp
    then have "p \<notin> placeable V deps order" using i_new by (auto simp: placeable_def)
    then show "p \<notin> set (remove1 i ready)" unfolding set_ready [symmetric] by (rule notin_set_remove1)
  qed (use cs dr in auto)
  moreover have "set (dict_keys (fst rest)) = V" "dict_ok (fst rest)"
    using keys cs unfolding rest release_keys by (auto intro: release_ok)
  ultimately show ?thesis
    using greedy ready' after by (simp add: place_inv_def count_ok_def)
qed

lemma place_result:
  assumes "place_inv V deps counts ready order" and V: "finite V" "\<And>p. p \<in> V \<Longrightarrow> deps p \<subseteq> V"
    and "\<And>q. q \<in> V \<Longrightarrow> \<exists>cs. dict_get outgoing q = Some cs \<and> distinct cs \<and> set cs = {p \<in> V. q \<in> deps p}"
  shows "place_inv V deps (snd (place outgoing counts ready order)) [] (fst (place outgoing counts ready order))"
  using assms(1,4)
proof (induction outgoing counts ready order rule: place.induct)
  case (1 outgoing counts ready order)
  show ?case
  proof (cases "ready = []")
    case True
    with "1.prems"(1) show ?thesis by (simp add: place.simps [of _ _ "[]"])
  next
    case False
    let ?i = "Min (set ready)"
    have "set ready \<subseteq> V" using "1.prems"(1) by (simp add: place_inv_def placeable_def)
    then have "?i \<in> V" using Min_in [of "set ready"] False by auto
    then obtain cs where cs: "dict_get outgoing ?i = Some cs" "distinct cs" "set cs = {p \<in> V. ?i \<in> deps p}"
      using "1.prems"(2) by blast
    let ?rest = "release (sort cs) counts (remove1 ?i ready)"
    have "place_inv V deps (fst ?rest) (snd ?rest) (order @ [?i])"
      by (rule place_step [OF "1.prems"(1) False V refl _ _ refl]) (use cs in auto)
    from "1.IH" [OF False refl _ _ this "1.prems"(2), of cs] cs(1)
    show ?thesis by (simp add: place.simps [of outgoing counts ready] False cs(1) Let_def)
  qed
qed

section \<open>Cycles\<close>

definition dependency_rel :: "string set \<Rightarrow> (string \<Rightarrow> string set) \<Rightarrow> (string \<times> string) set" where
  "dependency_rel V deps = {(q, p). p \<in> V \<and> q \<in> deps p}"

lemma greedy_acyclic:
  assumes "greedy V deps order" and "set order = V"
  shows "acyclic (dependency_rel V deps)"
proof -
  define position where "position p = (LEAST k. k < length order \<and> order ! k = p)" for p
  have position: "position p < length order" "order ! position p = p" if "p \<in> set order" for p
  proof -
    have "\<exists>k. k < length order \<and> order ! k = p" using that by (auto simp: in_set_conv_nth)
    from LeastI_ex [OF this] show "position p < length order" "order ! position p = p"
      by (simp_all add: position_def)
  qed
  have "position q < position p" if "(q, p) \<in> dependency_rel V deps" for q p
  proof -
    have p: "p \<in> set order" "q \<in> deps p" using that assms(2) by (auto simp: dependency_rel_def)
    have "p \<in> placeable V deps (take (position p) order)"
      using greedy_nth [OF assms(1) position(1) [OF p(1)]] position(2) [OF p(1)] by simp
    then have "q \<in> set (take (position p) order)" using p(2) by (auto simp: placeable_def)
    then obtain k where k: "k < position p" "order ! k = q" "k < length order"
      by (auto simp: in_set_conv_nth)
    have "position q \<le> k" unfolding position_def using k by (intro Least_le) simp
    with k show ?thesis by simp
  qed
  then have "dependency_rel V deps \<subseteq> measure position" by auto
  then show ?thesis by (meson acyclic_subset wf_acyclic wf_measure)
qed

lemma stuck_cyclic:
  assumes V: "finite V" "\<And>p. p \<in> V \<Longrightarrow> deps p \<subseteq> V" and "greedy V deps order" and "placeable V deps order = {}"
    and "set order \<noteq> V"
  shows "\<not> acyclic (dependency_rel V deps)"
proof
  assume acyclic: "acyclic (dependency_rel V deps)"
  have "dependency_rel V deps \<subseteq> V \<times> V" using V(2) by (auto simp: dependency_rel_def)
  then have "finite (dependency_rel V deps)" using V(1) by (meson finite_SigmaI finite_subset)
  then have wf: "wf (dependency_rel V deps)" using acyclic by (rule finite_acyclic_wf)
  have "set order \<subseteq> V" using greedy_facts(2) [OF assms(3)] .
  then obtain p where "p \<in> V - set order" using assms(5) by blast
  then obtain m where m: "m \<in> V - set order" and least: "\<And>q. (q, m) \<in> dependency_rel V deps \<Longrightarrow> q \<notin> V - set order"
    using wfE_min [OF wf] by metis
  have "deps m \<subseteq> set order" using least m V(2) by (fastforce simp: dependency_rel_def)
  with m assms(4) show False by (auto simp: placeable_def)
qed

end
