(* ===== verification/Plugin_Planning.thy ===== *)
theory Plugin_Planning
  imports Plugin_Order
begin

text \<open>
  Planning as a whole: what the indexes hold, what the requirements are resolved to, that the graph counts the
  dependencies, and the properties of the plans.
\<close>

section \<open>Indexing\<close>

lemma index_sources_result:
  assumes "index_sources ss by_id = Return d"
  shows "d = by_id @ map (\<lambda>s. (source_id s, s)) ss" and "dict_ok by_id \<Longrightarrow> dict_ok d"
proof -
  have "d = by_id @ map (\<lambda>s. (source_id s, s)) ss \<and> (dict_ok by_id \<longrightarrow> dict_ok d)"
    using assms
  proof (induction ss arbitrary: by_id)
    case (Cons s ss)
    then have new: "dict_get by_id (source_id s) = None" and rest: "index_sources ss (dict_set (source_id s) s by_id) = Return d"
      by (auto split: if_splits)
    have "dict_set (source_id s) s by_id = by_id @ [(source_id s, s)]"
      using new by (induction by_id) auto
    with Cons.IH [OF rest] show ?case using dict_ok_set [of by_id "source_id s" s] by auto
  qed auto
  then show "d = by_id @ map (\<lambda>s. (source_id s, s)) ss" and "dict_ok by_id \<Longrightarrow> dict_ok d" by auto
qed

text \<open>The index of the providers: a service has the one source that provides it.\<close>

definition provided_by :: "providers \<Rightarrow> VerifiedPluginSource set \<Rightarrow> bool" where
  "provided_by providers ss \<longleftrightarrow> (\<forall>service t v. dict_get providers service = Some (t, v) \<longleftrightarrow>
     (t \<in> ss \<and> (\<exists>p \<in> set (pm_provides (vs_manifest t)). pv_service p = service \<and> pv_version p = v)))"

lemma add_provided_result:
  assumes "add_provided s ps providers = Return d"
  shows "dict_get d service = Some (t, v) \<longleftrightarrow>
    dict_get providers service = Some (t, v) \<or> (t = s \<and> (\<exists>p \<in> set ps. pv_service p = service \<and> pv_version p = v))"
  using assms
proof (induction ps arbitrary: providers)
  case (Cons p ps)
  then have new: "dict_get providers (pv_service p) = None"
    and rest: "add_provided s ps (dict_set (pv_service p) (s, pv_version p) providers) = Return d"
    by (auto split: option.splits)
  show ?case using Cons.IH [OF rest] new by auto
qed simp

lemma index_providers_result:
  assumes "index_providers ss providers = Return d"
  shows "dict_get d service = Some (t, v) \<longleftrightarrow> dict_get providers service = Some (t, v) \<or>
    (t \<in> set ss \<and> (\<exists>p \<in> set (pm_provides (vs_manifest t)). pv_service p = service \<and> pv_version p = v))"
  using assms
proof (induction ss arbitrary: providers)
  case (Cons s ss)
  then obtain d1 where d1: "add_provided s (pm_provides (vs_manifest s)) providers = Return d1"
    and rest: "index_providers ss d1 = Return d" by auto
  show ?case using Cons.IH [OF rest] add_provided_result [OF d1] by auto
qed simp

lemma index_providers_provided: "index_providers ss [] = Return d \<Longrightarrow> provided_by d (set ss)"
  using index_providers_result [of ss "[]" d] by (simp add: provided_by_def)

section \<open>Resolving and linking\<close>

text \<open>The plugins that provide what a plugin requires.\<close>

definition deps_of :: "providers \<Rightarrow> VerifiedPluginSource \<Rightarrow> string set" where
  "deps_of providers s =
     {source_id t | t. \<exists>r \<in> set (pm_requires (vs_manifest s)). \<exists>v. dict_get providers (rq_service r) = Some (t, v)}"

definition requirement_ok :: "'v packaging \<Rightarrow> providers \<Rightarrow> RequiredService \<Rightarrow> string option \<Rightarrow> bool" where
  "requirement_ok pk providers r provider \<longleftrightarrow>
     (case dict_get providers (rq_service r) of
        None \<Rightarrow> provider = None \<and> rq_optional r
      | Some (t, v) \<Rightarrow> provider = Some (source_id t) \<and> accepts pk r v = Return True)"

lemma resolve_result:
  assumes "resolve_requirements pk providers i rs = Return (resolved, deps)"
  shows "distinct deps"
    and "set deps = {source_id t | t. \<exists>r \<in> set rs. \<exists>v. dict_get providers (rq_service r) = Some (t, v)}"
    and "map rr_requirement resolved = rs"
    and "list_all (\<lambda>x. requirement_ok pk providers (rr_requirement x) (rr_provider_plugin_id x)) resolved"
proof -
  have "distinct deps \<and> set deps = {source_id t | t. \<exists>r \<in> set rs. \<exists>v. dict_get providers (rq_service r) = Some (t, v)} \<and>
      map rr_requirement resolved = rs \<and>
      list_all (\<lambda>x. requirement_ok pk providers (rr_requirement x) (rr_provider_plugin_id x)) resolved"
    using assms
  proof (induction rs arbitrary: resolved deps)
    case (Cons r rs)
    show ?case
    proof (cases "dict_get providers (rq_service r)")
      case None
      with Cons.prems obtain resolved' where "rq_optional r" "resolve_requirements pk providers i rs = Return (resolved', deps)"
        "resolved = \<lparr>rr_requirement = r, rr_provider_plugin_id = None\<rparr> # resolved'"
        by (auto split: if_splits)
      with Cons.IH None show ?thesis by (auto simp: requirement_ok_def)
    next
      case (Some tv)
      obtain t v where tv: "tv = (t, v)" by (metis surj_pair)
      with Cons.prems Some obtain resolved' deps' where "accepts pk r v = Return True"
        "resolve_requirements pk providers i rs = Return (resolved', deps')"
        "resolved = \<lparr>rr_requirement = r, rr_provider_plugin_id = Some (source_id t)\<rparr> # resolved'"
        "deps = List.insert (source_id t) deps'"
        by (auto split: if_splits)
      with Cons.IH Some tv show ?thesis by (auto simp: requirement_ok_def)
    qed
  qed simp
  then show "distinct deps"
    and "set deps = {source_id t | t. \<exists>r \<in> set rs. \<exists>v. dict_get providers (rq_service r) = Some (t, v)}"
    and "map rr_requirement resolved = rs"
    and "list_all (\<lambda>x. requirement_ok pk providers (rr_requirement x) (rr_provider_plugin_id x)) resolved" by auto
qed

lemma add_edge_sel:
  "outgoing_of (add_edge p q g) j = (if j = q then List.insert p (outgoing_of g q) else outgoing_of g j)"
  "count_of (gr_incoming (add_edge p q g)) j = (if j = p then count_of (gr_incoming g) p + 1 else count_of (gr_incoming g) j)"
  "gr_bindings (add_edge p q g) = gr_bindings g"
  by (simp_all add: add_edge_def outgoing_of_def count_of_def)

lemma add_edges:
  assumes "distinct qs"
  shows "set (outgoing_of (fold (add_edge p) qs g) j) = set (outgoing_of g j) \<union> (if j \<in> set qs then {p} else {})"
    and "(\<And>j. distinct (outgoing_of g j)) \<Longrightarrow> distinct (outgoing_of (fold (add_edge p) qs g) j)"
    and "count_of (gr_incoming (fold (add_edge p) qs g)) j =
         count_of (gr_incoming g) j + (if j = p then int (length qs) else 0)"
    and "gr_bindings (fold (add_edge p) qs g) = gr_bindings g"
  using assms
  by (induction qs arbitrary: g; auto simp: add_edge_sel)+

text \<open>The graph over a set of ids: its dictionaries have exactly these keys.\<close>

definition graph_keys :: "string set \<Rightarrow> graph \<Rightarrow> bool" where
  "graph_keys V g \<longleftrightarrow> dom (dict_get (gr_outgoing g)) = V \<and> dom (dict_get (gr_incoming g)) = V \<and> dict_ok (gr_incoming g)"

lemma graph_keys_add: "graph_keys V g \<Longrightarrow> p \<in> V \<Longrightarrow> q \<in> V \<Longrightarrow> graph_keys V (add_edge p q g)"
  by (auto simp: graph_keys_def add_edge_def)

lemma graph_keys_adds: "graph_keys V g \<Longrightarrow> p \<in> V \<Longrightarrow> set qs \<subseteq> V \<Longrightarrow> graph_keys V (fold (add_edge p) qs g)"
  by (induction qs arbitrary: g) (simp_all add: graph_keys_add)

definition binding_ok ::
    "'v packaging \<Rightarrow> providers \<Rightarrow> VerifiedPluginSource \<Rightarrow> ResolvedRequirement list option \<Rightarrow> bool" where
  "binding_ok pk providers s b \<longleftrightarrow> (\<exists>resolved. b = Some resolved \<and> map rr_requirement resolved = pm_requires (vs_manifest s) \<and>
     list_all (\<lambda>x. requirement_ok pk providers (rr_requirement x) (rr_provider_plugin_id x)) resolved)"

text \<open>What linking the entries adds to a graph.\<close>

definition linked ::
    "'v packaging \<Rightarrow> providers \<Rightarrow> (string, VerifiedPluginSource) dict \<Rightarrow> graph \<Rightarrow> graph \<Rightarrow> bool" where
  "linked pk providers entries g g' \<longleftrightarrow>
     (\<forall>q. set (outgoing_of g' q) = set (outgoing_of g q) \<union> {p. \<exists>s. (p, s) \<in> set entries \<and> q \<in> deps_of providers s}) \<and>
     ((\<forall>q. distinct (outgoing_of g q)) \<longrightarrow> (\<forall>q. distinct (outgoing_of g' q))) \<and>
     (\<forall>p. count_of (gr_incoming g') p = count_of (gr_incoming g) p +
        (case dict_get entries p of None \<Rightarrow> 0 | Some s \<Rightarrow> int (card (deps_of providers s)))) \<and>
     (\<forall>p s. dict_get entries p = Some s \<longrightarrow> binding_ok pk providers s (dict_get (gr_bindings g') p)) \<and>
     (\<forall>p. dict_get entries p = None \<longrightarrow> dict_get (gr_bindings g') p = dict_get (gr_bindings g) p)"

lemma link_result:
  assumes "link_plugins pk providers entries g = Return g'" and "dict_ok entries"
  shows "linked pk providers entries g g'"
  using assms
proof (induction entries arbitrary: g)
  case Nil
  then show ?case by (simp add: linked_def)
next
  case (Cons e entries)
  obtain p s where e: "e = (p, s)" by (metis surj_pair)
  with Cons.prems(1) obtain resolved deps where
    res: "resolve_requirements pk providers p (pm_requires (vs_manifest s)) = Return (resolved, deps)"
    and rest: "link_plugins pk providers entries
       (fold (add_edge p) deps (g\<lparr>gr_bindings := dict_set p resolved (gr_bindings g)\<rparr>)) = Return g'"
    by auto
  let ?g = "fold (add_edge p) deps (g\<lparr>gr_bindings := dict_set p resolved (gr_bindings g)\<rparr>)"
  have ok: "dict_ok entries" and new: "dict_get entries p = None" and new': "\<And>s. (p, s) \<notin> set entries"
    using Cons.prems(2) by (auto simp: e dict_ok_def map_of_eq_None_iff intro: rev_image_eqI)
  note deps = resolve_result [OF res]
  have set_deps: "set deps = deps_of providers s" using deps(2) by (simp add: deps_of_def)
  have card: "length deps = card (deps_of providers s)" using deps(1) set_deps distinct_card by metis
  have same: "outgoing_of (g\<lparr>gr_bindings := b\<rparr>) q = outgoing_of g q" for b q by (simp add: outgoing_of_def)
  note edges = add_edges [OF deps(1), where p = p and g = "g\<lparr>gr_bindings := dict_set p resolved (gr_bindings g)\<rparr>"]
  have IH: "linked pk providers entries ?g g'" by (rule Cons.IH [OF rest ok])
  have "set (outgoing_of g' q) = set (outgoing_of g q) \<union> {p'. \<exists>s. (p', s) \<in> set (e # entries) \<and> q \<in> deps_of providers s}" for q
    using IH edges(1) [of q] set_deps by (auto simp: linked_def e same)
  moreover have "(\<forall>q. distinct (outgoing_of g q)) \<longrightarrow> (\<forall>q. distinct (outgoing_of g' q))"
    using IH edges(2) by (simp add: linked_def same)
  moreover have "count_of (gr_incoming g') j = count_of (gr_incoming g) j +
      (case dict_get (e # entries) j of None \<Rightarrow> 0 | Some s \<Rightarrow> int (card (deps_of providers s)))" for j
    using IH edges(3) [of j] card new by (auto simp: linked_def e)
  moreover have "binding_ok pk providers t (dict_get (gr_bindings g') j)" if "dict_get (e # entries) j = Some t" for j t
  proof (cases "j = p")
    case True
    then have "dict_get (gr_bindings g') j = Some resolved"
      using IH new by (simp add: linked_def edges(4))
    with that True deps(3,4) show ?thesis by (simp add: e binding_ok_def)
  next
    case False
    with that IH show ?thesis by (simp add: linked_def e)
  qed
  moreover have "dict_get (gr_bindings g') j = dict_get (gr_bindings g) j" if "dict_get (e # entries) j = None" for j
    using that IH by (auto simp: linked_def e edges(4) split: if_splits)
  ultimately show ?case by (simp add: linked_def)
qed

lemma link_keys:
  assumes "link_plugins pk providers entries g = Return g'" and "graph_keys V g"
    and "set (map fst entries) \<subseteq> V" and "\<And>p s. (p, s) \<in> set entries \<Longrightarrow> deps_of providers s \<subseteq> V"
  shows "graph_keys V g'"
  using assms
proof (induction entries arbitrary: g)
  case (Cons e entries)
  obtain p s where e: "e = (p, s)" by (metis surj_pair)
  with Cons.prems(1) obtain resolved deps where
    res: "resolve_requirements pk providers p (pm_requires (vs_manifest s)) = Return (resolved, deps)"
    and rest: "link_plugins pk providers entries
       (fold (add_edge p) deps (g\<lparr>gr_bindings := dict_set p resolved (gr_bindings g)\<rparr>)) = Return g'"
    by auto
  have "set deps \<subseteq> V" using resolve_result(2) [OF res] Cons.prems(4) [of p s] by (simp add: deps_of_def e)
  moreover have "p \<in> V" using Cons.prems(3) by (simp add: e)
  moreover have "graph_keys V (g\<lparr>gr_bindings := dict_set p resolved (gr_bindings g)\<rparr>)"
    using Cons.prems(2) by (simp add: graph_keys_def)
  ultimately have keys: "graph_keys V (fold (add_edge p) deps (g\<lparr>gr_bindings := dict_set p resolved (gr_bindings g)\<rparr>))"
    by (intro graph_keys_adds)
  show ?case
    by (rule Cons.IH [OF rest keys]) (use Cons.prems(3,4) e in auto)
qed simp

section \<open>The plan\<close>

text \<open>One plugin depends on another when it requires a service that the other one provides.\<close>

definition depends :: "VerifiedPluginSource set \<Rightarrow> string \<Rightarrow> string \<Rightarrow> bool" where
  "depends ss q p \<longleftrightarrow> (\<exists>s \<in> ss. \<exists>t \<in> ss. source_id s = p \<and> source_id t = q \<and>
     (\<exists>r \<in> set (pm_requires (vs_manifest s)). rq_service r \<in> pv_service ` set (pm_provides (vs_manifest t))))"

definition source_of :: "VerifiedPluginSource list \<Rightarrow> string \<Rightarrow> VerifiedPluginSource option" where
  "source_of ss = dict_get (map (\<lambda>s. (source_id s, s)) ss)"

text \<open>The stages of the planner up to the loop, and the graph they hand to it.\<close>

definition prepared ::
    "'v::linorder packaging \<Rightarrow> 'v PluginPlanner \<Rightarrow> VerifiedPluginSource list \<Rightarrow> providers \<Rightarrow> graph \<Rightarrow> bool" where
  "prepared pk pl sources providers g \<longleftrightarrow>
     check_candidates pk pl sources = Return () \<and>
     (\<exists>by_id. index_sources (sort_key (source_key pk) sources) [] = Return by_id \<and>
       index_providers (dict_values by_id) [] = Return providers \<and>
       (\<exists>seen. index_contributions (dict_values by_id) [] = Return seen) \<and>
       link_plugins pk providers by_id (empty_graph (dict_keys by_id)) = Return g)"

definition placed :: "graph \<Rightarrow> string list \<times> (string, int) dict" where
  "placed g = place (gr_outgoing g) (gr_incoming g) (map fst (filter (\<lambda>e. snd e = 0) (gr_incoming g))) []"

lemma deps_of_depends:
  assumes provided: "provided_by providers (set sources)" and dist: "distinct (map source_id sources)"
    and s: "s \<in> set sources"
  shows "deps_of providers s = {q. depends (set sources) q (source_id s)}"
proof -
  have same: "s' = s" if "s' \<in> set sources" "source_id s' = source_id s" for s'
    using dist s that by (meson distinct_map inj_onD)
  have "(\<exists>v. dict_get providers service = Some (t, v)) \<longleftrightarrow>
      t \<in> set sources \<and> service \<in> pv_service ` set (pm_provides (vs_manifest t))" for service t
    using provided unfolding provided_by_def by (auto simp: image_iff)
  then have "deps_of providers s = {source_id t | t. \<exists>r \<in> set (pm_requires (vs_manifest s)).
      t \<in> set sources \<and> rq_service r \<in> pv_service ` set (pm_provides (vs_manifest t))}"
    unfolding deps_of_def by simp
  also have "\<dots> = {q. depends (set sources) q (source_id s)}"
    unfolding depends_def using s same by blast
  finally show ?thesis .
qed

lemma empty_graph_facts:
  "distinct is \<Longrightarrow> graph_keys (set is) (empty_graph is)"
  "outgoing_of (empty_graph is) q = []" "count_of (gr_incoming (empty_graph is)) p = 0"
proof -
  show "graph_keys (set is) (empty_graph is)" if "distinct is"
    using that by (simp add: graph_keys_def empty_graph_def dict_ok_def o_def dom_map_of_conv_image_fst image_image)
  show "outgoing_of (empty_graph is) q = []" "count_of (gr_incoming (empty_graph is)) p = 0"
    by (simp_all add: outgoing_of_def count_of_def empty_graph_def map_of_map_restrict restrict_map_def split: option.splits if_splits)
qed

text \<open>The loop starts with the plugins that depend on nothing.\<close>

lemma place_start:
  assumes gkeys: "graph_keys V g" and V: "finite V" and deps_V: "\<And>p. deps p \<subseteq> V"
    and counts: "\<And>p. p \<in> V \<Longrightarrow> count_of (gr_incoming g) p = int (card (deps p))"
  shows "place_inv V deps (gr_incoming g) (map fst (filter (\<lambda>e. snd e = 0) (gr_incoming g))) []"
proof -
  have inc: "dict_ok (gr_incoming g)" "set (dict_keys (gr_incoming g)) = V"
    using gkeys by (simp_all add: graph_keys_def dom_map_of_conv_image_fst)
  have ready: "p \<in> set (map fst (filter (\<lambda>e. snd e = 0) (gr_incoming g))) \<longleftrightarrow> p \<in> V \<and> deps p = {}" for p
  proof -
    have "p \<in> set (map fst (filter (\<lambda>e. snd e = 0) (gr_incoming g))) \<longleftrightarrow> dict_get (gr_incoming g) p = Some 0"
      using dict_get_in_set [OF inc(1)] by force
    also have "\<dots> \<longleftrightarrow> p \<in> V \<and> count_of (gr_incoming g) p = 0"
    proof -
      have "p \<in> V \<longleftrightarrow> dict_get (gr_incoming g) p \<noteq> None" using gkeys unfolding graph_keys_def by blast
      then show ?thesis by (auto simp: count_of_def)
    qed
    also have "\<dots> \<longleftrightarrow> p \<in> V \<and> deps p = {}"
      using counts V deps_V [of p] finite_subset by fastforce
    finally show ?thesis .
  qed
  show "place_inv V deps (gr_incoming g) (map fst (filter (\<lambda>e. snd e = 0) (gr_incoming g))) []"
    unfolding place_inv_def
  proof (intro conjI)
    show "greedy V deps []" by (simp add: greedy_def)
    show "count_ok V deps (gr_incoming g) []" using counts by (simp add: count_ok_def)
    show "distinct (map fst (filter (\<lambda>e. snd e = 0) (gr_incoming g)))"
      using inc(1) dict_ok_filter dict_ok_def by blast
    show "set (map fst (filter (\<lambda>e. snd e = 0) (gr_incoming g))) = placeable V deps []"
      using ready by (auto simp: placeable_def)
  qed (rule inc)+
qed

lemma prepared_graph:
  fixes sources :: "VerifiedPluginSource list"
  assumes prep: "prepared pk pl sources providers g"
  defines "V \<equiv> source_id ` set sources" and "deps \<equiv> \<lambda>p. {q. depends (set sources) q p}"
  shows "provided_by providers (set sources)" and "distinct (map source_id sources)"
    and "\<And>s. s \<in> set sources \<Longrightarrow> binding_ok pk providers s (dict_get (gr_bindings g) (source_id s))"
    and "place_inv V deps (snd (placed g)) [] (fst (placed g))"
proof -
  let ?ss = "sort_key (source_key pk) sources"
  obtain by_id seen where by_id: "index_sources ?ss [] = Return by_id"
    and provs: "index_providers (dict_values by_id) [] = Return providers"
    and link: "link_plugins pk providers by_id (empty_graph (dict_keys by_id)) = Return g"
    using prep by (auto simp: prepared_def)
  have by_id_eq: "by_id = map (\<lambda>s. (source_id s, s)) ?ss" and ok: "dict_ok by_id"
    using index_sources_result [OF by_id] by simp_all
  have keys: "dict_keys by_id = map source_id ?ss" and vals: "dict_values by_id = ?ss"
    by (simp_all add: by_id_eq o_def)
  have "distinct (map source_id ?ss)" using ok by (simp add: dict_ok_def keys [symmetric])
  then show dist: "distinct (map source_id sources)"
    by (simp add: distinct_map)
  have entry: "dict_get by_id (source_id s) = Some s" if "s \<in> set sources" for s
    using that ok by (simp add: dict_get_in_set) (simp add: by_id_eq)
  show provided: "provided_by providers (set sources)"
    using index_providers_provided [OF provs] by (simp add: vals)
  note linked = link_result [OF link ok]
  show "\<And>s. s \<in> set sources \<Longrightarrow> binding_ok pk providers s (dict_get (gr_bindings g) (source_id s))"
    using linked entry by (simp add: linked_def)
  have deps: "deps_of providers s = deps (source_id s)" if s: "s \<in> set sources" for s
    unfolding deps_def by (rule deps_of_depends [OF provided dist s])
  have deps_V: "deps p \<subseteq> V" for p by (auto simp: deps_def depends_def V_def)
  have V: "finite V" by (simp add: V_def)
  have V_keys: "set (dict_keys by_id) = V" unfolding keys by (simp add: V_def)
  have empty_keys: "graph_keys V (empty_graph (dict_keys by_id))"
    using empty_graph_facts(1) [of "dict_keys by_id"] ok unfolding V_keys dict_ok_def by simp
  have gkeys: "graph_keys V g"
  proof (rule link_keys [OF link empty_keys])
    show "set (dict_keys by_id) \<subseteq> V" by (simp only: V_keys)
    fix p s
    assume "(p, s) \<in> set by_id"
    then have "s \<in> set sources" by (auto simp: by_id_eq)
    then show "deps_of providers s \<subseteq> V" using deps deps_V by simp
  qed
  have entries: "(\<exists>s. (p, s) \<in> set by_id \<and> q \<in> deps_of providers s) \<longleftrightarrow> p \<in> V \<and> q \<in> deps p" for p q
    using deps by (auto simp: by_id_eq V_def)
  note start = empty_graph_facts(2,3)
  have outgoing: "\<exists>cs. dict_get (gr_outgoing g) q = Some cs \<and> distinct cs \<and> set cs = {p \<in> V. q \<in> deps p}" if q: "q \<in> V" for q
  proof -
    obtain cs where "dict_get (gr_outgoing g) q = Some cs"
      using gkeys q unfolding graph_keys_def by blast
    moreover have "set (outgoing_of g q) = {p \<in> V. q \<in> deps p}" "distinct (outgoing_of g q)"
      using linked entries start by (simp_all add: linked_def)
    ultimately show ?thesis by (simp add: outgoing_of_def)
  qed
  have counts: "count_of (gr_incoming g) p = int (card (deps p))" if "p \<in> V" for p
    using that linked entry deps start by (auto simp: linked_def V_def)
  from place_result [OF place_start [OF gkeys V deps_V counts] V deps_V outgoing] show "place_inv V deps (snd (placed g)) [] (fst (placed g))"
    unfolding placed_def .
qed

lemma plan_prepared:
  assumes "plan_sources pk pl sources = Return p"
  obtains providers g where "prepared pk pl sources providers g" "length (fst (placed g)) = length sources"
    "pp_sources p = List.map_filter (source_of (sort_key (source_key pk) sources)) (fst (placed g))"
    "pp_bindings p = gr_bindings g" "pp_attestation p = pl_attestation pl"
  using assms index_sources_result(1) [of "sort_key (source_key pk) sources" "[]"]
  by (fastforce simp: plan_sources_def prepared_def placed_def source_of_def Let_def split: if_splits)

lemma plan_cycle_prepared:
  assumes "plan_sources pk pl sources = Raise (PluginPlanError (plugin_code_value DEPENDENCY_CYCLE) m d)"
  obtains providers g where "prepared pk pl sources providers g" "length (fst (placed g)) \<noteq> length sources"
    "d = [(''plugins'', sort (map fst (filter (\<lambda>e. snd e \<noteq> 0) (snd (placed g)))))]"
proof -
  have no_check: "check_candidates pk pl ss \<noteq> Inl (PluginPlanError ''dependency_cycle'' m d)" for ss
    by (induction ss) auto
  have no_index: "index_sources ss x \<noteq> Inl (PluginPlanError ''dependency_cycle'' m d)" for ss x
    by (induction ss arbitrary: x) auto
  have no_add: "add_provided s ps x \<noteq> Inl (PluginPlanError ''dependency_cycle'' m d)" for s ps x
    by (induction ps arbitrary: x) (auto split: option.splits)
  have no_prov: "index_providers ss x \<noteq> Inl (PluginPlanError ''dependency_cycle'' m d)" for ss x
    by (induction ss arbitrary: x) (auto simp: result_bind_eq_Inl no_add)
  have no_addc: "add_contributions s ps x \<noteq> Inl (PluginPlanError ''dependency_cycle'' m d)" for s ps x
    by (induction ps arbitrary: x) (auto split: option.splits)
  have no_contr: "index_contributions ss x \<noteq> Inl (PluginPlanError ''dependency_cycle'' m d)" for ss x
    by (induction ss arbitrary: x) (auto simp: result_bind_eq_Inl no_addc)
  have no_res: "resolve_requirements pk pr i rs \<noteq> Inl (PluginPlanError ''dependency_cycle'' m d)" for pr i rs
    by (induction rs) (auto simp: result_bind_eq_Inl accepts_def split: option.splits)
  have no_link: "link_plugins pk pr es x \<noteq> Inl (PluginPlanError ''dependency_cycle'' m d)" for pr es x
    by (induction es arbitrary: x) (auto simp: result_bind_eq_Inl no_res)
  show thesis
    using assms that index_sources_result(1) [of "sort_key (source_key pk) sources" "[]"]
    by (fastforce simp: plan_sources_def prepared_def placed_def Let_def result_bind_eq_Inl no_check no_index no_prov no_contr no_link
        split: if_splits)
qed

lemma map_filter_source_of:
  assumes "distinct (map source_id ss)" and "set is \<subseteq> source_id ` set ss"
  shows "map source_id (List.map_filter (source_of ss) is) = is" and "set (List.map_filter (source_of ss) is) \<subseteq> set ss"
proof -
  have hit: "\<exists>s \<in> set ss. source_of ss i = Some s \<and> source_id s = i" if "i \<in> source_id ` set ss" for i
  proof -
    obtain s where s: "s \<in> set ss" "source_id s = i" using \<open>i \<in> source_id ` set ss\<close> by auto
    then have "(i, s) \<in> set (map (\<lambda>s. (source_id s, s)) ss)" by auto
    moreover have "dict_ok (map (\<lambda>s. (source_id s, s)) ss)" using assms(1) by (simp add: dict_ok_def o_def)
    ultimately have "source_of ss i = Some s" unfolding source_of_def by (simp add: dict_get_in_set)
    with s show ?thesis by auto
  qed
  show "map source_id (List.map_filter (source_of ss) is) = is" and "set (List.map_filter (source_of ss) is) \<subseteq> set ss"
    using assms(2)
    by (induction "is") (auto simp: List.map_filter_simps dest!: hit split: option.splits)
qed

lemma plan_order:
  assumes plan: "plan_sources pk pl sources = Return p"
  shows "greedy (source_id ` set sources) (\<lambda>i. {q. depends (set sources) q i}) (plan_plugin_ids p)"
    and "set (plan_plugin_ids p) = source_id ` set sources" and "set (pp_sources p) = set sources"
    and "distinct (map source_id sources)"
proof -
  obtain providers g where prep: "prepared pk pl sources providers g"
    and len: "length (fst (placed g)) = length sources"
    and src: "pp_sources p = List.map_filter (source_of (sort_key (source_key pk) sources)) (fst (placed g))"
    using plan by (rule plan_prepared)
  let ?V = "source_id ` set sources" and ?ss = "sort_key (source_key pk) sources"
  note graph = prepared_graph [OF prep]
  show dist: "distinct (map source_id sources)" by (rule graph(2))
  have greedy: "greedy ?V (\<lambda>i. {q. depends (set sources) q i}) (fst (placed g))"
    using graph(4) unfolding place_inv_def by blast
  have sub: "set (fst (placed g)) \<subseteq> ?V" and dp: "distinct (fst (placed g))"
    using greedy_facts(1,2) [OF greedy] by blast+
  have "card ?V = length sources" using dist distinct_card by fastforce
  then have all: "set (fst (placed g)) = ?V"
    using card_subset_eq [OF _ sub] distinct_card [OF dp] len by simp
  have dist': "distinct (map source_id ?ss)" using dist by (simp add: distinct_map)
  have ids: "plan_plugin_ids p = fst (placed g)"
    using map_filter_source_of(1) [OF dist', of "fst (placed g)"] sub by (simp add: plan_plugin_ids_def src)
  show "greedy ?V (\<lambda>i. {q. depends (set sources) q i}) (plan_plugin_ids p)" using greedy ids by simp
  show ids_all: "set (plan_plugin_ids p) = ?V" using all ids by simp
  have "set (pp_sources p) \<subseteq> set sources"
    using map_filter_source_of(2) [OF dist', of "fst (placed g)"] sub by (simp add: src)
  then show "set (pp_sources p) = set sources"
    using ids_all dist unfolding plan_plugin_ids_def set_map distinct_map
    by (metis (no_types, lifting) inj_on_image_eq_iff subset_refl)
qed

lemma provided_member:
  "(\<exists>p \<in> A. pv_service p = a \<and> pv_version p = b) \<longleftrightarrow> \<lparr>pv_service = a, pv_version = b\<rparr> \<in> A"
proof
  assume "\<exists>p \<in> A. pv_service p = a \<and> pv_version p = b"
  then obtain p where "p \<in> A" "pv_service p = a" "pv_version p = b" by blast
  then show "\<lparr>pv_service = a, pv_version = b\<rparr> \<in> A" by (cases p) simp
next
  assume "\<lparr>pv_service = a, pv_version = b\<rparr> \<in> A"
  then show "\<exists>p \<in> A. pv_service p = a \<and> pv_version p = b" by (rule rev_bexI) simp
qed

lemma check_candidates_iff:
  "check_candidates pk pl ss = Return () \<longleftrightarrow>
   (\<forall>s \<in> set ss. is_attested_by s (pl_attestation pl) \<and> supports_harness pk (vs_manifest s) (pl_harness_version pl))"
  by (induction ss) auto

text \<open>Which id is reported as a duplicate depends on the ids in their sorted order alone.\<close>

lemma index_sources_raises:
  assumes "index_sources ss d = Raise e" and "map source_id ss = map source_id ss'"
    and "\<And>i. dict_get d i = None \<longleftrightarrow> dict_get d' i = None"
  shows "index_sources ss' d' = Raise e"
  using assms
proof (induction ss arbitrary: ss' d d')
  case (Cons s ss)
  then obtain s' rest where ss': "ss' = s' # rest" "source_id s' = source_id s" "map source_id ss = map source_id rest"
    by (cases ss') auto
  show ?case
  proof (cases "dict_get d (source_id s) = None")
    case True
    with Cons.prems have "index_sources ss (dict_set (source_id s) s d) = Raise e" by simp
    from Cons.IH [OF this ss'(3), of "dict_set (source_id s) s' d'"] Cons.prems(3) True show ?thesis by (simp add: ss')
  next
    case False
    then obtain s0 where "dict_get d (source_id s) = Some s0" by blast
    then have "dict_get d' (source_id s) \<noteq> None" using Cons.prems(3) [of "source_id s"] by simp
    with Cons.prems(1) False show ?thesis by (auto simp: ss')
  qed
qed simp

lemma sorted_source_ids: "map source_id (sort_key (source_key pk) xs) = sort (map source_id xs)"
proof -
  have "sorted (map source_id (sort_key (source_key pk) xs))"
    unfolding sorted_map
    by (rule sorted_wrt_mono_rel [OF _ sorted_sort_key [of "source_key pk" xs, unfolded sorted_map]])
       (auto simp: source_key_def)
  then show ?thesis by (intro properties_for_sort [symmetric]) simp_all
qed

lemma index_sources_perm:
  assumes "mset xs = mset ys"
  shows "index_sources (sort_key (source_key pk) xs) [] = index_sources (sort_key (source_key pk) ys) []"
proof (cases "index_sources (sort_key (source_key pk) xs) []")
  case (Inl e)
  have "map source_id (sort_key (source_key pk) xs) = map source_id (sort_key (source_key pk) ys)"
    unfolding sorted_source_ids using assms by (metis mset_map sorted_list_of_multiset_mset)
  from index_sources_raises [OF Inl this] Inl show ?thesis by simp
next
  case (Inr d)
  then have "distinct (map source_id (sort_key (source_key pk) xs))"
    using index_sources_result [OF Inr] by (auto simp: dict_ok_def comp_def)
  then have "inj_on (source_key pk) (set xs)" by (auto simp: distinct_map inj_on_def source_key_def)
  with assms have "sort_key (source_key pk) xs = sort_key (source_key pk) ys"
    by (intro sort_key_inj_key_eq) simp_all
  then show ?thesis by simp
qed

lemma plan_resolved:
  assumes plan: "plan_sources pk pl sources = Return p" and s: "s \<in> set sources"
  obtains providers resolved where "provided_by providers (set sources)"
    "dict_get (pp_bindings p) (source_id s) = Some resolved" "map rr_requirement resolved = pm_requires (vs_manifest s)"
    "\<And>x. x \<in> set resolved \<Longrightarrow> requirement_ok pk providers (rr_requirement x) (rr_provider_plugin_id x)"
proof -
  obtain providers g where prep: "prepared pk pl sources providers g" and b: "pp_bindings p = gr_bindings g"
    using plan by (rule plan_prepared)
  show thesis using prepared_graph(3) [OF prep s] that [OF prepared_graph(1) [OF prep]] b
    by (auto simp: binding_ok_def list_all_iff)
qed

lemma provided_iff:
  "provided_by providers ss \<Longrightarrow> dict_get providers service = Some (t, v) \<longleftrightarrow>
   t \<in> ss \<and> \<lparr>pv_service = service, pv_version = v\<rparr> \<in> set (pm_provides (vs_manifest t))"
  unfolding provided_by_def by (simp add: provided_member)

lemma resolved_provider:
  assumes provided: "provided_by providers (set sources)" and ok: "requirement_ok pk providers r q"
  shows "case q of
      None \<Rightarrow> rq_optional r \<and> (\<forall>t \<in> set sources. rq_service r \<notin> pv_service ` set (pm_provides (vs_manifest t)))
    | Some i \<Rightarrow> (\<exists>t v. t \<in> set sources \<and> source_id t = i \<and>
        \<lparr>pv_service = rq_service r, pv_version = v\<rparr> \<in> set (pm_provides (vs_manifest t)) \<and> accepts pk r v = Return True)"
proof (cases "dict_get providers (rq_service r)")
  case None
  have "rq_service r \<noteq> pv_service y" if "t \<in> set sources" "y \<in> set (pm_provides (vs_manifest t))" for t y
    using provided_iff [OF provided, of "rq_service r" t "pv_version y"] None that by (cases y) auto
  with None ok show ?thesis by (auto simp: requirement_ok_def)
next
  case (Some tv)
  obtain t v where tv: "tv = (t, v)" by (metis surj_pair)
  have "t \<in> set sources" "\<lparr>pv_service = rq_service r, pv_version = v\<rparr> \<in> set (pm_provides (vs_manifest t))"
    using provided_iff [OF provided] Some tv by auto
  with ok Some tv show ?thesis by (auto simp: requirement_ok_def)
qed

lemma provider_depends:
  assumes "s \<in> set sources" "r \<in> set (pm_requires (vs_manifest s))" "t \<in> set sources"
    "\<lparr>pv_service = rq_service r, pv_version = v\<rparr> \<in> set (pm_provides (vs_manifest t))"
  shows "depends (set sources) (source_id t) (source_id s)"
proof -
  have "rq_service r \<in> pv_service ` set (pm_provides (vs_manifest t))" using assms(4) by force
  then show ?thesis using assms(1-3) unfolding depends_def by blast
qed

lemma plan_earlier:
  assumes plan: "plan_sources pk pl sources = Return p" and s: "s \<in> set sources"
    and dep: "depends (set sources) q (source_id s)"
  shows "q \<in> set (takeWhile (\<lambda>i. i \<noteq> source_id s) (plan_plugin_ids p))"
proof -
  note order = plan_order [OF plan]
  have "source_id s \<in> set (plan_plugin_ids p)" using s by (simp add: order(2))
  then obtain pre post where ids: "plan_plugin_ids p = pre @ source_id s # post" "source_id s \<notin> set pre"
    by (meson split_list_first)
  then have "{q. depends (set sources) q (source_id s)} \<subseteq> set pre"
    using greedy_nth [OF order(1), of "length pre"] by (simp add: placeable_def)
  moreover have "takeWhile (\<lambda>i. i \<noteq> source_id s) (plan_plugin_ids p) = pre"
    unfolding ids(1) by (subst takeWhile_append2) (use ids(2) in auto)
  ultimately show ?thesis using dep by auto
qed

section \<open>A concrete plan\<close>

definition demo_packaging :: "string packaging" where
  "demo_packaging = \<lparr>pk_Version = (\<lambda>s. if s = [] then None else Some s), pk_str = (\<lambda>v. v), pk_SpecifierSet = (\<lambda>s. True),
     pk_in = (\<lambda>v spec. spec = [] \<or> spec = v), pk_word = (\<lambda>p. False)\<rparr>"

definition demo_manifest :: "string \<Rightarrow> string list \<Rightarrow> (string \<times> bool) list \<Rightarrow> PluginManifest" where
  "demo_manifest i provides requires = \<lparr>pm_schema_version = ''1'', pm_plugin_id = i, pm_version = ''1.0.0'', pm_harness_api = [],
     pm_trust_mode = TRUSTED_IN_PROCESS, pm_entrypoint = ''m:A'', pm_artifact = \<lparr>ai_digest = [], ai_signature = None\<rparr>,
     pm_provides = map (\<lambda>s. \<lparr>pv_service = s, pv_version = ''1.0.0''\<rparr>) provides,
     pm_requires = map (\<lambda>(s, opt). \<lparr>rq_service = s, rq_version = [], rq_optional = opt\<rparr>) requires,
     pm_contributions = \<lparr>cn_product = [], cn_memory = [], cn_knowledge = [], cn_workflow = [], cn_reflection = [],
       cn_prompt = [], cn_tools = [], cn_models = [], cn_mcp = [], cn_channels = []\<rparr>, pm_permissions = {}\<rparr>"

definition demo_source :: "PluginManifest \<Rightarrow> VerifiedPluginSource" where
  "demo_source m = \<lparr>vs_root = [], vs_manifest = m, vs_digest = [], vs_signature_verified = True, vs_attestation = 7\<rparr>"

definition demo_planner :: "string PluginPlanner" where
  "demo_planner = \<lparr>pl_harness_version = ''2'', pl_attestation = 7\<rparr>"

definition demo_consumer :: VerifiedPluginSource where
  "demo_consumer = demo_source (demo_manifest ''a'' [] [(''store'', False), (''extra'', True)])"

definition demo_provider :: VerifiedPluginSource where
  "demo_provider = demo_source (demo_manifest ''b'' [''store''] [])"

text \<open>Two plugins that require each other.\<close>

definition demo_loop :: "VerifiedPluginSource list" where
  "demo_loop = [demo_source (demo_manifest ''a'' [''x''] [(''y'', False)]), demo_source (demo_manifest ''b'' [''y''] [(''x'', False)])]"

definition demo_plan :: PluginPlan where
  "demo_plan = \<lparr>pp_sources = [demo_provider, demo_consumer],
     pp_bindings = [(''a'', [\<lparr>rr_requirement = \<lparr>rq_service = ''store'', rq_version = [], rq_optional = False\<rparr>, rr_provider_plugin_id = Some ''b''\<rparr>,
                             \<lparr>rr_requirement = \<lparr>rq_service = ''extra'', rq_version = [], rq_optional = True\<rparr>, rr_provider_plugin_id = None\<rparr>]),
                    (''b'', [])], pp_attestation = 7\<rparr>"

lemma demo_plan_made: "plan_sources demo_packaging demo_planner [demo_consumer, demo_provider] = Return demo_plan"
  by code_simp

lemma demo_loop_refused: "plan_sources demo_packaging demo_planner demo_loop =
    Raise (PluginPlanError (plugin_code_value DEPENDENCY_CYCLE) ''plugin service dependencies contain a cycle'' [(''plugins'', [''a'', ''b''])])"
  by code_simp

section \<open>Properties\<close>

text \<open>
  C38. The order of a plan. A plan holds exactly the given sources, one per plugin id, and its order is the
  smallest one the dependencies allow: every plugin comes after all plugins that provide a
  service it requires, and at each place stands the smallest id of the plugins that may come next.
\<close>

theorem plan_order_smallest:
  assumes "plan_sources pk pl sources = Return p"
  shows "set (pp_sources p) = set sources \<and> distinct (plan_plugin_ids p) \<and>
    (\<forall>k < length (plan_plugin_ids p).
       (\<forall>q. depends (set sources) q (plan_plugin_ids p ! k) \<longrightarrow> q \<in> set (take k (plan_plugin_ids p))) \<and>
       plan_plugin_ids p ! k =
         Min {i \<in> source_id ` set sources - set (take k (plan_plugin_ids p)).
                {q. depends (set sources) q i} \<subseteq> set (take k (plan_plugin_ids p))})"
proof -
  note order = plan_order [OF assms]
  have "distinct (plan_plugin_ids p)" by (rule greedy_facts(1) [OF order(1)])
  moreover have "depends (set sources) q (plan_plugin_ids p ! k) \<longrightarrow> q \<in> set (take k (plan_plugin_ids p))"
    if "k < length (plan_plugin_ids p)" for k q
    using greedy_nth [OF order(1) that] by (auto simp: placeable_def)
  ultimately show ?thesis
    using order(1,3) unfolding greedy_def placeable_def by blast
qed

theorem plan_order_smallest_witness:
  "plan_sources demo_packaging demo_planner [demo_consumer, demo_provider] = Return demo_plan \<and>
   set (pp_sources demo_plan) = {demo_consumer, demo_provider}"
  using plan_order_smallest [OF demo_plan_made] demo_plan_made by simp

text \<open>
  C40. When every source is attested and supports the harness, the outcome of planning, the plan or the error, does not depend on the
  order in which the sources are given. When one is not, no order gives a plan; which of the bad sources the error
  names may depend on the order.
\<close>

theorem plan_deterministic:
  assumes same: "mset xs = mset ys"
  shows "if \<forall>s \<in> set xs. is_attested_by s (pl_attestation pl) \<and> supports_harness pk (vs_manifest s) (pl_harness_version pl)
    then plan_sources pk pl xs = plan_sources pk pl ys
    else \<nexists>p. plan_sources pk pl xs = Return p \<or> plan_sources pk pl ys = Return p"
proof -
  have "check_candidates pk pl xs = Return () \<longleftrightarrow> check_candidates pk pl ys = Return ()"
    unfolding check_candidates_iff using mset_eq_setD [OF same] by simp
  then show ?thesis
    unfolding check_candidates_iff [symmetric] plan_sources_def index_sources_perm [OF same]
    by (auto simp: result_bind_def split: sum.splits)
qed

theorem plan_deterministic_witness:
  "plan_sources demo_packaging demo_planner [demo_provider, demo_consumer] = Return demo_plan"
proof -
  have "\<forall>s \<in> set [demo_consumer, demo_provider].
      is_attested_by s (pl_attestation demo_planner) \<and> supports_harness demo_packaging (vs_manifest s) (pl_harness_version demo_planner)"
    by code_simp
  with plan_deterministic [of "[demo_consumer, demo_provider]" "[demo_provider, demo_consumer]" demo_planner demo_packaging]
    demo_plan_made show ?thesis by simp
qed

text \<open>
  C39. The error for a dependency cycle is exact: when the planner returns a plan the dependencies have no
  cycle, and when it reports a cycle there is one.
\<close>

theorem plan_cycle_exact:
  "(plan_sources pk pl sources = Return p \<longrightarrow> acyclic {(q, i). depends (set sources) q i}) \<and>
   (plan_sources pk pl sources = Raise (PluginPlanError (plugin_code_value DEPENDENCY_CYCLE) m d) \<longrightarrow>
      \<not> acyclic {(q, i). depends (set sources) q i})"
proof -
  let ?V = "source_id ` set sources" and ?deps = "\<lambda>i. {q. depends (set sources) q i}"
  have rel: "{(q, i). depends (set sources) q i} = dependency_rel ?V ?deps"
    by (auto simp: dependency_rel_def depends_def)
  have deps_V: "?deps i \<subseteq> ?V" for i by (auto simp: depends_def)
  have "acyclic (dependency_rel ?V ?deps)" if "plan_sources pk pl sources = Return p"
    using plan_order(1,2) [OF that] by (rule greedy_acyclic)
  moreover have "\<not> acyclic (dependency_rel ?V ?deps)"
    if cycle: "plan_sources pk pl sources = Raise (PluginPlanError (plugin_code_value DEPENDENCY_CYCLE) m d)"
  proof -
    obtain providers g where prep: "prepared pk pl sources providers g" and len: "length (fst (placed g)) \<noteq> length sources"
      using cycle by (rule plan_cycle_prepared)
    note graph = prepared_graph [OF prep]
    have greedy: "greedy ?V ?deps (fst (placed g))" and stuck: "placeable ?V ?deps (fst (placed g)) = {}"
      using graph(4) by (auto simp: place_inv_def)
    have "card ?V = length sources" using graph(2) distinct_card by fastforce
    then have "set (fst (placed g)) \<noteq> ?V"
      using len distinct_card [OF greedy_facts(1) [OF greedy]] by metis
    from stuck_cyclic [OF _ deps_V greedy stuck this] show ?thesis by simp
  qed
  ultimately show ?thesis unfolding rel by blast
qed

theorem plan_cycle_exact_witness: "\<not> acyclic {(q, i). depends (set demo_loop) q i}"
  using plan_cycle_exact demo_loop_refused by metis

text \<open>
  The bindings of a plan. Every requirement of every plugin is bound, in the order of the manifest:
  to the plugin that provides the service, in a version the requirement accepts and earlier in the
  plan, or to nothing, and then the requirement is optional and no plugin provides the service.
\<close>

theorem plan_bindings_sound:
  assumes plan: "plan_sources pk pl sources = Return p" and s: "s \<in> set sources"
  shows "\<exists>resolved. dict_get (pp_bindings p) (source_id s) = Some resolved \<and>
    map rr_requirement resolved = pm_requires (vs_manifest s) \<and>
    list_all (\<lambda>x. case rr_provider_plugin_id x of
        None \<Rightarrow> rq_optional (rr_requirement x) \<and>
          list_all (\<lambda>t. rq_service (rr_requirement x) \<notin> pv_service ` set (pm_provides (vs_manifest t))) sources
      | Some q \<Rightarrow> (\<exists>t v. t \<in> set sources \<and> source_id t = q \<and>
          \<lparr>pv_service = rq_service (rr_requirement x), pv_version = v\<rparr> \<in> set (pm_provides (vs_manifest t)) \<and>
          accepts pk (rr_requirement x) v = Return True) \<and>
          q \<in> set (takeWhile (\<lambda>i. i \<noteq> source_id s) (plan_plugin_ids p))) resolved"
proof -
  obtain providers resolved where provided: "provided_by providers (set sources)"
    and res: "dict_get (pp_bindings p) (source_id s) = Some resolved" "map rr_requirement resolved = pm_requires (vs_manifest s)"
    and ok: "\<And>x. x \<in> set resolved \<Longrightarrow> requirement_ok pk providers (rr_requirement x) (rr_provider_plugin_id x)"
    using plan s by (rule plan_resolved) blast
  have "case rr_provider_plugin_id x of
        None \<Rightarrow> rq_optional (rr_requirement x) \<and>
          list_all (\<lambda>t. rq_service (rr_requirement x) \<notin> pv_service ` set (pm_provides (vs_manifest t))) sources
      | Some q \<Rightarrow> (\<exists>t v. t \<in> set sources \<and> source_id t = q \<and>
          \<lparr>pv_service = rq_service (rr_requirement x), pv_version = v\<rparr> \<in> set (pm_provides (vs_manifest t)) \<and>
          accepts pk (rr_requirement x) v = Return True) \<and>
          q \<in> set (takeWhile (\<lambda>i. i \<noteq> source_id s) (plan_plugin_ids p))" if x: "x \<in> set resolved" for x
  proof -
    have r: "rr_requirement x \<in> set (pm_requires (vs_manifest s))" unfolding res(2) [symmetric] using x by simp
    show ?thesis
      using resolved_provider [OF provided ok [OF x]] provider_depends [OF s r] plan_earlier [OF plan s]
      by (cases "rr_provider_plugin_id x") (auto simp: list_all_iff)
  qed
  then show ?thesis using res by (simp add: list_all_iff)
qed

theorem plan_bindings_sound_witness:
  "\<exists>resolved. dict_get (pp_bindings demo_plan) (source_id demo_consumer) = Some resolved \<and>
     map rr_requirement resolved = pm_requires (vs_manifest demo_consumer)"
  using plan_bindings_sound [OF demo_plan_made, of demo_consumer] by auto

end
