(* ===== verification/Plugin_Registry.thy ===== *)
theory Plugin_Registry
  imports Plugin_Planning
begin

text \<open>
  \<^verbatim>\<open>src/suiteharness/plugins/registry.py\<close> and the records of \<^verbatim>\<open>plugins/protocols.py\<close>: the registry of
  contributions. For each slot it keeps a stack of records, the newest one visible. Every body runs under one lock, so
  an operation is a function on the registry. \<open>'x\<close> is the type of the contributed objects; the
  registration tokens (\<open>uuid4\<close>) are given.
\<close>

section \<open>Records\<close>

record PluginActivationIdentity =
  pai_plugin_id :: string
  pai_version :: string
  pai_artifact_digest :: string
  pai_activation_id :: string

record 'x ProviderBinding =
  pb_service :: string
  pb_version :: string
  pb_provider_plugin_id :: string
  pb_value :: 'x

type_synonym slot = "ContributionKind \<times> string"

record 'x ContributionRegistration =
  cr_owner :: PluginActivationIdentity
  cr_kind :: ContributionKind
  cr_declaration :: ContributionDeclaration
  cr_value :: 'x

definition registration_key :: "'x ContributionRegistration \<Rightarrow> slot" where
  "registration_key r = (cr_kind r, cd_contribution_id (cr_declaration r))"

record 'x VisibleContribution =
  vc_kind :: ContributionKind
  vc_contribution_id :: string
  vc_plugin_id :: string
  vc_plugin_version :: string
  vc_activation_id :: string
  vc_value :: 'x

text \<open>A record of the registry: its token and the registration.\<close>

type_synonym 'x contribution_record = "string \<times> 'x ContributionRegistration"

type_synonym 'x ContributionRegistry = "(slot, 'x contribution_record list) dict"

type_synonym handle = "slot \<times> string"

section \<open>Operations\<close>

definition stack_of :: "'x ContributionRegistry \<Rightarrow> slot \<Rightarrow> 'x contribution_record list" where
  "stack_of reg key = (case dict_get reg key of None \<Rightarrow> [] | Some st \<Rightarrow> st)"

text \<open>The first loop of \<open>publish\<close>: the top of every stack belongs to an activation that is replaced.\<close>

definition foreign_owner :: "'x ContributionRegistry \<Rightarrow> string set \<Rightarrow> 'x ContributionRegistration \<Rightarrow> bool" where
  "foreign_owner reg replaces r \<longleftrightarrow>
     (let st = stack_of reg (registration_key r)
      in st \<noteq> [] \<and> pai_activation_id (cr_owner (snd (last st))) \<notin> replaces)"

definition push_record :: "'x contribution_record \<Rightarrow> 'x ContributionRegistry \<Rightarrow> 'x ContributionRegistry" where
  "push_record tr reg = dict_set (registration_key (snd tr)) (stack_of reg (registration_key (snd tr)) @ [tr]) reg"

definition publish ::
    "'x ContributionRegistry \<Rightarrow> 'x ContributionRegistration list \<Rightarrow> string set \<Rightarrow> string list \<Rightarrow>
     handle list result \<times> 'x ContributionRegistry" where
  "publish reg registrations replaces tokens =
     (if \<not> distinct (map registration_key registrations)
      then (lifecycle_error CONTRIBUTION_CONFLICT ''one publication batch repeats a contribution key'' [], reg)
      else case find (foreign_owner reg replaces) registrations of
             Some r \<Rightarrow>
               (lifecycle_error CONTRIBUTION_CONFLICT ''contribution slot is owned by an unrelated activation''
                  [(''kind'', [contribution_kind_value (cr_kind r)]),
                   (''contribution_id'', [cd_contribution_id (cr_declaration r)]),
                   (''owner_plugin_id'', [pai_plugin_id (cr_owner (snd (last (stack_of reg (registration_key r)))))])], reg)
           | None \<Rightarrow>
               (Return (zip (map registration_key registrations) tokens),
                fold push_record (zip tokens registrations) reg))"

definition registry_revoke :: "handle \<Rightarrow> 'x ContributionRegistry \<Rightarrow> 'x ContributionRegistry" where
  "registry_revoke h reg =
     (let key = fst h; token = snd h; st = stack_of reg key in
      if st = [] then reg
      else let remaining = filter (\<lambda>r. fst r \<noteq> token) st in
        if remaining \<noteq> [] then dict_set key remaining reg else dict_pop key reg)"

definition visible_record :: "slot \<Rightarrow> 'x contribution_record \<Rightarrow> 'x VisibleContribution" where
  "visible_record key r =
     (let owner = cr_owner (snd r) in
      \<lparr>vc_kind = fst key, vc_contribution_id = snd key, vc_plugin_id = pai_plugin_id owner, vc_plugin_version = pai_version owner,
       vc_activation_id = pai_activation_id owner, vc_value = cr_value (snd r)\<rparr>)"

definition contribution_get :: "'x ContributionRegistry \<Rightarrow> slot \<Rightarrow> 'x VisibleContribution option" where
  "contribution_get reg key =
     (let st = stack_of reg key in if st = [] then None else Some (visible_record key (last st)))"

text \<open>In the order of the kind's value and the id.\<close>

definition contribution_snapshot :: "'x ContributionRegistry \<Rightarrow> 'x VisibleContribution list" where
  "contribution_snapshot reg =
     map (\<lambda>(key, st). visible_record key (last st))
       (sort_key (\<lambda>(key, st). (contribution_kind_value (fst key), snd key)) reg)"

section \<open>Laws\<close>

lemma stack_of_push:
  "stack_of (push_record tr reg) key =
   (if key = registration_key (snd tr) then stack_of reg key @ [tr] else stack_of reg key)"
  by (auto simp: push_record_def stack_of_def)

lemma stack_of_pushes:
  "stack_of (fold push_record trs reg) key = stack_of reg key @ filter (\<lambda>tr. registration_key (snd tr) = key) trs"
  by (induction trs arbitrary: reg) (auto simp: stack_of_push)

lemma stack_of_revoke:
  "stack_of (registry_revoke h reg) key =
   (if key = fst h then filter (\<lambda>r. fst r \<noteq> snd h) (stack_of reg key) else stack_of reg key)"
  by (auto simp: registry_revoke_def stack_of_def Let_def split: option.splits)

lemma stack_of_revokes:
  "stack_of (fold registry_revoke hs reg) key = filter (\<lambda>r. (key, fst r) \<notin> set hs) (stack_of reg key)"
  by (induction hs arbitrary: reg) (auto simp: stack_of_revoke intro!: filter_cong)

text \<open>The registry keeps no empty stack, so that the newest record of a stack exists.\<close>

definition no_empty_stack :: "'x ContributionRegistry \<Rightarrow> bool" where
  "no_empty_stack reg \<longleftrightarrow> dict_ok reg \<and> [] \<notin> snd ` set reg"

lemma no_empty_set: "no_empty_stack reg \<Longrightarrow> st \<noteq> [] \<Longrightarrow> no_empty_stack (dict_set key st reg)"
  using set_dict_set_subset [of key st reg] by (auto simp: no_empty_stack_def)

lemma no_empty_push: "no_empty_stack reg \<Longrightarrow> no_empty_stack (push_record tr reg)"
  by (simp add: push_record_def no_empty_set)

lemma no_empty_pushes: "no_empty_stack reg \<Longrightarrow> no_empty_stack (fold push_record trs reg)"
  by (induction trs arbitrary: reg) (simp_all add: no_empty_push)

lemma no_empty_revoke: "no_empty_stack reg \<Longrightarrow> no_empty_stack (registry_revoke h reg)"
  using set_dict_pop_subset [of "fst h" reg]
  by (auto simp: registry_revoke_def Let_def no_empty_set) (auto simp: no_empty_stack_def)

lemma no_empty_revokes: "no_empty_stack reg \<Longrightarrow> no_empty_stack (fold registry_revoke hs reg)"
  by (induction hs arbitrary: reg) (simp_all add: no_empty_revoke)

text \<open>The snapshot lists what looking the slots up finds.\<close>

lemma snapshot_get:
  assumes "no_empty_stack reg"
  shows "v \<in> set (contribution_snapshot reg) \<longleftrightarrow> (\<exists>key. contribution_get reg key = Some v)"
proof -
  have ok: "dict_ok reg" and ne: "\<And>key st. (key, st) \<in> set reg \<Longrightarrow> st \<noteq> []"
    using assms by (auto simp: no_empty_stack_def image_iff)
  have "v \<in> set (contribution_snapshot reg) \<longleftrightarrow> (\<exists>key st. (key, st) \<in> set reg \<and> v = visible_record key (last st))"
    by (force simp: contribution_snapshot_def)
  also have "\<dots> \<longleftrightarrow> (\<exists>key st. dict_get reg key = Some st \<and> v = visible_record key (last st))"
    by (simp add: dict_get_in_set [OF ok])
  also have "\<dots> \<longleftrightarrow> (\<exists>key. contribution_get reg key = Some v)"
  proof -
    have "contribution_get reg key = Some v \<longleftrightarrow> (\<exists>st. dict_get reg key = Some st \<and> v = visible_record key (last st))" for key
    proof (cases "dict_get reg key")
      case (Some st)
      then have "st \<noteq> []" using ne dict_get_in_set [OF ok] by blast
      with Some show ?thesis by (auto simp: contribution_get_def stack_of_def)
    qed (simp add: contribution_get_def stack_of_def)
    then show ?thesis by simp
  qed
  finally show ?thesis .
qed

end
