(* ===== verification/Plugin_Manager.thy ===== *)
theory Plugin_Manager
  imports Plugin_Registry Json_Model
begin

text \<open>
  \<^verbatim>\<open>src/suiteharness/plugins/manager.py\<close>: activation, replacement and deactivation of plugin plans. The code of
  a plugin is a parameter: its \<open>prepare\<close> and \<open>activate\<close> are trees of the calls they make on their
  context, with a continuation for every answer, so that a plugin may also catch what a call raises. The
  disposers a fiber owns for the plugin's own resources are seen only by the error they end in; the
  handles of its contributions are revoked one by one. A handle that a plugin revokes while it activates is
  revoked once (\<open>RevokePending\<close>): a second call of the same handle does nothing. \<open>KeyboardInterrupt\<close> and \<open>SystemExit\<close> are left out.
\<close>

section \<open>Contexts\<close>

record 'x PluginPrepareContext =
  pcx_manifest :: PluginManifest
  pcx_bindings :: "(string, 'x ProviderBinding option) dict"

definition declared_services :: "PluginManifest \<Rightarrow> string set" where
  "declared_services m = rq_service ` set (pm_requires m)"

definition context_provider :: "'x PluginPrepareContext \<Rightarrow> string \<Rightarrow> 'x ProviderBinding option result" where
  "context_provider ctx service =
     (if service \<notin> declared_services (pcx_manifest ctx)
      then lifecycle_error INVALID_EXPORTS ''plugin attempted to inspect an undeclared service''
             [(''plugin_id'', [pm_plugin_id (pcx_manifest ctx)]), (''service'', [service])]
      else Return (case dict_get (pcx_bindings ctx) service of None \<Rightarrow> None | Some b \<Rightarrow> b))"

definition context_inject :: "'x PluginPrepareContext \<Rightarrow> string \<Rightarrow> 'x option result" where
  "context_inject ctx service =
     (if service \<notin> declared_services (pcx_manifest ctx)
      then lifecycle_error INVALID_EXPORTS ''plugin attempted to inject an undeclared service''
             [(''plugin_id'', [pm_plugin_id (pcx_manifest ctx)]), (''service'', [service])]
      else Return (case dict_get (pcx_bindings ctx) service of
                     Some (Some b) \<Rightarrow> Some (pb_value b) | _ \<Rightarrow> None))"

record 'x PluginActivationContext =
  acx_identity :: PluginActivationIdentity
  acx_manifest :: PluginManifest
  acx_values :: "(slot, 'x) dict"

definition slot_detail :: "PluginManifest \<Rightarrow> slot \<Rightarrow> (string \<times> string list) list" where
  "slot_detail m key = [(''plugin_id'', [pm_plugin_id m]), (''kind'', [contribution_kind_value (fst key)]),
     (''contribution_id'', [snd key])]"

definition contribute ::
    "'x PluginActivationContext \<Rightarrow> slot \<Rightarrow> 'x \<Rightarrow> slot result \<times> 'x PluginActivationContext" where
  "contribute ctx key v =
     (let m = acx_manifest ctx in
      case dict_get (contribution_map m) key of
        None \<Rightarrow> (lifecycle_error INVALID_CONTRIBUTION ''plugin attempted to publish an undeclared contribution''
                   (slot_detail m key), ctx)
      | Some declaration \<Rightarrow>
          if \<not> ps_contains (pm_permissions m) (cd_permissions declaration)
          then (lifecycle_error INVALID_CONTRIBUTION ''contribution exceeds the plugin permission ceiling''
                  (slot_detail m key), ctx)
          else if dict_get (acx_values ctx) key \<noteq> None
          then (lifecycle_error INVALID_CONTRIBUTION ''plugin published a contribution more than once''
                  (slot_detail m key), ctx)
          else (Return key, ctx\<lparr>acx_values := dict_set key v (acx_values ctx)\<rparr>))"

definition revoke_pending :: "slot \<Rightarrow> 'x PluginActivationContext \<Rightarrow> 'x PluginActivationContext" where
  "revoke_pending key ctx = ctx\<lparr>acx_values := dict_pop key (acx_values ctx)\<rparr>"

definition registrations :: "'x PluginActivationContext \<Rightarrow> 'x ContributionRegistration list result" where
  "registrations ctx =
     (let m = acx_manifest ctx;
          missing = filter (\<lambda>key. dict_get (acx_values ctx) key = None) (dict_keys (contribution_map m)) in
      if missing \<noteq> []
      then lifecycle_error INVALID_CONTRIBUTION ''plugin did not publish every declared contribution''
             [(''plugin_id'', [pm_plugin_id m]),
              (''missing'', map (\<lambda>(kind, i). contribution_kind_value kind @ '':'' @ i) missing)]
      else Return (map (\<lambda>(kind, declaration).
             \<lparr>cr_owner = acx_identity ctx, cr_kind = kind, cr_declaration = declaration,
              cr_value = the (dict_get (acx_values ctx) (kind, cd_contribution_id declaration))\<rparr>)
             (contribution_items (pm_contributions m))))"

section \<open>The code of a plugin\<close>

datatype 'x preparing =
    Inject string "'x option result \<Rightarrow> 'x preparing"
  | Provider string "'x ProviderBinding option result \<Rightarrow> 'x preparing"
  | Prepared "(string, 'x) dict"
  | PrepareFails exn

datatype 'x activating =
    Contribute slot 'x "slot result \<Rightarrow> 'x activating"
  | RevokePending slot "'x activating"
  | Activated
  | ActivateFails exn

primrec run_prepare :: "'x preparing \<Rightarrow> 'x PluginPrepareContext \<Rightarrow> (string, 'x) dict result" where
  "run_prepare (Inject service k) ctx = run_prepare (k (context_inject ctx service)) ctx"
| "run_prepare (Provider service k) ctx = run_prepare (k (context_provider ctx service)) ctx"
| "run_prepare (Prepared exports) ctx = Return exports"
| "run_prepare (PrepareFails e) ctx = Raise e"

primrec run_activate ::
    "'x activating \<Rightarrow> 'x PluginActivationContext \<Rightarrow> unit result \<times> 'x PluginActivationContext" where
  "run_activate (Contribute key v k) ctx =
     run_activate (k (fst (contribute ctx key v))) (snd (contribute ctx key v))"
| "run_activate (RevokePending key k) ctx = run_activate k (revoke_pending key ctx)"
| "run_activate Activated ctx = (Return (), ctx)"
| "run_activate (ActivateFails e) ctx = (Raise e, ctx)"

text \<open>
  What the surrounding does: whether the artifact is still the verified one, loading the runtime, the plugin's code, and
  the error closing the fibers raises when a
  disposer fails, and \<open>repr\<close> of an exception.
\<close>

record 'x plugin_code =
  pc_assert_current :: "VerifiedPluginSource \<Rightarrow> unit result"
  pc_load :: "VerifiedPluginSource \<Rightarrow> PluginActivationIdentity \<Rightarrow> unit result"
  pc_prepare :: "VerifiedPluginSource \<Rightarrow> 'x preparing"
  pc_activate :: "VerifiedPluginSource \<Rightarrow> 'x activating"
  pc_cleanup_error :: "exn option"
  pc_repr :: "exn \<Rightarrow> string"

section \<open>Building an activation\<close>

definition trust_mode_value :: "TrustMode \<Rightarrow> string" where
  "trust_mode_value m = (case m of TRUSTED_IN_PROCESS \<Rightarrow> ''trusted_in_process'' | ISOLATED_WORKER \<Rightarrow> ''isolated_worker''
     | MCP_MODE \<Rightarrow> ''mcp'')"

definition load_runtime ::
    "'x plugin_code \<Rightarrow> TrustMode set \<Rightarrow> VerifiedPluginSource \<Rightarrow> PluginActivationIdentity \<Rightarrow> unit result" where
  "load_runtime code launchers s identity =
     (let mode = pm_trust_mode (vs_manifest s) in
      if mode = TRUSTED_IN_PROCESS \<or> mode \<in> launchers then pc_load code s identity
      else lifecycle_error UNSUPPORTED_TRUST_MODE ''no isolated launcher is configured for this trust mode''
             [(''plugin_id'', [source_id s]), (''trust_mode'', [trust_mode_value mode])])"

definition validate_exports :: "VerifiedPluginSource \<Rightarrow> (string, 'x) dict \<Rightarrow> unit result" where
  "validate_exports s exports =
     (let declared = pv_service ` set (pm_provides (vs_manifest s)); actual = set (dict_keys exports) in
      if declared \<noteq> actual
      then lifecycle_error INVALID_EXPORTS ''prepared plugin exports must exactly match manifest provides''
             [(''plugin_id'', [source_id s]), (''missing'', sorted_list_of_set (declared - actual)),
              (''undeclared'', sorted_list_of_set (actual - declared))]
      else Return ())"

type_synonym 'x exported = "(string, VerifiedPluginSource \<times> 'x) dict"

text \<open>
  The loop over \<open>plan.bindings[plugin_id]\<close>. A service that nobody has exported raises \<open>KeyError\<close>, and
  one its provider does not declare \<open>StopIteration\<close>, which a coroutine turns into \<open>RuntimeError\<close>.
\<close>

fun bind_requirements ::
    "'x exported \<Rightarrow> ResolvedRequirement list \<Rightarrow> (string, 'x ProviderBinding option) dict \<Rightarrow>
     (string, 'x ProviderBinding option) dict result" where
  "bind_requirements exported [] bindings = Return bindings"
| "bind_requirements exported (r # rs) bindings =
     (let service = rq_service (rr_requirement r) in
      case rr_provider_plugin_id r of
        None \<Rightarrow> bind_requirements exported rs (dict_set service None bindings)
      | Some _ \<Rightarrow>
          (case dict_get exported service of
             None \<Rightarrow> Raise (LookupError service)
           | Some (provider, v) \<Rightarrow>
               (case find (\<lambda>p. pv_service p = service) (pm_provides (vs_manifest provider)) of
                  None \<Rightarrow> Raise (RuntimeError ''coroutine raised StopIteration'')
                | Some provided \<Rightarrow>
                    bind_requirements exported rs
                      (dict_set service (Some \<lparr>pb_service = service, pb_version = pv_version provided,
                         pb_provider_plugin_id = source_id provider, pb_value = v\<rparr>) bindings))))"

definition activation_identity :: "VerifiedPluginSource \<Rightarrow> string \<Rightarrow> PluginActivationIdentity" where
  "activation_identity s activation_id =
     \<lparr>pai_plugin_id = source_id s, pai_version = pm_version (vs_manifest s), pai_artifact_digest = vs_digest s,
      pai_activation_id = activation_id\<rparr>"

definition plan_binding :: "PluginPlan \<Rightarrow> VerifiedPluginSource \<Rightarrow> ResolvedRequirement list result" where
  "plan_binding plan s =
     (case dict_get (pp_bindings plan) (source_id s) of None \<Rightarrow> Raise (LookupError (source_id s)) | Some b \<Rightarrow> Return b)"

definition export_all :: "VerifiedPluginSource \<Rightarrow> (string, 'x) dict \<Rightarrow> 'x exported \<Rightarrow> 'x exported" where
  "export_all s exports exported = fold (\<lambda>(service, v). dict_set service (s, v)) exports exported"

text \<open>The first loop of \<open>_build\<close>; each source comes with the activation id drawn for it.\<close>

fun prepare_sources ::
    "'x plugin_code \<Rightarrow> TrustMode set \<Rightarrow> PluginPlan \<Rightarrow> (VerifiedPluginSource \<times> string) list \<Rightarrow> 'x exported \<Rightarrow>
     'x PluginActivationContext list result" where
  "prepare_sources code launchers plan [] exported = Return []"
| "prepare_sources code launchers plan ((s, activation_id) # rest) exported =
     result_bind (pc_assert_current code s) (\<lambda>_.
     let identity = activation_identity s activation_id in
     result_bind (load_runtime code launchers s identity) (\<lambda>_.
     result_bind (plan_binding plan s) (\<lambda>resolved.
     result_bind (bind_requirements exported resolved []) (\<lambda>bindings.
     result_bind (run_prepare (pc_prepare code s) \<lparr>pcx_manifest = vs_manifest s, pcx_bindings = bindings\<rparr>) (\<lambda>exports.
     result_bind (validate_exports s exports) (\<lambda>_.
     result_bind (prepare_sources code launchers plan rest (export_all s exports exported)) (\<lambda>contexts.
     Return (\<lparr>acx_identity = identity, acx_manifest = vs_manifest s, acx_values = []\<rparr> # contexts))))))))"

text \<open>The second loop: every prepared plugin is activated and its registrations collected.\<close>

fun activate_contexts ::
    "('x PluginActivationContext \<times> 'x activating) list \<Rightarrow> 'x ContributionRegistration list result" where
  "activate_contexts [] = Return []"
| "activate_contexts ((ctx, program) # rest) =
     (case run_activate program ctx of
        (Inl e, _) \<Rightarrow> Raise e
      | (Inr _, ctx') \<Rightarrow>
          result_bind (registrations ctx') (\<lambda>rs.
          result_bind (activate_contexts rest) (\<lambda>more. Return (rs @ more))))"

text \<open>Everything before the publication: it touches no registry.\<close>

definition stage ::
    "'x plugin_code \<Rightarrow> TrustMode set \<Rightarrow> PluginPlan \<Rightarrow> string list \<Rightarrow> 'x ContributionRegistration list result" where
  "stage code launchers plan activation_ids =
     result_bind (prepare_sources code launchers plan (zip (pp_sources plan) activation_ids) []) (\<lambda>contexts.
     activate_contexts (zip contexts (map (pc_activate code) (pp_sources plan))))"

record active_set =
  as_plan :: PluginPlan
  as_activation_ids :: "string set"
  as_handles :: "handle list"

definition failed_build :: "'x plugin_code \<Rightarrow> exn \<Rightarrow> exn" where
  "failed_build code e =
     (case pc_cleanup_error code of
        Some cleanup \<Rightarrow>
          PluginLifecycleError (plugin_code_value ACTIVATION_FAILED) ''plugin activation failed and rollback was incomplete''
            [(''activation_error'', [pc_repr code e]), (''cleanup_error'', [pc_repr code cleanup])]
      | None \<Rightarrow>
          (case e of
             PluginLifecycleError c m d \<Rightarrow> e
           | _ \<Rightarrow> PluginLifecycleError (plugin_code_value ACTIVATION_FAILED) ''plugin activation failed and was rolled back''
                    [(''cause'', [pc_repr code e])]))"

definition not_attested :: string where
  "not_attested = ''plugin plan was not attested by this manager'' @ [CHR 0x27] @ ''s discovery''"

definition wrong_handle_count :: "nat \<Rightarrow> nat \<Rightarrow> exn" where
  "wrong_handle_count expected actual =
     PluginLifecycleError (plugin_code_value ACTIVATION_FAILED) ''contribution registry returned an invalid handle count''
       [(''expected'', [show_nat expected]), (''actual'', [show_nat actual])]"

definition revoke_all :: "handle list \<Rightarrow> 'x ContributionRegistry \<Rightarrow> 'x ContributionRegistry" where
  "revoke_all handles reg = fold registry_revoke (rev handles) reg"

text \<open>
  \<open>uuid\<close> is the supply of \<open>uuid4().hex\<close> and \<open>n\<close> the number drawn so far: one names the fiber,
  then one goes to every source and one to every registration.
\<close>

definition draw :: "(nat \<Rightarrow> string) \<Rightarrow> nat \<Rightarrow> nat \<Rightarrow> string list" where
  "draw uuid n k = map (\<lambda>i. uuid (n + i)) [0..<k]"

definition build ::
    "(nat \<Rightarrow> string) \<Rightarrow> nat \<Rightarrow> 'x plugin_code \<Rightarrow> TrustMode set \<Rightarrow> nat \<Rightarrow> PluginPlan \<Rightarrow> string set \<Rightarrow>
     'x ContributionRegistry \<Rightarrow> active_set result \<times> 'x ContributionRegistry" where
  "build uuid n code launchers attestation plan replaces reg =
     (if pp_attestation plan \<noteq> attestation
      then (lifecycle_error TRUST_REJECTED not_attested [], reg)
      else
        let activation_ids = draw uuid (Suc n) (length (pp_sources plan)) in
        case stage code launchers plan activation_ids of
          Inl e \<Rightarrow> (Raise (failed_build code e), reg)
        | Inr pending \<Rightarrow>
            (case publish reg pending replaces (draw uuid (Suc n + length (pp_sources plan)) (length pending)) of
               (Inl e, reg') \<Rightarrow> (Raise (failed_build code e), reg')
             | (Inr handles, reg') \<Rightarrow>
                 if length handles \<noteq> length pending
                 then (Raise (failed_build code (wrong_handle_count (length pending) (length handles))),
                       revoke_all handles reg')
                 else (Return \<lparr>as_plan = plan, as_activation_ids = set activation_ids, as_handles = handles\<rparr>, reg')))"

text \<open>How far the supply is used: up to where a complete activation draws.\<close>

definition drawn_by :: "'x plugin_code \<Rightarrow> TrustMode set \<Rightarrow> PluginPlan \<Rightarrow> (nat \<Rightarrow> string) \<Rightarrow> nat \<Rightarrow> nat" where
  "drawn_by code launchers plan uuid n =
     Suc n + length (pp_sources plan)
     + (case stage code launchers plan (draw uuid (Suc n) (length (pp_sources plan))) of Inl _ \<Rightarrow> 0 | Inr pending \<Rightarrow> length pending)"

section \<open>The manager\<close>

record 'x PluginManager =
  mg_active :: "active_set option"
  mg_registry :: "'x ContributionRegistry"
  mg_drawn :: nat

text \<open>The trust modes that have a launcher.\<close>

fun launcher_table :: "TrustMode list \<Rightarrow> TrustMode list \<Rightarrow> TrustMode list result" where
  "launcher_table [] table = Return table"
| "launcher_table (mode # modes) table =
     (if mode = TRUSTED_IN_PROCESS then Raise (ValueError ''trusted in-process plugins use TrustedPluginLoader'')
      else if mode \<in> set table then Raise (ValueError (''duplicate launcher for '' @ trust_mode_value mode))
      else launcher_table modes (table @ [mode]))"

text \<open>Closing the fibers of an activation revokes its contributions, the last one first.\<close>

definition close_active :: "active_set \<Rightarrow> 'x ContributionRegistry \<Rightarrow> 'x ContributionRegistry" where
  "close_active a reg = revoke_all (as_handles a) reg"

definition close_outcome :: "'x plugin_code \<Rightarrow> unit result" where
  "close_outcome code = (case pc_cleanup_error code of None \<Rightarrow> Return () | Some e \<Rightarrow> Raise e)"

text \<open>
  A call of the manager, with the code of the plugins it runs; a reload closes the fibers of the
  replaced activation, whose code comes last.
\<close>

datatype 'x manager_op =
    ActivateOp "'x plugin_code" PluginPlan
  | ReloadOp "'x plugin_code" PluginPlan "'x plugin_code"
  | DeactivateOp "'x plugin_code"

definition manager_activate ::
    "(nat \<Rightarrow> string) \<Rightarrow> TrustMode set \<Rightarrow> nat \<Rightarrow> 'x plugin_code \<Rightarrow> PluginPlan \<Rightarrow> 'x PluginManager \<Rightarrow>
     unit result \<times> 'x PluginManager" where
  "manager_activate uuid launchers attestation code plan st =
     (case mg_active st of
        Some _ \<Rightarrow> (lifecycle_error ALREADY_ACTIVE ''a plugin plan is already active; use reload'' [], st)
      | None \<Rightarrow>
          let n = mg_drawn st; st' = st\<lparr>mg_drawn := drawn_by code launchers plan uuid n\<rparr> in
          case build uuid n code launchers attestation plan {} (mg_registry st) of
            (Inl e, reg) \<Rightarrow> (Raise e, st'\<lparr>mg_registry := reg\<rparr>)
          | (Inr a, reg) \<Rightarrow> (Return (), st'\<lparr>mg_active := Some a, mg_registry := reg\<rparr>))"

definition manager_reload ::
    "(nat \<Rightarrow> string) \<Rightarrow> TrustMode set \<Rightarrow> nat \<Rightarrow> 'x plugin_code \<Rightarrow> PluginPlan \<Rightarrow> 'x plugin_code \<Rightarrow> 'x PluginManager \<Rightarrow>
     unit result \<times> 'x PluginManager" where
  "manager_reload uuid launchers attestation code plan old_code st =
     (let replaces = (case mg_active st of None \<Rightarrow> {} | Some a \<Rightarrow> as_activation_ids a);
          n = mg_drawn st; st' = st\<lparr>mg_drawn := drawn_by code launchers plan uuid n\<rparr> in
      case build uuid n code launchers attestation plan replaces (mg_registry st) of
        (Inl e, reg) \<Rightarrow> (Raise e, st'\<lparr>mg_registry := reg\<rparr>)
      | (Inr a, reg) \<Rightarrow>
          (case mg_active st of
             None \<Rightarrow> (Return (), st'\<lparr>mg_active := Some a, mg_registry := reg\<rparr>)
           | Some previous \<Rightarrow>
               (close_outcome old_code, st'\<lparr>mg_active := Some a, mg_registry := close_active previous reg\<rparr>)))"

definition manager_deactivate :: "'x plugin_code \<Rightarrow> 'x PluginManager \<Rightarrow> unit result \<times> 'x PluginManager" where
  "manager_deactivate code st =
     (case mg_active st of
        None \<Rightarrow> (Return (), st)
      | Some a \<Rightarrow> (close_outcome code, st\<lparr>mg_active := None, mg_registry := close_active a (mg_registry st)\<rparr>))"

fun manager_step ::
    "(nat \<Rightarrow> string) \<Rightarrow> TrustMode set \<Rightarrow> nat \<Rightarrow> 'x manager_op \<Rightarrow> 'x PluginManager \<Rightarrow> unit result \<times> 'x PluginManager" where
  "manager_step uuid launchers attestation (ActivateOp code plan) = manager_activate uuid launchers attestation code plan"
| "manager_step uuid launchers attestation (ReloadOp code plan old_code) =
     manager_reload uuid launchers attestation code plan old_code"
| "manager_step uuid launchers attestation (DeactivateOp code) = manager_deactivate code"

definition active_plugin_ids :: "'x PluginManager \<Rightarrow> string list" where
  "active_plugin_ids st = (case mg_active st of None \<Rightarrow> [] | Some a \<Rightarrow> plan_plugin_ids (as_plan a))"

definition manager_init :: "'x PluginManager" where
  "manager_init = \<lparr>mg_active = None, mg_registry = [], mg_drawn = 0\<rparr>"

end
