(* ===== verification/Plugin_Refinement.thy ===== *)
theory Plugin_Refinement
  imports Plugin_Manager Refinement
begin

text \<open>
  What the plugin manager promises, as an abstract machine that knows nothing of tokens, handles or stacks:
  its state is the list of registrations that are published. An activation or a reload that succeeds
  replaces the whole list, one that fails leaves it, a deactivation clears it. The manager with its registry
  implements this machine.
\<close>

section \<open>The abstract manager\<close>

record 'x spec_state =
  sp_published :: "'x ContributionRegistration list option"
  sp_drawn :: nat

text \<open>What a call would publish: nothing of it depends on the registry.\<close>

definition spec_outcome ::
    "(nat \<Rightarrow> string) \<Rightarrow> nat \<Rightarrow> 'x plugin_code \<Rightarrow> TrustMode set \<Rightarrow> nat \<Rightarrow> PluginPlan \<Rightarrow>
     'x ContributionRegistration list result" where
  "spec_outcome uuid n code launchers attestation plan =
     (if pp_attestation plan \<noteq> attestation then lifecycle_error TRUST_REJECTED not_attested []
      else case stage code launchers plan (draw uuid (Suc n) (length (pp_sources plan))) of
             Inl e \<Rightarrow> Raise (failed_build code e)
           | Inr rs \<Rightarrow>
               if distinct (map registration_key rs) then Return rs
               else Raise (failed_build code (PluginLifecycleError (plugin_code_value CONTRIBUTION_CONFLICT)
                      ''one publication batch repeats a contribution key'' [])))"

definition spec_replace ::
    "(nat \<Rightarrow> string) \<Rightarrow> TrustMode set \<Rightarrow> nat \<Rightarrow> 'x plugin_code \<Rightarrow> PluginPlan \<Rightarrow> unit result \<Rightarrow> 'x spec_state \<Rightarrow>
     unit result \<times> 'x spec_state" where
  "spec_replace uuid launchers attestation code plan ok sp =
     (let n = sp_drawn sp; sp' = sp\<lparr>sp_drawn := drawn_by code launchers plan uuid n\<rparr> in
      case spec_outcome uuid n code launchers attestation plan of
        Inl e \<Rightarrow> (Raise e, sp')
      | Inr rs \<Rightarrow> (ok, sp'\<lparr>sp_published := Some rs\<rparr>))"

fun spec_step ::
    "(nat \<Rightarrow> string) \<Rightarrow> TrustMode set \<Rightarrow> nat \<Rightarrow> 'x manager_op \<Rightarrow> 'x spec_state \<Rightarrow> unit result \<times> 'x spec_state" where
  "spec_step uuid launchers attestation (ActivateOp code plan) sp =
     (if sp_published sp \<noteq> None
      then (lifecycle_error ALREADY_ACTIVE ''a plugin plan is already active; use reload'' [], sp)
      else spec_replace uuid launchers attestation code plan (Return ()) sp)"
| "spec_step uuid launchers attestation (ReloadOp code plan old_code) sp =
     spec_replace uuid launchers attestation code plan
       (if sp_published sp = None then Return () else close_outcome old_code) sp"
| "spec_step uuid launchers attestation (DeactivateOp code) sp =
     (if sp_published sp = None then (Return (), sp) else (close_outcome code, sp\<lparr>sp_published := None\<rparr>))"

definition spec_get :: "'x spec_state \<Rightarrow> slot \<Rightarrow> 'x VisibleContribution option" where
  "spec_get sp key =
     (case sp_published sp of None \<Rightarrow> None
      | Some rs \<Rightarrow> map_option (\<lambda>r. visible_record key ([], r)) (find (\<lambda>r. registration_key r = key) rs))"

definition spec_init :: "'x spec_state" where
  "spec_init = \<lparr>sp_published = None, sp_drawn = 0\<rparr>"

section \<open>What is staged belongs to this activation\<close>

lemma run_activate_identity: "acx_identity (snd (run_activate program ctx)) = acx_identity ctx"
proof (induction program arbitrary: ctx)
  case (Contribute key v k)
  have "acx_identity (snd (contribute ctx key v)) = acx_identity ctx"
    by (simp add: contribute_def Let_def split: option.split)
  then show ?case using Contribute.IH by simp
qed (simp_all add: revoke_pending_def)

lemma registrations_owner: "registrations ctx = Return rs \<Longrightarrow> r \<in> set rs \<Longrightarrow> cr_owner r = acx_identity ctx"
  by (auto simp: registrations_def Let_def split: if_splits)

lemma activate_contexts_owner:
  "activate_contexts ps = Return rs \<Longrightarrow> r \<in> set rs \<Longrightarrow> cr_owner r \<in> acx_identity ` fst ` set ps"
proof (induction ps arbitrary: rs rule: activate_contexts.induct)
  case (2 ctx program rest)
  obtain res ctx' where run: "run_activate program ctx = (res, ctx')" by fastforce
  with 2 obtain rs1 rs2 where regs: "registrations ctx' = Return rs1" "activate_contexts rest = Return rs2" "rs = rs1 @ rs2"
    and ok: "res = Return ()" by (cases res) auto
  have "acx_identity ctx' = acx_identity ctx" using run_activate_identity [of program ctx] run by simp
  with 2 regs ok run show ?case using registrations_owner [OF regs(1)] by auto
qed simp

lemma prepare_sources_ids:
  "prepare_sources code launchers plan sids exported = Return ctxs \<Longrightarrow>
   map (pai_activation_id \<circ> acx_identity) ctxs = map snd sids"
proof (induction sids arbitrary: exported ctxs)
  case (Cons sid sids)
  then show ?case by (cases sid) (auto simp: Let_def activation_identity_def)
qed simp

lemma stage_owner:
  assumes "stage code launchers plan ids = Return rs" "r \<in> set rs"
  shows "pai_activation_id (cr_owner r) \<in> set ids"
proof -
  obtain ctxs where ctxs: "prepare_sources code launchers plan (zip (pp_sources plan) ids) [] = Return ctxs"
    and act: "activate_contexts (zip ctxs (map (pc_activate code) (pp_sources plan))) = Return rs"
    using assms(1) by (auto simp: stage_def)
  obtain ctx where "ctx \<in> set ctxs" "cr_owner r = acx_identity ctx"
    using activate_contexts_owner [OF act assms(2)] by (auto dest: set_zip_leftD)
  then have "pai_activation_id (cr_owner r) \<in> set (map (pai_activation_id \<circ> acx_identity) ctxs)" by auto
  then show ?thesis unfolding prepare_sources_ids [OF ctxs] by (auto dest: set_zip_rightD)
qed

text \<open>The contributions a plan declares, in the order of its sources, each with the plugin that declares it.\<close>

definition manifest_declares :: "PluginManifest \<Rightarrow> (slot \<times> string) list" where
  "manifest_declares m = map (\<lambda>(kind, d). ((kind, cd_contribution_id d), pm_plugin_id m)) (contribution_items (pm_contributions m))"

definition plan_declares :: "PluginPlan \<Rightarrow> (slot \<times> string) list" where
  "plan_declares plan = concat (map (manifest_declares \<circ> vs_manifest) (pp_sources plan))"

abbreviation claimed_slot :: "'x ContributionRegistration \<Rightarrow> slot \<times> string" where
  "claimed_slot r \<equiv> (registration_key r, pai_plugin_id (cr_owner r))"

lemma run_activate_manifest: "acx_manifest (snd (run_activate program ctx)) = acx_manifest ctx"
proof (induction program arbitrary: ctx)
  case (Contribute key v k)
  have "acx_manifest (snd (contribute ctx key v)) = acx_manifest ctx"
    by (simp add: contribute_def Let_def split: option.split)
  then show ?case using Contribute.IH by simp
qed (simp_all add: revoke_pending_def)

lemma registrations_declares:
  assumes "registrations ctx = Return rs" "pai_plugin_id (acx_identity ctx) = pm_plugin_id (acx_manifest ctx)"
  shows "map claimed_slot rs = manifest_declares (acx_manifest ctx)"
  using assms
  by (auto simp: registrations_def manifest_declares_def Let_def registration_key_def split: if_splits)

lemma activate_contexts_declares:
  "activate_contexts (zip ctxs programs) = Return rs \<Longrightarrow> length programs = length ctxs \<Longrightarrow>
   list_all (\<lambda>ctx. pai_plugin_id (acx_identity ctx) = pm_plugin_id (acx_manifest ctx)) ctxs \<Longrightarrow>
   map claimed_slot rs = concat (map (manifest_declares \<circ> acx_manifest) ctxs)"
proof (induction ctxs arbitrary: rs programs)
  case (Cons ctx ctxs)
  obtain program programs' where pr: "programs = program # programs'" using Cons.prems(2) by (cases programs) auto
  obtain res ctx' where run: "run_activate program ctx = (res, ctx')" by fastforce
  with Cons.prems(1) obtain rs1 rs2 where regs: "registrations ctx' = Return rs1"
    "activate_contexts (zip ctxs programs') = Return rs2" "rs = rs1 @ rs2" by (cases res) (auto simp: pr)
  have "acx_manifest ctx' = acx_manifest ctx" "acx_identity ctx' = acx_identity ctx"
    using run_activate_identity [of program ctx] run_activate_manifest [of program ctx] run by simp_all
  then show ?case
    using registrations_declares [OF regs(1)] Cons.IH [OF regs(2)] Cons.prems(2,3) regs(3) by (simp add: pr)
qed simp

lemma prepare_sources_manifests:
  "prepare_sources code launchers plan sids exported = Return ctxs \<Longrightarrow>
   map acx_manifest ctxs = map (vs_manifest \<circ> fst) sids \<and>
   list_all (\<lambda>ctx. pai_plugin_id (acx_identity ctx) = pm_plugin_id (acx_manifest ctx)) ctxs"
proof (induction sids arbitrary: exported ctxs)
  case (Cons sid sids)
  then show ?case by (cases sid) (fastforce simp: Let_def activation_identity_def)
qed simp

lemma stage_declares:
  assumes "stage code launchers plan ids = Return rs" "length ids = length (pp_sources plan)"
  shows "map claimed_slot rs = plan_declares plan"
proof -
  obtain ctxs where ctxs: "prepare_sources code launchers plan (zip (pp_sources plan) ids) [] = Return ctxs"
    and act: "activate_contexts (zip ctxs (map (pc_activate code) (pp_sources plan))) = Return rs"
    using assms(1) by (auto simp: stage_def)
  have manifests: "map acx_manifest ctxs = map vs_manifest (pp_sources plan)"
    and owner: "list_all (\<lambda>ctx. pai_plugin_id (acx_identity ctx) = pm_plugin_id (acx_manifest ctx)) ctxs"
    using prepare_sources_manifests [OF ctxs] assms(2) by (auto simp flip: map_map)
  have "length ctxs = length (pp_sources plan)" using arg_cong [OF manifests, of length] by simp
  then have "map claimed_slot rs = concat (map manifest_declares (map acx_manifest ctxs))"
    using activate_contexts_declares [OF act _ owner] by simp
  then show ?thesis by (simp add: manifests plan_declares_def)
qed

section \<open>The simulation\<close>

definition stacks_of :: "string list \<Rightarrow> 'x ContributionRegistration list \<Rightarrow> slot \<Rightarrow> 'x contribution_record list" where
  "stacks_of tokens rs key = filter (\<lambda>tr. registration_key (snd tr) = key) (zip tokens rs)"

text \<open>The registry holds exactly the published registrations, and the active set the handles that revoke them.\<close>

definition published_in ::
    "(nat \<Rightarrow> string) \<Rightarrow> nat \<Rightarrow> 'x ContributionRegistration list \<Rightarrow> active_set \<Rightarrow> 'x ContributionRegistry \<Rightarrow> bool" where
  "published_in uuid n rs a reg \<longleftrightarrow>
     (\<exists>tokens. length tokens = length rs \<and> set tokens \<subseteq> uuid ` {..<n}
        \<and> distinct (map registration_key rs)
        \<and> as_handles a = zip (map registration_key rs) tokens
        \<and> stack_of reg = stacks_of tokens rs
        \<and> map claimed_slot rs = plan_declares (as_plan a)
        \<and> (\<forall>r \<in> set rs. pai_activation_id (cr_owner r) \<in> as_activation_ids a))"

definition simulates :: "(nat \<Rightarrow> string) \<Rightarrow> 'x PluginManager \<Rightarrow> 'x spec_state \<Rightarrow> bool" where
  "simulates uuid st sp \<longleftrightarrow>
     mg_drawn st = sp_drawn sp
     \<and> (case (mg_active st, sp_published sp) of
          (None, None) \<Rightarrow> stack_of (mg_registry st) = (\<lambda>key. [])
        | (Some a, Some rs) \<Rightarrow> published_in uuid (mg_drawn st) rs a (mg_registry st)
        | _ \<Rightarrow> False)"

lemma draw_facts [simp]:
  "length (draw uuid n k) = k"
  "set (draw uuid n k) = uuid ` {n..<n + k}"
proof -
  show "length (draw uuid n k) = k" by (simp add: draw_def)
  have "(\<lambda>i. n + i) ` {0..<k} = {n..<n + k}" by (simp add: image_add_atLeastLessThan add.commute)
  then show "set (draw uuid n k) = uuid ` {n..<n + k}"
    unfolding draw_def set_map set_upt by (metis image_image)
qed

text \<open>The slots that a publication may take: free, or on top of an activation it replaces.\<close>

definition open_for :: "string set \<Rightarrow> 'x ContributionRegistry \<Rightarrow> bool" where
  "open_for replaces reg \<longleftrightarrow> (\<forall>key tr. tr \<in> set (stack_of reg key) \<longrightarrow> pai_activation_id (cr_owner (snd tr)) \<in> replaces)"

lemma open_not_foreign: "open_for replaces reg \<Longrightarrow> \<not> foreign_owner reg replaces r"
  unfolding open_for_def foreign_owner_def Let_def by (meson last_in_set)

lemma publish_open:
  assumes "open_for replaces reg" "length tokens = length rs"
  shows "publish reg rs replaces tokens =
    (if distinct (map registration_key rs)
     then (Return (zip (map registration_key rs) tokens), fold push_record (zip tokens rs) reg)
     else (lifecycle_error CONTRIBUTION_CONFLICT ''one publication batch repeats a contribution key'' [], reg))"
proof -
  have "find (foreign_owner reg replaces) rs = None"
    using open_not_foreign [OF assms(1)] by (simp add: find_None_iff)
  then show ?thesis by (simp add: publish_def)
qed

lemma build_open:
  assumes "open_for replaces reg"
  shows "build uuid n code launchers attestation plan replaces reg =
    (case spec_outcome uuid n code launchers attestation plan of
       Inl e \<Rightarrow> (Raise e, reg)
     | Inr rs \<Rightarrow>
         let ids = draw uuid (Suc n) (length (pp_sources plan));
             tokens = draw uuid (Suc n + length (pp_sources plan)) (length rs)
         in (Return \<lparr>as_plan = plan, as_activation_ids = set ids, as_handles = zip (map registration_key rs) tokens\<rparr>,
             fold push_record (zip tokens rs) reg))"
  by (simp add: build_def spec_outcome_def publish_open [OF assms] Let_def split: sum.split)

text \<open>The new activation, published above whatever the stacks hold.\<close>

lemma built_published:
  assumes out: "spec_outcome uuid n code launchers attestation plan = Return rs"
    and ids: "ids = draw uuid (Suc n) (length (pp_sources plan))"
    and tokens: "tokens = draw uuid (Suc n + length (pp_sources plan)) (length rs)"
  shows "set tokens \<subseteq> uuid ` {n..<drawn_by code launchers plan uuid n}"
    and "distinct (map registration_key rs)"
    and "\<forall>r \<in> set rs. pai_activation_id (cr_owner r) \<in> set ids"
    and "n \<le> drawn_by code launchers plan uuid n"
    and "map claimed_slot rs = plan_declares plan"
proof -
  have staged: "stage code launchers plan ids = Return rs" and dist: "distinct (map registration_key rs)"
    using out by (auto simp: spec_outcome_def ids split: if_splits sum.splits)
  show "distinct (map registration_key rs)" by (rule dist)
  show "\<forall>r \<in> set rs. pai_activation_id (cr_owner r) \<in> set ids" using stage_owner [OF staged] by blast
  show "n \<le> drawn_by code launchers plan uuid n" by (simp add: drawn_by_def)
  show "map claimed_slot rs = plan_declares plan" by (rule stage_declares [OF staged]) (simp add: ids)
  show "set tokens \<subseteq> uuid ` {n..<drawn_by code launchers plan uuid n}"
    using staged by (auto simp: drawn_by_def ids tokens)
qed

lemma revoked_stacks:
  fixes uuid :: "nat \<Rightarrow> string"
  assumes "inj uuid" "length tokens = length rs" "set tokens \<subseteq> uuid ` {..<n}"
    "length tokens' = length rs'" "set tokens' \<subseteq> uuid ` {n..<m}"
  shows "filter (\<lambda>tr. (key, fst tr) \<notin> set (zip (map registration_key rs) tokens)) (stacks_of tokens rs key @ stacks_of tokens' rs' key)
    = stacks_of tokens' rs' key"
proof -
  have old: "(key, fst tr) \<in> set (zip (map registration_key rs) tokens)" if "tr \<in> set (stacks_of tokens rs key)" for tr
    using that assms(2) by (auto simp: stacks_of_def set_zip) (metis nth_map)
  have new: "(key, fst tr) \<notin> set (zip (map registration_key rs) tokens)" if "tr \<in> set (stacks_of tokens' rs' key)" for tr
  proof
    assume "(key, fst tr) \<in> set (zip (map registration_key rs) tokens)"
    then have "fst tr \<in> uuid ` {..<n}" using assms(3) by (auto dest: set_zip_rightD)
    moreover have "fst tr \<in> uuid ` {n..<m}" using that assms(5) set_zip_leftD [of "fst tr" "snd tr" tokens' rs'] by (auto simp: stacks_of_def)
    ultimately obtain i j where "uuid i = uuid j" "i < n" "n \<le> j"
      by (metis atLeastLessThan_iff imageE lessThan_iff)
    then show False using inj_eq [OF assms(1)] by simp
  qed
  from old new show ?thesis by (simp add: filter_empty_conv filter_id_conv)
qed

lemma stacks_after_close:
  "stack_of (revoke_all handles reg) key = filter (\<lambda>tr. (key, fst tr) \<notin> set handles) (stack_of reg key)"
  by (simp add: revoke_all_def stack_of_revokes)

lemma published_open: "published_in uuid n rs a reg \<Longrightarrow> open_for (as_activation_ids a) reg"
  by (auto simp: published_in_def open_for_def stacks_of_def dest!: set_zip_rightD)

lemma simulates_open:
  assumes "simulates uuid st sp"
  shows "open_for (case mg_active st of None \<Rightarrow> {} | Some b \<Rightarrow> as_activation_ids b) (mg_registry st)"
proof (cases "mg_active st")
  case None
  then show ?thesis using assms by (auto simp: simulates_def open_for_def split: option.splits)
next
  case (Some b)
  then obtain rs where "published_in uuid (mg_drawn st) rs b (mg_registry st)"
    using assms by (auto simp: simulates_def split: option.splits)
  from published_open [OF this] Some show ?thesis by simp
qed

lemma publish_stacks: "stack_of (fold push_record (zip tokens rs) reg) key = stack_of reg key @ stacks_of tokens rs key"
  by (simp add: stack_of_pushes stacks_of_def)

lemma simulates_replace:
  assumes inj: "inj uuid" and sim: "simulates uuid st sp"
    and out: "spec_outcome uuid (mg_drawn st) code launchers attestation plan = Return rs"
    and built: "build uuid (mg_drawn st) code launchers attestation plan
      (case mg_active st of None \<Rightarrow> {} | Some a \<Rightarrow> as_activation_ids a) (mg_registry st) = (Return a, reg)"
  shows "published_in uuid (drawn_by code launchers plan uuid (mg_drawn st)) rs a
    (case mg_active st of None \<Rightarrow> reg | Some b \<Rightarrow> close_active b reg)"
proof -
  define n where "n = mg_drawn st"
  define m where "m = drawn_by code launchers plan uuid n"
  define ids where "ids = draw uuid (Suc n) (length (pp_sources plan))"
  define tokens where "tokens = draw uuid (Suc n + length (pp_sources plan)) (length rs)"
  note facts = built_published [OF out [folded n_def] ids_def tokens_def, folded m_def]
  have len: "length tokens = length rs" by (simp add: tokens_def)
  have small: "set tokens \<subseteq> uuid ` {..<m}" using facts(1) by force
  have "open_for (case mg_active st of None \<Rightarrow> {} | Some b \<Rightarrow> as_activation_ids b) (mg_registry st)"
    by (rule simulates_open [OF sim])
  from build_open [OF this, of uuid "mg_drawn st" code launchers attestation plan] built out
  have a: "a = \<lparr>as_plan = plan, as_activation_ids = set ids, as_handles = zip (map registration_key rs) tokens\<rparr>"
    and reg: "reg = fold push_record (zip tokens rs) (mg_registry st)"
    by (simp_all add: ids_def tokens_def n_def Let_def)
  have "stack_of (case mg_active st of None \<Rightarrow> reg | Some b \<Rightarrow> close_active b reg) = stacks_of tokens rs"
  proof (cases "mg_active st")
    case None
    then have "stack_of (mg_registry st) = (\<lambda>key. [])" using sim by (simp add: simulates_def split: option.splits)
    then show ?thesis using None by (auto simp: reg publish_stacks)
  next
    case (Some b)
    then obtain rs0 where "published_in uuid n rs0 b (mg_registry st)"
      using sim by (auto simp: simulates_def n_def split: option.splits)
    then obtain tokens0 where old: "length tokens0 = length rs0" "set tokens0 \<subseteq> uuid ` {..<n}"
      "as_handles b = zip (map registration_key rs0) tokens0" "stack_of (mg_registry st) = stacks_of tokens0 rs0"
      by (auto simp: published_in_def)
    have "stack_of (close_active b reg) key = stacks_of tokens rs key" for key
      unfolding close_active_def stacks_after_close reg publish_stacks old(3,4)
      by (rule revoked_stacks [OF inj old(1,2) len facts(1)])
    then show ?thesis using Some by auto
  qed
  then show ?thesis
    unfolding published_in_def n_def [symmetric] m_def [symmetric]
    using len small facts(2,3,5) by (intro exI [of _ tokens]) (simp add: a)
qed

lemma later_published: "published_in uuid n rs a reg \<Longrightarrow> n \<le> m \<Longrightarrow> published_in uuid m rs a reg"
  unfolding published_in_def by (meson image_mono lessThan_subset_iff subset_trans)

lemma reload_refines:
  assumes inj: "inj uuid" and sim: "simulates uuid st sp"
  shows "rel_prod (=) (simulates uuid) (manager_reload uuid launchers attestation code plan old st)
    (spec_step uuid launchers attestation (ReloadOp code plan old) sp)"
proof -
  have drawn: "mg_drawn st = sp_drawn sp" and shape: "mg_active st = None \<longleftrightarrow> sp_published sp = None"
    using sim by (auto simp: simulates_def split: option.splits)
  have later: "sp_drawn sp \<le> drawn_by code launchers plan uuid (sp_drawn sp)" by (simp add: drawn_by_def)
  note built = build_open [OF simulates_open [OF sim], of uuid "mg_drawn st" code launchers attestation plan]
  show ?thesis
  proof (cases "spec_outcome uuid (mg_drawn st) code launchers attestation plan")
    case (Inl e)
    then show ?thesis
      using sim drawn built later_published [OF _ later]
      by (auto simp: manager_reload_def spec_replace_def simulates_def Let_def split: option.splits)
  next
    case (Inr rs)
    with built obtain a reg where b: "build uuid (mg_drawn st) code launchers attestation plan
      (case mg_active st of None \<Rightarrow> {} | Some a \<Rightarrow> as_activation_ids a) (mg_registry st) = (Return a, reg)"
      by (simp add: Let_def)
    note pub = simulates_replace [OF inj sim Inr b]
    show ?thesis
      using pub b Inr drawn shape
      by (cases "mg_active st") (auto simp: manager_reload_def spec_replace_def simulates_def Let_def)
  qed
qed

lemma activate_as_reload:
  "mg_active st = None \<Longrightarrow> manager_activate uuid launchers attestation code plan st =
     manager_reload uuid launchers attestation code plan code st"
  by (simp add: manager_activate_def manager_reload_def Let_def split: prod.split sum.split)

lemma activate_refines:
  assumes "inj uuid" "simulates uuid st sp"
  shows "rel_prod (=) (simulates uuid) (manager_activate uuid launchers attestation code plan st)
    (spec_step uuid launchers attestation (ActivateOp code plan) sp)"
proof (cases "mg_active st")
  case None
  then have "sp_published sp = None" using assms(2) by (auto simp: simulates_def split: option.splits)
  then show ?thesis
    using reload_refines [OF assms, of launchers attestation code plan code]
    by (simp add: activate_as_reload [OF None])
next
  case (Some a)
  then have "sp_published sp \<noteq> None" using assms(2) by (auto simp: simulates_def split: option.splits)
  then show ?thesis using Some assms(2) by (simp add: manager_activate_def)
qed

lemma closed_empty:
  assumes "published_in uuid n rs a reg"
  shows "stack_of (close_active a reg) = (\<lambda>key. [])"
proof
  fix key
  obtain tokens where t: "length tokens = length rs" "as_handles a = zip (map registration_key rs) tokens"
    "stack_of reg = stacks_of tokens rs" using assms by (auto simp: published_in_def)
  have "(key, fst tr) \<in> set (as_handles a)" if "tr \<in> set (stacks_of tokens rs key)" for tr
    using that t(1) by (auto simp: t(2) stacks_of_def set_zip) (metis nth_map)
  then show "stack_of (close_active a reg) key = []"
    by (simp add: close_active_def stacks_after_close t(3) filter_empty_conv)
qed

lemma deactivate_refines:
  "simulates uuid st sp \<Longrightarrow>
   rel_prod (=) (simulates uuid) (manager_deactivate code st) (spec_step uuid launchers attestation (DeactivateOp code) sp)"
  by (auto simp: manager_deactivate_def simulates_def closed_empty split: option.splits)

lemma step_refines:
  assumes "inj uuid" "simulates uuid st sp"
  shows "rel_prod (=) (simulates uuid) (manager_step uuid launchers attestation op st) (spec_step uuid launchers attestation op sp)"
  using activate_refines [OF assms] reload_refines [OF assms] deactivate_refines [OF assms(2)]
  by (cases op) simp_all

interpretation managing: simulation "manager_step uuid launchers attestation" "spec_step uuid launchers attestation"
  "\<lambda>st sp. inj uuid \<and> simulates uuid st sp" for uuid launchers attestation
proof
  fix st :: "'x PluginManager" and sp op
  assume "inj uuid \<and> simulates uuid st sp"
  then show "rel_prod (=) (\<lambda>st sp. inj uuid \<and> simulates uuid st sp)
      (manager_step uuid launchers attestation op st) (spec_step uuid launchers attestation op sp)"
    using step_refines [of uuid st sp launchers attestation op] by (simp add: rel_prod_sel)
qed

lemma simulates_get:
  assumes "simulates uuid st sp"
  shows "contribution_get (mg_registry st) key = spec_get sp key"
proof (cases "sp_published sp")
  case None
  then show ?thesis using assms by (auto simp: simulates_def spec_get_def contribution_get_def split: option.splits)
next
  case (Some rs)
  then obtain a where "published_in uuid (mg_drawn st) rs a (mg_registry st)"
    using assms by (auto simp: simulates_def split: option.splits)
  then obtain tokens where t: "length tokens = length rs" "distinct (map registration_key rs)"
    "stack_of (mg_registry st) = stacks_of tokens rs" by (auto simp: published_in_def)
  show ?thesis
    unfolding contribution_get_def spec_get_def Some t(3) stacks_of_def using t(1,2)
  proof (induction tokens rs rule: list_induct2)
    case (Cons t ts r rs)
    show ?case
    proof (cases "registration_key r = key")
      case True
      then have "filter (\<lambda>tr. registration_key (snd tr) = key) (zip ts rs) = []"
        using Cons.prems by (auto simp: filter_empty_conv image_iff dest!: set_zip_rightD)
      then show ?thesis using True by (simp add: visible_record_def)
    next
      case False
      then show ?thesis using Cons by simp
    qed
  qed simp
qed

lemma simulates_init: "simulates uuid manager_init spec_init"
  by (auto simp: simulates_def manager_init_def spec_init_def stack_of_def)

end
