(* ===== verification/Plugin_Composition.thy ===== *)
theory Plugin_Composition
  imports Plugin_Refinement
begin

text \<open>
  The planner and the manager together: what the plan resolved is what the manager binds, and the properties of the
  manager over its calls.
\<close>

section \<open>Exports\<close>

definition exported_after :: "(VerifiedPluginSource \<times> (string, 'x) dict) list \<Rightarrow> 'x exported" where
  "exported_after steps = fold (\<lambda>(t, exports). export_all t exports) steps []"

lemma export_all_get:
  "dict_get (export_all t exports ex) service =
   (case dict_get (rev exports) service of Some v \<Rightarrow> Some (t, v) | None \<Rightarrow> dict_get ex service)"
proof (induction exports arbitrary: ex)
  case (Cons e exports)
  have "export_all t (e # exports) ex = export_all t exports (dict_set (fst e) (t, snd e) ex)"
    by (simp add: export_all_def split: prod.split)
  then show ?case using Cons.IH by (cases e) (auto simp: map_add_def split: option.splits)
qed (simp add: export_all_def)

lemma exported_snoc: "exported_after (steps @ [(t, exports)]) = export_all t exports (exported_after steps)"
  by (simp add: exported_after_def)

lemma exported_sound:
  "dict_get (exported_after steps) service = Some (t, v) \<Longrightarrow> \<exists>exports. (t, exports) \<in> set steps \<and> (service, v) \<in> set exports"
proof (induction steps rule: rev_induct)
  case (snoc te steps)
  then show ?case
    by (cases te) (auto simp: exported_snoc export_all_get dest!: map_of_SomeD split: option.splits)
qed (simp add: exported_after_def)

lemma exported_complete:
  "(t, exports) \<in> set steps \<Longrightarrow> service \<in> set (dict_keys exports) \<Longrightarrow> \<exists>tv. dict_get (exported_after steps) service = Some tv"
proof (induction steps rule: rev_induct)
  case (snoc te steps)
  then show ?case
    by (cases te; cases "te = (t, exports)")
      (auto simp: exported_snoc export_all_get map_of_eq_None_iff split: option.splits)
qed simp

section \<open>Binding what was planned\<close>

lemma bind_each:
  assumes "\<And>x. x \<in> set rs \<Longrightarrow> bind_requirements ex [x] [] = Return [(rq_service (rr_requirement x), g (rq_service (rr_requirement x)))]"
  shows "\<exists>bs'. bind_requirements ex rs bs = Return bs' \<and>
    (\<forall>k \<in> (rq_service \<circ> rr_requirement) ` set rs. dict_get bs' k = Some (g k)) \<and>
    (\<forall>k. k \<notin> (rq_service \<circ> rr_requirement) ` set rs \<longrightarrow> dict_get bs' k = dict_get bs k)"
  using assms
proof (induction rs arbitrary: bs)
  case (Cons x rs)
  let ?s = "rq_service (rr_requirement x)"
  have "bind_requirements ex (x # rs) bs = bind_requirements ex rs (dict_set ?s (g ?s) bs)"
    using Cons.prems [of x] by (auto simp: Let_def split: option.splits)
  moreover obtain bs' where "bind_requirements ex rs (dict_set ?s (g ?s) bs) = Return bs'"
    "\<forall>k \<in> (rq_service \<circ> rr_requirement) ` set rs. dict_get bs' k = Some (g k)"
    "\<forall>k. k \<notin> (rq_service \<circ> rr_requirement) ` set rs \<longrightarrow> dict_get bs' k = dict_get (dict_set ?s (g ?s) bs) k"
    using Cons.IH [of "dict_set ?s (g ?s) bs"] Cons.prems by auto
  ultimately show ?case by (intro exI [of _ bs']) (auto split: if_splits)
qed simp

definition good_exports :: "VerifiedPluginSource \<times> (string, 'x) dict \<Rightarrow> bool" where
  "good_exports te \<longleftrightarrow> validate_exports (fst te) (snd te) = Return ()"

lemma good_exports_keys:
  "good_exports (t, exports) \<Longrightarrow> set (dict_keys exports) = pv_service ` set (pm_provides (vs_manifest t))"
  by (auto simp: good_exports_def validate_exports_def Let_def split: if_splits)

text \<open>The provider of a service among the sources that have already exported.\<close>

lemma provider_exported:
  assumes provided: "provided_by providers (set sources)" and sub: "fst ` set steps \<subseteq> set sources"
    and good: "\<forall>te \<in> set steps. good_exports te" and t: "t \<in> fst ` set steps"
    and p: "\<lparr>pv_service = service, pv_version = w\<rparr> \<in> set (pm_provides (vs_manifest t))"
  shows "\<exists>exports v. dict_get (exported_after steps) service = Some (t, v) \<and> (t, exports) \<in> set steps \<and> (service, v) \<in> set exports
    \<and> find (\<lambda>p. pv_service p = service) (pm_provides (vs_manifest t)) = Some \<lparr>pv_service = service, pv_version = w\<rparr>"
proof -
  have here: "dict_get providers service = Some (t, w)" using provided_iff [OF provided] p t sub by blast
  obtain exports where e: "(t, exports) \<in> set steps" using t by auto
  then have keys: "set (dict_keys exports) = pv_service ` set (pm_provides (vs_manifest t))"
    using good good_exports_keys by blast
  have "service \<in> set (dict_keys exports)" unfolding keys using p by (rule rev_image_eqI) simp
  then obtain t' v where got: "dict_get (exported_after steps) service = Some (t', v)" using exported_complete [OF e] by (metis surj_pair)
  obtain exports' where e': "(t', exports') \<in> set steps" "(service, v) \<in> set exports'" using exported_sound [OF got] by blast
  then have "set (dict_keys exports') = pv_service ` set (pm_provides (vs_manifest t'))"
    using good good_exports_keys by blast
  moreover have "service \<in> set (dict_keys exports')" using e'(2) by force
  ultimately obtain y where y: "y \<in> set (pm_provides (vs_manifest t'))" "pv_service y = service" by auto
  have "t' \<in> set sources" using e'(1) sub by force
  then have "dict_get providers service = Some (t', pv_version y)"
    using provided_iff [OF provided] y by (cases y) auto
  with here have same: "t' = t" by simp
  have only: "z = \<lparr>pv_service = service, pv_version = w\<rparr>" if "z \<in> set (pm_provides (vs_manifest t))" "pv_service z = service" for z
    using provided_iff [OF provided, of service t "pv_version z"] here that t sub by (cases z) auto
  have "find (\<lambda>p. pv_service p = service) (pm_provides (vs_manifest t)) = Some \<lparr>pv_service = service, pv_version = w\<rparr>"
  proof (cases "find (\<lambda>p. pv_service p = service) (pm_provides (vs_manifest t))")
    case None
    then show ?thesis using p by (auto simp: find_None_iff)
  next
    case (Some z)
    then have "z \<in> set (pm_provides (vs_manifest t))" "pv_service z = service" by (auto simp: find_Some_iff)
    then show ?thesis using only Some by simp
  qed
  then show ?thesis using got same e' by blast
qed

lemma plan_provider_first:
  assumes plan: "plan_sources pk pl sources = Return p" and order: "pp_sources p = map fst steps @ s # rest"
    and r: "r \<in> set (pm_requires (vs_manifest s))" and t: "t \<in> set sources"
    and p: "\<lparr>pv_service = rq_service r, pv_version = w\<rparr> \<in> set (pm_provides (vs_manifest t))"
  shows "t \<in> fst ` set steps"
proof -
  have s: "s \<in> set sources" using plan_order(3) [OF plan] order by auto
  have "distinct (plan_plugin_ids p)" by (rule greedy_facts(1) [OF plan_order(1) [OF plan]])
  then have "source_id s \<notin> set (map source_id (map fst steps))" by (simp add: plan_plugin_ids_def order)
  then have "takeWhile (\<lambda>i. i \<noteq> source_id s) (plan_plugin_ids p) = map source_id (map fst steps)"
    unfolding plan_plugin_ids_def order map_append by (subst takeWhile_append2) force+
  then have "source_id t \<in> source_id ` fst ` set steps"
    using plan_earlier [OF plan s provider_depends [OF s r t p]] by (simp add: image_image)
  then obtain t' where t': "t' \<in> fst ` set steps" "source_id t' = source_id t" by (metis imageE)
  moreover have "t' \<in> set sources" using plan_order(3) [OF plan] order t'(1) by force
  ultimately show ?thesis using plan_order(4) [OF plan] t by (metis distinct_map inj_onD)
qed

lemma bind_one:
  "rr_provider_plugin_id x = None \<Longrightarrow> bind_requirements ex [x] [] = Return [(rq_service (rr_requirement x), None)]"
  by (simp add: Let_def)

text \<open>
  A requirement that is well bound: to an object that one of the steps exported, in an accepted version, or
  to nothing when it is optional.
\<close>

definition well_bound ::
    "'v packaging \<Rightarrow> (VerifiedPluginSource \<times> (string, 'x) dict) list \<Rightarrow> RequiredService \<Rightarrow> 'x ProviderBinding option \<Rightarrow> bool" where
  "well_bound pk steps r binding \<longleftrightarrow>
     (case binding of
        None \<Rightarrow> rq_optional r
      | Some b \<Rightarrow> accepts pk r (pb_version b) = Return True \<and>
          (\<exists>(t, exports) \<in> set steps. source_id t = pb_provider_plugin_id b \<and> (rq_service r, pb_value b) \<in> set exports))"

lemma planned_binding:
  assumes plan: "plan_sources pk pl sources = Return p" and order: "pp_sources p = map fst steps @ s # rest"
    and good: "\<forall>te \<in> set steps. good_exports te" and provided: "provided_by providers (set sources)"
    and ok: "requirement_ok pk providers (rr_requirement x) (rr_provider_plugin_id x)"
    and r: "rr_requirement x \<in> set (pm_requires (vs_manifest s))"
  shows "\<exists>b. bind_requirements (exported_after steps) [x] [] = Return [(rq_service (rr_requirement x), b)] \<and>
    well_bound pk steps (rr_requirement x) b"
proof (cases "rr_provider_plugin_id x")
  case None
  then show ?thesis using resolved_provider [OF provided ok] by (simp add: bind_one well_bound_def)
next
  case (Some q)
  let ?service = "rq_service (rr_requirement x)"
  have sub: "fst ` set steps \<subseteq> set sources" using plan_order(3) [OF plan] order by auto
  obtain t w where t: "t \<in> set sources" "source_id t = q"
    "\<lparr>pv_service = ?service, pv_version = w\<rparr> \<in> set (pm_provides (vs_manifest t))" "accepts pk (rr_requirement x) w = Return True"
    using resolved_provider [OF provided ok] Some by auto
  have "t \<in> fst ` set steps" by (rule plan_provider_first [OF plan order r t(1,3)])
  from provider_exported [OF provided sub good this t(3)] obtain exports v where
    "dict_get (exported_after steps) ?service = Some (t, v)" "(t, exports) \<in> set steps" "(?service, v) \<in> set exports"
    "find (\<lambda>p. pv_service p = ?service) (pm_provides (vs_manifest t)) = Some \<lparr>pv_service = ?service, pv_version = w\<rparr>" by blast
  then show ?thesis using Some t(4) by (force simp: Let_def well_bound_def)
qed

lemma bind_same:
  "rq_service (rr_requirement x) = rq_service (rr_requirement y) \<Longrightarrow> (rr_provider_plugin_id x = None \<longleftrightarrow> rr_provider_plugin_id y = None)
   \<Longrightarrow> bind_requirements ex [x] bs = bind_requirements ex [y] bs"
  by (auto simp: Let_def split: option.splits)

text \<open>Requirements of the same service get the same binding, so that the bindings form one dictionary.\<close>

lemma planned_choice:
  assumes ok: "\<And>x. x \<in> set resolved \<Longrightarrow> requirement_ok pk providers (rr_requirement x) (rr_provider_plugin_id x)"
    and one: "\<And>x. x \<in> set resolved \<Longrightarrow>
      \<exists>b. bind_requirements ex [x] [] = Return [(rq_service (rr_requirement x), b)] \<and> P (rr_requirement x) b"
  shows "\<exists>g. \<forall>x \<in> set resolved.
    bind_requirements ex [x] [] = Return [(rq_service (rr_requirement x), g (rq_service (rr_requirement x)))]
    \<and> P (rr_requirement x) (g (rq_service (rr_requirement x)))"
proof -
  let ?svc = "\<lambda>x. rq_service (rr_requirement x)"
  define g where "g k = (SOME b. \<exists>x \<in> set resolved. ?svc x = k \<and> bind_requirements ex [x] [] = Return [(k, b)])" for k
  have "bind_requirements ex [x] [] = Return [(?svc x, g (?svc x))] \<and> P (rr_requirement x) (g (?svc x))"
    if x: "x \<in> set resolved" for x
  proof -
    obtain b where b: "bind_requirements ex [x] [] = Return [(?svc x, b)]" "P (rr_requirement x) b" using one [OF x] by blast
    then have "\<exists>b. \<exists>y \<in> set resolved. ?svc y = ?svc x \<and> bind_requirements ex [y] [] = Return [(?svc x, b)]" using x by blast
    from someI_ex [OF this] obtain y where y: "y \<in> set resolved" "?svc y = ?svc x"
      "bind_requirements ex [y] [] = Return [(?svc x, g (?svc x))]" unfolding g_def by blast
    have "rr_provider_plugin_id y = None \<longleftrightarrow> rr_provider_plugin_id x = None"
      using ok [OF x] ok [OF y(1)] y(2) by (auto simp: requirement_ok_def split: option.splits)
    then have "bind_requirements ex [x] [] = Return [(?svc x, g (?svc x))]" using bind_same [OF y(2)] y(3) by metis
    moreover from this have "g (?svc x) = b" unfolding b(1) by simp
    ultimately show ?thesis using b(2) by simp
  qed
  then show ?thesis by blast
qed

section \<open>Properties of planning and managing\<close>

text \<open>
  C37. What the planner resolved, the manager binds. When the plugins before \<open>s\<close> in a plan have been prepared and their
  exports accepted, binding the requirements of \<open>s\<close> raises nothing: each one that is bound gets the object exported by
  an earlier plugin, in a version it accepts, and only an optional one is left unbound.
\<close>

theorem planned_requirements_bound:
  assumes plan: "plan_sources pk pl sources = Return p" and order: "pp_sources p = map fst steps @ s # rest"
    and good: "list_all good_exports steps"
  shows "\<exists>resolved bindings. plan_binding p s = Return resolved \<and>
    bind_requirements (exported_after steps) resolved [] = Return bindings \<and>
    list_all (\<lambda>r. \<exists>b. context_provider \<lparr>pcx_manifest = vs_manifest s, pcx_bindings = bindings\<rparr> (rq_service r) = Return b
      \<and> well_bound pk steps r b) (pm_requires (vs_manifest s))"
proof -
  let ?ex = "exported_after steps" and ?svc = "\<lambda>x. rq_service (rr_requirement x)"
  have s: "s \<in> set sources" using plan_order(3) [OF plan] order by auto
  have good': "\<forall>te \<in> set steps. good_exports te" using good by (simp add: list_all_iff)
  obtain providers resolved where provided: "provided_by providers (set sources)"
    and res: "dict_get (pp_bindings p) (source_id s) = Some resolved" "map rr_requirement resolved = pm_requires (vs_manifest s)"
    and ok: "\<And>x. x \<in> set resolved \<Longrightarrow> requirement_ok pk providers (rr_requirement x) (rr_provider_plugin_id x)"
    using plan s by (rule plan_resolved) blast
  have req: "rr_requirement x \<in> set (pm_requires (vs_manifest s))" if "x \<in> set resolved" for x
    unfolding res(2) [symmetric] using that by simp
  obtain g where g: "\<And>x. x \<in> set resolved \<Longrightarrow> bind_requirements ?ex [x] [] = Return [(?svc x, g (?svc x))]"
    "\<And>x. x \<in> set resolved \<Longrightarrow> well_bound pk steps (rr_requirement x) (g (?svc x))"
    using planned_choice [OF ok planned_binding [OF plan order good' provided ok req]] by blast
  obtain bindings where bound: "bind_requirements ?ex resolved [] = Return bindings"
    "\<And>k. k \<in> (rq_service \<circ> rr_requirement) ` set resolved \<Longrightarrow> dict_get bindings k = Some (g k)"
    using bind_each [of resolved ?ex g "[]"] g(1) by metis
  have "context_provider \<lparr>pcx_manifest = vs_manifest s, pcx_bindings = bindings\<rparr> (rq_service r) = Return (g (rq_service r))
      \<and> well_bound pk steps r (g (rq_service r))" if r: "r \<in> set (pm_requires (vs_manifest s))" for r
  proof -
    obtain x where x: "x \<in> set resolved" "rr_requirement x = r" using r unfolding res(2) [symmetric] by auto
    have "dict_get bindings (rq_service r) = Some (g (rq_service r))" using bound(2) x by force
    then show ?thesis using r g(2) [OF x(1)] x(2) by (simp add: context_provider_def declared_services_def)
  qed
  then show ?thesis using res(1) bound(1) by (auto simp: plan_binding_def list_all_iff)
qed

theorem planned_requirements_bound_witness:
  "\<exists>resolved bindings. plan_binding demo_plan demo_consumer = Return resolved \<and>
    bind_requirements (exported_after [(demo_provider, [(''store'', 5 :: nat)])]) resolved [] = Return bindings"
proof -
  have "list_all good_exports [(demo_provider, [(''store'', 5 :: nat)])]"
    by (simp add: good_exports_def validate_exports_def demo_provider_def demo_source_def demo_manifest_def)
  from planned_requirements_bound [OF demo_plan_made _ this, of demo_consumer "[]"] show ?thesis
    by (auto simp: demo_plan_def)
qed

text \<open>A manager with one plugin that contributes one tool; the second version of its code raises while it activates.\<close>

definition demo_tool_source :: VerifiedPluginSource where
  "demo_tool_source = demo_source ((demo_manifest ''tools'' [] [])
     \<lparr>pm_contributions := (pm_contributions (demo_manifest ''tools'' [] []))\<lparr>cn_tools :=
        [\<lparr>cd_contribution_id = ''t'', cd_version = ''1.0.0'', cd_permissions = {}\<rparr>]\<rparr>\<rparr>)"

definition demo_tool_plan :: PluginPlan where
  "demo_tool_plan = \<lparr>pp_sources = [demo_tool_source], pp_bindings = [(''tools'', [])], pp_attestation = 7\<rparr>"

definition demo_tool_code :: "bool \<Rightarrow> nat \<Rightarrow> nat plugin_code" where
  "demo_tool_code ok v = \<lparr>pc_assert_current = (\<lambda>s. Return ()), pc_load = (\<lambda>s i. Return ()), pc_prepare = (\<lambda>s. Prepared []),
     pc_activate = (\<lambda>s. if ok then Contribute (KIND_TOOL, ''t'') v (\<lambda>r. Activated) else ActivateFails (ValueError ''no'')),
     pc_cleanup_error = None, pc_repr = (\<lambda>e. [])\<rparr>"

definition demo_plugin_ops :: "nat manager_op list" where
  "demo_plugin_ops = [ActivateOp (demo_tool_code True 5) demo_tool_plan,
               ReloadOp (demo_tool_code False 6) demo_tool_plan (demo_tool_code True 5)]"

definition demo_uuid :: "nat \<Rightarrow> string" where
  "demo_uuid n = replicate n (CHR ''0'')"

lemma demo_uuid_inj: "inj demo_uuid"
  by (auto simp: inj_def demo_uuid_def dest: arg_cong [where f = length])

lemma demo_spec_run:
  "run_ops (spec_step demo_uuid {} 7) demo_plugin_ops spec_init =
     ([Return (), Raise (PluginLifecycleError ''activation_failed'' ''plugin activation failed and was rolled back'' [(''cause'', [[]])])],
      \<lparr>sp_published = Some [\<lparr>cr_owner = \<lparr>pai_plugin_id = ''tools'', pai_version = ''1.0.0'', pai_artifact_digest = [],
          pai_activation_id = ''0''\<rparr>, cr_kind = KIND_TOOL,
        cr_declaration = \<lparr>cd_contribution_id = ''t'', cd_version = ''1.0.0'', cd_permissions = {}\<rparr>, cr_value = 5\<rparr>], sp_drawn = 5\<rparr>)"
  by code_simp

lemma demo_manager_active:
  "map_option as_plan (mg_active (snd (run_ops (manager_step demo_uuid {} 7) demo_plugin_ops manager_init))) = Some demo_tool_plan"
  by code_simp

text \<open>
  C35. The plugin manager implements the abstract manager. Over any sequence of activations, reloads and
  deactivations, with plugin code that may raise anywhere, every call ends as the abstract one does, and
  looking a contribution up in the registry finds what the abstract manager has published: the whole batch of the last
  activation or reload that succeeded, nothing of the ones that failed, nothing after a deactivation. The
  supply of \<open>uuid4\<close> never repeats an id.
\<close>

theorem manager_refines_spec:
  assumes "inj uuid"
  shows "fst (run_ops (manager_step uuid launchers attestation) ops manager_init)
      = fst (run_ops (spec_step uuid launchers attestation) ops spec_init)
    \<and> contribution_get (mg_registry (snd (run_ops (manager_step uuid launchers attestation) ops manager_init)))
      = spec_get (snd (run_ops (spec_step uuid launchers attestation) ops spec_init))"
proof -
  have start: "inj uuid \<and> simulates uuid manager_init spec_init" using assms simulates_init by blast
  show ?thesis using managing.same_outcomes [OF start] managing.related_after [OF start] simulates_get by blast
qed

theorem manager_refines_spec_witness:
  "fst (run_ops (manager_step demo_uuid {} 7) demo_plugin_ops manager_init) =
     [Return (), Raise (PluginLifecycleError ''activation_failed'' ''plugin activation failed and was rolled back'' [(''cause'', [[]])])]
   \<and> map_option vc_value (contribution_get (mg_registry (snd (run_ops (manager_step demo_uuid {} 7) demo_plugin_ops manager_init)))
        (KIND_TOOL, ''t'')) = Some 5"
  using manager_refines_spec [OF demo_uuid_inj, of "{}" 7 demo_plugin_ops]
  by (simp add: demo_spec_run spec_get_def registration_key_def visible_record_def)

text \<open>
  C36. What is visible is what the active plan declares. After any sequence of calls a slot shows a contribution exactly
  when the active plan declares one there, and it comes from the plugin that declares it.
\<close>

theorem visible_is_declared:
  assumes "inj uuid"
    and st: "run_ops (manager_step uuid launchers attestation) ops manager_init = (results, st)"
  shows "map_option vc_plugin_id (contribution_get (mg_registry st) key) =
    (case mg_active st of None \<Rightarrow> None | Some a \<Rightarrow> dict_get (plan_declares (as_plan a)) key)"
proof -
  obtain sp where sim: "simulates uuid st sp"
    using managing.related_after [of uuid manager_init spec_init launchers attestation ops] assms simulates_init by auto
  show ?thesis
  proof (cases "mg_active st")
    case None
    then show ?thesis using sim by (auto simp: simulates_def contribution_get_def split: option.splits)
  next
    case (Some a)
    then obtain rs where rs: "sp_published sp = Some rs" "map claimed_slot rs = plan_declares (as_plan a)"
      using sim by (auto simp: simulates_def published_in_def split: option.splits)
    have "map_option (\<lambda>r. vc_plugin_id (visible_record key ([], r))) (find (\<lambda>r. registration_key r = key) rs)
        = dict_get (map claimed_slot rs) key" for rs :: "'a ContributionRegistration list"
      by (induction rs) (auto simp: visible_record_def Let_def)
    then show ?thesis
      using simulates_get [OF sim, of key] Some rs by (simp add: spec_get_def option.map_comp o_def)
  qed
qed

theorem visible_is_declared_witness:
  "map_option vc_plugin_id (contribution_get (mg_registry (snd (run_ops (manager_step demo_uuid {} 7) demo_plugin_ops manager_init)))
     (KIND_TOOL, ''t'')) = Some ''tools''"
proof -
  have "dict_get (plan_declares demo_tool_plan) (KIND_TOOL, ''t'') = Some ''tools''" by code_simp
  then show ?thesis
    using visible_is_declared [OF demo_uuid_inj surjective_pairing, of "{}" 7 demo_plugin_ops "(KIND_TOOL, ''t'')"] demo_manager_active
    by (auto split: option.splits)
qed

end
