(* ===== verification/Plugin_Fiber.thy ===== *)
theory Plugin_Fiber
  imports Plugin_Manager
begin

text \<open>
  \<^verbatim>\<open>src/suiteharness/plugins/lifecycle.py\<close>: the fibers that own the side effects of a plugin. \<open>run d s\<close> is what the
  disposer \<open>d\<close> does to the state \<open>s\<close> and whether it raises; a closer that finds the fiber closing waits for the first
  closer and ends as that one did. The fibers of one activation are two levels deep, and closing them is what
  \<open>close_active\<close> says of the registry.
\<close>

datatype FiberState = FIBER_OPEN | FIBER_CLOSING | FIBER_CLOSED

record 'd PluginFiber =
  fb_id :: string
  fb_state :: FiberState
  fb_effects :: "(string \<times> 'd) list"
  fb_cleanup_error :: "exn option"

definition PluginFiber_init :: "string \<Rightarrow> 'd PluginFiber result" where
  "PluginFiber_init i =
     (if py_strip i = [] then Raise (ValueError ''fiber_id must not be blank'')
      else Return \<lparr>fb_id = i, fb_state = FIBER_OPEN, fb_effects = [], fb_cleanup_error = None\<rparr>)"

definition PluginCleanupError :: "string \<Rightarrow> string list \<Rightarrow> exn" where
  "PluginCleanupError fiber_id labels =
     PluginLifecycleError (plugin_code_value CLEANUP_FAILED) ''one or more plugin effect disposers failed''
       [(''fiber_id'', [fiber_id]), (''labels'', labels)]"

definition fiber_own :: "string \<Rightarrow> 'd \<Rightarrow> 'd PluginFiber \<Rightarrow> unit result \<times> 'd PluginFiber" where
  "fiber_own label d fb =
     (if py_strip label = [] then (Raise (ValueError ''effect label must not be blank''), fb)
      else if fb_state fb \<noteq> FIBER_OPEN
      then (lifecycle_error ACTIVATION_FAILED ''cannot attach an effect to a closing plugin fiber''
              [(''fiber_id'', [fb_id fb]), (''label'', [label])], fb)
      else (Return (), fb\<lparr>fb_effects := fb_effects fb @ [(label, d)]\<rparr>))"

text \<open>The loop over the effects: every disposer runs, and the labels of those that raise are collected.\<close>

fun dispose_all :: "('d \<Rightarrow> 's \<Rightarrow> bool \<times> 's) \<Rightarrow> (string \<times> 'd) list \<Rightarrow> 's \<Rightarrow> string list \<times> 's" where
  "dispose_all run [] s = ([], s)"
| "dispose_all run ((label, d) # rest) s =
     (let (raised, s') = run d s; (labels, s'') = dispose_all run rest s' in
      (if raised then label # labels else labels, s''))"

definition fiber_outcome :: "'d PluginFiber \<Rightarrow> unit result" where
  "fiber_outcome fb = (case fb_cleanup_error fb of None \<Rightarrow> Return () | Some e \<Rightarrow> Raise e)"

definition fiber_close ::
    "('d \<Rightarrow> 's \<Rightarrow> bool \<times> 's) \<Rightarrow> 'd PluginFiber \<Rightarrow> 's \<Rightarrow> (unit result \<times> 'd PluginFiber) \<times> 's" where
  "fiber_close run fb s =
     (if fb_state fb \<noteq> FIBER_OPEN then ((fiber_outcome fb, fb), s)
      else
        let (labels, s') = dispose_all run (rev (fb_effects fb)) s;
            fb' = fb\<lparr>fb_state := FIBER_CLOSED, fb_effects := [],
                     fb_cleanup_error := (if labels = [] then None else Some (PluginCleanupError (fb_id fb) labels))\<rparr>
        in ((fiber_outcome fb', fb'), s'))"

section \<open>Closing\<close>

lemma dispose_all_state: "snd (dispose_all run effects s) = fold (\<lambda>e s. snd (run (snd e) s)) effects s"
  by (induction run effects s rule: dispose_all.induct) (auto split: prod.splits)

lemma fiber_close_state:
  "fb_state fb = FIBER_OPEN \<Longrightarrow> snd (fiber_close run fb s) = fold (\<lambda>e s. snd (run (snd e) s)) (rev (fb_effects fb)) s"
  by (simp add: fiber_close_def dispose_all_state [symmetric] Let_def split: prod.splits)

lemma fiber_close_twice:
  "fiber_close run fb s = ((r, fb'), s') \<Longrightarrow> fb_state fb \<noteq> FIBER_CLOSING \<Longrightarrow> fiber_close run fb' s' = ((r, fb'), s')"
  by (auto simp: fiber_close_def Let_def split: prod.splits if_splits)

section \<open>The fibers of an activation\<close>

text \<open>What the fiber of a plugin owns: resources of the plugin, and the contributions published for it.\<close>

datatype 'd owned = Resource 'd | Contribution handle

fun dispose_owned :: "('d \<Rightarrow> bool) \<Rightarrow> 'd owned \<Rightarrow> 'x ContributionRegistry \<Rightarrow> bool \<times> 'x ContributionRegistry" where
  "dispose_owned raises (Resource d) reg = (raises d, reg)"
| "dispose_owned raises (Contribution h) reg = (False, registry_revoke h reg)"

text \<open>A disposer of the plan's fiber closes the fiber of one plugin.\<close>

definition close_plugin ::
    "('d \<Rightarrow> bool) \<Rightarrow> 'd owned PluginFiber \<Rightarrow> 'x ContributionRegistry \<Rightarrow> bool \<times> 'x ContributionRegistry" where
  "close_plugin raises fb reg =
     (case fiber_close (dispose_owned raises) fb reg of ((r, _), reg') \<Rightarrow> (case r of Inl _ \<Rightarrow> True | Inr _ \<Rightarrow> False, reg'))"

definition owned_handles :: "'d owned PluginFiber \<Rightarrow> handle list" where
  "owned_handles fb = List.map_filter (\<lambda>(label, d). case d of Contribution h \<Rightarrow> Some h | Resource _ \<Rightarrow> None) (fb_effects fb)"

lemma dispose_owned_state:
  "snd (dispose_owned raises d reg) = (case d of Contribution h \<Rightarrow> registry_revoke h reg | Resource _ \<Rightarrow> reg)"
  by (cases d) simp_all

lemma fold_owned:
  "fold (\<lambda>e reg. snd (dispose_owned raises (snd e) reg)) effects reg
   = fold registry_revoke (List.map_filter (\<lambda>(label, d). case d of Contribution h \<Rightarrow> Some h | Resource _ \<Rightarrow> None) effects) reg"
  by (induction effects arbitrary: reg) (auto simp: List.map_filter_simps dispose_owned_state split: owned.splits)

lemma map_filter_rev: "List.map_filter f (rev xs) = rev (List.map_filter f xs)"
  by (induction xs) (auto simp: List.map_filter_simps List.map_filter_def split: option.splits)

lemma close_plugin_state:
  assumes "fb_state fb = FIBER_OPEN"
  shows "snd (close_plugin raises fb reg) = revoke_all (owned_handles fb) reg"
proof -
  have "snd (close_plugin raises fb reg) = snd (fiber_close (dispose_owned raises) fb reg)"
    by (simp add: close_plugin_def split: prod.split)
  then show ?thesis
    by (simp add: fiber_close_state [OF assms] fold_owned map_filter_rev owned_handles_def revoke_all_def)
qed

lemma plan_close_revokes:
  assumes "list_all (\<lambda>(label, fb). fb_state fb = FIBER_OPEN) effects"
  shows "fold (\<lambda>e reg. snd (close_plugin raises (snd e) reg)) (rev effects) reg
    = revoke_all (concat (map (owned_handles \<circ> snd) effects)) reg"
  using assms
  by (induction effects arbitrary: reg) (auto simp: revoke_all_def close_plugin_state)

text \<open>
  Closing the fiber of a plan, in which each plugin fiber owns its share of the handles of an activation,
  leaves the registry as \<open>close_active\<close> does, whichever disposers raise.
\<close>

lemma close_active_by_fibers:
  assumes "fb_state plan_fiber = FIBER_OPEN"
    and "list_all (\<lambda>(label, fb). fb_state fb = FIBER_OPEN) (fb_effects plan_fiber)"
    and "as_handles a = concat (map (owned_handles \<circ> snd) (fb_effects plan_fiber))"
  shows "snd (fiber_close (close_plugin raises) plan_fiber reg) = close_active a reg"
  by (simp add: fiber_close_state [OF assms(1)] plan_close_revokes [OF assms(2)] close_active_def assms(3))

end
