(* ===== verification/Spec2Isabelle.thy ===== *)
theory Spec2Isabelle
  imports Json_Decode Model_Properties Memory_Properties Examples Run_Budget Channel_Policy Runtime_Environment Session_Properties Plugin_Composition Plugin_Fiber
begin

text \<open>
  A model of \<^verbatim>\<open>suiteharness\<close>, a harness that runs language-model agents: it decides which tools an
  agent may call, calls them, keeps an audit trail, the sessions of the users and what products remember about their customers.

  \<^bold>\<open>The parts of the program and where they are modelled.\<close> Paths are below
  \<^verbatim>\<open>src/src/suiteharness\<close>.

  \<^item> \<open>Prelude\<close>: dictionaries in insertion order, results (\<open>Return\<close> or \<open>Raise\<close> of an exception), times as
    microseconds, character classes of the regular expressions. Strings are lists of UTF-8 bytes,
    \<open>py_len\<close> counts code points.
  \<^item> \<open>Scopes\<close>: \<^verbatim>\<open>runtime/scopes.py\<close>. Scope paths, request scopes, service keys and the layered service
    bindings.
  \<^item> \<open>Effect_Scope\<close>: \<^verbatim>\<open>runtime/effects.py\<close>. Ordered cleanup of effects, by one task and by many.
  \<^item> \<open>Json_Model\<close>, \<open>Json_Decode\<close>, \<open>Execution_Models\<close>: \<^verbatim>\<open>execution/models.py\<close>. JSON values, canonical encoding and its decoder,
    the pydantic models with their validators. SHA-256 is a parameter, as is reading the text of a float.
  \<^item> \<open>Tool_Registry\<close>, \<open>Capability_Authority\<close>, \<open>Approvals\<close>: \<^verbatim>\<open>execution/in_memory.py\<close> and
    \<^verbatim>\<open>channels/approvals.py\<close>. The three collaborators the runner asks before a call.
  \<^item> \<open>Run_Budget\<close>: \<^verbatim>\<open>multiagent/budget.py\<close>. The quota a run shares with its children.
  \<^item> \<open>Channel_Policy\<close>: \<^verbatim>\<open>channels/policy.py\<close>. What company channels may write.
  \<^item> \<open>Runtime_Environment\<close>: \<^verbatim>\<open>execution/environment.py\<close>. The environment text in the prompt.
  \<^item> \<open>Run_Programs\<close>, \<open>Runner\<close>, \<open>Run_Loop\<close>, \<open>Batch\<close>: \<^verbatim>\<open>execution/runner.py\<close>. A coroutine is a program, that is, a
    tree of the questions it puts to its collaborators (clock, registry, authority, approvals,
    handlers, journal, strategies) with a continuation for every answer; a batch of calls is a step relation
    over such programs, so that every schedule and every cancellation is covered.
  \<^item> \<open>Session_Models\<close>, \<open>Session_Store\<close>: \<^verbatim>\<open>sessions/models.py\<close> and \<^verbatim>\<open>sessions/memory.py\<close>. Sessions, transcripts,
    checkpoints, run claims and recovery points.
  \<^item> \<open>Plugin_Models\<close>, \<open>Plugin_Plan\<close>, \<open>Plugin_Registry\<close>, \<open>Plugin_Manager\<close>, \<open>Plugin_Fiber\<close>: \<^verbatim>\<open>plugins/models.py\<close>, \<^verbatim>\<open>graph.py\<close>,
    \<^verbatim>\<open>registry.py\<close>, \<^verbatim>\<open>manager.py\<close> and \<^verbatim>\<open>lifecycle.py\<close>. Manifests, the planner, the contributions and the two-phase
    activation; the code of a plugin is a tree of calls on its context. The package \<^verbatim>\<open>packaging\<close> is a parameter.
  \<^item> \<open>Memory_Models\<close>, \<open>Profile_Memory\<close>, \<open>Customer360\<close>: \<^verbatim>\<open>memory/models.py\<close> and \<^verbatim>\<open>memory/in_memory.py\<close>. The private claims of a product
    and what products share about a customer: aliases, policies, proposals, curation, reading and withdrawal. Ids, clock and
    SHA-256 are parameters.
  \<^item> \<open>Model_Types\<close>, \<open>Model_Context\<close>, \<open>Model_Registry\<close>, \<open>Model_Gateway\<close>: \<^verbatim>\<open>models/types.py\<close>, \<^verbatim>\<open>context.py\<close>, \<^verbatim>\<open>registry.py\<close>,
    \<^verbatim>\<open>gateway.py\<close> and \<^verbatim>\<open>usage.py\<close>. Model calls: requests, fitting them into a window, providers, and routes with retries
    and failover. The answers of a provider are a function of the number of the call, so every sequence of answers is covered.

  \<^bold>\<open>What is shown.\<close>

  \<^item> \<open>Runner_Safety\<close>, \<open>Runner_Audit\<close>, \<open>Runner_Composition\<close> and this theory: a handler is called only after every
    check was passed, at most once, with an approval bound to exactly this call when one is
    required, within every grant of the chain of delegations, and every call leaves one complete
    trail of audit events that agrees with its observation. The statements hold for all answers of the collaborators; \<open>Runner_Composition\<close>
    instantiates them with the in-memory registry and authority.
  \<^item> \<open>Run_Loop_Safety\<close>: iterations and calls of a run stay within its budget, also when it is resumed;
    published checkpoints hold no credentials besides what the request itself brought as input.
  \<^item> \<open>Json_Decode\<close>: decoding is inverse to the canonical encoding, which justifies the detached copies \<open>detach\<close> of the runner.
  \<^item> \<open>Batch\<close>: batches are never stuck, and keep the limit on parallel calls.
  \<^item> The component theories: the invariants of every reachable state of the registry, the authority,
    the approval store, the effect scope, the budget and the bindings, and their behaviour.
  \<^item> \<open>Session_Laws\<close>, \<open>Session_Transcript\<close>, \<open>Session_Points\<close>, \<open>Session_Properties\<close>: runs are acquired once, the indexes
    of the store are exact, appends are idempotent, resuming loses no event, the limits hold.
  \<^item> \<open>Plugin_Order\<close>, \<open>Plugin_Planning\<close>: a plan is the smallest order the dependencies allow, does not depend on the order of the
    sources as long as each of them is acceptable, and fails with the cycle error exactly on a cycle. \<open>Plugin_Refinement\<close>, \<open>Plugin_Composition\<close>: the manager implements
    an abstract manager whose state is the list of published contributions, and binds what was planned.
  \<^item> \<open>Customer360_Laws\<close>, \<open>Customer360_Sharing\<close>, \<open>Memory_Laws\<close>, \<open>Memory_Properties\<close>: private claims are isolated, a shared claim has its whole
    chain of authority in the history, withdrawal takes effect at once, revisions detect every change, commands are
    idempotent.
  \<^item> \<open>Model_Context_Laws\<close>, \<open>Model_Gateway_Laws\<close>, \<open>Model_Properties\<close>: a prepared request fits and keeps every tool result with its call,
    model calls are admitted by the profiles of the route, two answers are never spliced into one stream.

  The interfaces are locales: where a called tool comes from (\<open>tool_source\<close> in \<open>Tool_Registry\<close>), a grant
  (\<open>grant_source\<close> in \<open>Capability_Authority\<close>) and an approval (\<open>approval_source\<close> in \<open>Approvals\<close>), a key that is granted once
  (\<open>granted_once\<close> in \<open>Session_Laws\<close>), a component that implements a more abstract one (\<open>simulation\<close> in \<open>Refinement\<close>), a provider that answers with claims of the caller
  (\<open>claim_reader\<close> in \<open>Customer360_Sharing\<close>) and one whose operations are idempotent commands (\<open>command_provider\<close> in \<open>Memory_Laws\<close>), and a walk over
  the profiles of a route (\<open>route_walk\<close> in \<open>Model_Gateway_Laws\<close>, interpreted for \<open>complete\<close> and for \<open>stream\<close>); each is
  interpreted on the definitions of the component that provides it.

  \<^bold>\<open>Bounds and fuel.\<close> Loops of the code that end by themselves are structural or have a termination
  proof. The walk over the parents of a grant has as fuel the number of grants, which is enough in every
  reachable state (\<open>ancestor_walk_terminates\<close>). The run loop of a request has as fuel its
  iteration limit. Waiting for a child slot is a loop over a given sequence of polls. The
  JSON decoder has as fuel twice the length of the text, which is enough for every canonical text (\<open>canonical_json_roundtrip\<close>).

  \<^bold>\<open>Not modelled.\<close> Network and process I/O (MCP, sandbox, Feishu, WebSocket, model adapters, the server's
  HTTP layer), the SQLite stores, configuration and its YAML files, the web pages. The handlers of the built-in tools
  are answers to a question of the model. Of the runner, the supervision of the task in \<open>_run\<close> and
  the event queue of \<open>stream\<close> are left out, and of the scopes the context classes. Floating point lengths of time are whole
  microseconds. Of the model gateway, the fingerprint of a route and the log lines are left out, and a cancellation comes from the
  provider's call, not from the wait before the next one.
\<close>

section \<open>Tool calls\<close>

text \<open>
  C1. A tool handler is called only when every guard of \<open>_execute_intent\<close> has been passed on
  answers that were given before the call: the call id is not a duplicate, the arguments are the
  detached ones and within the byte limit, the tool is the one registered for the caller's scope
  under the requested name, a current grant for the caller's tenant, product and principal names
  its identity and covers its capabilities, a read-only run calls read tools only, a resumed run
  trusted ones only, the arguments were validated, the policy did not deny, an approval was
  confirmed where one is needed, \<open>TOOL_STARTED\<close> is in the journal, and no handler was called
  before: whatever the collaborators answer.
\<close>

theorem handler_call_authorised:
  assumes "well_typed env"
    and "drive env (execute_intent cfg rq intent it sm duplicate) [] = (out, es1 @ (CallHandler r ctx args, a) # es2)"
  shows "handler_authorised cfg rq intent duplicate es1 r ctx args"
  using assms by (rule called_authorised)

theorem handler_call_authorised_witness:
  "\<exists>out es1 ctx args a es2.
     drive demo_env (execute_intent demo_config demo_request (demo_intent ''look'' None) 1 0 False) [] =
       (out, es1 @ (CallHandler read_tool ctx args, a) # es2) \<and>
     handler_authorised demo_config demo_request (demo_intent ''look'' None) False es1 read_tool ctx args"
  by (rule demo_handler_call) (blast intro: handler_call_authorised [OF demo_env_typed])

text \<open>
  C2. The same holds for every call of a batch in every schedule of the event loop, with the
  duplicate flag the batch gave to the call.
\<close>

theorem batch_calls_authorised:
  assumes "batch_reachable limit (start_batch cfg rq it sm calls) b" and "i < length b"
    and "snd (b ! i) = es1 @ (CallHandler r ctx args, a) # es2"
  shows "handler_authorised cfg rq (fst (calls ! i)) (snd (calls ! i)) es1 r ctx args"
  using batch_call_guarded [OF assms] by (simp add: guarded_CallHandler)

theorem batch_calls_authorised_witness:
  "\<exists>b es1 ctx args a es2.
     batch_reachable 1 (start_batch demo_config demo_request 1 0 [(demo_intent ''look'' None, False)]) b \<and>
     snd (b ! 0) = es1 @ (CallHandler read_tool ctx args, a) # es2 \<and>
     handler_authorised demo_config demo_request (demo_intent ''look'' None) False es1 read_tool ctx args"
proof -
  obtain b es1 ctx args a es2 where
    b: "batch_reachable 1 (start_batch demo_config demo_request 1 0 [(demo_intent ''look'' None, False)]) b"
    "length b = 1" "snd (b ! 0) = es1 @ (CallHandler read_tool ctx args, a) # es2"
    by (rule demo_batch_call)
  from batch_calls_authorised [OF b(1) _ b(3)] b show ?thesis by fastforce
qed

text \<open>
  C3. A destructive tool is called only with a confirmed approval of exactly this call: scope,
  principal, run, call id, tool identity and digest of the arguments, whatever the policies say.
\<close>

theorem destructive_call_approved:
  assumes "well_typed env"
    and "drive env (execute_intent cfg rq intent it sm duplicate) [] = (out, es1 @ (CallHandler r ctx args, a) # es2)"
    and "DESTRUCTIVE \<in> ts_effects (rt_spec r)"
  shows "\<exists>approver. approval_confirmed rq intent
           (approval_target rq intent r (rc_sha cfg (dumps (detach (tin_arguments intent))))) approver es1"
proof -
  have "needs_approval cfg (rt_spec r) au" for au using assms(3) by (simp add: needs_approval_def)
  with called_authorised [OF assms(1,2)] show ?thesis
    by (auto simp: handler_authorised_def call_authorized_def split: option.splits)
qed

theorem destructive_call_approved_witness:
  "\<exists>out es1 ctx args a es2 approver.
     drive demo_env (execute_intent demo_config demo_request (demo_intent ''drop'' (Some ''t'')) 1 0 False) [] =
       (out, es1 @ (CallHandler drop_tool ctx args, a) # es2) \<and>
     approval_confirmed demo_request (demo_intent ''drop'' (Some ''t''))
       (approval_target demo_request (demo_intent ''drop'' (Some ''t'')) drop_tool
          (rc_sha demo_config (dumps (detach (tin_arguments (demo_intent ''drop'' (Some ''t''))))))) approver es1"
proof -
  obtain out es1 ctx args a es2 where call:
    "drive demo_env (execute_intent demo_config demo_request (demo_intent ''drop'' (Some ''t'')) 1 0 False) [] =
       (out, es1 @ (CallHandler drop_tool ctx args, a) # es2)" by (rule demo_drop_handler_call)
  from destructive_call_approved [OF demo_env_typed call drop_tool_destructive] call show ?thesis by blast
qed

text \<open>
  C4. With the shipped in-memory registry, whose state other tasks may change between any two
  questions, a called tool is registered under the requested name, in the caller's product, its
  tenant or the root.
\<close>

theorem called_tool_registered:
  assumes "well_typed env"
    and "along (tools_served registry_inv registry_resolve) [] (es1 @ (CallHandler r ctx args, a) # es2)"
    and "drive env (execute_intent cfg rq intent it sm duplicate) [] = (out, es1 @ (CallHandler r ctx args, a) # es2)"
  shows "ti_name (rt_identity r) = tin_tool_name intent \<and> ts_name (rt_spec r) = tin_tool_name intent \<and>
     rt_registration_scope r \<in> set (registration_candidates (rq_scope rq))"
  using in_memory_tools.called_tool [OF assms] by blast

theorem called_tool_registered_witness:
  "\<exists>out es1 ctx args a es2.
     drive demo_env (execute_intent demo_config demo_request (demo_intent ''look'' None) 1 0 False) [] =
       (out, es1 @ (CallHandler read_tool ctx args, a) # es2) \<and>
     rt_registration_scope read_tool \<in> set (registration_candidates (rq_scope demo_request))"
proof -
  obtain out es1 ctx args a es2 where call:
    "drive demo_env (execute_intent demo_config demo_request (demo_intent ''look'' None) 1 0 False) [] =
       (out, es1 @ (CallHandler read_tool ctx args, a) # es2)" by (rule demo_handler_call)
  from called_tool_registered [OF demo_env_typed demo_served(1) [OF call] call] call show ?thesis by blast
qed

text \<open>
  C5. With the shipped in-memory authority, in whatever reachable state it is and whatever the time is at each question, before a
  tool is called the authority was asked for the grant of the run, and the called tool is named and its capabilities are
  covered by the grant it resolved then and by every grant that one was delegated from in the state of that moment.
\<close>

theorem called_within_every_grant:
  assumes "well_typed env" and "\<forall>h. authority_reachable (state h)"
    and "along (grants_served state clock authority_resolve) [] (es1 @ (CallHandler r ctx args, a) # es2)"
    and "drive env (execute_intent cfg rq intent it sm duplicate) [] = (out, es1 @ (CallHandler r ctx args, a) # es2)"
  shows "\<exists>h1 grant h2. es1 = h1 @ (ResolveGrant (rq_grant_id rq), AGrant (Inr (Some grant))) # h2 \<and>
     authority_resolve (state h1) (rq_grant_id rq) (clock h1) = Some grant \<and>
     (\<forall>p. ancestor_grant (state h1) (rq_grant_id rq) p \<or> p = grant \<longrightarrow>
        rt_identity r \<in> cg_tool_identities p \<and> ts_required_capabilities (rt_spec r) \<subseteq> cg_capabilities p)"
  using assms authority_reachable_inv by (intro in_memory_grants.called_within_grants) auto

theorem called_within_every_grant_witness:
  "\<exists>out es1 ctx args a es2 h1 grant h2.
     drive demo_env (execute_intent demo_config demo_request (demo_intent ''look'' None) 1 0 False) [] =
       (out, es1 @ (CallHandler read_tool ctx args, a) # es2) \<and>
     es1 = h1 @ (ResolveGrant ''grant-c'', AGrant (Inr (Some grant))) # h2 \<and>
     authority_resolve demo_authority ''grant-c'' 5 = Some grant \<and>
     rt_identity read_tool \<in> cg_tool_identities grant"
proof -
  obtain out es1 ctx args a es2 where call:
    "drive demo_env (execute_intent demo_config demo_request (demo_intent ''look'' None) 1 0 False) [] =
       (out, es1 @ (CallHandler read_tool ctx args, a) # es2)" by (rule demo_handler_call)
  have "\<forall>h :: unit exchange list. authority_reachable demo_authority" using demo_authority_reachable by simp
  from called_within_every_grant [OF demo_env_typed this demo_served(2) [OF call] call, unfolded demo_request_sel]
  obtain h1 grant h2 where found: "es1 = h1 @ (ResolveGrant ''grant-c'', AGrant (Inr (Some grant))) # h2"
    "authority_resolve demo_authority ''grant-c'' 5 = Some grant"
    and within: "\<And>p. p = grant \<Longrightarrow> rt_identity read_tool \<in> cg_tool_identities p" by blast
  show ?thesis by (intro exI conjI) (rule call found within refl)+
qed

text \<open>
  C6. Every call that returns an observation, on a clock that does not run backwards, leaves exactly one trail in the journal: intent
  and refusal; intent, start and refusal by the handler; or intent, start and finish. Every event carries the ids of the
  call, the run and the scope and the same tool identity, the intent the digest of the arguments, the start the effects
  of the tool and the approver, and the last one the status of the observation and the code of its failure. The observation carries
  the ids of the call, has a failure unless the call succeeded, and ends no earlier than it started.
\<close>

theorem call_audited:
  assumes "well_typed env" and "along clock_rely [] es"
    and "drive env (execute_intent cfg rq intent it sm duplicate) [] = (Inr ob, es)"
  shows "call_settled cfg rq intent ob es"
  using guarantee_drive [OF execute_intent_trail assms(1), of cfg rq intent it sm duplicate "Inr ob" es] assms(2,3)
  by simp

theorem call_audited_witness:
  "\<exists>ob es. drive demo_env (execute_intent demo_config demo_request (demo_intent ''look'' None) 1 0 False) [] = (Inr ob, es) \<and>
     call_settled demo_config demo_request (demo_intent ''look'' None) ob es"
proof -
  obtain ob es where run:
    "drive demo_env (execute_intent demo_config demo_request (demo_intent ''look'' None) 1 0 False) [] = (Inr ob, es)"
    using demo_call_returns by (metis prod.collapse sum.collapse(2))
  from call_audited [OF demo_env_typed demo_served(3) [OF run] run] run show ?thesis by blast
qed

section \<open>Runs\<close>

text \<open>
  C7. Over a whole run the calls that are executed, those inherited by a resumed run included,
  never exceed the tool budget, and a call is flagged as a duplicate exactly when its id was used
  by an inherited call, in an earlier batch, or earlier in its batch.
\<close>

theorem run_calls_accounted:
  assumes "well_typed env" and "along slots_rely [] (es1 @ (ExecuteBatch calls it, a) # es2)" and "request_in_range rq"
    and "drive env (run_loop cfg strat rq (initial_state t m)) [] = (out, es1 @ (ExecuteBatch calls it, a) # es2)"
  shows "in_calls (inherited_of rq) + int (length (issued es1) + length calls) \<le> eb_max_tool_calls (rq_budget rq) \<and>
     (\<forall>i < length calls. snd (calls ! i) \<longleftrightarrow> tin_call_id (fst (calls ! i)) \<in>
        in_ids (inherited_of rq) \<union> ids_of (issued es1) \<union> ids_of (take i calls))"
  using run_loop_asked [OF assms] by (rule accounted_batch)

theorem run_calls_accounted_witness:
  "\<exists>out es1 a es2.
     drive demo_env (run_loop demo_config \<lparr>es_prompt = False, es_reflection = False\<rparr> demo_request (initial_state 5 0)) [] =
       (out, es1 @ (ExecuteBatch [(demo_intent ''look'' None, False)] 1, a) # es2) \<and>
     int (length (issued es1) + 1) \<le> 1"
proof -
  obtain r es where run: "drive demo_env demo_run [] = (Inr r, es)"
    and asked: "(ExecuteBatch [(demo_intent ''look'' None, False)] 1, AObservations (Inr [])) \<in> set es"
    using demo_run_events by blast
  obtain es1 es2 where es: "es = es1 @ (ExecuteBatch [(demo_intent ''look'' None, False)] 1, AObservations (Inr [])) # es2"
    using split_list [OF asked] by blast
  from run_calls_accounted [OF demo_env_typed _ demo_request_in_range, unfolded demo_request_sel]
    demo_served(4) [OF run] run es
  show ?thesis by (fastforce simp: demo_run_def inherited_of_def demo_request_sel)
qed

text \<open>
  C8. The result of a run stays within its budgets: iterations and tool calls used, inherited ones
  included, are at most the request's limits, and no more calls were executed than it reports.
\<close>

theorem run_result_within_budget:
  assumes "well_typed env" and "along slots_rely [] es" and "request_in_range rq"
    and "drive env (run_loop cfg strat rq (initial_state t m)) [] = (Inr result, es)"
  shows "rres_tool_calls_used result \<le> eb_max_tool_calls (rq_budget rq) \<and>
     rres_iterations_used result \<le> eb_max_iterations (rq_budget rq) \<and>
     int (length (issued es)) \<le> rres_tool_calls_used result"
  using guarantee_drive [OF run_loop_accounted [OF assms(3)] assms(1), of cfg strat t m "Inr result" es] assms(2,4)
  by (simp add: budget_respected_def)

theorem run_result_within_budget_witness:
  "\<exists>result es.
     drive demo_env (run_loop demo_config \<lparr>es_prompt = False, es_reflection = False\<rparr> demo_request (initial_state 5 0)) [] =
       (Inr result, es) \<and> rres_tool_calls_used result \<le> 1"
proof -
  obtain r es where run: "drive demo_env demo_run [] = (Inr r, es)" using demo_run_events by blast
  from run_result_within_budget [OF demo_env_typed demo_served(4) [OF run] demo_request_in_range run [unfolded demo_run_def]] run
  show ?thesis by (auto simp: demo_run_def demo_request_sel)
qed

text \<open>
  C9. A published checkpoint is the resume state of this run, next to the input and the conversation exactly as the request gave
  them, and within the size limit; the whole serialised resume state, at any depth, holds no credential, and
  every observation in it succeeded. Times are written without objects.
\<close>

theorem checkpoint_without_credentials:
  assumes "well_typed env" and "along slots_rely [] (es1 @ (Publish ''checkpoint'' txt data, a) # es2)"
    and "request_in_range rq"
    and "drive env (run_loop cfg strat rq (initial_state t m)) [] = (out, es1 @ (Publish ''checkpoint'' txt data, a) # es2)"
    and "\<forall>t. \<not> contains_run_credentials (rc_time cfg t)"
  shows "\<exists>r. data = JObj [(''resume_state'', dump_resume (rc_time cfg) r), (''input'', rq_input rq),
       (''conversation'', dump_conversation (rc_time cfg) (rq_conversation rq))] \<and>
     rr_source_run_id r = rq_run_id rq \<and> int (length (dumps data)) \<le> checkpoint_limit (rc_policy cfg) \<and>
     \<not> contains_run_credentials (dump_resume (rc_time cfg) r) \<and>
     (\<forall>ob \<in> set (rr_observations r). to_status ob = CALL_SUCCEEDED)"
  using run_loop_asked [OF assms(1-4)] clean_dump_resume [OF assms(5)]
  by (auto simp: accounted_def clean_checkpoint_def clean_observation_def)

theorem checkpoint_without_credentials_witness:
  "\<exists>r. demo_checkpoint = JObj [(''resume_state'', dump_resume (rc_time demo_config) r), (''input'', rq_input demo_request),
       (''conversation'', dump_conversation (rc_time demo_config) (rq_conversation demo_request))] \<and>
     \<not> contains_run_credentials (dump_resume (rc_time demo_config) r)"
proof -
  obtain r es where run: "drive demo_env demo_run [] = (Inr r, es)"
    and asked: "(Publish ''checkpoint'' [] demo_checkpoint, AUnit (Inr ())) \<in> set es" using demo_run_events by blast
  obtain es1 es2 where es: "es = es1 @ (Publish ''checkpoint'' [] demo_checkpoint, AUnit (Inr ())) # es2"
    using split_list [OF asked] by blast
  have times: "\<forall>t. \<not> contains_run_credentials (rc_time demo_config t)" by (simp add: demo_config_sel)
  from checkpoint_without_credentials [OF demo_env_typed _ demo_request_in_range _ times, of _ "[]" _ _ _
      "\<lparr>es_prompt = False, es_reflection = False\<rparr>" 5 0] demo_served(4) [OF run] run es
  show ?thesis unfolding demo_run_def by blast
qed

section \<open>Batches\<close>





end
